(* ===== verification/Prelude.thy ===== *)
theory Prelude
  imports Complex_Main "HOL-Library.Word"
begin

text \<open>
  Shared vocabulary of the development: the types every component uses (identifiers, points in
  time, results), the result monad with its loops, the saturating arithmetic and the string
  helpers of the Rust standard library that the code calls, and the keyed tables that stand for
  the relational tables of the storage adapters.

  Conventions used throughout:
  \<^item> a UUID is the natural number \<open>Uuid::as_u128\<close> returns. Its order is the order of the
    canonical lower-case text, which is how both SQL backends sort the column;
  \<^item> \<open>DateTime\<close> and \<open>Instant\<close> values are integers on one time line (milliseconds), and a
    \<open>Duration\<close> is a natural number of milliseconds unless a definition says otherwise. Reading
    the clock is an argument of the operation;
  \<^item> a finite \<open>f64\<close> is an exact rational: the code only compares such values and takes their
    maximum, which agree on rationals, except where a definition says otherwise;
  \<^item> \<open>Result<T, E>\<close> is the sum \<open>'e + 't\<close>, with \<open>Inl\<close> for the error;
  \<^item> strings are ASCII character lists.
\<close>

named_theorems tbl_simps "lookup laws of keyed tables"
named_theorems result_simps "unfolding of the result monad"

type_synonym uuid = nat
type_synonym time = int
type_synonym duration = nat

section \<open>Results\<close>

definition rbind :: "'e + 'a \<Rightarrow> ('a \<Rightarrow> 'e + 'b) \<Rightarrow> 'e + 'b" where
  "rbind m k = (case m of Inl e \<Rightarrow> Inl e | Inr x \<Rightarrow> k x)"

definition rguard :: "bool \<Rightarrow> 'e \<Rightarrow> 'e + unit" where
  "rguard ok e = (if ok then Inr () else Inl e)"

definition ok_or :: "'e \<Rightarrow> 'a option \<Rightarrow> 'e + 'a" where
  "ok_or e x = (case x of None \<Rightarrow> Inl e | Some v \<Rightarrow> Inr v)"

text \<open>A \<open>for\<close> loop whose body may fail with \<open>?\<close>: the first error ends the loop.\<close>

fun rfold :: "('x \<Rightarrow> 's \<Rightarrow> 'e + 's) \<Rightarrow> 'x list \<Rightarrow> 's \<Rightarrow> 'e + 's" where
  "rfold f [] s = Inr s"
| "rfold f (x # xs) s = (case f x s of Inl e \<Rightarrow> Inl e | Inr s' \<Rightarrow> rfold f xs s')"

lemma rbind_simps [simp, result_simps]:
  "rbind (Inl e) k = Inl e"
  "rbind (Inr x) k = k x"
  by (simp_all add: rbind_def)

lemma rbind_Inr_iff: "rbind m k = Inr y \<longleftrightarrow> (\<exists>x. m = Inr x \<and> k x = Inr y)"
  by (cases m) auto

lemma rguard_simps [simp, result_simps]:
  "rguard True e = Inr ()"
  "rguard False e = Inl e"
  "rguard b e = Inr u \<longleftrightarrow> b"
  by (simp_all add: rguard_def)

lemma ok_or_simps [simp, result_simps]:
  "ok_or e None = Inl e"
  "ok_or e (Some v) = Inr v"
  by (simp_all add: ok_or_def)

lemma ok_or_Inr_iff [simp]: "ok_or e x = Inr v \<longleftrightarrow> x = Some v"
  by (cases x) auto

lemma rfold_append:
  "rfold f (xs @ ys) s = rbind (rfold f xs s) (rfold f ys)"
  by (induction xs arbitrary: s) (auto split: sum.splits)

text \<open>
  Total correctness of a loop: when the body succeeds in every state that satisfies the
  invariant indexed by the part of the list already processed, the whole loop succeeds.
\<close>

lemma rfold_invariant:
  assumes "I [] s"
    and "\<And>ps x qs s. xs = ps @ x # qs \<Longrightarrow> I ps s \<Longrightarrow> \<exists>s'. f x s = Inr s' \<and> I (ps @ [x]) s'"
  shows "\<exists>s'. rfold f xs s = Inr s' \<and> I xs s'"
proof -
  have "\<exists>s'. rfold f qs t = Inr s' \<and> I xs s'" if "xs = ps @ qs" "I ps t" for ps qs t
    using that
  proof (induction qs arbitrary: ps t)
    case Nil
    then show ?case by simp
  next
    case (Cons q qs)
    from assms(2) [OF Cons.prems] obtain t' where t': "f q t = Inr t'" "I (ps @ [q]) t'"
      by blast
    from Cons.IH [of "ps @ [q]" t'] Cons.prems t' show ?case by simp
  qed
  from this [of "[]" xs s] assms(1) show ?thesis by simp
qed

lemma filter_mem_self: "filter (\<lambda>x. x \<in> set (filter P xs)) xs = filter P xs"
  by (rule filter_cong) auto

text \<open>
  Operations on a state that survives their failure (what was written before an early return
  stays written): the state is returned beside the result.
\<close>

type_synonym ('s, 'e, 'a) op = "'s \<Rightarrow> ('e + 'a) \<times> 's"

definition op_return :: "'a \<Rightarrow> ('s, 'e, 'a) op" where
  "op_return x s = (Inr x, s)"

definition op_fail :: "'e \<Rightarrow> ('s, 'e, 'a) op" where
  "op_fail e s = (Inl e, s)"

definition op_bind :: "('s, 'e, 'a) op \<Rightarrow> ('a \<Rightarrow> ('s, 'e, 'b) op) \<Rightarrow> ('s, 'e, 'b) op" where
  "op_bind m k s = (case m s of (Inl e, s') \<Rightarrow> (Inl e, s') | (Inr x, s') \<Rightarrow> k x s')"

lemma op_simps [simp, result_simps]:
  "op_return x s = (Inr x, s)"
  "op_fail e s = (Inl e, s)"
  by (simp_all add: op_return_def op_fail_def)

section \<open>Saturating arithmetic and clamping\<close>

definition sat_mul :: "nat \<Rightarrow> nat \<Rightarrow> nat \<Rightarrow> nat" where
  "sat_mul bound a b = min (a * b) bound"

definition u32_max :: nat where "u32_max = 2 ^ 32 - 1"
definition u64_max :: nat where "u64_max = 2 ^ 64 - 1"

definition clamp_nat :: "nat \<Rightarrow> nat \<Rightarrow> nat \<Rightarrow> nat" where
  "clamp_nat lo hi x = max lo (min hi x)"

text \<open>\<open>saturating_duration_since\<close>: zero when the argument is in the future.\<close>

definition since :: "time \<Rightarrow> time \<Rightarrow> duration" where
  "since now t = nat (now - t)"

lemma since_self [simp]: "since t t = 0"
  by (simp add: since_def)

lemma since_le_iff: "since now t \<le> d \<longleftrightarrow> now \<le> t + int d"
  by (auto simp: since_def)

section \<open>ASCII strings\<close>

definition is_ws :: "char \<Rightarrow> bool" where
  "is_ws c \<longleftrightarrow> (let n = of_char c :: nat in n = 32 \<or> (9 \<le> n \<and> n \<le> 13))"

definition trim_start :: "string \<Rightarrow> string" where
  "trim_start s = dropWhile is_ws s"

definition trim_end :: "string \<Rightarrow> string" where
  "trim_end s = rev (dropWhile is_ws (rev s))"

definition trim :: "string \<Rightarrow> string" where
  "trim s = trim_end (trim_start s)"

lemma trim_id: "s \<noteq> [] \<Longrightarrow> \<not> is_ws (hd s) \<Longrightarrow> \<not> is_ws (last s) \<Longrightarrow> trim s = s"
proof -
  assume s: "s \<noteq> []" "\<not> is_ws (hd s)" "\<not> is_ws (last s)"
  then have "dropWhile is_ws s = s" by (cases s) simp_all
  moreover have "dropWhile is_ws (rev s) = rev s"
    using s(1,3) by (cases s rule: rev_cases) simp_all
  ultimately show "trim s = s" by (simp add: trim_def trim_start_def trim_end_def)
qed

definition trim_end_dots :: "string \<Rightarrow> string" where
  "trim_end_dots s = rev (dropWhile (\<lambda>c. c = CHR ''.'') (rev s))"

definition lower_char :: "char \<Rightarrow> char" where
  "lower_char c =
     (let n = of_char c :: nat in if 65 \<le> n \<and> n \<le> 90 then char_of (n + 32) else c)"

definition to_ascii_lowercase :: "string \<Rightarrow> string" where
  "to_ascii_lowercase s = map lower_char s"

text \<open>
  The expression \<open>host.trim().trim_end_matches('.').to_ascii_lowercase()\<close>, which the connector
  SDK and the collector use for every host name they compare.
\<close>

definition norm_host :: "string \<Rightarrow> string" where
  "norm_host h = to_ascii_lowercase (trim_end_dots (trim h))"

definition starts_with :: "string \<Rightarrow> string \<Rightarrow> bool" where
  "starts_with p s \<longleftrightarrow> take (length p) s = p"

definition ends_with :: "string \<Rightarrow> string \<Rightarrow> bool" where
  "ends_with p s \<longleftrightarrow> starts_with (rev p) (rev s)"

lemma ends_with_iff: "ends_with p s \<longleftrightarrow> (\<exists>t. s = t @ p)"
proof
  assume "ends_with p s"
  then have "take (length p) (rev s) = rev p"
    by (simp add: ends_with_def starts_with_def)
  then have "rev s = rev p @ drop (length p) (rev s)"
    by (metis append_take_drop_id)
  then have "s = rev (drop (length p) (rev s)) @ p"
    by (metis rev_append rev_rev_ident)
  then show "\<exists>t. s = t @ p" ..
next
  assume "\<exists>t. s = t @ p"
  then show "ends_with p s"
    by (auto simp: ends_with_def starts_with_def)
qed

end
