(* ===== verification/Tables.thy ===== *)
theory Tables
  imports Prelude
begin

text \<open>
  Keyed tables: the relational tables of the storage adapters, one row per primary key. A table
  is an association list kept in ascending key order, as the primary-key index of the backend
  is, so that \<open>ORDER BY id\<close> reads it from one end and two tables with the same rows are the same
  list. The laws the store's operations rely on are the locale \<open>keyed_table\<close>, interpreted here
  on these definitions.
\<close>

type_synonym 'r tbl = "(uuid \<times> 'r) list"

definition tbl_get :: "'r tbl \<Rightarrow> uuid \<Rightarrow> 'r option" where
  "tbl_get t k = map_of t k"

fun tbl_put :: "uuid \<Rightarrow> 'r \<Rightarrow> 'r tbl \<Rightarrow> 'r tbl" where
  "tbl_put k r [] = [(k, r)]"
| "tbl_put k r ((k', r') # t) =
     (if k < k' then (k, r) # (k', r') # t
      else if k = k' then (k, r) # t
      else (k', r') # tbl_put k r t)"

text \<open>\<open>DELETE ... WHERE\<close>: drops every row that satisfies the predicate.\<close>

definition tbl_delete_where :: "('r \<Rightarrow> bool) \<Rightarrow> 'r tbl \<Rightarrow> 'r tbl" where
  "tbl_delete_where P t = filter (\<lambda>(k, r). \<not> P r) t"

definition tbl_del :: "uuid \<Rightarrow> 'r tbl \<Rightarrow> 'r tbl" where
  "tbl_del k t = filter (\<lambda>(k', r). k' \<noteq> k) t"

text \<open>\<open>SELECT ... WHERE ... ORDER BY id ASC\<close>.\<close>

definition tbl_select :: "('r \<Rightarrow> bool) \<Rightarrow> 'r tbl \<Rightarrow> 'r list" where
  "tbl_select P t = filter P (map snd t)"

definition tbl_ok :: "'r tbl \<Rightarrow> bool" where
  "tbl_ok t \<longleftrightarrow> sorted_wrt (<) (map fst t)"

section \<open>The contract of a keyed table\<close>

locale keyed_table =
  fixes get :: "'t \<Rightarrow> uuid \<Rightarrow> 'r option"
    and put :: "uuid \<Rightarrow> 'r \<Rightarrow> 't \<Rightarrow> 't"
    and del :: "uuid \<Rightarrow> 't \<Rightarrow> 't"
    and ok :: "'t \<Rightarrow> bool"
  assumes get_put: "get (put k r t) = (get t)(k \<mapsto> r)"
    and get_del: "get (del k t) = (get t)(k := None)"
    and ok_put: "ok t \<Longrightarrow> ok (put k r t)"
    and ok_del: "ok t \<Longrightarrow> ok (del k t)"
    and ext: "ok t \<Longrightarrow> ok t' \<Longrightarrow> get t = get t' \<Longrightarrow> t = t'"
begin

lemma put_same: "ok t \<Longrightarrow> get t k = Some r \<Longrightarrow> put k r t = t"
  by (rule ext) (auto simp: get_put ok_put)

lemma put_put: "ok t \<Longrightarrow> put k r (put k r' t) = put k r t"
  by (rule ext) (auto simp: get_put ok_put)

lemma put_commute: "ok t \<Longrightarrow> k \<noteq> k' \<Longrightarrow> put k r (put k' r' t) = put k' r' (put k r t)"
  by (rule ext) (auto simp: get_put ok_put fun_upd_twist)

lemma put_after_del: "ok t \<Longrightarrow> get t k = Some r \<Longrightarrow> put k r (del k t) = t"
  by (rule ext) (auto simp: get_put get_del ok_put ok_del)

lemma del_fresh: "ok t \<Longrightarrow> get t k = None \<Longrightarrow> del k t = t"
  by (rule ext) (auto simp: get_del ok_del)

lemma del_put_fresh: "ok t \<Longrightarrow> get t k = None \<Longrightarrow> del k (put k r t) = t"
  by (rule ext) (auto simp: get_put get_del ok_put ok_del)

lemmas table_laws = get_put get_del ok_put ok_del

end

section \<open>The sorted association list keeps it\<close>

lemma tbl_get_Nil [simp]: "tbl_get [] k = None"
  by (simp add: tbl_get_def)

lemma tbl_get_put: "tbl_get (tbl_put k r t) = (tbl_get t)(k \<mapsto> r)"
  by (induction k r t rule: tbl_put.induct) (auto simp: tbl_get_def fun_eq_iff)

lemma set_fst_tbl_put: "fst ` set (tbl_put k r t) = insert k (fst ` set t)"
  by (induction k r t rule: tbl_put.induct) auto

lemma tbl_ok_put: "tbl_ok t \<Longrightarrow> tbl_ok (tbl_put k r t)"
proof (induction k r t rule: tbl_put.induct)
  case (2 k r k' r' t)
  have "x \<in> insert k (fst ` set t)" if "x \<in> fst ` set (tbl_put k r t)" for x
    using that by (simp add: set_fst_tbl_put)
  with 2 show ?case
    by (fastforce simp: tbl_ok_def)
qed (simp add: tbl_ok_def)

lemma sorted_wrt_map_filter:
  "sorted_wrt (<) (map f xs) \<Longrightarrow> sorted_wrt (<) (map f (filter P xs))"
  for f :: "'x \<Rightarrow> nat"
  by (induction xs) auto

lemma tbl_ok_del: "tbl_ok t \<Longrightarrow> tbl_ok (tbl_del k t)"
  by (simp add: tbl_ok_def tbl_del_def sorted_wrt_map_filter)

lemma tbl_ok_delete_where: "tbl_ok t \<Longrightarrow> tbl_ok (tbl_delete_where P t)"
  by (simp add: tbl_ok_def tbl_delete_where_def sorted_wrt_map_filter)

lemma tbl_get_del: "tbl_get (tbl_del k t) = (tbl_get t)(k := None)"
  by (induction t) (auto simp: tbl_get_def tbl_del_def fun_eq_iff)

lemma tbl_get_filter_keys:
  "tbl_get (filter (\<lambda>(k, r). k \<notin> K) t) i = (if i \<in> K then None else tbl_get t i)"
  by (induction t) (auto simp: tbl_get_def)

lemma tbl_ok_Cons: "tbl_ok ((k, r) # t) \<longleftrightarrow> (\<forall>x \<in> set t. k < fst x) \<and> tbl_ok t"
  by (auto simp: tbl_ok_def)

lemma tbl_get_Cons: "tbl_get ((k, r) # t) x = (if x = k then Some r else tbl_get t x)"
  by (simp add: tbl_get_def)

lemma tbl_get_None_below: "\<forall>x \<in> set t. k < fst x \<Longrightarrow> tbl_get t k = None"
  by (auto simp: tbl_get_def map_of_eq_None_iff)

lemma tbl_get_set: "tbl_get t k = Some r \<Longrightarrow> (k, r) \<in> set t"
  by (simp add: tbl_get_def map_of_SomeD)

lemma tbl_ok_distinct: "tbl_ok t \<Longrightarrow> distinct (map fst t)"
  by (auto simp: tbl_ok_def strict_sorted_iff)

lemma tbl_get_iff: "tbl_ok t \<Longrightarrow> tbl_get t k = Some r \<longleftrightarrow> (k, r) \<in> set t"
  by (auto simp: tbl_get_def dest: tbl_ok_distinct)

lemma tbl_ext:
  assumes "tbl_ok t" "tbl_ok t'" "tbl_get t = tbl_get t'"
  shows "t = t'"
proof -
  have eq: "set t = set t'"
    using assms by (auto simp flip: tbl_get_iff)
  have "sorted (map fst t)" "distinct (map fst t)" "sorted (map fst t')" "distinct (map fst t')"
    using assms(1,2) by (simp_all add: tbl_ok_def strict_sorted_iff)
  moreover from this eq have "inj_on fst (set t \<union> set t')"
    by (simp add: distinct_map)
  ultimately show ?thesis
    using eq by (blast intro: map_sorted_distinct_set_unique)
qed

lemma tbl_get_delete_where:
  assumes "tbl_ok t"
  shows "tbl_get (tbl_delete_where P t) k =
    (case tbl_get t k of None \<Rightarrow> None | Some r \<Rightarrow> if P r then None else Some r)"
proof -
  have "tbl_get (tbl_delete_where P t) k = Some r \<longleftrightarrow> tbl_get t k = Some r \<and> \<not> P r" for r
    using assms by (simp add: tbl_get_iff tbl_ok_delete_where) (auto simp: tbl_delete_where_def)
  note this [of "the (tbl_get t k)"] this [of "the (tbl_get (tbl_delete_where P t) k)"]
  then show ?thesis
    by (cases "tbl_get t k"; cases "tbl_get (tbl_delete_where P t) k") simp_all
qed

interpretation tbl: keyed_table tbl_get tbl_put tbl_del tbl_ok
  by unfold_locales (simp_all add: tbl_get_put tbl_get_del tbl_ok_put tbl_ok_del tbl_ext)

lemmas [simp, tbl_simps] = tbl_get_put tbl_get_del tbl_ok_put tbl_ok_del tbl_ok_delete_where

section \<open>Selections\<close>

lemma set_tbl_select:
  "tbl_ok t \<Longrightarrow> set (tbl_select P t) = {r. P r \<and> (\<exists>k. tbl_get t k = Some r)}"
  by (force simp: tbl_select_def tbl_get_iff)

lemma tbl_select_empty_iff:
  "tbl_ok t \<Longrightarrow> tbl_select P t = [] \<longleftrightarrow> (\<forall>k r. tbl_get t k = Some r \<longrightarrow> \<not> P r)"
  by (simp only: set_empty [symmetric] set_tbl_select) blast

lemma sorted_tbl_select_key:
  assumes "tbl_ok t" and "\<And>k r. tbl_get t k = Some r \<Longrightarrow> key r = k"
  shows "sorted_wrt (<) (map key (tbl_select P t))"
proof -
  have "map key (map snd t) = map fst t"
    using assms by (auto simp: tbl_get_iff)
  then have "sorted_wrt (<) (map key (map snd t))"
    using assms(1) by (simp only: tbl_ok_def)
  then show ?thesis
    by (simp only: tbl_select_def sorted_wrt_map_filter)
qed

lemma distinct_tbl_select_key:
  assumes "tbl_ok t" and "\<And>k r. tbl_get t k = Some r \<Longrightarrow> key r = k"
  shows "distinct (map key (tbl_select P t))"
  using sorted_tbl_select_key [OF assms] by (simp add: strict_sorted_iff)

section \<open>Row-wise changes\<close>

text \<open>
  A change that looks at one row at a time: \<open>None\<close> deletes the row, \<open>Some\<close> rewrites it. An upsert
  of a row that is already there, a deletion by key and a deletion by predicate are of this kind,
  so a sequence of them is again one row-wise change.
\<close>

definition tbl_rows :: "('r \<Rightarrow> 'r option) \<Rightarrow> 'r tbl \<Rightarrow> 'r tbl" where
  "tbl_rows F t = List.map_filter (\<lambda>(k, r). map_option (Pair k) (F r)) t"

definition tbl_keyed :: "('r \<Rightarrow> uuid) \<Rightarrow> 'r tbl \<Rightarrow> bool" where
  "tbl_keyed key t \<longleftrightarrow> tbl_ok t \<and> (\<forall>(k, r) \<in> set t. key r = k)"

definition tbl_unique :: "('r \<Rightarrow> 'u) \<Rightarrow> 'r tbl \<Rightarrow> bool" where
  "tbl_unique f t \<longleftrightarrow> (\<forall>(k, r) \<in> set t. \<forall>(k', r') \<in> set t. f r = f r' \<longrightarrow> k = k')"

lemma tbl_rows_Nil [simp]: "tbl_rows F [] = []"
  by (simp add: tbl_rows_def)

lemma tbl_rows_Cons [simp]:
  "tbl_rows F ((k, r) # t) = (case F r of None \<Rightarrow> tbl_rows F t | Some r' \<Rightarrow> (k, r') # tbl_rows F t)"
  by (simp add: tbl_rows_def split: option.splits)

lemma tbl_rows_Some [simp]: "tbl_rows Some t = t"
  by (induction t) auto

lemma tbl_rows_rows: "tbl_rows G (tbl_rows F t) = tbl_rows (\<lambda>r. Option.bind (F r) G) t"
  by (induction t) (auto split: option.splits)

lemma tbl_rows_cong: "(\<And>k r. (k, r) \<in> set t \<Longrightarrow> F r = G r) \<Longrightarrow> tbl_rows F t = tbl_rows G t"
proof (induction t)
  case (Cons kr t)
  obtain k r where kr: "kr = (k, r)" by fastforce
  have "F r = G r" "tbl_rows F t = tbl_rows G t"
    using Cons kr by auto
  then show ?case by (simp add: kr split: option.splits)
qed simp

lemma fst_set_tbl_rows: "x \<in> set (tbl_rows F t) \<Longrightarrow> fst x \<in> fst ` set t"
  by (induction t) (auto split: option.splits)

lemma tbl_ok_rows [simp, tbl_simps]: "tbl_ok t \<Longrightarrow> tbl_ok (tbl_rows F t)"
proof (induction t)
  case (Cons kr t)
  obtain k r where kr: "kr = (k, r)" by fastforce
  have "k < fst x" if "x \<in> set (tbl_rows F t)" for x
    using fst_set_tbl_rows [OF that] Cons.prems by (auto simp: kr tbl_ok_Cons)
  with Cons show ?case by (auto simp: kr tbl_ok_Cons split: option.splits)
qed simp

lemma tbl_get_rows: "tbl_ok t \<Longrightarrow> tbl_get (tbl_rows F t) k = Option.bind (tbl_get t k) F"
proof (induction t)
  case (Cons kr t)
  obtain k' r where kr: "kr = (k', r)" by fastforce
  from Cons.prems have "tbl_get t k' = None"
    by (intro tbl_get_None_below) (simp add: kr tbl_ok_Cons)
  with Cons show ?case by (auto simp: kr tbl_ok_Cons tbl_get_Cons split: option.splits)
qed simp

lemma tbl_keyedD:
  "tbl_keyed key t \<Longrightarrow> tbl_ok t"
  "tbl_keyed key t \<Longrightarrow> tbl_get t k = Some r \<Longrightarrow> key r = k"
  "tbl_keyed key t \<Longrightarrow> (k, r) \<in> set t \<Longrightarrow> key r = k"
  by (auto simp: tbl_keyed_def dest: tbl_get_set)

lemma tbl_keyedI: "tbl_ok t \<Longrightarrow> (\<And>k r. tbl_get t k = Some r \<Longrightarrow> key r = k) \<Longrightarrow> tbl_keyed key t"
  by (auto simp: tbl_keyed_def tbl_get_iff)

lemma tbl_keyed_put: "tbl_keyed key t \<Longrightarrow> tbl_keyed key (tbl_put (key r) r t)"
  by (rule tbl_keyedI) (auto dest: tbl_keyedD split: if_splits)

lemma tbl_keyed_rows:
  assumes "tbl_keyed key t" "\<And>r r'. F r = Some r' \<Longrightarrow> key r' = key r"
  shows "tbl_keyed key (tbl_rows F t)"
  using assms by (intro tbl_keyedI) (auto simp: tbl_get_rows tbl_keyedD bind_eq_Some_conv)

lemma tbl_keyed_delete_where: "tbl_keyed key t \<Longrightarrow> tbl_keyed key (tbl_delete_where P t)"
  by (rule tbl_keyedI) (auto simp: tbl_get_delete_where tbl_keyedD split: option.splits if_splits)

lemma tbl_keyed_del: "tbl_keyed key t \<Longrightarrow> tbl_keyed key (tbl_del k t)"
  by (rule tbl_keyedI) (auto simp: tbl_keyedD split: if_splits)

lemma tbl_put_rows:
  assumes "tbl_keyed key t" "tbl_get t k = Some r0"
  shows "tbl_put k r t = tbl_rows (\<lambda>x. Some (if key x = k then r else x)) t"
  by (rule tbl_ext) (use assms in \<open>auto simp: tbl_get_rows tbl_keyedD fun_eq_iff
      split: option.splits bind_splits\<close>)

lemma tbl_del_rows:
  assumes "tbl_keyed key t"
  shows "tbl_del k t = tbl_rows (\<lambda>x. if key x = k then None else Some x) t"
  by (rule tbl_ext) (use assms in \<open>auto simp: tbl_get_rows tbl_keyedD fun_eq_iff
      split: bind_splits\<close>)

lemma tbl_delete_where_rows:
  assumes "tbl_ok t"
  shows "tbl_delete_where P t = tbl_rows (\<lambda>x. if P x then None else Some x) t"
  by (rule tbl_ext) (use assms in \<open>auto simp: tbl_get_rows tbl_get_delete_where fun_eq_iff
      split: option.splits\<close>)

lemma tbl_uniqueD:
  "tbl_unique f t \<Longrightarrow> tbl_get t k = Some r \<Longrightarrow> tbl_get t k' = Some r' \<Longrightarrow> f r = f r' \<Longrightarrow> k = k'"
  by (fastforce simp: tbl_unique_def dest: tbl_get_set)

lemma tbl_uniqueI:
  "tbl_ok t \<Longrightarrow>
   (\<And>k r k' r'. tbl_get t k = Some r \<Longrightarrow> tbl_get t k' = Some r' \<Longrightarrow> f r = f r' \<Longrightarrow> k = k') \<Longrightarrow>
   tbl_unique f t"
  by (fastforce simp: tbl_unique_def tbl_get_iff)

text \<open>The check an upsert makes for a UNIQUE index, over the rows as the model writes it.\<close>

lemma tbl_conflict_iff:
  assumes "tbl_keyed key t"
  shows "(\<exists>r \<in> set (map snd t). key r \<noteq> key x \<and> f r = f x) \<longleftrightarrow>
    (\<exists>k r. tbl_get t k = Some r \<and> k \<noteq> key x \<and> f r = f x)"
  using assms by (force simp: tbl_get_iff tbl_keyedD)

lemma tbl_unique_put:
  assumes "tbl_keyed key t" "tbl_unique f t"
    and "\<not> (\<exists>r \<in> set (map snd t). key r \<noteq> key x \<and> f r = f x)"
  shows "tbl_unique f (tbl_put (key x) x t)"
proof (rule tbl_uniqueI)
  show "tbl_ok (tbl_put (key x) x t)" using assms(1) by (simp add: tbl_keyedD)
  fix k r k' r'
  assume "tbl_get (tbl_put (key x) x t) k = Some r" "tbl_get (tbl_put (key x) x t) k' = Some r'"
    "f r = f r'"
  with assms(2,3) tbl_conflict_iff [OF assms(1), of x f] show "k = k'"
    by (auto split: if_splits dest: tbl_uniqueD)
qed

lemma mem_tbl_select:
  "tbl_keyed key t \<Longrightarrow> r \<in> set (tbl_select P t) \<longleftrightarrow> tbl_get t (key r) = Some r \<and> P r"
  by (auto simp: set_tbl_select tbl_keyedD)

text \<open>Rewriting the rows with the given keys.\<close>

definition tbl_upd :: "('r \<Rightarrow> uuid) \<Rightarrow> uuid set \<Rightarrow> ('r \<Rightarrow> 'r) \<Rightarrow> 'r tbl \<Rightarrow> 'r tbl" where
  "tbl_upd key K f t = tbl_rows (\<lambda>x. Some (if key x \<in> K then f x else x)) t"

lemma tbl_upd_none [simp]: "tbl_upd key {} f t = t"
  by (simp add: tbl_upd_def)

lemma tbl_get_upd:
  assumes "tbl_keyed key t"
  shows "tbl_get (tbl_upd key K f t) k = map_option (\<lambda>r. if k \<in> K then f r else r) (tbl_get t k)"
  using assms by (auto simp: tbl_upd_def tbl_get_rows tbl_keyedD split: bind_splits)

lemma tbl_keyed_upd:
  "tbl_keyed key t \<Longrightarrow> (\<And>x. key (f x) = key x) \<Longrightarrow> tbl_keyed key (tbl_upd key K f t)"
  unfolding tbl_upd_def by (rule tbl_keyed_rows) auto

lemma tbl_put_upd:
  assumes "tbl_keyed key t" "tbl_get t k = Some r"
  shows "tbl_put k (f r) t = tbl_upd key {k} f t"
  by (rule tbl_ext) (use assms in \<open>auto simp: tbl_upd_def tbl_get_rows tbl_keyedD fun_eq_iff
      split: option.splits bind_splits\<close>)

lemma tbl_upd_insert:
  assumes "k \<notin> K" "\<And>x. key (f x) = key x"
  shows "tbl_upd key K f (tbl_upd key {k} f t) = tbl_upd key (insert k K) f t"
  unfolding tbl_upd_def tbl_rows_rows by (rule tbl_rows_cong) (use assms in auto)

text \<open>Rewriting back.\<close>

lemma tbl_upd_upd:
  assumes "tbl_keyed key t" "\<And>x. key (f x) = key x"
    and "\<And>k r. tbl_get t k = Some r \<Longrightarrow> k \<in> K \<Longrightarrow> g (f r) = h r"
  shows "tbl_upd key K g (tbl_upd key K f t) = tbl_upd key K h t"
  unfolding tbl_upd_def tbl_rows_rows
  by (rule tbl_rows_cong) (use assms in \<open>auto simp: tbl_keyedD tbl_get_iff\<close>)

lemma tbl_upd_id:
  assumes "tbl_keyed key t" "\<And>k r. tbl_get t k = Some r \<Longrightarrow> k \<in> K \<Longrightarrow> f r = r"
  shows "tbl_upd key K f t = t"
proof -
  have "tbl_upd key K f t = tbl_rows Some t"
    unfolding tbl_upd_def
    by (rule tbl_rows_cong) (use assms in \<open>auto simp: tbl_keyedD tbl_get_iff\<close>)
  then show ?thesis by simp
qed

lemma tbl_get_upd_select:
  assumes "tbl_keyed key t"
  shows "tbl_get (tbl_upd key (key ` set (tbl_select P t)) f t) i
    = map_option (\<lambda>r. if P r then f r else r) (tbl_get t i)"
proof (cases "tbl_get t i")
  case None
  then show ?thesis by (simp add: tbl_get_upd [OF assms])
next
  case (Some r)
  have "i \<in> key ` set (tbl_select P t) \<longleftrightarrow> P r"
  proof
    assume "i \<in> key ` set (tbl_select P t)"
    then obtain x where "x \<in> set (tbl_select P t)" "key x = i" by auto
    with Some show "P r" by (simp add: mem_tbl_select [OF assms])
  next
    assume "P r"
    moreover have "key r = i" using assms Some by (rule tbl_keyedD)
    ultimately show "i \<in> key ` set (tbl_select P t)"
      using Some by (intro image_eqI [of _ _ r]) (simp_all add: mem_tbl_select [OF assms])
  qed
  with Some show ?thesis by (simp add: tbl_get_upd [OF assms])
qed

lemma tbl_upd_back:
  assumes keyed: "tbl_keyed key t" and key: "\<And>x. key (f x) = key x"
    and inverse: "\<And>r. P r \<Longrightarrow> g (f r) = r"
  shows "tbl_upd key (key ` set (tbl_select P t)) g (tbl_upd key (key ` set (tbl_select P t)) f t) = t"
proof -
  let ?K = "key ` set (tbl_select P t)"
  have "P r" if "tbl_get t k = Some r" "k \<in> ?K" for k r
    using that by (auto simp: mem_tbl_select [OF keyed])
  then have "tbl_upd key ?K g (tbl_upd key ?K f t) = tbl_upd key ?K (\<lambda>r. r) t"
    by (intro tbl_upd_upd [OF keyed key]) (auto simp: inverse)
  also have "\<dots> = t" by (rule tbl_upd_id [OF keyed refl])
  finally show ?thesis .
qed

lemma in_keys_iff: "k \<in> fst ` set t \<longleftrightarrow> tbl_get t k \<noteq> None"
  by (metis map_of_eq_None_iff tbl_get_def)

end
