(* ===== verification/Model.thy ===== *)
theory Model
  imports Tables
begin

text \<open>
  The domain types of \<open>crates/core-model\<close> that the modelled components share. Each struct is a
  record with the source's fields in the source's order (a prefix keeps the field names of
  different structs apart); each enum is a datatype with the source's variants. \<open>i32\<close> counters
  keep their width, JSON values are an ordinary tree.
\<close>

section \<open>JSON\<close>

datatype json =
    JNull
  | JBool bool
  | JNumber rat
  | JString string
  | JArray "json list"
  | JObject "(string \<times> json) list"

fun as_object :: "json \<Rightarrow> (string \<times> json) list option" where
  "as_object (JObject kvs) = Some kvs"
| "as_object _ = None"

text \<open>
  \<open>serde_json::Map::extend\<close> on the key-sorted map: an entry with a known key replaces the old
  one, a new key is inserted in order. Keys are compared as byte strings.
\<close>

fun key_less :: "string \<Rightarrow> string \<Rightarrow> bool" where
  "key_less _ [] = False"
| "key_less [] (_ # _) = True"
| "key_less (a # as) (b # bs) =
     ((of_char a :: nat) < of_char b \<or> (a = b \<and> key_less as bs))"

fun object_insert :: "string \<Rightarrow> 'v \<Rightarrow> (string \<times> 'v) list \<Rightarrow> (string \<times> 'v) list" where
  "object_insert k v [] = [(k, v)]"
| "object_insert k v ((k', v') # kvs) =
     (if k = k' then (k, v) # kvs
      else if key_less k k' then (k, v) # (k', v') # kvs
      else (k', v') # object_insert k v kvs)"

definition object_extend ::
  "(string \<times> 'v) list \<Rightarrow> (string \<times> 'v) list \<Rightarrow> (string \<times> 'v) list" where
  "object_extend kvs patch = fold (\<lambda>(k, v). object_insert k v) patch kvs"

section \<open>Sources and connectors\<close>

datatype source_type =
    SourceRss | SourceAtom | SourceStaticWeb | SourceRestApi | SourceManualUpload
  | SourceJsonImport | SourceCsvImport | SourceStixImport

record source =
  so_id :: uuid
  so_name :: string
  so_type :: source_type
  so_platform :: "string option"
  so_base_url :: "string option"
  so_description :: "string option"
  so_language :: "string option"
  so_country :: "string option"
  so_enabled :: bool
  so_collection_policy :: json
  so_created_at :: time
  so_updated_at :: time
  so_last_seen :: "time option"

text \<open>\<open>error_count\<close> is an \<open>i32\<close>: the code's arithmetic on it saturates and is written out where it
  happens.\<close>

record connector =
  cn_id :: uuid
  cn_source_id :: uuid
  cn_name :: string
  cn_type :: string
  cn_version :: string
  cn_enabled :: bool
  cn_configuration :: json
  cn_credential_reference :: "string option"
  cn_schedule :: "string option"
  cn_rate_limit :: json
  cn_timeout :: json
  cn_proxy_reference :: "string option"
  cn_checkpoint :: json
  cn_last_run :: "time option"
  cn_last_success :: "time option"
  cn_status :: string
  cn_error_count :: int

record network_rule =
  nr_id :: uuid
  nr_source_id :: uuid
  nr_cidr_or_host :: string
  nr_ports :: "nat list option"
  nr_reason :: string
  nr_approved_by :: string
  nr_expires_at :: "time option"
  nr_created_at :: time
  nr_updated_at :: time

record raw_evidence =
  rv_id :: uuid
  rv_source_id :: uuid
  rv_connector_id :: uuid
  rv_external_id :: "string option"
  rv_source_url :: string
  rv_retrieved_at :: time
  rv_content_type :: "string option"
  rv_mime_type :: "string option"
  rv_content_length :: "int option"
  rv_sha256 :: string
  rv_storage_path :: string
  rv_http_status :: "int option"
  rv_http_headers :: json
  rv_metadata :: json
  rv_collector_version :: string

section \<open>Jobs\<close>

datatype job_status = Queued | Running | Completed | Retrying | Failed | Cancelled

fun is_purge_eligible :: "job_status \<Rightarrow> bool" where
  "is_purge_eligible Completed = True"
| "is_purge_eligible Failed = True"
| "is_purge_eligible Cancelled = True"
| "is_purge_eligible _ = False"

record job =
  j_id :: uuid
  j_type :: string
  j_status :: job_status
  j_correlation_id :: "uuid option"
  j_created_at :: time
  j_started_at :: "time option"
  j_completed_at :: "time option"
  j_retry_count :: "32 word"
  j_error :: "string option"
  j_parameters :: "json option"

section \<open>Entities and relationships\<close>

datatype entity_type =
    Person | Organization | Account | Domain | Hostname | Ip | Url | Email | Vulnerability
  | Software | Product | Repository | Hash | Location | ThreatActor | Malware | Indicator

datatype relationship_type =
    Mentions | References | PublishedBy | AuthoredBy | LinksTo | Affects | BelongsTo | MemberOf
  | Owns | Uses | LocatedAt | AssociatedWith | DerivedFrom | Indicates | AttributedTo | Targets
  | Mitigates

record entity =
  e_id :: uuid
  e_entity_type :: entity_type
  e_name :: string
  e_normalized_name :: string
  e_description :: "string option"
  e_confidence :: rat
  e_first_seen :: time
  e_last_seen :: time
  e_merged_into :: "uuid option"
  e_attributes :: json

record relationship =
  r_id :: uuid
  r_source_object_id :: uuid
  r_relationship_type :: relationship_type
  r_target_object_id :: uuid
  r_confidence :: rat
  r_first_seen :: time
  r_last_seen :: time
  r_evidence_count :: "32 word"
  r_created_at :: time
  r_updated_at :: time

record relationship_evidence =
  re_id :: uuid
  re_relationship_id :: uuid
  re_object_id :: uuid
  re_raw_evidence_id :: "uuid option"
  re_excerpt :: "string option"
  re_confidence :: rat
  re_created_at :: time

record entity_alias =
  ea_id :: uuid
  ea_entity_id :: uuid
  ea_alias :: string
  ea_alias_type :: string
  ea_source_id :: "uuid option"
  ea_confidence :: rat
  ea_first_seen :: time
  ea_last_seen :: time

record entity_identifier =
  ei_id :: uuid
  ei_entity_id :: uuid
  ei_namespace :: string
  ei_value :: string
  ei_normalized_value :: string
  ei_confidence :: rat
  ei_source_id :: "uuid option"
  ei_first_seen :: time
  ei_last_seen :: time

record entity_extraction =
  ex_id :: uuid
  ex_object_id :: uuid
  ex_entity_id :: uuid
  ex_extractor :: string
  ex_extractor_version :: string
  ex_confidence :: rat
  ex_text_offset :: "32 word option"
  ex_excerpt :: "string option"

section \<open>Merge history\<close>

record repointed_reference =
  rr_table :: string
  rr_row_id :: uuid
  rr_column :: string
  rr_previous_value :: uuid

record absorber_snapshot =
  as_evidence_count :: "32 word"
  as_confidence :: rat
  as_first_seen :: time
  as_last_seen :: time

record merged_relationship =
  mr_absorbed_relationship_id :: uuid
  mr_absorber_relationship_id :: "uuid option"
  mr_absorbed_snapshot :: relationship
  mr_absorber_pre_merge :: "absorber_snapshot option"
  mr_moved_evidence_ids :: "uuid list"

record merge_history =
  mh_id :: uuid
  mh_survivor_id :: uuid
  mh_merged_id :: uuid
  mh_reason :: string
  mh_operator :: string
  mh_timestamp :: time
  mh_repointed_references :: "repointed_reference list"
  mh_merged_relationships :: "merged_relationship list"
  mh_undone_at :: "time option"
  mh_auto_approval_audit :: "json option"

end
