(* ===== verification/Store.thy ===== *)
theory Store
  imports Model
begin

text \<open>
  The relational store behind \<open>storage_core::RelationalStore\<close>, as the SQL of
  \<open>storage-sqlite/src/store.rs\<close> and the constraints of \<open>migrations/sqlite\<close> define it (the
  PostgreSQL adapter runs the same statements). One operation per store method the modelled
  components call. An upsert checks what the schema checks: the UNIQUE indexes give \<open>Conflict\<close>,
  the foreign keys give \<open>ConstraintViolation\<close>. The tables \<open>collections\<close> and
  \<open>candidate_evidence\<close> appear only through the keys that foreign keys refer to. Loss of the
  connection is not modelled: every such error leaves the transaction uncommitted.
\<close>

datatype storage_error =
    Unavailable | Timeout | Conflict | ConstraintViolation | NotFound | PermissionDenied
  | CapacityExceeded | CorruptionSuspected | UnsupportedCapability | MigrationRequired
  | Configuration | Unknown

record db =
  db_entities :: "entity tbl"
  db_relationships :: "relationship tbl"
  db_relationship_evidence :: "relationship_evidence tbl"
  db_entity_aliases :: "entity_alias tbl"
  db_entity_identifiers :: "entity_identifier tbl"
  db_entity_extractions :: "entity_extraction tbl"
  db_merge_history :: "merge_history tbl"
  db_jobs :: "job tbl"
  db_connectors :: "connector tbl"
  db_sources :: "source tbl"
  db_raw_evidence :: "raw_evidence tbl"
  db_network_rules :: "network_rule tbl"
  db_collection_keys :: "uuid list"
  db_collection_sources :: "(uuid \<times> uuid) list"
  db_collection_connectors :: "(uuid \<times> uuid) list"
  db_raw_evidence_collections :: "(uuid \<times> uuid) list"
  db_candidate_evidence_relationships :: "uuid list"

definition empty_db :: db where
  "empty_db = \<lparr>db_entities = [], db_relationships = [], db_relationship_evidence = [],
     db_entity_aliases = [], db_entity_identifiers = [], db_entity_extractions = [],
     db_merge_history = [], db_jobs = [], db_connectors = [], db_sources = [],
     db_raw_evidence = [], db_network_rules = [], db_collection_keys = [],
     db_collection_sources = [], db_collection_connectors = [], db_raw_evidence_collections = [],
     db_candidate_evidence_relationships = []\<rparr>"

text \<open>The keys a foreign key to \<open>sources\<close> or \<open>raw_evidence\<close> may have.\<close>

abbreviation db_source_keys :: "db \<Rightarrow> uuid list" where
  "db_source_keys d \<equiv> map fst (db_sources d)"

abbreviation db_raw_evidence_keys :: "db \<Rightarrow> uuid list" where
  "db_raw_evidence_keys d \<equiv> map fst (db_raw_evidence d)"

text \<open>\<open>limit.clamp(1, 100)\<close>, applied by every list method.\<close>

definition clamp_limit :: "nat \<Rightarrow> nat" where
  "clamp_limit limit = clamp_nat 1 100 limit"

definition fk_opt :: "uuid list \<Rightarrow> uuid option \<Rightarrow> bool" where
  "fk_opt keys x = (case x of None \<Rightarrow> True | Some k \<Rightarrow> k \<in> set keys)"

section \<open>Entities\<close>

definition get_entity :: "db \<Rightarrow> uuid \<Rightarrow> entity option" where
  "get_entity d i = tbl_get (db_entities d) i"

definition entity_natural_key :: "entity \<Rightarrow> entity_type \<times> string" where
  "entity_natural_key e = (e_entity_type e, e_normalized_name e)"

text \<open>
  The foreign key of \<open>merged_into\<close> is checked after the row is written, so a row may refer to
  itself.
\<close>

definition put_entity :: "entity \<Rightarrow> db \<Rightarrow> storage_error + db" where
  "put_entity e d =
     (if \<exists>r \<in> set (map snd (db_entities d)).
          e_id r \<noteq> e_id e \<and> entity_natural_key r = entity_natural_key e then Inl Conflict
      else if \<not> fk_opt (e_id e # map fst (db_entities d)) (e_merged_into e)
        then Inl ConstraintViolation
      else Inr (d\<lparr>db_entities := tbl_put (e_id e) e (db_entities d)\<rparr>))"

section \<open>Relationships\<close>

definition rel_triple :: "relationship \<Rightarrow> uuid \<times> relationship_type \<times> uuid" where
  "rel_triple r = (r_source_object_id r, r_relationship_type r, r_target_object_id r)"

definition get_relationship :: "db \<Rightarrow> uuid \<Rightarrow> relationship option" where
  "get_relationship d i = tbl_get (db_relationships d) i"

definition put_relationship :: "relationship \<Rightarrow> db \<Rightarrow> storage_error + db" where
  "put_relationship rel d =
     (if \<exists>r \<in> set (map snd (db_relationships d)).
          r_id r \<noteq> r_id rel \<and> rel_triple r = rel_triple rel then Inl Conflict
      else Inr (d\<lparr>db_relationships := tbl_put (r_id rel) rel (db_relationships d)\<rparr>))"

text \<open>
  \<open>relationship_evidence.relationship_id\<close> is \<open>ON DELETE CASCADE\<close>;
  \<open>candidate_evidence.relationship_id\<close> has no action, so a referenced row cannot be deleted.
\<close>

definition delete_relationship :: "uuid \<Rightarrow> db \<Rightarrow> storage_error + (bool \<times> db)" where
  "delete_relationship i d =
     (case get_relationship d i of
        None \<Rightarrow> Inr (False, d)
      | Some r \<Rightarrow>
          if i \<in> set (db_candidate_evidence_relationships d) then Inl ConstraintViolation
          else Inr (True, d\<lparr>db_relationships := tbl_del i (db_relationships d),
                 db_relationship_evidence :=
                   tbl_delete_where (\<lambda>ev. re_relationship_id ev = i)
                     (db_relationship_evidence d)\<rparr>))"

definition list_relationships_by_object :: "db \<Rightarrow> uuid \<Rightarrow> nat \<Rightarrow> relationship list" where
  "list_relationships_by_object d obj limit =
     take (clamp_limit limit)
       (rev (tbl_select (\<lambda>r. r_source_object_id r = obj \<or> r_target_object_id r = obj)
          (db_relationships d)))"

definition get_relationship_evidence :: "db \<Rightarrow> uuid \<Rightarrow> relationship_evidence option" where
  "get_relationship_evidence d i = tbl_get (db_relationship_evidence d) i"

definition put_relationship_evidence :: "relationship_evidence \<Rightarrow> db \<Rightarrow> storage_error + db" where
  "put_relationship_evidence ev d =
     (if re_relationship_id ev \<notin> set (map fst (db_relationships d))
         \<or> \<not> fk_opt (db_raw_evidence_keys d) (re_raw_evidence_id ev) then Inl ConstraintViolation
      else Inr (d\<lparr>db_relationship_evidence :=
             tbl_put (re_id ev) ev (db_relationship_evidence d)\<rparr>))"

text \<open>\<open>ORDER BY created_at ASC, id ASC\<close>: a stable sort of the rows in key order.\<close>

definition list_relationship_evidence :: "db \<Rightarrow> uuid \<Rightarrow> nat \<Rightarrow> relationship_evidence list" where
  "list_relationship_evidence d rel limit =
     take (clamp_limit limit)
       (sort_key re_created_at
          (tbl_select (\<lambda>ev. re_relationship_id ev = rel) (db_relationship_evidence d)))"

section \<open>Aliases, identifiers, extractions\<close>

definition get_entity_alias :: "db \<Rightarrow> uuid \<Rightarrow> entity_alias option" where
  "get_entity_alias d i = tbl_get (db_entity_aliases d) i"

definition put_entity_alias :: "entity_alias \<Rightarrow> db \<Rightarrow> storage_error + db" where
  "put_entity_alias a d =
     (if ea_entity_id a \<notin> set (map fst (db_entities d))
         \<or> \<not> fk_opt (db_source_keys d) (ea_source_id a) then Inl ConstraintViolation
      else Inr (d\<lparr>db_entity_aliases := tbl_put (ea_id a) a (db_entity_aliases d)\<rparr>))"

definition list_entity_aliases_by_entity :: "db \<Rightarrow> uuid \<Rightarrow> nat \<Rightarrow> entity_alias list" where
  "list_entity_aliases_by_entity d e limit =
     take (clamp_limit limit) (tbl_select (\<lambda>a. ea_entity_id a = e) (db_entity_aliases d))"

definition identifier_natural_key :: "entity_identifier \<Rightarrow> string \<times> string" where
  "identifier_natural_key i = (ei_namespace i, ei_normalized_value i)"

definition get_entity_identifier :: "db \<Rightarrow> uuid \<Rightarrow> entity_identifier option" where
  "get_entity_identifier d i = tbl_get (db_entity_identifiers d) i"

definition put_entity_identifier :: "entity_identifier \<Rightarrow> db \<Rightarrow> storage_error + db" where
  "put_entity_identifier x d =
     (if \<exists>r \<in> set (map snd (db_entity_identifiers d)).
          ei_id r \<noteq> ei_id x \<and> identifier_natural_key r = identifier_natural_key x
        then Inl Conflict
      else if ei_entity_id x \<notin> set (map fst (db_entities d))
         \<or> \<not> fk_opt (db_source_keys d) (ei_source_id x) then Inl ConstraintViolation
      else Inr (d\<lparr>db_entity_identifiers := tbl_put (ei_id x) x (db_entity_identifiers d)\<rparr>))"

definition list_entity_identifiers_by_entity :: "db \<Rightarrow> uuid \<Rightarrow> nat \<Rightarrow> entity_identifier list" where
  "list_entity_identifiers_by_entity d e limit =
     take (clamp_limit limit) (tbl_select (\<lambda>x. ei_entity_id x = e) (db_entity_identifiers d))"

definition get_entity_extraction :: "db \<Rightarrow> uuid \<Rightarrow> entity_extraction option" where
  "get_entity_extraction d i = tbl_get (db_entity_extractions d) i"

definition put_entity_extraction :: "entity_extraction \<Rightarrow> db \<Rightarrow> storage_error + db" where
  "put_entity_extraction x d =
     (if ex_entity_id x \<notin> set (map fst (db_entities d)) then Inl ConstraintViolation
      else Inr (d\<lparr>db_entity_extractions := tbl_put (ex_id x) x (db_entity_extractions d)\<rparr>))"

definition list_entity_extractions_by_entity :: "db \<Rightarrow> uuid \<Rightarrow> nat \<Rightarrow> entity_extraction list" where
  "list_entity_extractions_by_entity d e limit =
     take (clamp_limit limit) (tbl_select (\<lambda>x. ex_entity_id x = e) (db_entity_extractions d))"

section \<open>Merge history\<close>

definition get_merge_history :: "db \<Rightarrow> uuid \<Rightarrow> merge_history option" where
  "get_merge_history d i = tbl_get (db_merge_history d) i"

definition put_merge_history :: "merge_history \<Rightarrow> db \<Rightarrow> storage_error + db" where
  "put_merge_history h d =
     (if mh_survivor_id h \<notin> set (map fst (db_entities d)) then Inl ConstraintViolation
      else Inr (d\<lparr>db_merge_history := tbl_put (mh_id h) h (db_merge_history d)\<rparr>))"

section \<open>Jobs\<close>

definition get_job :: "db \<Rightarrow> uuid \<Rightarrow> job option" where
  "get_job d i = tbl_get (db_jobs d) i"

definition put_job :: "job \<Rightarrow> db \<Rightarrow> storage_error + db" where
  "put_job j d = Inr (d\<lparr>db_jobs := tbl_put (j_id j) j (db_jobs d)\<rparr>)"

text \<open>Cursor paging: the rows with an id strictly below the cursor, newest first.\<close>

definition after_cursor :: "uuid option \<Rightarrow> uuid \<Rightarrow> bool" where
  "after_cursor after i = (case after of None \<Rightarrow> True | Some a \<Rightarrow> i < a)"

definition list_jobs :: "db \<Rightarrow> uuid option \<Rightarrow> nat \<Rightarrow> job list" where
  "list_jobs d after limit =
     take (clamp_nat 1 100 limit)
       (rev (tbl_select (\<lambda>j. after_cursor after (j_id j)) (db_jobs d)))"

definition list_jobs_by_status :: "db \<Rightarrow> job_status \<Rightarrow> uuid option \<Rightarrow> nat \<Rightarrow> job list" where
  "list_jobs_by_status d st after limit =
     take (clamp_limit limit)
       (rev (tbl_select (\<lambda>j. j_status j = st \<and> after_cursor after (j_id j)) (db_jobs d)))"

definition list_jobs_by_status_and_type ::
  "db \<Rightarrow> job_status \<Rightarrow> string \<Rightarrow> uuid option \<Rightarrow> nat \<Rightarrow> job list" where
  "list_jobs_by_status_and_type d st ty after limit =
     take (clamp_limit limit)
       (rev (tbl_select (\<lambda>j. j_status j = st \<and> j_type j = ty \<and> after_cursor after (j_id j))
          (db_jobs d)))"

record job_purge_filter =
  pf_job_type :: string
  pf_statuses :: "job_status list"
  pf_older_than :: time
  pf_limit :: nat

definition validate_scope :: "job_purge_filter \<Rightarrow> storage_error + unit" where
  "validate_scope f =
     (if trim (pf_job_type f) = [] then Inl ConstraintViolation
      else if pf_statuses f = [] then Inl ConstraintViolation
      else if \<exists>st \<in> set (pf_statuses f). \<not> is_purge_eligible st then Inl ConstraintViolation
      else Inr ())"

definition validate :: "job_purge_filter \<Rightarrow> storage_error + unit" where
  "validate f =
     rbind (validate_scope f) (\<lambda>_.
       if pf_limit f < 1 then Inl ConstraintViolation
       else if 100000 < pf_limit f then Inl ConstraintViolation
       else Inr ())"

definition purgeable :: "job_purge_filter \<Rightarrow> job \<Rightarrow> bool" where
  "purgeable f j \<longleftrightarrow>
     j_type j = pf_job_type f \<and> j_status j \<in> set (pf_statuses f) \<and>
     (case j_completed_at j of None \<Rightarrow> False | Some t \<Rightarrow> t < pf_older_than f)"

text \<open>
  The rows one \<open>DELETE\<close> removes: the oldest \<open>limit\<close> purgeable ones. The statement orders by
  \<open>completed_at\<close> only; the model breaks ties by key, as a scan of the primary key does.
\<close>

definition purge_batch :: "job_purge_filter \<Rightarrow> db \<Rightarrow> job list" where
  "purge_batch f d =
     take (pf_limit f) (sort_key (\<lambda>j. the (j_completed_at j)) (tbl_select (purgeable f) (db_jobs d)))"

definition purge_jobs :: "job_purge_filter \<Rightarrow> db \<Rightarrow> storage_error + (nat \<times> db)" where
  "purge_jobs f d =
     rbind (validate f) (\<lambda>_.
       let ids = map j_id (purge_batch f d)
       in Inr (length ids,
            d\<lparr>db_jobs := filter (\<lambda>(k, j). k \<notin> set ids) (db_jobs d)\<rparr>))"

definition count_purgeable_jobs :: "job_purge_filter \<Rightarrow> db \<Rightarrow> storage_error + nat" where
  "count_purgeable_jobs f d =
     rbind (validate_scope f) (\<lambda>_. Inr (length (tbl_select (purgeable f) (db_jobs d))))"

text \<open>The run of a collector that was killed: its jobs fail, its connectors become idle. The
  message is an ASCII rendering of \<open>RECLAIM_ORPHAN_COLLECT_JOB_ERROR\<close>.\<close>

definition reclaim_error :: string where
  "reclaim_error = ''collector restarted''"

definition reclaim_job :: "time \<Rightarrow> job \<Rightarrow> job" where
  "reclaim_job now j =
     (if j_type j = ''collect'' \<and> j_status j = Running
      then j\<lparr>j_status := Failed, j_completed_at := Some now, j_error := Some reclaim_error\<rparr>
      else j)"

definition idle_connector :: "connector \<Rightarrow> connector" where
  "idle_connector c = (if cn_status c = ''running'' then c\<lparr>cn_status := ''idle''\<rparr> else c)"

definition reclaim_orphan_collect_runs :: "time \<Rightarrow> db \<Rightarrow> storage_error + ((nat \<times> nat) \<times> db)" where
  "reclaim_orphan_collect_runs now d =
     Inr ((length (tbl_select (\<lambda>j. j_type j = ''collect'' \<and> j_status j = Running) (db_jobs d)),
           length (tbl_select (\<lambda>c. cn_status c = ''running'') (db_connectors d))),
          d\<lparr>db_jobs := map (\<lambda>(k, j). (k, reclaim_job now j)) (db_jobs d),
            db_connectors := map (\<lambda>(k, c). (k, idle_connector c)) (db_connectors d)\<rparr>)"

section \<open>Store laws shared by the components\<close>

lemma clamp_limit_bounds: "1 \<le> clamp_limit n \<and> clamp_limit n \<le> 100"
  by (simp add: clamp_limit_def clamp_nat_def)

lemma tbl_get_map_rows:
  "tbl_get (map (\<lambda>(k, r). (k, f r)) t) i = map_option f (tbl_get t i)"
  by (induction t) (auto simp: tbl_get_def)

lemma tbl_ok_map_rows: "tbl_ok (map (\<lambda>(k, r). (k, f r)) t) \<longleftrightarrow> tbl_ok t"
  by (simp add: tbl_ok_def comp_def case_prod_beta)

lemma validate_Inr_iff:
  "validate f = Inr u \<longleftrightarrow>
     trim (pf_job_type f) \<noteq> [] \<and> pf_statuses f \<noteq> [] \<and>
     (\<forall>st \<in> set (pf_statuses f). is_purge_eligible st) \<and> 1 \<le> pf_limit f \<and> pf_limit f \<le> 100000"
  by (auto simp: validate_def validate_scope_def)

lemma purge_batch_subset:
  assumes "tbl_ok (db_jobs d)" and "j \<in> set (purge_batch f d)"
  shows "purgeable f j \<and> (\<exists>k. tbl_get (db_jobs d) k = Some j)"
proof -
  from assms(2) have "j \<in> set (tbl_select (purgeable f) (db_jobs d))"
    by (auto simp: purge_batch_def dest: in_set_takeD)
  with assms(1) show ?thesis by (simp add: set_tbl_select)
qed

end
