(* ===== verification/Jobs.thy ===== *)
theory Jobs
  imports Store
begin

text \<open>
  The job system, \<open>crates/core-jobs/src/transition.rs\<close> and \<open>service.rs\<close>: the status machine and
  the operations of \<open>JobService\<close> over the job table and the broker. The service state is the
  store together with the log of the \<open>job.dispatched\<close> events that reached the broker. The
  producer is code outside the repository's control: an optional function that answers whether a
  given event is accepted. Reading the clock and drawing a UUID v7 are arguments.

  The lemmas show what the machine guarantees of every job the service ever stored, that no
  status is a dead end, and what each operation does to the store on each branch.
\<close>

section \<open>The status machine\<close>

fun can_transition :: "job_status \<Rightarrow> job_status \<Rightarrow> bool" where
  "can_transition Queued Running = True"
| "can_transition Queued Cancelled = True"
| "can_transition Running Completed = True"
| "can_transition Running Failed = True"
| "can_transition Running Retrying = True"
| "can_transition Running Cancelled = True"
| "can_transition Retrying Running = True"
| "can_transition Retrying Failed = True"
| "can_transition Retrying Cancelled = True"
| "can_transition Failed Retrying = True"
| "can_transition Failed Cancelled = True"
| "can_transition _ _ = False"

section \<open>The service\<close>

datatype job_error =
    JobStorage storage_error
  | JobEvent string
  | JobNotFound uuid
  | InvalidTransition job_status job_status
  | NotRetryable uuid job_status
  | NotDispatchable uuid job_status
  | JobPanic

text \<open>The payload of \<open>job.dispatched\<close>.\<close>

record job_dispatched =
  jd_job_id :: uuid
  jd_job_type :: string
  jd_status :: job_status
  jd_retry_count :: "32 word"
  jd_parameters :: "json option"

record job_service =
  js_store :: db
  js_published :: "job_dispatched list"

type_synonym 'a job_op = "(job_service, job_error, 'a) op"

text \<open>The producer: \<open>None\<close> when an event is accepted, the error otherwise.\<close>

type_synonym job_producer = "job_dispatched \<Rightarrow> string option"

definition js_put_job :: "job \<Rightarrow> unit job_op" where
  "js_put_job j s =
     (case put_job j (js_store s) of
        Inl e \<Rightarrow> (Inl (JobStorage e), s)
      | Inr d \<Rightarrow> (Inr (), s\<lparr>js_store := d\<rparr>))"

definition create_job ::
  "time \<Rightarrow> uuid \<Rightarrow> string \<Rightarrow> uuid option \<Rightarrow> json option \<Rightarrow> job job_op" where
  "create_job now new_id job_type correlation_id parameters =
     (let j = \<lparr>j_id = new_id, j_type = job_type, j_status = Queued,
            j_correlation_id = correlation_id, j_created_at = now, j_started_at = None,
            j_completed_at = None, j_retry_count = 0, j_error = None,
            j_parameters = parameters\<rparr>
      in op_bind (js_put_job j) (\<lambda>_. op_return j))"

definition job_get :: "uuid \<Rightarrow> job job_op" where
  "job_get i s =
     (case get_job (js_store s) i of
        None \<Rightarrow> (Inl (JobNotFound i), s)
      | Some j \<Rightarrow> (Inr j, s))"

definition apply_transition ::
  "time \<Rightarrow> job \<Rightarrow> job_status \<Rightarrow> string option \<Rightarrow> job_error + job" where
  "apply_transition now j to error =
     (if \<not> can_transition (j_status j) to then Inl (InvalidTransition (j_status j) to)
      else
        let j1 = (case to of
              Running \<Rightarrow> (if j_started_at j = None then j\<lparr>j_started_at := Some now\<rparr> else j)
            | Completed \<Rightarrow> j\<lparr>j_completed_at := Some now\<rparr>
            | Failed \<Rightarrow> j\<lparr>j_completed_at := Some now\<rparr>
            | Cancelled \<Rightarrow> j\<lparr>j_completed_at := Some now\<rparr>
            | Retrying \<Rightarrow> j\<lparr>j_retry_count := j_retry_count j + 1, j_completed_at := None\<rparr>
            | Queued \<Rightarrow> j);
            j2 = (if to = Failed \<or> to = Cancelled then j1\<lparr>j_error := error\<rparr>
              else if to = Completed \<or> to = Running then j1\<lparr>j_error := None\<rparr>
              else j1)
        in Inr (j2\<lparr>j_status := to\<rparr>))"

definition job_transition ::
  "time \<Rightarrow> uuid \<Rightarrow> job_status \<Rightarrow> string option \<Rightarrow> job job_op" where
  "job_transition now i to error =
     op_bind (job_get i) (\<lambda>j.
       case apply_transition now j to error of
         Inl e \<Rightarrow> op_fail e
       | Inr j' \<Rightarrow> op_bind (js_put_job j') (\<lambda>_. op_return j'))"

definition job_dispatched_event :: "job \<Rightarrow> job_dispatched" where
  "job_dispatched_event j = \<lparr>jd_job_id = j_id j, jd_job_type = j_type j,
     jd_status = j_status j, jd_retry_count = j_retry_count j, jd_parameters = j_parameters j\<rparr>"

definition job_publish :: "job_producer option \<Rightarrow> job_dispatched \<Rightarrow> unit job_op" where
  "job_publish producer ev s =
     (case producer of
        None \<Rightarrow> (Inr (), s)
      | Some accepts \<Rightarrow>
          (case accepts ev of
             Some err \<Rightarrow> (Inl (JobEvent err), s)
           | None \<Rightarrow> (Inr (), s\<lparr>js_published := js_published s @ [ev]\<rparr>)))"

definition job_dispatch :: "job_producer option \<Rightarrow> uuid \<Rightarrow> job job_op" where
  "job_dispatch producer i =
     op_bind (job_get i) (\<lambda>j.
       if \<not> (j_status j = Queued \<or> j_status j = Retrying)
       then op_fail (NotDispatchable i (j_status j))
       else op_bind (job_publish producer (job_dispatched_event j)) (\<lambda>_. op_return j))"

definition job_retry :: "job_producer option \<Rightarrow> time \<Rightarrow> uuid \<Rightarrow> job job_op" where
  "job_retry producer now i =
     op_bind (job_get i) (\<lambda>j.
       if j_status j \<noteq> Failed then op_fail (NotRetryable i (j_status j))
       else op_bind (job_transition now i Retrying None) (\<lambda>_. job_dispatch producer i))"

definition create_and_dispatch ::
  "job_producer option \<Rightarrow> time \<Rightarrow> uuid \<Rightarrow> string \<Rightarrow> uuid option \<Rightarrow> json option \<Rightarrow> job job_op" where
  "create_and_dispatch producer now new_id job_type correlation_id parameters =
     op_bind (create_job now new_id job_type correlation_id parameters)
       (\<lambda>j. job_dispatch producer (j_id j))"

definition merge_parameters :: "uuid \<Rightarrow> json \<Rightarrow> job job_op" where
  "merge_parameters i patch =
     (case as_object patch of
        None \<Rightarrow> op_fail JobPanic
      | Some p \<Rightarrow>
          op_bind (job_get i) (\<lambda>j.
            let old = (case Option.bind (j_parameters j) as_object of
                         None \<Rightarrow> [] | Some kvs \<Rightarrow> kvs);
                j' = j\<lparr>j_parameters := Some (JObject (object_extend old p))\<rparr>
            in op_bind (js_put_job j') (\<lambda>_. op_return j')))"

lemmas job_op_defs =
  create_job_def job_get_def job_transition_def job_dispatch_def job_retry_def
  create_and_dispatch_def merge_parameters_def js_put_job_def job_publish_def op_bind_def
  put_job_def get_job_def Let_def

section \<open>Well-formed jobs\<close>

definition job_wf :: "job \<Rightarrow> bool" where
  "job_wf j \<longleftrightarrow>
     (j_completed_at j \<noteq> None \<longleftrightarrow> j_status j \<in> {Completed, Failed, Cancelled}) \<and>
     (j_status j \<in> {Running, Completed, Retrying, Failed} \<longrightarrow> j_started_at j \<noteq> None) \<and>
     (j_status j \<in> {Queued, Running, Completed} \<longrightarrow> j_error j = None) \<and>
     (j_status j = Queued \<longrightarrow> j_started_at j = None \<and> j_retry_count j = 0)"

text \<open>A history of a job: the transitions requested of it, in order.\<close>

type_synonym job_step = "time \<times> job_status \<times> string option"

definition run_transitions :: "job \<Rightarrow> job_step list \<Rightarrow> job_error + job" where
  "run_transitions j steps =
     rfold (\<lambda>(now, to, err) j. apply_transition now j to err) steps j"

definition fresh_job :: "time \<Rightarrow> uuid \<Rightarrow> string \<Rightarrow> uuid option \<Rightarrow> json option \<Rightarrow> job" where
  "fresh_job now new_id job_type correlation_id parameters =
     \<lparr>j_id = new_id, j_type = job_type, j_status = Queued,
      j_correlation_id = correlation_id, j_created_at = now, j_started_at = None,
      j_completed_at = None, j_retry_count = 0, j_error = None, j_parameters = parameters\<rparr>"

lemma apply_transition_Inr:
  assumes "apply_transition now j to err = Inr j'"
  shows "can_transition (j_status j) to" "j_status j' = to"
    "j_id j' = j_id j" "j_type j' = j_type j" "j_correlation_id j' = j_correlation_id j"
    "j_created_at j' = j_created_at j" "j_parameters j' = j_parameters j"
    "j_retry_count j' = (if to = Retrying then j_retry_count j + 1 else j_retry_count j)"
    "j_started_at j' =
       (if to = Running \<and> j_started_at j = None then Some now else j_started_at j)"
  using assms by (auto simp: apply_transition_def Let_def split: if_splits job_status.splits)

lemma apply_transition_wf:
  assumes "apply_transition now j to err = Inr j'" "job_wf j"
  shows "job_wf j'"
  using assms
  by (cases "j_status j"; cases to) (auto simp: apply_transition_def job_wf_def Let_def)

lemma fresh_job_wf: "job_wf (fresh_job now i ty c p)"
  by (simp add: job_wf_def fresh_job_def)

lemma run_transitions_snoc:
  "run_transitions j (steps @ [(now, to, err)]) =
     rbind (run_transitions j steps) (\<lambda>j'. apply_transition now j' to err)"
  by (auto simp: run_transitions_def rfold_append rbind_def split: sum.splits)

definition requested_status :: "job_step \<Rightarrow> job_status" where
  "requested_status = (\<lambda>(_, to, _). to)"

definition retries :: "job_step list \<Rightarrow> nat" where
  "retries steps = length (filter (\<lambda>st. requested_status st = Retrying) steps)"

text \<open>
  What a job records of its history. After any sequence of accepted transitions a job still
  carries its identity and parameters, its status is the last one requested, its retry counter is
  the number of times it entered \<open>retrying\<close> (as an \<open>i32\<close>, with wrap-around), \<open>started_at\<close> is the
  time of the first \<open>running\<close> and is never overwritten, and \<open>completed_at\<close>, \<open>error\<close> and the status
  agree as \<open>job_wf\<close> says.
\<close>

theorem job_history_recorded:
  assumes "run_transitions (fresh_job t0 i ty c p) steps = Inr j"
  shows "job_wf j \<and> j_id j = i \<and> j_type j = ty \<and> j_correlation_id j = c \<and> j_created_at j = t0
    \<and> j_parameters j = p
    \<and> j_status j = last (Queued # map requested_status steps)
    \<and> j_retry_count j = of_nat (retries steps)
    \<and> j_started_at j = map_option fst (find (\<lambda>st. requested_status st = Running) steps)"
  using assms
proof (induction steps arbitrary: j rule: rev_induct)
  case Nil
  then show ?case
    using fresh_job_wf [of t0 i ty c p]
    by (auto simp: run_transitions_def retries_def fresh_job_def)
next
  case (snoc x steps)
  obtain now to err where x: "x = (now, to, err)" by (cases x)
  from snoc.prems obtain j' where j': "run_transitions (fresh_job t0 i ty c p) steps = Inr j'"
    and app: "apply_transition now j' to err = Inr j"
    by (auto simp: x run_transitions_snoc rbind_Inr_iff)
  have find: "find P (xs @ ys) = (case find P xs of None \<Rightarrow> find P ys | Some z \<Rightarrow> Some z)"
    for P :: "job_step \<Rightarrow> bool" and xs ys
    by (induction xs) auto
  from snoc.IH [OF j'] apply_transition_Inr [OF app] apply_transition_wf [OF app]
  show ?case
    by (auto simp: x find retries_def requested_status_def split: option.splits)
qed

theorem job_history_recorded_witness:
  "run_transitions (fresh_job 0 7 ''collect'' None None)
     [(1, Running, None), (2, Failed, Some ''x''), (3, Retrying, None), (4, Running, None)] =
   Inr \<lparr>j_id = 7, j_type = ''collect'', j_status = Running, j_correlation_id = None,
     j_created_at = 0, j_started_at = Some 1, j_completed_at = None, j_retry_count = 1,
     j_error = None, j_parameters = None\<rparr> \<and>
   job_wf \<lparr>j_id = 7, j_type = ''collect'', j_status = Running, j_correlation_id = None,
     j_created_at = 0, j_started_at = Some 1, j_completed_at = None, j_retry_count = 1,
     j_error = None, j_parameters = None\<rparr>"
proof -
  have run: "run_transitions (fresh_job 0 7 ''collect'' None None)
     [(1, Running, None), (2, Failed, Some ''x''), (3, Retrying, None), (4, Running, None)] =
   Inr \<lparr>j_id = 7, j_type = ''collect'', j_status = Running, j_correlation_id = None,
     j_created_at = 0, j_started_at = Some 1, j_completed_at = None, j_retry_count = 1,
     j_error = None, j_parameters = None\<rparr>"
    by code_simp
  show ?thesis
    by (rule conjI [OF run conjunct1 [OF job_history_recorded [OF run]]])
qed

section \<open>Where a job can go\<close>

inductive job_reaches :: "job_status \<Rightarrow> job_status \<Rightarrow> bool" where
  job_reaches_refl: "job_reaches s s"
| job_reaches_step: "can_transition s t \<Longrightarrow> job_reaches t u \<Longrightarrow> job_reaches s u"

inductive_cases job_reaches_from_completed: "job_reaches Completed u"
inductive_cases job_reaches_from_cancelled: "job_reaches Cancelled u"

lemma job_reaches_completed:
  "job_reaches Queued Completed" "job_reaches Running Completed" "job_reaches Retrying Completed"
  "job_reaches Failed Completed" "job_reaches Completed Completed"
  by (meson can_transition.simps job_reaches.intros)+

text \<open>
  The terminal statuses are exactly \<open>completed\<close> and \<open>cancelled\<close>, and no other status is a
  dead end: a job can still be completed from every status but \<open>cancelled\<close>, and cancelled from
  every status but \<open>completed\<close>; no job returns to \<open>queued\<close>.
\<close>

theorem job_machine_progress:
  "(job_reaches st Completed \<longleftrightarrow> st \<noteq> Cancelled)
   \<and> (can_transition st Cancelled \<longleftrightarrow> st \<notin> {Completed, Cancelled})
   \<and> ((\<forall>u. \<not> can_transition st u) \<longleftrightarrow> st \<in> {Completed, Cancelled})
   \<and> (job_reaches st Queued \<longleftrightarrow> st = Queued)"
proof -
  have cancelled: "\<not> job_reaches Cancelled Completed"
    by (auto elim: job_reaches_from_cancelled)
  have noback: "s = Queued" if "job_reaches s q" "q = Queued" for s q
    using that by (induction rule: job_reaches.induct) (auto elim: can_transition.elims)
  have stuck: "(\<forall>u. \<not> can_transition st u) \<longleftrightarrow> st \<in> {Completed, Cancelled}"
    by (cases st) (auto intro: exI [of _ Running] exI [of _ Retrying] exI [of _ Completed])
  show ?thesis
    using cancelled noback [OF _ refl] job_reaches_refl [of Queued] stuck job_reaches_completed
    by (cases st) auto
qed

section \<open>The service over the store\<close>

definition job_store_ok :: "db \<Rightarrow> bool" where
  "job_store_ok d \<longleftrightarrow> tbl_ok (db_jobs d) \<and>
     (\<forall>i j. get_job d i = Some j \<longrightarrow> j_id j = i \<and> job_wf j)"

definition service_ok :: "job_service \<Rightarrow> bool" where
  "service_ok s \<longleftrightarrow> job_store_ok (js_store s) \<and>
     (\<forall>ev \<in> set (js_published s). jd_status ev \<in> {Queued, Retrying})"

text \<open>
  What the service can do, in any order and with any outcome of the broker: the operations of
  \<open>JobService\<close>, the retention purge and the reclaim at collector start.
\<close>

inductive service_step :: "job_service \<Rightarrow> job_service \<Rightarrow> bool" where
  step_create: "service_step s (snd (create_job now i ty c p s))"
| step_transition: "service_step s (snd (job_transition now i to err s))"
| step_dispatch: "service_step s (snd (job_dispatch producer i s))"
| step_retry: "service_step s (snd (job_retry producer now i s))"
| step_create_and_dispatch: "service_step s (snd (create_and_dispatch producer now i ty c p s))"
| step_merge_parameters: "service_step s (snd (merge_parameters i patch s))"
| step_purge: "purge_jobs f (js_store s) = Inr (n, d) \<Longrightarrow> service_step s (s\<lparr>js_store := d\<rparr>)"
| step_reclaim: "reclaim_orphan_collect_runs now (js_store s) = Inr (ns, d) \<Longrightarrow>
     service_step s (s\<lparr>js_store := d\<rparr>)"

inductive service_reachable :: "job_service \<Rightarrow> bool" where
  reach_init: "service_reachable \<lparr>js_store = empty_db, js_published = []\<rparr>"
| reach_step: "service_reachable s \<Longrightarrow> service_step s t \<Longrightarrow> service_reachable t"

lemma job_store_ok_put:
  "job_store_ok d \<Longrightarrow> job_wf j \<Longrightarrow>
     job_store_ok (d\<lparr>db_jobs := tbl_put (j_id j) j (db_jobs d)\<rparr>)"
  by (auto simp: job_store_ok_def get_job_def)

lemma job_store_okD:
  "job_store_ok d \<Longrightarrow> get_job d i = Some j \<Longrightarrow> j_id j = i \<and> job_wf j"
  by (simp add: job_store_ok_def)

lemma reclaim_job_wf: "job_wf j \<Longrightarrow> job_wf (reclaim_job now j)"
  by (auto simp: job_wf_def reclaim_job_def)

lemma reclaim_job_id: "j_id (reclaim_job now j) = j_id j"
  by (simp add: reclaim_job_def)

text \<open>A stored job replaced by a well-formed one.\<close>

lemma service_ok_put:
  "service_ok s \<Longrightarrow> job_wf j \<Longrightarrow> service_ok (snd (js_put_job j s))"
  by (simp add: service_ok_def js_put_job_def put_job_def job_store_ok_put)

lemma js_put_job_result: "fst (js_put_job j s) = Inr ()"
  by (simp add: js_put_job_def put_job_def)

lemma service_ok_create: "service_ok s \<Longrightarrow> service_ok (snd (create_job now i ty c p s))"
  using service_ok_put [of s "fresh_job now i ty c p"] fresh_job_wf [of now i ty c p]
  by (auto simp: create_job_def fresh_job_def op_bind_def Let_def js_put_job_def put_job_def)

lemma service_ok_transition:
  assumes "service_ok s"
  shows "service_ok (snd (job_transition now i to err s))"
proof (cases "get_job (js_store s) i")
  case None
  then show ?thesis
    using assms by (simp add: job_transition_def op_bind_def job_get_def)
next
  case (Some j)
  with assms have wf: "job_wf j" by (auto simp: service_ok_def dest: job_store_okD)
  show ?thesis
  proof (cases "apply_transition now j to err")
    case (Inl e)
    with Some assms show ?thesis by (simp add: job_transition_def op_bind_def job_get_def)
  next
    case (Inr j')
    from service_ok_put [OF assms apply_transition_wf [OF Inr wf]] Some Inr show ?thesis
      by (simp add: job_transition_def op_bind_def job_get_def js_put_job_def put_job_def)
  qed
qed

lemma service_ok_dispatch:
  "service_ok s \<Longrightarrow> service_ok (snd (job_dispatch producer i s))"
  by (auto simp: job_dispatch_def op_bind_def job_get_def job_publish_def service_ok_def
      job_dispatched_event_def split: option.splits)

lemma service_ok_retry:
  assumes "service_ok s"
  shows "service_ok (snd (job_retry producer now i s))"
  using service_ok_transition [OF assms, of now i Retrying None] assms service_ok_dispatch
  by (auto simp: job_retry_def op_bind_def job_get_def split: option.splits prod.splits sum.splits)

lemma service_ok_create_and_dispatch:
  assumes "service_ok s"
  shows "service_ok (snd (create_and_dispatch producer now i ty c p s))"
  using service_ok_create [OF assms, of now i ty c p] service_ok_dispatch
  by (auto simp: create_and_dispatch_def op_bind_def split: prod.splits sum.splits)

lemma service_ok_merge_parameters:
  assumes "service_ok s"
  shows "service_ok (snd (merge_parameters i patch s))"
proof -
  have "service_ok (snd (js_put_job (j\<lparr>j_parameters := p\<rparr>) s))"
    if "get_job (js_store s) i = Some j" for j p
    using that assms by (intro service_ok_put) (auto simp: service_ok_def job_wf_def dest: job_store_okD)
  then show ?thesis
    using assms
    by (auto simp: merge_parameters_def op_bind_def job_get_def Let_def js_put_job_def put_job_def
        split: option.splits)
qed

lemma job_store_ok_filter:
  assumes "job_store_ok d"
  shows "job_store_ok (d\<lparr>db_jobs := filter (\<lambda>(k, j). k \<notin> K) (db_jobs d)\<rparr>)"
proof -
  have "tbl_ok (filter (\<lambda>(k, j). k \<notin> K) (db_jobs d))"
    using assms by (simp add: job_store_ok_def tbl_ok_def sorted_wrt_map_filter)
  with assms show ?thesis
    by (auto simp: job_store_ok_def get_job_def tbl_get_iff)
qed

lemma service_ok_step: "service_step s t \<Longrightarrow> service_ok s \<Longrightarrow> service_ok t"
proof (induction rule: service_step.induct)
  case (step_purge f s n d)
  then show ?case
    by (auto simp: purge_jobs_def rbind_Inr_iff Let_def service_ok_def intro: job_store_ok_filter)
next
  case (step_reclaim now s ns d)
  then show ?case
    by (auto simp: reclaim_orphan_collect_runs_def service_ok_def job_store_ok_def get_job_def
        tbl_get_map_rows tbl_ok_map_rows reclaim_job_wf reclaim_job_id)
qed (simp_all add: service_ok_create service_ok_transition service_ok_dispatch service_ok_retry
    service_ok_create_and_dispatch service_ok_merge_parameters)

text \<open>
  C5: Every job in the store of a running service is well-formed and stored under its own id, and
  every \<open>job.dispatched\<close> event that reached the broker was published for a job that was queued or
  retrying at that moment, whatever operations ran, in whatever order, and whatever the broker
  answered.
\<close>

theorem job_service_invariant:
  assumes "service_reachable s"
  shows "(\<forall>i j. get_job (js_store s) i = Some j \<longrightarrow> j_id j = i \<and> job_wf j)
    \<and> (\<forall>ev \<in> set (js_published s). jd_status ev \<in> {Queued, Retrying})"
proof -
  have "service_ok s"
    using assms
  proof (induction rule: service_reachable.induct)
    case reach_init
    then show ?case
      by (simp add: service_ok_def job_store_ok_def empty_db_def get_job_def tbl_ok_def)
  next
    case (reach_step s t)
    then show ?case by (blast intro: service_ok_step)
  qed
  then show ?thesis by (auto simp: service_ok_def job_store_ok_def)
qed

theorem job_service_invariant_witness:
  "get_job (js_store (snd (create_and_dispatch (Some (\<lambda>_. None)) 5 9 ''collect'' None None
      \<lparr>js_store = empty_db, js_published = []\<rparr>))) 9 = Some (fresh_job 5 9 ''collect'' None None)
   \<and> job_wf (fresh_job 5 9 ''collect'' None None)"
proof -
  let ?s = "snd (create_and_dispatch (Some (\<lambda>_. None)) 5 9 ''collect'' None None
      \<lparr>js_store = empty_db, js_published = []\<rparr>)"
  have reach: "service_reachable ?s"
    by (rule reach_step [OF reach_init step_create_and_dispatch])
  have job: "get_job (js_store ?s) 9 = Some (fresh_job 5 9 ''collect'' None None)"
    by (simp add: job_op_defs empty_db_def fresh_job_def tbl_get_def)
  from job_service_invariant [OF reach] job show ?thesis by blast
qed

section \<open>Single operations\<close>

text \<open>
  The job table is the only part of the store the service writes, and it writes one row: the row
  of the job it was asked about.
\<close>

lemma js_put_job_store:
  "get_job (js_store (snd (js_put_job j s))) i =
     (if i = j_id j then Some j else get_job (js_store s) i)"
  by (simp add: js_put_job_def put_job_def get_job_def)

lemma job_transition_cases:
  "job_transition now i to err s =
     (case get_job (js_store s) i of
        None \<Rightarrow> (Inl (JobNotFound i), s)
      | Some j \<Rightarrow>
          (case apply_transition now j to err of
             Inl e \<Rightarrow> (Inl e, s)
           | Inr j' \<Rightarrow> (Inr j', snd (js_put_job j' s))))"
  by (simp add: job_op_defs split: option.splits sum.splits)

text \<open>
  A transition the machine refuses, or one of an unknown job, leaves the service as it was;
  an accepted one stores exactly the transitioned job and touches no other job and no event.
\<close>

theorem job_transition_effect:
  assumes "job_store_ok (js_store s)"
  shows "case job_transition now i to err s of
      (Inl e, s') \<Rightarrow> s' = s \<and>
        (get_job (js_store s) i = None \<and> e = JobNotFound i \<or>
         (\<exists>j. get_job (js_store s) i = Some j \<and> \<not> can_transition (j_status j) to
              \<and> e = InvalidTransition (j_status j) to))
    | (Inr j', s') \<Rightarrow> js_published s' = js_published s \<and>
        (\<exists>j. get_job (js_store s) i = Some j \<and> can_transition (j_status j) to
             \<and> apply_transition now j to err = Inr j' \<and> j_status j' = to) \<and>
        (\<forall>k. get_job (js_store s') k = (if k = i then Some j' else get_job (js_store s) k))"
proof (cases "get_job (js_store s) i")
  case None
  then show ?thesis by (simp add: job_transition_cases)
next
  case (Some j)
  with assms have id: "j_id j = i" by (auto dest: job_store_okD)
  show ?thesis
  proof (cases "apply_transition now j to err")
    case (Inl e)
    then have "\<not> can_transition (j_status j) to \<and> e = InvalidTransition (j_status j) to"
      by (auto simp: apply_transition_def Let_def split: if_splits)
    with Some Inl show ?thesis by (simp add: job_transition_cases)
  next
    case (Inr j')
    from apply_transition_Inr [OF Inr] id Some Inr show ?thesis
      by (simp add: job_transition_cases js_put_job_store) (simp add: js_put_job_def put_job_def)
  qed
qed

definition failed_job :: job where
  "failed_job = (fresh_job 0 3 ''stix_import'' None None)
     \<lparr>j_status := Failed, j_started_at := Some 1, j_completed_at := Some 2\<rparr>"

definition one_job_service :: "job \<Rightarrow> job_service" where
  "one_job_service j =
     \<lparr>js_store = empty_db\<lparr>db_jobs := [(j_id j, j)]\<rparr>, js_published = []\<rparr>"

lemma one_job_service_ok: "job_wf j \<Longrightarrow> job_store_ok (js_store (one_job_service j))"
  by (auto simp: one_job_service_def job_store_ok_def get_job_def tbl_get_def tbl_ok_def empty_db_def
      split: if_splits)

lemma failed_job_wf: "job_wf failed_job"
  by (simp add: failed_job_def fresh_job_def job_wf_def)

theorem job_transition_effect_witness:
  "job_store_ok (js_store (one_job_service failed_job)) \<and>
   job_transition 5 3 Running None (one_job_service failed_job)
     = (Inl (InvalidTransition Failed Running), one_job_service failed_job)"
proof -
  have ok: "job_store_ok (js_store (one_job_service failed_job))"
    by (rule one_job_service_ok [OF failed_job_wf])
  from job_transition_effect [OF ok, where now = 5 and i = 3 and to = Running and err = None]
  show ?thesis
    using ok
    by (auto simp: job_transition_cases one_job_service_def get_job_def tbl_get_def failed_job_def
        fresh_job_def apply_transition_def)
qed

text \<open>
  Retrying a failed job. The stored job becomes \<open>retrying\<close> with its counter one higher before
  anything is published. If the broker accepts the event, the event carries that counter and the
  call succeeds. If the broker refuses it, the call fails but the job stays \<open>retrying\<close>, so that a
  second \<open>retry\<close> is refused as not retryable and only \<open>dispatch\<close> can publish it again.
\<close>

theorem job_retry_effect:
  assumes ok: "job_store_ok (js_store s)"
    and job: "get_job (js_store s) i = Some j" and failed: "j_status j = Failed"
  shows "\<exists>j'. j_status j' = Retrying \<and> j_retry_count j' = j_retry_count j + 1
      \<and> j_completed_at j' = None \<and> j_error j' = j_error j
      \<and> get_job (js_store (snd (job_retry producer now i s))) i = Some j'
      \<and> (case producer of
           None \<Rightarrow> fst (job_retry producer now i s) = Inr j'
         | Some accepts \<Rightarrow>
             (case accepts (job_dispatched_event j') of
                None \<Rightarrow> fst (job_retry producer now i s) = Inr j'
                  \<and> js_published (snd (job_retry producer now i s))
                      = js_published s @ [job_dispatched_event j']
              | Some err \<Rightarrow> fst (job_retry producer now i s) = Inl (JobEvent err)
                  \<and> js_published (snd (job_retry producer now i s)) = js_published s
                  \<and> fst (job_retry producer' now' i (snd (job_retry producer now i s)))
                      = Inl (NotRetryable i Retrying)))"
proof -
  let ?j = "j\<lparr>j_retry_count := j_retry_count j + 1, j_completed_at := None, j_status := Retrying\<rparr>"
  have id: "j_id j = i" using ok job by (auto dest: job_store_okD)
  have tr: "job_transition now i Retrying None s = (Inr ?j, snd (js_put_job ?j s))"
    using job failed by (simp add: job_transition_cases apply_transition_def)
  have stored: "get_job (js_store (snd (js_put_job ?j s))) i = Some ?j"
    by (simp add: js_put_job_store id)
  have pub: "js_published (snd (js_put_job ?j s)) = js_published s"
    by (simp add: js_put_job_def put_job_def)
  have retry: "job_retry producer now i s = job_dispatch producer i (snd (js_put_job ?j s))"
    using job failed tr by (simp add: job_retry_def op_bind_def job_get_def)
  have get2: "get_job (js_store (snd (job_dispatch producer i (snd (js_put_job ?j s))))) i = Some ?j"
    using stored by (auto simp: job_dispatch_def op_bind_def job_get_def job_publish_def
        split: option.splits)
  have again: "fst (job_retry producer' now' i (snd (job_dispatch producer i (snd (js_put_job ?j s)))))
      = Inl (NotRetryable i Retrying)"
    using get2 by (simp add: job_retry_def op_bind_def job_get_def)
  show ?thesis
    by (rule exI [of _ ?j])
      (use retry get2 again stored pub in
        \<open>auto simp: job_dispatch_def op_bind_def job_get_def job_publish_def split: option.splits\<close>)
qed

theorem job_retry_effect_witness:
  "fst (job_retry (Some (\<lambda>_. Some ''down'')) 9 3 (one_job_service failed_job)) = Inl (JobEvent ''down'')
   \<and> fst (job_retry None 10 3 (snd (job_retry (Some (\<lambda>_. Some ''down'')) 9 3 (one_job_service failed_job))))
       = Inl (NotRetryable 3 Retrying)"
proof -
  have job: "get_job (js_store (one_job_service failed_job)) 3 = Some failed_job"
    by (simp add: one_job_service_def get_job_def tbl_get_def failed_job_def fresh_job_def)
  have st: "j_status failed_job = Failed" by (simp add: failed_job_def)
  from job_retry_effect [OF one_job_service_ok [OF failed_job_wf] job st,
      where producer = "Some (\<lambda>_. Some ''down'')" and now = 9 and producer' = None and now' = 10]
  show ?thesis by auto
qed

end
