(* ===== verification/Retention.thy ===== *)
theory Retention
  imports Jobs
begin

text \<open>
  Retention of finished collect jobs, \<open>crates/core-jobs/src/retention.rs\<close>: the rules of the
  configuration, the bounded batch loop \<open>run_filter\<close> and the two entry points \<open>run_once\<close> and
  \<open>run_custom\<close> over the store's \<open>purge_jobs\<close> and \<open>count_purgeable_jobs\<close>. The pause between batches
  changes no state and is left out. A storage error can only be the refusal of the filter, which
  happens before the first row of a run is deleted, so the error result carries no store.

  The lemmas give the exact number of rows a run deletes, show that a run removes nothing but
  expired finished jobs and ends within its batch budget, and that a dry run predicts it.
\<close>

record retention_config =
  rc_enabled :: bool
  rc_interval_secs :: nat
  rc_batch :: nat
  rc_batch_pause_ms :: nat
  rc_max_batches_per_run :: nat
  rc_collect_completed_days :: nat
  rc_collect_failed_days :: nat
  rc_collect_cancelled_days :: nat

record purge_rule =
  ru_job_type :: string
  ru_status :: job_status
  ru_days :: nat

record purge_rule_report =
  rp_job_type :: string
  rp_statuses :: "job_status list"
  rp_days :: nat
  rp_deleted :: nat
  rp_counted :: nat

record purge_report =
  pr_dry_run :: bool
  pr_deleted :: nat
  pr_counted :: nat
  pr_batches :: nat
  pr_truncated :: bool
  pr_rules :: "purge_rule_report list"

definition push_collect_rule :: "purge_rule list \<Rightarrow> job_status \<Rightarrow> nat \<Rightarrow> purge_rule list" where
  "push_collect_rule rules st days =
     (if days = 0 then rules
      else rules @ [\<lparr>ru_job_type = ''collect'', ru_status = st, ru_days = days\<rparr>])"

definition retention_rules :: "retention_config \<Rightarrow> purge_rule list" where
  "retention_rules c =
     push_collect_rule
       (push_collect_rule
          (push_collect_rule [] Completed (rc_collect_completed_days c))
          Failed (rc_collect_failed_days c))
       Cancelled (rc_collect_cancelled_days c)"

function purge_loop ::
  "retention_config \<Rightarrow> job_purge_filter \<Rightarrow> nat \<Rightarrow> purge_report \<Rightarrow> db
     \<Rightarrow> storage_error + (nat \<times> purge_report \<times> db)" where
  "purge_loop c f deleted rep d =
     (if rc_max_batches_per_run c \<le> pr_batches rep
      then Inr (deleted, rep\<lparr>pr_truncated := True\<rparr>, d)
      else
        (case purge_jobs f d of
           Inl e \<Rightarrow> Inl e
         | Inr (n, d') \<Rightarrow>
             (let rep' = rep\<lparr>pr_batches := pr_batches rep + 1\<rparr>; deleted' = deleted + n in
              if n = 0 then Inr (deleted', rep', d')
              else if n < pf_limit f then Inr (deleted', rep', d')
              else purge_loop c f deleted' rep' d')))"
  by pat_completeness auto
termination
  by (relation "measure (\<lambda>(c, f, n, rep, d). rc_max_batches_per_run c - pr_batches rep)") auto

declare purge_loop.simps [simp del]

definition run_filter ::
  "retention_config \<Rightarrow> job_purge_filter \<Rightarrow> bool \<Rightarrow> nat option \<Rightarrow> purge_report \<Rightarrow> db
     \<Rightarrow> storage_error + (purge_rule_report \<times> purge_report \<times> db)" where
  "run_filter c f dry_run days rep d =
     (let days = (case days of None \<Rightarrow> 0 | Some n \<Rightarrow> n) in
      if dry_run then
        rbind (count_purgeable_jobs f d) (\<lambda>counted.
          Inr (\<lparr>rp_job_type = pf_job_type f, rp_statuses = pf_statuses f, rp_days = days,
                rp_deleted = 0, rp_counted = counted\<rparr>, rep, d))
      else
        rbind (purge_loop c f 0 rep d) (\<lambda>(deleted, rep', d').
          Inr (\<lparr>rp_job_type = pf_job_type f, rp_statuses = pf_statuses f, rp_days = days,
                rp_deleted = deleted, rp_counted = deleted\<rparr>, rep', d')))"

definition empty_report :: "bool \<Rightarrow> purge_report" where
  "empty_report dry_run = \<lparr>pr_dry_run = dry_run, pr_deleted = 0, pr_counted = 0, pr_batches = 0,
     pr_truncated = False, pr_rules = []\<rparr>"

definition day_ms :: int where
  "day_ms = 86400000"

definition rule_filter :: "retention_config \<Rightarrow> time \<Rightarrow> purge_rule \<Rightarrow> job_purge_filter" where
  "rule_filter c now rule =
     \<lparr>pf_job_type = ru_job_type rule, pf_statuses = [ru_status rule],
      pf_older_than = now - day_ms * int (ru_days rule), pf_limit = rc_batch c\<rparr>"

fun run_rules ::
  "retention_config \<Rightarrow> time \<Rightarrow> bool \<Rightarrow> purge_rule list \<Rightarrow> purge_report \<Rightarrow> db
     \<Rightarrow> storage_error + (purge_report \<times> db)" where
  "run_rules c now dry_run [] rep d = Inr (rep, d)"
| "run_rules c now dry_run (rule # rules) rep d =
     (if pr_truncated rep then Inr (rep, d)
      else
        rbind (run_filter c (rule_filter c now rule) dry_run (Some (ru_days rule)) rep d)
          (\<lambda>(rr, rep', d').
             run_rules c now dry_run rules
               (rep'\<lparr>pr_deleted := pr_deleted rep' + rp_deleted rr,
                     pr_counted := pr_counted rep' + rp_counted rr,
                     pr_rules := pr_rules rep' @ [rr]\<rparr>) d'))"

definition run_once ::
  "retention_config \<Rightarrow> time \<Rightarrow> bool \<Rightarrow> db \<Rightarrow> storage_error + (purge_report \<times> db)" where
  "run_once c now dry_run d = run_rules c now dry_run (retention_rules c) (empty_report dry_run) d"

definition run_custom ::
  "retention_config \<Rightarrow> job_purge_filter \<Rightarrow> bool \<Rightarrow> nat \<Rightarrow> db
     \<Rightarrow> storage_error + (purge_report \<times> db)" where
  "run_custom c f dry_run days d =
     rbind (run_filter c f dry_run (Some days) (empty_report dry_run) d) (\<lambda>(rr, rep, d').
       Inr (rep\<lparr>pr_deleted := rp_deleted rr, pr_counted := rp_counted rr,
                pr_rules := pr_rules rep @ [rr]\<rparr>, d'))"

section \<open>One batch\<close>

definition purgeable_count :: "job_purge_filter \<Rightarrow> db \<Rightarrow> nat" where
  "purgeable_count f d = length (tbl_select (purgeable f) (db_jobs d))"

definition job_keys_ok :: "db \<Rightarrow> bool" where
  "job_keys_ok d \<longleftrightarrow> tbl_ok (db_jobs d) \<and> (\<forall>i j. get_job d i = Some j \<longrightarrow> j_id j = i)"

text \<open>
  Of a list with distinct keys, dropping what carries a key of the first \<open>n\<close> elements drops
  exactly those.
\<close>

lemma filter_not_in_take:
  "distinct (map f xs) \<Longrightarrow> filter (\<lambda>x. f x \<notin> f ` set (take n xs)) xs = drop n xs"
proof (induction xs arbitrary: n)
  case Nil
  then show ?case by simp
next
  case (Cons x xs)
  show ?case
  proof (cases n)
    case 0
    then show ?thesis by simp
  next
    case (Suc m)
    have "filter (\<lambda>y. f y \<notin> f ` set (take (Suc m) (x # xs))) xs =
        filter (\<lambda>y. f y \<notin> f ` set (take m xs)) xs"
      using Cons.prems by (intro filter_cong) (auto simp: image_iff)
    with Cons Suc show ?thesis by simp
  qed
qed

lemma length_filter_sort_key: "length (filter P (sort_key k xs)) = length (filter P xs)"
  by (simp add: filter_sort)

lemma purge_batch_props:
  assumes "job_keys_ok d"
  shows "length (purge_batch f d) = min (pf_limit f) (purgeable_count f d)"
    and "distinct (map j_id (purge_batch f d))"
    and "length (filter (\<lambda>j. j_id j \<notin> j_id ` set (purge_batch f d))
          (tbl_select (purgeable f) (db_jobs d)))
        = purgeable_count f d - length (purge_batch f d)"
proof -
  let ?sel = "tbl_select (purgeable f) (db_jobs d)"
  let ?srt = "sort_key (\<lambda>j. the (j_completed_at j)) ?sel"
  have dist: "distinct (map j_id ?sel)"
    using assms by (intro distinct_tbl_select_key) (auto simp: job_keys_ok_def get_job_def)
  then have dist': "distinct (map j_id ?srt)"
    by (simp add: distinct_map)
  show len: "length (purge_batch f d) = min (pf_limit f) (purgeable_count f d)"
    by (simp add: purge_batch_def purgeable_count_def)
  show "distinct (map j_id (purge_batch f d))"
    unfolding purge_batch_def take_map [symmetric] using dist' by (rule distinct_take)
  have "length (filter (\<lambda>j. j_id j \<notin> j_id ` set (purge_batch f d)) ?srt)
      = length (drop (pf_limit f) ?srt)"
    using filter_not_in_take [OF dist'] by (simp add: purge_batch_def)
  then show "length (filter (\<lambda>j. j_id j \<notin> j_id ` set (purge_batch f d)) ?sel)
      = purgeable_count f d - length (purge_batch f d)"
    by (simp add: length_filter_sort_key len purgeable_count_def)
qed

lemma tbl_select_filter_keys:
  assumes "job_keys_ok d"
  shows "tbl_select P (filter (\<lambda>(k, j). k \<notin> K) (db_jobs d))
    = filter (\<lambda>j. j_id j \<notin> K) (tbl_select P (db_jobs d))"
proof -
  have "\<forall>(k, j) \<in> set (db_jobs d). j_id j = k"
    using assms by (auto simp: job_keys_ok_def get_job_def tbl_get_iff)
  moreover have "tbl_select P (filter (\<lambda>(k, j). k \<notin> K) t) = filter (\<lambda>j. j_id j \<notin> K) (tbl_select P t)"
    if "\<forall>(k, j) \<in> set t. j_id j = k" for t
    using that by (induction t) (auto simp: tbl_select_def)
  ultimately show ?thesis by blast
qed

text \<open>What a run may have done to a store: rows only disappear, and only such as \<open>P\<close> allows.\<close>

definition jobs_purged :: "(job \<Rightarrow> bool) \<Rightarrow> db \<Rightarrow> db \<Rightarrow> bool" where
  "jobs_purged P d d' \<longleftrightarrow> d' = d\<lparr>db_jobs := db_jobs d'\<rparr> \<and>
     (\<forall>i. get_job d' i = get_job d i \<or>
        (get_job d' i = None \<and> (\<exists>j. get_job d i = Some j \<and> P j)))"

lemma jobs_purged_refl: "jobs_purged P d d"
  by (simp add: jobs_purged_def)

lemma jobs_purged_trans:
  assumes "jobs_purged P d d'" "jobs_purged P d' d''"
  shows "jobs_purged P d d''"
proof -
  have "d'' = d\<lparr>db_jobs := db_jobs d''\<rparr>"
    using assms by (metis (no_types, lifting) db.surjective db.update_convs(8) jobs_purged_def)
  then show ?thesis
    using assms unfolding jobs_purged_def by (metis option.distinct(1))
qed

lemma jobs_purged_mono: "jobs_purged P d d' \<Longrightarrow> (\<And>j. P j \<Longrightarrow> Q j) \<Longrightarrow> jobs_purged Q d d'"
  unfolding jobs_purged_def by blast

lemma jobs_purged_keys:
  "jobs_purged P d d' \<Longrightarrow> tbl_ok (db_jobs d') \<Longrightarrow> job_keys_ok d \<Longrightarrow> job_keys_ok d'"
  unfolding jobs_purged_def job_keys_ok_def by (metis option.distinct(1))

lemma purge_jobs_effect:
  assumes ok: "job_keys_ok d" and valid: "validate f = Inr ()"
  obtains d' where "purge_jobs f d = Inr (min (pf_limit f) (purgeable_count f d), d')"
    and "job_keys_ok d'" and "jobs_purged (purgeable f) d d'"
    and "purgeable_count f d' = purgeable_count f d - pf_limit f"
    and "\<And>g. (\<forall>j. purgeable f j \<longrightarrow> \<not> purgeable g j) \<Longrightarrow> purgeable_count g d' = purgeable_count g d"
proof -
  let ?K = "j_id ` set (purge_batch f d)"
  let ?d = "d\<lparr>db_jobs := filter (\<lambda>(k, j). k \<notin> ?K) (db_jobs d)\<rparr>"
  note props = purge_batch_props [OF ok, of f]
  have run: "purge_jobs f d = Inr (min (pf_limit f) (purgeable_count f d), ?d)"
    using valid props(1) by (simp add: purge_jobs_def Let_def)
  have sorted: "tbl_ok (db_jobs ?d)"
    using ok by (simp add: job_keys_ok_def tbl_ok_def sorted_wrt_map_filter)
  have batch: "purgeable f j \<and> get_job d (j_id j) = Some j" if "j \<in> set (purge_batch f d)" for j
    using purge_batch_subset [OF _ that] ok by (auto simp: job_keys_ok_def get_job_def)
  have get: "get_job ?d i = (if i \<in> ?K then None else get_job d i)" for i
    by (simp add: get_job_def tbl_get_filter_keys)
  have purged: "jobs_purged (purgeable f) d ?d"
    using batch get unfolding jobs_purged_def by auto
  have keys: "job_keys_ok ?d"
    by (rule jobs_purged_keys [OF purged sorted ok])
  have cnt: "purgeable_count f ?d = purgeable_count f d - pf_limit f"
    using props(1,3) by (simp add: purgeable_count_def tbl_select_filter_keys [OF ok])
  have other: "purgeable_count g ?d = purgeable_count g d"
    if disj: "\<forall>j. purgeable f j \<longrightarrow> \<not> purgeable g j" for g
  proof -
    have "j_id j \<notin> ?K" if "j \<in> set (tbl_select (purgeable g) (db_jobs d))" for j
    proof
      assume "j_id j \<in> ?K"
      then obtain j' where j': "j' \<in> set (purge_batch f d)" "j_id j' = j_id j" by auto
      from that ok have "purgeable g j" "get_job d (j_id j) = Some j"
        by (auto simp: set_tbl_select job_keys_ok_def get_job_def)
      with batch [OF j'(1)] j'(2) disj show False by auto
    qed
    then have "filter (\<lambda>j. j_id j \<notin> ?K) (tbl_select (purgeable g) (db_jobs d))
        = tbl_select (purgeable g) (db_jobs d)"
      by (simp add: filter_id_conv)
    then show ?thesis by (simp add: purgeable_count_def tbl_select_filter_keys [OF ok])
  qed
  show ?thesis by (rule that [OF run keys purged cnt other])
qed

section \<open>The batch loop\<close>

text \<open>
  The loop, in closed form: with a budget of \<open>m\<close> batches left it deletes
  \<open>min count (limit * m)\<close> rows, and stops as truncated exactly when it used up the budget.
\<close>

lemma purge_loop_exact:
  assumes "job_keys_ok d" "validate f = Inr ()"
    and "pr_batches rep \<le> rc_max_batches_per_run c"
    and "m = rc_max_batches_per_run c - pr_batches rep"
  shows "\<exists>rep' d'. purge_loop c f deleted rep d
        = Inr (deleted + min (purgeable_count f d) (pf_limit f * m), rep', d')
      \<and> job_keys_ok d' \<and> jobs_purged (purgeable f) d d'
      \<and> purgeable_count f d' = purgeable_count f d - pf_limit f * m
      \<and> (\<forall>g. (\<forall>j. purgeable f j \<longrightarrow> \<not> purgeable g j) \<longrightarrow> purgeable_count g d' = purgeable_count g d)
      \<and> pr_truncated rep' = (pr_truncated rep \<or> pf_limit f * m \<le> purgeable_count f d)
      \<and> pr_batches rep' \<le> rc_max_batches_per_run c
      \<and> pr_deleted rep' = pr_deleted rep \<and> pr_counted rep' = pr_counted rep
      \<and> pr_rules rep' = pr_rules rep \<and> pr_dry_run rep' = pr_dry_run rep"
  using assms
proof (induction m arbitrary: deleted rep d)
  case 0
  then show ?case
    by (subst purge_loop.simps) (auto simp: jobs_purged_refl)
next
  case (Suc m)
  let ?L = "pf_limit f" and ?n = "purgeable_count f d"
  let ?rep = "rep\<lparr>pr_batches := pr_batches rep + 1\<rparr>"
  have L: "1 \<le> ?L" using Suc.prems(2) by (simp add: validate_Inr_iff)
  from purge_jobs_effect [OF Suc.prems(1,2)]
  obtain d' where run: "purge_jobs f d = Inr (min ?L ?n, d')"
    and keys: "job_keys_ok d'" and purged: "jobs_purged (purgeable f) d d'"
    and cnt: "purgeable_count f d' = ?n - ?L"
    and other: "\<And>g. (\<forall>j. purgeable f j \<longrightarrow> \<not> purgeable g j) \<Longrightarrow>
        purgeable_count g d' = purgeable_count g d"
    by metis
  have more: "\<not> rc_max_batches_per_run c \<le> pr_batches rep" using Suc.prems(4) by simp
  show ?case
  proof (cases "?n < ?L")
    case True
    have "purge_loop c f deleted rep d = Inr (deleted + ?n, ?rep, d')"
      using run more True L by (subst purge_loop.simps) (auto simp: Let_def)
    moreover have "?n < ?L * Suc m" using True by simp
    ultimately show ?thesis
      using keys purged cnt other Suc.prems(3,4) True
      by (intro exI [of _ ?rep] exI [of _ d']) (auto simp: min_def)
  next
    case False
    have step: "purge_loop c f deleted rep d = purge_loop c f (deleted + ?L) ?rep d'"
      using run more False L by (subst purge_loop.simps) (auto simp: Let_def min_def)
    have m: "m = rc_max_batches_per_run c - pr_batches ?rep" using Suc.prems(4) by simp
    have le: "pr_batches ?rep \<le> rc_max_batches_per_run c" using Suc.prems(3) more by simp
    from Suc.IH [OF keys Suc.prems(2) le m, of "deleted + ?L"] obtain rep' d'' where
      IH: "purge_loop c f (deleted + ?L) ?rep d'
          = Inr (deleted + ?L + min (purgeable_count f d') (?L * m), rep', d'')"
        "job_keys_ok d''" "jobs_purged (purgeable f) d' d''"
        "purgeable_count f d'' = purgeable_count f d' - ?L * m"
        "\<And>g. (\<forall>j. purgeable f j \<longrightarrow> \<not> purgeable g j) \<Longrightarrow>
          purgeable_count g d'' = purgeable_count g d'"
        "pr_truncated rep' = (pr_truncated ?rep \<or> ?L * m \<le> purgeable_count f d')"
        "pr_batches rep' \<le> rc_max_batches_per_run c"
        "pr_deleted rep' = pr_deleted ?rep" "pr_counted rep' = pr_counted ?rep"
        "pr_rules rep' = pr_rules ?rep" "pr_dry_run rep' = pr_dry_run ?rep"
      by blast
    have "deleted + ?L + min (purgeable_count f d') (?L * m) = deleted + min ?n (?L * Suc m)"
      using False cnt by (auto simp: min_def)
    moreover have "(?L * m \<le> ?n - ?L) = (?L * Suc m \<le> ?n)" using False by auto
    ultimately show ?thesis
      using step IH cnt other jobs_purged_trans [OF purged IH(3)] False
      by (intro exI [of _ rep'] exI [of _ d'']) auto
  qed
qed

lemma retention_rules_eq:
  "retention_rules c = filter (\<lambda>r. 0 < ru_days r)
     [\<lparr>ru_job_type = ''collect'', ru_status = Completed, ru_days = rc_collect_completed_days c\<rparr>,
      \<lparr>ru_job_type = ''collect'', ru_status = Failed, ru_days = rc_collect_failed_days c\<rparr>,
      \<lparr>ru_job_type = ''collect'', ru_status = Cancelled, ru_days = rc_collect_cancelled_days c\<rparr>]"
  by (simp add: retention_rules_def push_collect_rule_def)

lemma retention_rule_props:
  assumes "r \<in> set (retention_rules c)"
  shows "ru_job_type r = ''collect''" "is_purge_eligible (ru_status r)" "0 < ru_days r"
  using assms by (auto simp: retention_rules_eq split: if_splits)

lemma retention_rules_distinct: "distinct (map ru_status (retention_rules c))"
  by (simp add: retention_rules_eq)

lemma rule_filter_valid:
  assumes "r \<in> set (retention_rules c)" "1 \<le> rc_batch c" "rc_batch c \<le> 100000"
  shows "validate (rule_filter c now r) = Inr ()"
  using retention_rule_props [OF assms(1)] assms(2,3)
  by (simp add: validate_Inr_iff rule_filter_def trim_def trim_start_def trim_end_def is_ws_def)

lemma rule_filter_disjoint:
  "ru_status r \<noteq> ru_status r' \<Longrightarrow>
     purgeable (rule_filter c now r) j \<Longrightarrow> \<not> purgeable (rule_filter c now r') j"
  by (auto simp: purgeable_def rule_filter_def)

section \<open>Whole runs\<close>

definition rules_count :: "retention_config \<Rightarrow> time \<Rightarrow> purge_rule list \<Rightarrow> db \<Rightarrow> nat" where
  "rules_count c now rs d = sum_list (map (\<lambda>r. purgeable_count (rule_filter c now r) d) rs)"

definition expired_by :: "retention_config \<Rightarrow> time \<Rightarrow> purge_rule list \<Rightarrow> job \<Rightarrow> bool" where
  "expired_by c now rs j \<longleftrightarrow> (\<exists>r \<in> set rs. purgeable (rule_filter c now r) j)"

lemma run_filter_real:
  assumes "job_keys_ok d" "validate f = Inr ()" "pr_batches rep \<le> rc_max_batches_per_run c"
  obtains rr rep' d' m where "run_filter c f False days rep d = Inr (rr, rep', d')"
    and "m = rc_max_batches_per_run c - pr_batches rep"
    and "rp_deleted rr = min (purgeable_count f d) (pf_limit f * m)" "rp_counted rr = rp_deleted rr"
    and "job_keys_ok d'" "jobs_purged (purgeable f) d d'"
    and "purgeable_count f d' = purgeable_count f d - pf_limit f * m"
    and "\<And>g. (\<forall>j. purgeable f j \<longrightarrow> \<not> purgeable g j) \<Longrightarrow> purgeable_count g d' = purgeable_count g d"
    and "pr_truncated rep' = (pr_truncated rep \<or> pf_limit f * m \<le> purgeable_count f d)"
    and "pr_batches rep' \<le> rc_max_batches_per_run c"
    and "pr_deleted rep' = pr_deleted rep" "pr_counted rep' = pr_counted rep"
proof -
  let ?m = "rc_max_batches_per_run c - pr_batches rep"
  from purge_loop_exact [OF assms refl, of 0] obtain rep' d' where
    loop: "purge_loop c f 0 rep d = Inr (min (purgeable_count f d) (pf_limit f * ?m), rep', d')"
    and facts: "job_keys_ok d'" "jobs_purged (purgeable f) d d'"
      "purgeable_count f d' = purgeable_count f d - pf_limit f * ?m"
    and other: "\<And>g. (\<forall>j. purgeable f j \<longrightarrow> \<not> purgeable g j) \<Longrightarrow>
        purgeable_count g d' = purgeable_count g d"
    and rep': "pr_truncated rep' = (pr_truncated rep \<or> pf_limit f * ?m \<le> purgeable_count f d)"
      "pr_batches rep' \<le> rc_max_batches_per_run c"
      "pr_deleted rep' = pr_deleted rep" "pr_counted rep' = pr_counted rep"
    by auto
  show ?thesis
    by (rule that [OF _ refl _ _ facts other rep', of
          "\<lparr>rp_job_type = pf_job_type f, rp_statuses = pf_statuses f,
             rp_days = (case days of None \<Rightarrow> 0 | Some n \<Rightarrow> n),
             rp_deleted = min (purgeable_count f d) (pf_limit f * ?m),
             rp_counted = min (purgeable_count f d) (pf_limit f * ?m)\<rparr>"])
      (simp_all add: run_filter_def loop)
qed

lemma run_rules_real:
  assumes "job_keys_ok d" "1 \<le> rc_batch c" "rc_batch c \<le> 100000"
    and "set rs \<subseteq> set (retention_rules c)" "distinct (map ru_status rs)"
    and "pr_batches rep \<le> rc_max_batches_per_run c"
  shows "\<exists>rep' d'. run_rules c now False rs rep d = Inr (rep', d')
    \<and> job_keys_ok d' \<and> jobs_purged (expired_by c now rs) d d'
    \<and> pr_batches rep' \<le> rc_max_batches_per_run c
    \<and> (\<not> pr_truncated rep' \<longrightarrow> \<not> pr_truncated rep
        \<and> rules_count c now rs d' = 0 \<and> pr_deleted rep' = pr_deleted rep + rules_count c now rs d)
    \<and> (\<forall>g. (\<forall>j. expired_by c now rs j \<longrightarrow> \<not> purgeable g j) \<longrightarrow>
         purgeable_count g d' = purgeable_count g d)"
  using assms
proof (induction rs arbitrary: rep d)
  case Nil
  then show ?case by (simp add: jobs_purged_refl rules_count_def)
next
  case (Cons r rs)
  let ?f = "rule_filter c now r"
  have exp: "expired_by c now (r # rs) j \<longleftrightarrow> purgeable ?f j \<or> expired_by c now rs j" for j
    by (auto simp: expired_by_def)
  have disj: "\<not> expired_by c now rs j" if "purgeable ?f j" for j
    using Cons.prems(5) that by (auto simp: expired_by_def dest: rule_filter_disjoint [rotated])
  show ?case
  proof (cases "pr_truncated rep")
    case True
    with Cons.prems show ?thesis by (auto simp: jobs_purged_refl)
  next
    case False
    have valid: "validate ?f = Inr ()"
      using Cons.prems by (intro rule_filter_valid) auto
    from run_filter_real [OF Cons.prems(1) valid Cons.prems(6), of "Some (ru_days r)"]
    obtain rr rep1 d1 m where r1: "run_filter c ?f False (Some (ru_days r)) rep d = Inr (rr, rep1, d1)"
      and del: "rp_deleted rr = min (purgeable_count ?f d) (pf_limit ?f * m)"
      and ok1: "job_keys_ok d1" and pur1: "jobs_purged (purgeable ?f) d d1"
      and cnt1: "purgeable_count ?f d1 = purgeable_count ?f d - pf_limit ?f * m"
      and oth1: "\<And>g. (\<forall>j. purgeable ?f j \<longrightarrow> \<not> purgeable g j) \<Longrightarrow>
          purgeable_count g d1 = purgeable_count g d"
      and tr1: "pr_truncated rep1 = (pr_truncated rep \<or> pf_limit ?f * m \<le> purgeable_count ?f d)"
      and b1: "pr_batches rep1 \<le> rc_max_batches_per_run c" and pd1: "pr_deleted rep1 = pr_deleted rep"
      by metis
    let ?rep = "rep1\<lparr>pr_deleted := pr_deleted rep1 + rp_deleted rr,
        pr_counted := pr_counted rep1 + rp_counted rr, pr_rules := pr_rules rep1 @ [rr]\<rparr>"
    have "set rs \<subseteq> set (retention_rules c)" "distinct (map ru_status rs)"
      "pr_batches ?rep \<le> rc_max_batches_per_run c"
      using Cons.prems(4,5) b1 by auto
    from Cons.IH [OF ok1 Cons.prems(2,3) this] obtain rep2 d2 where
      r2: "run_rules c now False rs ?rep d1 = Inr (rep2, d2)" and ok2: "job_keys_ok d2"
      and pur2: "jobs_purged (expired_by c now rs) d1 d2"
      and b2: "pr_batches rep2 \<le> rc_max_batches_per_run c"
      and nt2: "\<not> pr_truncated rep2 \<longrightarrow> \<not> pr_truncated ?rep \<and> rules_count c now rs d2 = 0
          \<and> pr_deleted rep2 = pr_deleted ?rep + rules_count c now rs d1"
      and oth2: "\<And>g. (\<forall>j. expired_by c now rs j \<longrightarrow> \<not> purgeable g j) \<Longrightarrow>
          purgeable_count g d2 = purgeable_count g d1"
      by blast
    have run: "run_rules c now False (r # rs) rep d = Inr (rep2, d2)"
      using False r1 r2 by simp
    have purged: "jobs_purged (expired_by c now (r # rs)) d d2"
      by (rule jobs_purged_trans [OF jobs_purged_mono [OF pur1] jobs_purged_mono [OF pur2]])
        (simp_all add: exp)
    have same: "rules_count c now rs d1 = rules_count c now rs d"
      unfolding rules_count_def
      by (rule arg_cong [of _ _ sum_list], rule map_cong [OF refl], rule oth1)
        (use disj in \<open>auto simp: expired_by_def\<close>)
    have keep: "purgeable_count ?f d2 = purgeable_count ?f d1"
      by (rule oth2) (use disj in blast)
    have others: "\<forall>g. (\<forall>j. expired_by c now (r # rs) j \<longrightarrow> \<not> purgeable g j) \<longrightarrow>
        purgeable_count g d2 = purgeable_count g d"
      using oth1 oth2 by (simp add: exp)
    have finished: "\<not> pr_truncated rep \<and> rules_count c now (r # rs) d2 = 0
        \<and> pr_deleted rep2 = pr_deleted rep + rules_count c now (r # rs) d" if "\<not> pr_truncated rep2"
      using nt2 that tr1 cnt1 del pd1 same keep by (auto simp: rules_count_def min_def)
    show ?thesis
      by (intro exI [of _ rep2] exI [of _ d2] conjI run ok2 purged b2 impI finished others)
  qed
qed

lemma run_rules_dry:
  assumes "\<And>r. r \<in> set rs \<Longrightarrow> validate (rule_filter c now r) = Inr ()" "\<not> pr_truncated rep"
  shows "\<exists>rep'. run_rules c now True rs rep d = Inr (rep', d)
    \<and> pr_counted rep' = pr_counted rep + rules_count c now rs d \<and> pr_deleted rep' = pr_deleted rep
    \<and> pr_batches rep' = pr_batches rep \<and> \<not> pr_truncated rep'"
  using assms
proof (induction rs arbitrary: rep)
  case Nil
  then show ?case by (simp add: rules_count_def)
next
  case (Cons r rs)
  let ?f = "rule_filter c now r"
  have "validate ?f = Inr ()" using Cons.prems(1) by simp
  then have "validate_scope ?f = Inr ()"
    by (cases "validate_scope ?f") (auto simp: validate_def)
  then have run: "run_filter c ?f True (Some (ru_days r)) rep d =
      Inr (\<lparr>rp_job_type = pf_job_type ?f, rp_statuses = pf_statuses ?f, rp_days = ru_days r,
            rp_deleted = 0, rp_counted = purgeable_count ?f d\<rparr>, rep, d)"
    by (simp add: run_filter_def count_purgeable_jobs_def purgeable_count_def)
  let ?rr = "\<lparr>rp_job_type = pf_job_type ?f, rp_statuses = pf_statuses ?f, rp_days = ru_days r,
      rp_deleted = 0, rp_counted = purgeable_count ?f d\<rparr>"
  let ?rep = "rep\<lparr>pr_deleted := pr_deleted rep + rp_deleted ?rr,
      pr_counted := pr_counted rep + rp_counted ?rr, pr_rules := pr_rules rep @ [?rr]\<rparr>"
  have "run_rules c now True (r # rs) rep d = run_rules c now True rs ?rep d"
    using Cons.prems(2) run by simp
  moreover obtain rep' where "run_rules c now True rs ?rep d = Inr (rep', d)"
    "pr_counted rep' = pr_counted ?rep + rules_count c now rs d" "pr_deleted rep' = pr_deleted ?rep"
    "pr_batches rep' = pr_batches ?rep" "\<not> pr_truncated rep'"
    using Cons.IH [of ?rep] Cons.prems by auto
  ultimately show ?case
    by (intro exI [of _ rep']) (simp add: rules_count_def)
qed

text \<open>
  C27: One retention run, with the batch size the configuration check allows, always finishes
  within its batch budget. It removes nothing but collect jobs that a rule of the configuration
  covers: finished (completed, failed or cancelled) and finished longer ago than the rule's days;
  everything else in the store is untouched. Unless the report says it was truncated, no
  removable job is left, and the report counts exactly the removed ones.
\<close>

theorem retention_run_once_correct:
  assumes "job_keys_ok d" "1 \<le> rc_batch c" "rc_batch c \<le> 100000"
  shows "\<exists>rep d'. run_once c now False d = Inr (rep, d')
    \<and> pr_batches rep \<le> rc_max_batches_per_run c
    \<and> d' = d\<lparr>db_jobs := db_jobs d'\<rparr>
    \<and> (\<forall>i. get_job d' i \<noteq> get_job d i \<longrightarrow> get_job d' i = None \<and>
         (\<exists>j t r. get_job d i = Some j \<and> r \<in> set (retention_rules c) \<and> j_type j = ''collect''
            \<and> j_status j = ru_status r \<and> j_status j \<in> {Completed, Failed, Cancelled}
            \<and> j_completed_at j = Some t \<and> t < now - day_ms * int (ru_days r)))
    \<and> (\<not> pr_truncated rep \<longrightarrow>
         pr_deleted rep = rules_count c now (retention_rules c) d
         \<and> (\<forall>i j. get_job d' i = Some j \<longrightarrow> \<not> expired_by c now (retention_rules c) j))"
proof -
  from run_rules_real [OF assms subset_refl retention_rules_distinct, of "empty_report False" now]
  obtain rep d' where run: "run_rules c now False (retention_rules c) (empty_report False) d = Inr (rep, d')"
    and keys: "job_keys_ok d'" and purged: "jobs_purged (expired_by c now (retention_rules c)) d d'"
    and b: "pr_batches rep \<le> rc_max_batches_per_run c"
    and nt: "\<not> pr_truncated rep \<longrightarrow> rules_count c now (retention_rules c) d' = 0
        \<and> pr_deleted rep = rules_count c now (retention_rules c) d"
    by (auto simp: empty_report_def)
  have why: "\<exists>t r. r \<in> set (retention_rules c) \<and> j_type j = ''collect'' \<and> j_status j = ru_status r
      \<and> j_status j \<in> {Completed, Failed, Cancelled} \<and> j_completed_at j = Some t
      \<and> t < now - day_ms * int (ru_days r)" if "expired_by c now (retention_rules c) j" for j
  proof -
    from that obtain r where r: "r \<in> set (retention_rules c)" "purgeable (rule_filter c now r) j"
      by (auto simp: expired_by_def)
    from retention_rule_props [OF r(1)] r show ?thesis
      by (cases "ru_status r") (auto simp: purgeable_def rule_filter_def split: option.splits)
  qed
  have left: "\<not> expired_by c now (retention_rules c) j"
    if "\<not> pr_truncated rep" "get_job d' i = Some j" for i j
  proof
    assume "expired_by c now (retention_rules c) j"
    then obtain r where r: "r \<in> set (retention_rules c)" "purgeable (rule_filter c now r) j"
      by (auto simp: expired_by_def)
    from nt that(1) r(1) have "purgeable_count (rule_filter c now r) d' = 0"
      by (simp add: rules_count_def sum_list_eq_0_iff)
    with keys that(2) r(2) show False
      by (auto simp: purgeable_count_def job_keys_ok_def get_job_def tbl_select_empty_iff)
  qed
  from run b purged nt why left show ?thesis
    unfolding run_once_def jobs_purged_def
    by (intro exI [of _ rep] exI [of _ d'] conjI) (metis+)
qed

text \<open>
  A store with two collect jobs, one of them expired, and a job of another type that is older
  than any rule.
\<close>

definition sample_job :: "uuid \<Rightarrow> string \<Rightarrow> job_status \<Rightarrow> time \<Rightarrow> job" where
  "sample_job i ty st t = \<lparr>j_id = i, j_type = ty, j_status = st, j_correlation_id = None,
     j_created_at = 0, j_started_at = Some 0, j_completed_at = Some t, j_retry_count = 0,
     j_error = None, j_parameters = None\<rparr>"

definition sample_jobs_db :: db where
  "sample_jobs_db = empty_db\<lparr>db_jobs :=
     [(1, sample_job 1 ''collect'' Completed 5), (2, sample_job 2 ''collect'' Completed 900000000),
      (3, sample_job 3 ''import'' Completed 5)]\<rparr>"

definition sample_retention :: retention_config where
  "sample_retention = \<lparr>rc_enabled = True, rc_interval_secs = 3600, rc_batch = 1,
     rc_batch_pause_ms = 0, rc_max_batches_per_run = 5, rc_collect_completed_days = 7,
     rc_collect_failed_days = 30, rc_collect_cancelled_days = 0\<rparr>"

lemma sample_jobs_ok: "job_keys_ok sample_jobs_db"
  by (auto simp: job_keys_ok_def sample_jobs_db_def sample_job_def get_job_def tbl_ok_def tbl_get_def
      split: if_splits)

theorem retention_run_once_correct_witness:
  "\<exists>rep d'. run_once sample_retention 1000000000 False sample_jobs_db = Inr (rep, d')
    \<and> pr_batches rep \<le> 5
    \<and> (\<not> pr_truncated rep \<longrightarrow>
         pr_deleted rep = rules_count sample_retention 1000000000
           (retention_rules sample_retention) sample_jobs_db)"
  using retention_run_once_correct
    [OF sample_jobs_ok, where c = sample_retention and now = 1000000000]
  by (auto simp: sample_retention_def)

text \<open>
  A dry run changes nothing, starts no batch and reports no deletion, and what it counts is
  what a real run at the same moment deletes, unless that run is truncated by its batch budget.
\<close>

theorem retention_dry_run_predicts:
  assumes "job_keys_ok d" "1 \<le> rc_batch c" "rc_batch c \<le> 100000"
  shows "\<exists>dry rep d'. run_once c now True d = Inr (dry, d)
    \<and> run_once c now False d = Inr (rep, d')
    \<and> pr_deleted dry = 0 \<and> pr_batches dry = 0 \<and> \<not> pr_truncated dry
    \<and> (\<not> pr_truncated rep \<longrightarrow> pr_deleted rep = pr_counted dry)"
proof -
  from run_rules_dry [OF rule_filter_valid [OF _ assms(2,3)],
      where rs = "retention_rules c" and now = now and rep = "empty_report True" and d = d]
  obtain dry where "run_rules c now True (retention_rules c) (empty_report True) d = Inr (dry, d)"
    "pr_counted dry = rules_count c now (retention_rules c) d"
    "pr_deleted dry = 0" "pr_batches dry = 0" "\<not> pr_truncated dry"
    by (auto simp: empty_report_def)
  moreover from run_rules_real [OF assms subset_refl retention_rules_distinct, of "empty_report False" now]
  obtain rep d' where
    "run_rules c now False (retention_rules c) (empty_report False) d = Inr (rep, d')"
    "\<not> pr_truncated rep \<longrightarrow> pr_deleted rep = rules_count c now (retention_rules c) d"
    by (auto simp: empty_report_def)
  ultimately show ?thesis
    unfolding run_once_def by (intro exI [of _ dry] exI [of _ rep] exI [of _ d']) simp
qed

theorem retention_dry_run_predicts_witness:
  "\<exists>dry rep d'. run_once sample_retention 1000000000 True sample_jobs_db = Inr (dry, sample_jobs_db)
    \<and> run_once sample_retention 1000000000 False sample_jobs_db = Inr (rep, d')
    \<and> (\<not> pr_truncated rep \<longrightarrow> pr_deleted rep = pr_counted dry)"
  using retention_dry_run_predicts
    [OF sample_jobs_ok, where c = sample_retention and now = 1000000000]
  by (auto simp: sample_retention_def)

end
