(* ===== verification/Constraints.thy ===== *)
theory Constraints
  imports Store
begin

text \<open>
  The constraints of \<open>migrations/sqlite\<close> on the tables that entity resolution writes (primary
  keys, UNIQUE indexes, foreign keys), as one predicate \<open>store_ok\<close>, and the contract of a checked
  write: an upsert or a deletion that succeeds keeps them. The contract is the locale
  \<open>checked_write\<close>, interpreted on every write of the store; what a component built from such
  writes keeps then follows without opening the store again.

  The second part gives the closed form of the writes that a merge makes to rows it has read.
\<close>

section \<open>The constraints\<close>

definition entity_exists :: "db \<Rightarrow> uuid \<Rightarrow> bool" where
  "entity_exists d i \<longleftrightarrow> get_entity d i \<noteq> None"

definition entities_ok :: "db \<Rightarrow> bool" where
  "entities_ok d \<longleftrightarrow> tbl_keyed e_id (db_entities d) \<and> tbl_unique entity_natural_key (db_entities d) \<and>
     (\<forall>i e. get_entity d i = Some e \<longrightarrow> (\<forall>j. e_merged_into e = Some j \<longrightarrow> entity_exists d j))"

definition relationships_ok :: "db \<Rightarrow> bool" where
  "relationships_ok d \<longleftrightarrow> tbl_keyed r_id (db_relationships d) \<and>
     tbl_unique rel_triple (db_relationships d) \<and>
     (\<forall>i \<in> set (db_candidate_evidence_relationships d). get_relationship d i \<noteq> None)"

definition evidence_fk :: "db \<Rightarrow> relationship_evidence \<Rightarrow> bool" where
  "evidence_fk d ev \<longleftrightarrow> get_relationship d (re_relationship_id ev) \<noteq> None \<and>
     fk_opt (db_raw_evidence_keys d) (re_raw_evidence_id ev)"

definition evidence_ok :: "db \<Rightarrow> bool" where
  "evidence_ok d \<longleftrightarrow> tbl_keyed re_id (db_relationship_evidence d) \<and>
     (\<forall>i ev. get_relationship_evidence d i = Some ev \<longrightarrow> evidence_fk d ev)"

definition aliases_ok :: "db \<Rightarrow> bool" where
  "aliases_ok d \<longleftrightarrow> tbl_keyed ea_id (db_entity_aliases d) \<and>
     (\<forall>i a. get_entity_alias d i = Some a \<longrightarrow>
        entity_exists d (ea_entity_id a) \<and> fk_opt (db_source_keys d) (ea_source_id a))"

definition identifiers_ok :: "db \<Rightarrow> bool" where
  "identifiers_ok d \<longleftrightarrow> tbl_keyed ei_id (db_entity_identifiers d) \<and>
     tbl_unique identifier_natural_key (db_entity_identifiers d) \<and>
     (\<forall>i x. get_entity_identifier d i = Some x \<longrightarrow>
        entity_exists d (ei_entity_id x) \<and> fk_opt (db_source_keys d) (ei_source_id x))"

definition extractions_ok :: "db \<Rightarrow> bool" where
  "extractions_ok d \<longleftrightarrow> tbl_keyed ex_id (db_entity_extractions d) \<and>
     (\<forall>i x. get_entity_extraction d i = Some x \<longrightarrow> entity_exists d (ex_entity_id x))"

definition history_ok :: "db \<Rightarrow> bool" where
  "history_ok d \<longleftrightarrow> tbl_keyed mh_id (db_merge_history d) \<and>
     (\<forall>i h. get_merge_history d i = Some h \<longrightarrow> entity_exists d (mh_survivor_id h))"

definition store_ok :: "db \<Rightarrow> bool" where
  "store_ok d \<longleftrightarrow> entities_ok d \<and> relationships_ok d \<and> evidence_ok d \<and> aliases_ok d \<and>
     identifiers_ok d \<and> extractions_ok d \<and> history_ok d"

lemmas store_ok_parts =
  entities_ok_def relationships_ok_def evidence_ok_def evidence_fk_def aliases_ok_def
  identifiers_ok_def extractions_ok_def history_ok_def entity_exists_def

lemmas store_gets =
  get_entity_def get_relationship_def get_relationship_evidence_def get_entity_alias_def
  get_entity_identifier_def get_entity_extraction_def get_merge_history_def

lemma fk_opt_keys: "fk_opt (map fst t) x \<longleftrightarrow> (\<forall>k. x = Some k \<longrightarrow> tbl_get t k \<noteq> None)"
  by (cases x) (auto simp: fk_opt_def in_keys_iff)

lemma store_ok_empty: "store_ok empty_db"
  by (simp add: store_ok_def store_ok_parts store_gets empty_db_def tbl_keyed_def tbl_unique_def
      tbl_ok_def)

lemma store_ok_keyed:
  assumes "store_ok d"
  shows "tbl_keyed e_id (db_entities d)" "tbl_keyed r_id (db_relationships d)"
    "tbl_keyed re_id (db_relationship_evidence d)" "tbl_keyed ea_id (db_entity_aliases d)"
    "tbl_keyed ei_id (db_entity_identifiers d)" "tbl_keyed ex_id (db_entity_extractions d)"
    "tbl_keyed mh_id (db_merge_history d)"
  using assms by (simp_all add: store_ok_def entities_ok_def relationships_ok_def evidence_ok_def
      aliases_ok_def identifiers_ok_def extractions_ok_def history_ok_def)

section \<open>Checked writes\<close>

locale checked_write =
  fixes upd :: "'x \<Rightarrow> 's \<Rightarrow> 'e + 's"
    and good :: "'s \<Rightarrow> bool"
  assumes keeps: "good s \<Longrightarrow> upd x s = Inr s' \<Longrightarrow> good s'"
begin

lemma rfold_keeps: "good s \<Longrightarrow> rfold upd xs s = Inr s' \<Longrightarrow> good s'"
  by (induction xs arbitrary: s) (auto split: sum.splits dest: keeps)

lemma rfold_map_keeps: "good s \<Longrightarrow> rfold (\<lambda>y. upd (f y)) ys s = Inr s' \<Longrightarrow> good s'"
  by (induction ys arbitrary: s) (auto split: sum.splits dest: keeps)

end

lemma put_entity_keeps:
  assumes ok: "store_ok d" and run: "put_entity e d = Inr d'"
  shows "store_ok d'"
proof -
  from run have cf: "\<not> (\<exists>r \<in> set (map snd (db_entities d)).
        e_id r \<noteq> e_id e \<and> entity_natural_key r = entity_natural_key e)"
    and fk: "fk_opt (e_id e # map fst (db_entities d)) (e_merged_into e)"
    and d': "d' = d\<lparr>db_entities := tbl_put (e_id e) e (db_entities d)\<rparr>"
    by (auto simp: put_entity_def split: if_splits)
  have ex: "entity_exists d' i \<longleftrightarrow> i = e_id e \<or> entity_exists d i" for i
    by (simp add: entity_exists_def get_entity_def d')
  have "entities_ok d'"
    using ok cf fk ex
    by (auto simp: store_ok_def entities_ok_def d' get_entity_def tbl_keyed_put tbl_unique_put
        fk_opt_def entity_exists_def in_keys_iff split: if_splits option.splits)
  with ok ex show ?thesis
    by (auto simp: store_ok_def relationships_ok_def evidence_ok_def evidence_fk_def aliases_ok_def
        identifiers_ok_def extractions_ok_def history_ok_def d' get_relationship_def
        get_relationship_evidence_def get_entity_alias_def get_entity_identifier_def
        get_entity_extraction_def get_merge_history_def)
qed

lemma put_relationship_keeps:
  assumes "store_ok d" "put_relationship r d = Inr d'"
  shows "store_ok d'"
proof -
  from assms(2) have cf: "\<not> (\<exists>x \<in> set (map snd (db_relationships d)).
        r_id x \<noteq> r_id r \<and> rel_triple x = rel_triple r)"
    and d': "d' = d\<lparr>db_relationships := tbl_put (r_id r) r (db_relationships d)\<rparr>"
    by (auto simp: put_relationship_def split: if_splits)
  show ?thesis
    using assms(1) cf
    by (auto simp: store_ok_def store_ok_parts store_gets d' tbl_keyed_put tbl_unique_put
        split: if_splits)
qed

lemma put_relationship_evidence_keeps:
  assumes "store_ok d" "put_relationship_evidence ev d = Inr d'"
  shows "store_ok d'"
  using assms
  by (auto simp: put_relationship_evidence_def store_ok_def store_ok_parts store_gets
      tbl_keyed_put in_keys_iff split: if_splits)

lemma put_entity_alias_keeps:
  assumes "store_ok d" "put_entity_alias a d = Inr d'"
  shows "store_ok d'"
  using assms
  by (auto simp: put_entity_alias_def store_ok_def store_ok_parts store_gets
      tbl_keyed_put in_keys_iff split: if_splits)

lemma put_entity_identifier_keeps:
  assumes "store_ok d" "put_entity_identifier x d = Inr d'"
  shows "store_ok d'"
proof -
  from assms(2) have cf: "\<not> (\<exists>r \<in> set (map snd (db_entity_identifiers d)).
        ei_id r \<noteq> ei_id x \<and> identifier_natural_key r = identifier_natural_key x)"
    and fk: "get_entity d (ei_entity_id x) \<noteq> None" "fk_opt (db_source_keys d) (ei_source_id x)"
    and d': "d' = d\<lparr>db_entity_identifiers := tbl_put (ei_id x) x (db_entity_identifiers d)\<rparr>"
    by (auto simp: put_entity_identifier_def get_entity_def in_keys_iff split: if_splits)
  show ?thesis
    using assms(1) cf fk
    by (auto simp: store_ok_def store_ok_parts store_gets d' tbl_keyed_put tbl_unique_put
        split: if_splits)
qed

lemma put_entity_extraction_keeps:
  assumes "store_ok d" "put_entity_extraction x d = Inr d'"
  shows "store_ok d'"
  using assms
  by (auto simp: put_entity_extraction_def store_ok_def store_ok_parts store_gets
      tbl_keyed_put in_keys_iff split: if_splits)

lemma put_merge_history_keeps:
  assumes "store_ok d" "put_merge_history h d = Inr d'"
  shows "store_ok d'"
  using assms
  by (auto simp: put_merge_history_def store_ok_def store_ok_parts store_gets
      tbl_keyed_put in_keys_iff split: if_splits)

lemma delete_relationship_keeps:
  assumes "store_ok d" "delete_relationship i d = Inr (b, d')"
  shows "store_ok d'"
proof (cases "get_relationship d i")
  case None
  with assms show ?thesis by (simp add: delete_relationship_def)
next
  case (Some r)
  with assms(2) have nc: "i \<notin> set (db_candidate_evidence_relationships d)"
    and d': "d' = d\<lparr>db_relationships := tbl_del i (db_relationships d),
      db_relationship_evidence :=
        tbl_delete_where (\<lambda>ev. re_relationship_id ev = i) (db_relationship_evidence d)\<rparr>"
    by (auto simp: delete_relationship_def split: if_splits)
  have rel: "relationships_ok d'"
  proof -
    from assms(1) have "tbl_unique rel_triple (tbl_del i (db_relationships d))"
      by (auto simp: store_ok_def relationships_ok_def tbl_unique_def tbl_del_def)
    with assms(1) nc show ?thesis
      by (auto simp: store_ok_def relationships_ok_def get_relationship_def d' tbl_keyed_del)
  qed
  have "evidence_ok d'"
    using assms(1) by (auto simp: store_ok_def evidence_ok_def evidence_fk_def d'
        get_relationship_def get_relationship_evidence_def tbl_keyed_delete_where tbl_keyedD
        tbl_get_delete_where split: option.splits if_splits)
  with rel assms(1) show ?thesis
    by (auto simp: store_ok_def entities_ok_def aliases_ok_def identifiers_ok_def
        extractions_ok_def history_ok_def entity_exists_def d' get_entity_def
        get_entity_alias_def get_entity_identifier_def get_entity_extraction_def
        get_merge_history_def)
qed

interpretation entity_write: checked_write put_entity store_ok
  by unfold_locales (rule put_entity_keeps)

interpretation relationship_write: checked_write put_relationship store_ok
  by unfold_locales (rule put_relationship_keeps)

interpretation evidence_write: checked_write put_relationship_evidence store_ok
  by unfold_locales (rule put_relationship_evidence_keeps)

interpretation alias_write: checked_write put_entity_alias store_ok
  by unfold_locales (rule put_entity_alias_keeps)

interpretation identifier_write: checked_write put_entity_identifier store_ok
  by unfold_locales (rule put_entity_identifier_keeps)

interpretation extraction_write: checked_write put_entity_extraction store_ok
  by unfold_locales (rule put_entity_extraction_keeps)

interpretation history_write: checked_write put_merge_history store_ok
  by unfold_locales (rule put_merge_history_keeps)

interpretation relationship_delete:
  checked_write "\<lambda>i d. map_sum id snd (delete_relationship i d)" store_ok
proof unfold_locales
  fix d i d'
  assume "store_ok d" "map_sum id snd (delete_relationship i d) = Inr d'"
  then show "store_ok d'"
    by (cases "delete_relationship i d") (auto intro: delete_relationship_keeps)
qed

end
