(* ===== verification/Merge.thy ===== *)
theory Merge
  imports Constraints
begin

text \<open>
  Entity merge and its undo, \<open>crates/merge/src\<close>: the classification of the merged entity's
  relationships (\<open>collision.rs\<close>), the repointing helpers (\<open>repoint.rs\<close>) and the two transactions
  of \<open>MergeService\<close> (\<open>service.rs\<close>). A transaction is a function from the store to an error or the
  new store: an error drops it, and the committed store stays as it was. The instants that
  \<open>Utc::now()\<close> returns inside a transaction are the argument \<open>clock\<close>, one per relationship row
  rewritten, since neither transaction rewrites a row twice. \<open>relationship.changed\<close> events are
  sent after the commit; the producer is code outside the repository's control, an optional
  function that says whether an event is accepted.
\<close>

section \<open>Repointing and classification\<close>

definition repointed_ends :: "relationship \<Rightarrow> uuid \<Rightarrow> uuid \<Rightarrow> uuid \<times> uuid" where
  "repointed_ends rel from to =
     ((if r_source_object_id rel = from then to else r_source_object_id rel),
      (if r_target_object_id rel = from then to else r_target_object_id rel))"

definition relationship_repoint_column :: "relationship \<Rightarrow> uuid \<Rightarrow> string option" where
  "relationship_repoint_column rel from =
     (case (r_source_object_id rel = from, r_target_object_id rel = from) of
        (True, False) \<Rightarrow> Some ''source_object_id''
      | (False, True) \<Rightarrow> Some ''target_object_id''
      | _ \<Rightarrow> None)"

definition repointed :: "string \<Rightarrow> uuid \<Rightarrow> string \<Rightarrow> uuid \<Rightarrow> repointed_reference" where
  "repointed table row_id column previous_value =
     \<lparr>rr_table = table, rr_row_id = row_id, rr_column = column, rr_previous_value = previous_value\<rparr>"

record collision =
  co_absorbed :: relationship
  co_absorber :: relationship

definition find_absorber ::
  "relationship list \<Rightarrow> relationship_type \<Rightarrow> uuid \<Rightarrow> uuid \<Rightarrow> relationship option" where
  "find_absorber survivor_rels ty source target =
     find (\<lambda>r. r_relationship_type r = ty \<and> r_source_object_id r = source
             \<and> r_target_object_id r = target) survivor_rels"

fun classify_relationships ::
  "relationship list \<Rightarrow> relationship list \<Rightarrow> uuid \<Rightarrow> uuid
     \<Rightarrow> relationship list \<times> collision list \<times> relationship list" where
  "classify_relationships [] survivor_rels merged_id survivor_id = ([], [], [])"
| "classify_relationships (rel # rels) survivor_rels merged_id survivor_id =
     (let (self_loops, collisions, safe_repoints) =
            classify_relationships rels survivor_rels merged_id survivor_id;
          (new_source, new_target) = repointed_ends rel merged_id survivor_id
      in if new_source = new_target then (rel # self_loops, collisions, safe_repoints)
         else (case find_absorber survivor_rels (r_relationship_type rel) new_source new_target of
             Some absorber \<Rightarrow>
               (self_loops, \<lparr>co_absorbed = rel, co_absorber = absorber\<rparr> # collisions, safe_repoints)
           | None \<Rightarrow> (self_loops, collisions, rel # safe_repoints)))"

section \<open>Errors, changes, limits\<close>

datatype merge_error =
    EntityNotFound uuid
  | SelfMerge uuid
  | TypeMismatch entity_type entity_type
  | AlreadyMerged uuid uuid
  | HistoryNotFound uuid
  | AlreadyUndone uuid time
  | SurvivorLaterMerged uuid uuid
  | CollectionTruncated string uuid nat
  | ReferenceMissing string uuid string
  | UnknownReferenceTable string uuid
  | UnknownReferenceColumn string uuid string
  | MissingAbsorberSnapshot uuid uuid
  | MergeStorage storage_error

datatype change_kind = Upserted | Deleted

record relationship_change =
  ch_relationship_id :: uuid
  ch_source_object_id :: uuid
  ch_target_object_id :: uuid
  ch_relationship_type :: relationship_type
  ch_change_kind :: change_kind

definition from_relationship :: "relationship \<Rightarrow> change_kind \<Rightarrow> relationship_change" where
  "from_relationship rel kind =
     \<lparr>ch_relationship_id = r_id rel, ch_source_object_id = r_source_object_id rel,
      ch_target_object_id = r_target_object_id rel,
      ch_relationship_type = r_relationship_type rel, ch_change_kind = kind\<rparr>"

definition MERGE_REF_CAP :: nat where
  "MERGE_REF_CAP = 100"

definition reject_truncated :: "string \<Rightarrow> uuid \<Rightarrow> 'r list \<Rightarrow> merge_error + 'r list" where
  "reject_truncated collection i rows =
     (if MERGE_REF_CAP \<le> length rows then Inl (CollectionTruncated collection i MERGE_REF_CAP)
      else Inr rows)"

text \<open>The \<open>?\<close> on a store call, which wraps the error.\<close>

definition st :: "storage_error + 'a \<Rightarrow> merge_error + 'a" where
  "st m = map_sum MergeStorage id m"

section \<open>The merge transaction\<close>

record merge_acc =
  ma_db :: db
  ma_repointed :: "repointed_reference list"
  ma_merged :: "merged_relationship list"
  ma_changes :: "relationship_change list"

definition merge_self_loop :: "relationship \<Rightarrow> merge_acc \<Rightarrow> merge_error + merge_acc" where
  "merge_self_loop rel acc =
     rbind (st (delete_relationship (r_id rel) (ma_db acc))) (\<lambda>(_, d).
       Inr (acc\<lparr>ma_db := d,
         ma_changes := ma_changes acc @ [from_relationship rel Deleted],
         ma_merged := ma_merged acc @ [\<lparr>mr_absorbed_relationship_id = r_id rel,
           mr_absorber_relationship_id = None, mr_absorbed_snapshot = rel,
           mr_absorber_pre_merge = None, mr_moved_evidence_ids = []\<rparr>]\<rparr>))"

definition pre_merge :: "relationship \<Rightarrow> absorber_snapshot" where
  "pre_merge absorber = \<lparr>as_evidence_count = r_evidence_count absorber,
     as_confidence = r_confidence absorber, as_first_seen = r_first_seen absorber,
     as_last_seen = r_last_seen absorber\<rparr>"

definition updated_absorber :: "time \<Rightarrow> collision \<Rightarrow> relationship" where
  "updated_absorber now c =
     (let absorber = co_absorber c; absorbed = co_absorbed c in
      absorber\<lparr>r_evidence_count := r_evidence_count absorber + r_evidence_count absorbed,
        r_confidence := max (r_confidence absorber) (r_confidence absorbed),
        r_first_seen := min (r_first_seen absorber) (r_first_seen absorbed),
        r_last_seen := max (r_last_seen absorber) (r_last_seen absorbed),
        r_updated_at := now\<rparr>)"

definition move_evidence :: "uuid \<Rightarrow> relationship_evidence \<Rightarrow> db \<Rightarrow> merge_error + db" where
  "move_evidence rel ev d = st (put_relationship_evidence (ev\<lparr>re_relationship_id := rel\<rparr>) d)"

definition merge_collision ::
  "(uuid \<Rightarrow> time) \<Rightarrow> collision \<Rightarrow> merge_acc \<Rightarrow> merge_error + merge_acc" where
  "merge_collision clock c acc =
     (let absorbed = co_absorbed c; absorber = co_absorber c in
      rbind (reject_truncated ''relationship_evidence'' (r_id absorbed)
               (list_relationship_evidence (ma_db acc) (r_id absorbed) MERGE_REF_CAP)) (\<lambda>evidence.
      rbind (rfold (move_evidence (r_id absorber)) evidence (ma_db acc)) (\<lambda>d.
      let updated = updated_absorber (clock (r_id absorber)) c in
      rbind (st (put_relationship updated d)) (\<lambda>d.
      rbind (st (delete_relationship (r_id absorbed) d)) (\<lambda>(_, d).
      Inr (acc\<lparr>ma_db := d,
        ma_changes := ma_changes acc
          @ [from_relationship absorbed Deleted, from_relationship updated Upserted],
        ma_merged := ma_merged acc @ [\<lparr>mr_absorbed_relationship_id = r_id absorbed,
          mr_absorber_relationship_id = Some (r_id absorber), mr_absorbed_snapshot = absorbed,
          mr_absorber_pre_merge = Some (pre_merge absorber),
          mr_moved_evidence_ids = map re_id evidence\<rparr>]\<rparr>))))))"

definition repointed_relationship :: "time \<Rightarrow> uuid \<Rightarrow> uuid \<Rightarrow> relationship \<Rightarrow> relationship" where
  "repointed_relationship now merged_id survivor_id rel =
     (let (new_source, new_target) = repointed_ends rel merged_id survivor_id in
      rel\<lparr>r_source_object_id := new_source, r_target_object_id := new_target,
          r_updated_at := now\<rparr>)"

definition merge_safe_repoint ::
  "(uuid \<Rightarrow> time) \<Rightarrow> uuid \<Rightarrow> uuid \<Rightarrow> relationship \<Rightarrow> merge_acc \<Rightarrow> merge_error + merge_acc" where
  "merge_safe_repoint clock merged_id survivor_id rel acc =
     rbind (ok_or (UnknownReferenceColumn ''relationships'' (r_id rel)
                     ''source_object_id/target_object_id'')
              (relationship_repoint_column rel merged_id)) (\<lambda>column.
     let updated = repointed_relationship (clock (r_id rel)) merged_id survivor_id rel in
     rbind (st (put_relationship updated (ma_db acc))) (\<lambda>d.
     Inr (acc\<lparr>ma_db := d,
       ma_changes := ma_changes acc @ [from_relationship updated Upserted],
       ma_repointed := ma_repointed acc
         @ [repointed ''relationships'' (r_id rel) column merged_id]\<rparr>)))"

definition merge_alias ::
  "uuid \<Rightarrow> uuid \<Rightarrow> entity_alias \<Rightarrow> merge_acc \<Rightarrow> merge_error + merge_acc" where
  "merge_alias merged_id survivor_id alias acc =
     rbind (st (put_entity_alias (alias\<lparr>ea_entity_id := survivor_id\<rparr>) (ma_db acc))) (\<lambda>d.
     Inr (acc\<lparr>ma_db := d, ma_repointed := ma_repointed acc
       @ [repointed ''entity_aliases'' (ea_id alias) ''entity_id'' merged_id]\<rparr>))"

definition merge_identifier ::
  "uuid \<Rightarrow> uuid \<Rightarrow> entity_identifier \<Rightarrow> merge_acc \<Rightarrow> merge_error + merge_acc" where
  "merge_identifier merged_id survivor_id identifier acc =
     rbind (st (put_entity_identifier (identifier\<lparr>ei_entity_id := survivor_id\<rparr>) (ma_db acc))) (\<lambda>d.
     Inr (acc\<lparr>ma_db := d, ma_repointed := ma_repointed acc
       @ [repointed ''entity_identifiers'' (ei_id identifier) ''entity_id'' merged_id]\<rparr>))"

definition merge_extraction ::
  "uuid \<Rightarrow> uuid \<Rightarrow> entity_extraction \<Rightarrow> merge_acc \<Rightarrow> merge_error + merge_acc" where
  "merge_extraction merged_id survivor_id extraction acc =
     rbind (st (put_entity_extraction (extraction\<lparr>ex_entity_id := survivor_id\<rparr>) (ma_db acc))) (\<lambda>d.
     Inr (acc\<lparr>ma_db := d, ma_repointed := ma_repointed acc
       @ [repointed ''entity_extractions'' (ex_id extraction) ''entity_id'' merged_id]\<rparr>))"

text \<open>
  The body of the transaction is split where the source moves from reading to writing:
  \<open>merge_writes\<close> runs the six loops over what was collected.
\<close>

definition merge_writes ::
  "(uuid \<Rightarrow> time) \<Rightarrow> uuid \<Rightarrow> uuid \<Rightarrow> relationship list \<times> collision list \<times> relationship list
     \<Rightarrow> entity_alias list \<Rightarrow> entity_identifier list \<Rightarrow> entity_extraction list \<Rightarrow> db
     \<Rightarrow> merge_error + merge_acc" where
  "merge_writes clock merged_id survivor_id cls aliases identifiers extractions d =
     (case cls of (self_loops, collisions, safe_repoints) \<Rightarrow>
      rbind (rfold merge_self_loop self_loops
        \<lparr>ma_db = d, ma_repointed = [], ma_merged = [], ma_changes = []\<rparr>) (\<lambda>acc.
      rbind (rfold (merge_collision clock) collisions acc) (\<lambda>acc.
      rbind (rfold (merge_safe_repoint clock merged_id survivor_id) safe_repoints acc) (\<lambda>acc.
      rbind (rfold (merge_alias merged_id survivor_id) aliases acc) (\<lambda>acc.
      rbind (rfold (merge_identifier merged_id survivor_id) identifiers acc) (\<lambda>acc.
      rfold (merge_extraction merged_id survivor_id) extractions acc))))))"

definition execute_in_tx ::
  "(uuid \<Rightarrow> time) \<Rightarrow> time \<Rightarrow> uuid \<Rightarrow> entity \<Rightarrow> entity \<Rightarrow> string \<Rightarrow> string \<Rightarrow> json option \<Rightarrow> db
     \<Rightarrow> merge_error + (merge_history \<times> relationship_change list \<times> db)" where
  "execute_in_tx clock now new_id survivor merged reason operator audit d =
     (let survivor_id = e_id survivor; merged_id = e_id merged in
      rbind (reject_truncated ''relationships(merged)'' merged_id
               (list_relationships_by_object d merged_id MERGE_REF_CAP)) (\<lambda>merged_rels.
      rbind (reject_truncated ''relationships(survivor)'' survivor_id
               (list_relationships_by_object d survivor_id MERGE_REF_CAP)) (\<lambda>survivor_rels.
      rbind (reject_truncated ''entity_aliases'' merged_id
               (list_entity_aliases_by_entity d merged_id MERGE_REF_CAP)) (\<lambda>aliases.
      rbind (reject_truncated ''entity_identifiers'' merged_id
               (list_entity_identifiers_by_entity d merged_id MERGE_REF_CAP)) (\<lambda>identifiers.
      rbind (reject_truncated ''entity_extractions'' merged_id
               (list_entity_extractions_by_entity d merged_id MERGE_REF_CAP)) (\<lambda>extractions.
      rbind (merge_writes clock merged_id survivor_id
               (classify_relationships merged_rels survivor_rels merged_id survivor_id)
               aliases identifiers extractions d) (\<lambda>acc.
      rbind (st (put_entity (merged\<lparr>e_merged_into := Some survivor_id\<rparr>) (ma_db acc))) (\<lambda>d.
      let history = \<lparr>mh_id = new_id, mh_survivor_id = survivor_id, mh_merged_id = merged_id,
            mh_reason = reason, mh_operator = operator, mh_timestamp = now,
            mh_repointed_references = ma_repointed acc, mh_merged_relationships = ma_merged acc,
            mh_undone_at = None, mh_auto_approval_audit = audit\<rparr> in
      rbind (st (put_merge_history history d)) (\<lambda>d.
      Inr (history, ma_changes acc, d))))))))))"

section \<open>The undo transaction\<close>

definition restore_relationship ::
  "(uuid \<Rightarrow> time) \<Rightarrow> repointed_reference \<Rightarrow> db \<Rightarrow> merge_error + (relationship option \<times> db)" where
  "restore_relationship clock r d =
     rbind (ok_or (ReferenceMissing (rr_table r) (rr_row_id r) (rr_column r))
              (get_relationship d (rr_row_id r))) (\<lambda>row.
     rbind (if rr_column r = ''source_object_id''
            then Inr (row\<lparr>r_source_object_id := rr_previous_value r\<rparr>)
            else if rr_column r = ''target_object_id''
            then Inr (row\<lparr>r_target_object_id := rr_previous_value r\<rparr>)
            else Inl (UnknownReferenceColumn (rr_table r) (rr_row_id r) (rr_column r))) (\<lambda>row.
     let row = row\<lparr>r_updated_at := clock (rr_row_id r)\<rparr> in
     rbind (st (put_relationship row d)) (\<lambda>d. Inr (Some row, d))))"

text \<open>The three arms for entity references differ only in the table.\<close>

definition restore_reference ::
  "(uuid \<Rightarrow> time) \<Rightarrow> repointed_reference \<Rightarrow> db \<Rightarrow> merge_error + (relationship option \<times> db)" where
  "restore_reference clock r d =
     (let missing = ReferenceMissing (rr_table r) (rr_row_id r) (rr_column r);
          column = UnknownReferenceColumn (rr_table r) (rr_row_id r) (rr_column r) in
      if rr_table r = ''relationships'' then restore_relationship clock r d
      else if rr_table r = ''entity_aliases'' then
        rbind (ok_or missing (get_entity_alias d (rr_row_id r))) (\<lambda>row.
        rbind (rguard (rr_column r = ''entity_id'') column) (\<lambda>_.
        rbind (st (put_entity_alias (row\<lparr>ea_entity_id := rr_previous_value r\<rparr>) d)) (\<lambda>d.
        Inr (None, d))))
      else if rr_table r = ''entity_identifiers'' then
        rbind (ok_or missing (get_entity_identifier d (rr_row_id r))) (\<lambda>row.
        rbind (rguard (rr_column r = ''entity_id'') column) (\<lambda>_.
        rbind (st (put_entity_identifier (row\<lparr>ei_entity_id := rr_previous_value r\<rparr>) d)) (\<lambda>d.
        Inr (None, d))))
      else if rr_table r = ''entity_extractions'' then
        rbind (ok_or missing (get_entity_extraction d (rr_row_id r))) (\<lambda>row.
        rbind (rguard (rr_column r = ''entity_id'') column) (\<lambda>_.
        rbind (st (put_entity_extraction (row\<lparr>ex_entity_id := rr_previous_value r\<rparr>) d)) (\<lambda>d.
        Inr (None, d))))
      else Inl (UnknownReferenceTable (rr_table r) (rr_row_id r)))"

definition undo_reference ::
  "(uuid \<Rightarrow> time) \<Rightarrow> repointed_reference \<Rightarrow> db \<times> relationship_change list
     \<Rightarrow> merge_error + (db \<times> relationship_change list)" where
  "undo_reference clock r acc =
     (case acc of (d, changes) \<Rightarrow>
      rbind (restore_reference clock r d) (\<lambda>(restored, d).
      Inr (d, case restored of None \<Rightarrow> changes
              | Some row \<Rightarrow> changes @ [from_relationship row Upserted])))"

definition move_evidence_back :: "uuid \<Rightarrow> uuid \<Rightarrow> db \<Rightarrow> merge_error + db" where
  "move_evidence_back rel ev_id d =
     rbind (ok_or (ReferenceMissing ''relationship_evidence'' ev_id ''relationship_id'')
              (get_relationship_evidence d ev_id)) (\<lambda>ev.
     st (put_relationship_evidence (ev\<lparr>re_relationship_id := rel\<rparr>) d))"

definition restored_absorber :: "time \<Rightarrow> absorber_snapshot \<Rightarrow> relationship \<Rightarrow> relationship" where
  "restored_absorber now pre absorber =
     absorber\<lparr>r_evidence_count := as_evidence_count pre, r_confidence := as_confidence pre,
       r_first_seen := as_first_seen pre, r_last_seen := as_last_seen pre, r_updated_at := now\<rparr>"

definition undo_merged_relationship ::
  "(uuid \<Rightarrow> time) \<Rightarrow> uuid \<Rightarrow> merged_relationship \<Rightarrow> db \<times> relationship_change list
     \<Rightarrow> merge_error + (db \<times> relationship_change list)" where
  "undo_merged_relationship clock history_id mr acc =
     (case acc of (d, changes) \<Rightarrow>
      rbind (st (put_relationship (mr_absorbed_snapshot mr) d)) (\<lambda>d.
      let changes = changes @ [from_relationship (mr_absorbed_snapshot mr) Upserted] in
      case mr_absorber_relationship_id mr of
        None \<Rightarrow> Inr (d, changes)
      | Some absorber_id \<Rightarrow>
          rbind (rfold (move_evidence_back (mr_absorbed_relationship_id mr))
                   (mr_moved_evidence_ids mr) d) (\<lambda>d.
          rbind (ok_or (ReferenceMissing ''relationships'' absorber_id ''evidence_count'')
                   (get_relationship d absorber_id)) (\<lambda>absorber.
          rbind (ok_or (MissingAbsorberSnapshot history_id absorber_id)
                   (mr_absorber_pre_merge mr)) (\<lambda>pre.
          let absorber = restored_absorber (clock absorber_id) pre absorber in
          rbind (st (put_relationship absorber d)) (\<lambda>d.
          Inr (d, changes @ [from_relationship absorber Upserted])))))))"

definition undo_in_tx ::
  "(uuid \<Rightarrow> time) \<Rightarrow> time \<Rightarrow> merge_history \<Rightarrow> db \<Rightarrow> merge_error + (relationship_change list \<times> db)" where
  "undo_in_tx clock now history d =
     rbind (rfold (undo_reference clock) (rev (mh_repointed_references history)) (d, [])) (\<lambda>acc.
     rbind (rfold (undo_merged_relationship clock (mh_id history))
              (rev (mh_merged_relationships history)) acc) (\<lambda>(d, changes).
     rbind (ok_or (EntityNotFound (mh_merged_id history)) (get_entity d (mh_merged_id history)))
       (\<lambda>merged.
     rbind (st (put_entity (merged\<lparr>e_merged_into := None\<rparr>) d)) (\<lambda>d.
     rbind (st (put_merge_history (history\<lparr>mh_undone_at := Some now\<rparr>) d)) (\<lambda>d.
     Inr (changes, d))))))"

section \<open>The service\<close>

record merge_service =
  ms_store :: db
  ms_published :: "relationship_change list"

type_synonym change_producer = "relationship_change \<Rightarrow> bool"

definition publish_relationship_changes ::
  "change_producer option \<Rightarrow> relationship_change list \<Rightarrow> merge_service \<Rightarrow> merge_service" where
  "publish_relationship_changes producer changes s =
     (case producer of
        None \<Rightarrow> s
      | Some accepts \<Rightarrow> s\<lparr>ms_published := ms_published s @ filter accepts changes\<rparr>)"

definition require_entity :: "uuid \<Rightarrow> merge_service \<Rightarrow> merge_error + entity" where
  "require_entity i s = ok_or (EntityNotFound i) (get_entity (ms_store s) i)"

definition merge_checks :: "uuid \<Rightarrow> uuid \<Rightarrow> merge_service \<Rightarrow> merge_error + (entity \<times> entity)" where
  "merge_checks survivor_id merged_id s =
     (if survivor_id = merged_id then Inl (SelfMerge survivor_id)
      else
        rbind (require_entity survivor_id s) (\<lambda>survivor.
        rbind (require_entity merged_id s) (\<lambda>merged.
        if e_entity_type survivor \<noteq> e_entity_type merged
        then Inl (TypeMismatch (e_entity_type survivor) (e_entity_type merged))
        else (case e_merged_into merged of
            Some into \<Rightarrow> Inl (AlreadyMerged merged_id into)
          | None \<Rightarrow> (case e_merged_into survivor of
                Some into \<Rightarrow> Inl (AlreadyMerged survivor_id into)
              | None \<Rightarrow> Inr (survivor, merged))))))"

definition execute_merge_with_audit ::
  "change_producer option \<Rightarrow> (uuid \<Rightarrow> time) \<Rightarrow> time \<Rightarrow> uuid \<Rightarrow> uuid \<Rightarrow> uuid \<Rightarrow> string \<Rightarrow> string
     \<Rightarrow> json option \<Rightarrow> (merge_service, merge_error, merge_history) op" where
  "execute_merge_with_audit producer clock now new_id survivor_id merged_id reason operator audit s =
     (case rbind (merge_checks survivor_id merged_id s) (\<lambda>(survivor, merged).
             execute_in_tx clock now new_id survivor merged reason operator audit (ms_store s)) of
        Inl e \<Rightarrow> (Inl e, s)
      | Inr (history, changes, d) \<Rightarrow>
          (Inr history, publish_relationship_changes producer changes (s\<lparr>ms_store := d\<rparr>)))"

definition execute_merge ::
  "change_producer option \<Rightarrow> (uuid \<Rightarrow> time) \<Rightarrow> time \<Rightarrow> uuid \<Rightarrow> uuid \<Rightarrow> uuid \<Rightarrow> string \<Rightarrow> string
     \<Rightarrow> (merge_service, merge_error, merge_history) op" where
  "execute_merge producer clock now new_id survivor_id merged_id reason operator =
     execute_merge_with_audit producer clock now new_id survivor_id merged_id reason operator None"

definition undo_checks :: "uuid \<Rightarrow> merge_service \<Rightarrow> merge_error + merge_history" where
  "undo_checks history_id s =
     rbind (ok_or (HistoryNotFound history_id) (get_merge_history (ms_store s) history_id)) (\<lambda>h.
     case mh_undone_at h of
       Some t \<Rightarrow> Inl (AlreadyUndone history_id t)
     | None \<Rightarrow>
         rbind (require_entity (mh_survivor_id h) s) (\<lambda>survivor.
         case e_merged_into survivor of
           Some into \<Rightarrow> Inl (SurvivorLaterMerged (mh_survivor_id h) into)
         | None \<Rightarrow> rbind (require_entity (mh_merged_id h) s) (\<lambda>_. Inr h)))"

definition undo_merge ::
  "change_producer option \<Rightarrow> (uuid \<Rightarrow> time) \<Rightarrow> time \<Rightarrow> uuid \<Rightarrow> (merge_service, merge_error, unit) op" where
  "undo_merge producer clock now history_id s =
     (case rbind (undo_checks history_id s) (\<lambda>h. undo_in_tx clock now h (ms_store s)) of
        Inl e \<Rightarrow> (Inl e, s)
      | Inr (changes, d) \<Rightarrow>
          (Inr (), publish_relationship_changes producer changes (s\<lparr>ms_store := d\<rparr>)))"

end
