(* ===== verification/MergeEffect.thy ===== *)
theory MergeEffect
  imports Merge
begin

text \<open>
  What the merge transaction does. The classification is shown to be a partition, each of the
  six loops is given a closed form as a row-wise change of the tables, and from these follow the
  facts about the whole transaction: which constraints it keeps, when it succeeds, and what the
  store holds afterwards.
\<close>

lemma st_simps [simp, result_simps]:
  "st (Inr x) = Inr x"
  "st (Inl e) = Inl (MergeStorage e)"
  "st m = Inr x \<longleftrightarrow> m = Inr x"
  by (cases m; simp add: st_def)+

section \<open>Classification\<close>

definition touches :: "uuid \<Rightarrow> relationship \<Rightarrow> bool" where
  "touches i r \<longleftrightarrow> r_source_object_id r = i \<or> r_target_object_id r = i"

definition becomes_loop :: "uuid \<Rightarrow> uuid \<Rightarrow> relationship \<Rightarrow> bool" where
  "becomes_loop m s r \<longleftrightarrow> fst (repointed_ends r m s) = snd (repointed_ends r m s)"

definition repointed_triple :: "uuid \<Rightarrow> uuid \<Rightarrow> relationship \<Rightarrow> uuid \<times> relationship_type \<times> uuid" where
  "repointed_triple m s r =
     (fst (repointed_ends r m s), r_relationship_type r, snd (repointed_ends r m s))"

definition absorber_for ::
  "relationship list \<Rightarrow> uuid \<Rightarrow> uuid \<Rightarrow> relationship \<Rightarrow> relationship option" where
  "absorber_for rels m s r = find (\<lambda>a. rel_triple a = repointed_triple m s r) rels"

lemma find_absorber_eq:
  "find_absorber rels (r_relationship_type r) (fst (repointed_ends r m s)) (snd (repointed_ends r m s))
     = absorber_for rels m s r"
proof -
  have "(\<lambda>a. r_relationship_type a = r_relationship_type r
        \<and> r_source_object_id a = fst (repointed_ends r m s)
        \<and> r_target_object_id a = snd (repointed_ends r m s))
      = (\<lambda>a. rel_triple a = repointed_triple m s r)"
    by (auto simp: fun_eq_iff rel_triple_def repointed_triple_def)
  then show ?thesis by (simp add: find_absorber_def absorber_for_def)
qed

definition loops_of :: "relationship list \<Rightarrow> uuid \<Rightarrow> uuid \<Rightarrow> relationship list" where
  "loops_of rels m s = filter (becomes_loop m s) rels"

definition collisions_of ::
  "relationship list \<Rightarrow> relationship list \<Rightarrow> uuid \<Rightarrow> uuid \<Rightarrow> collision list" where
  "collisions_of rels srels m s =
     map (\<lambda>r. \<lparr>co_absorbed = r, co_absorber = the (absorber_for srels m s r)\<rparr>)
       (filter (\<lambda>r. \<not> becomes_loop m s r \<and> absorber_for srels m s r \<noteq> None) rels)"

definition safe_of ::
  "relationship list \<Rightarrow> relationship list \<Rightarrow> uuid \<Rightarrow> uuid \<Rightarrow> relationship list" where
  "safe_of rels srels m s =
     filter (\<lambda>r. \<not> becomes_loop m s r \<and> absorber_for srels m s r = None) rels"

lemma classify_relationships_eq:
  "classify_relationships rels srels m s =
     (loops_of rels m s, collisions_of rels srels m s, safe_of rels srels m s)"
proof (induction rels)
  case Nil
  then show ?case by (simp add: loops_of_def collisions_of_def safe_of_def)
next
  case (Cons r rels)
  obtain a b where ends: "repointed_ends r m s = (a, b)" by fastforce
  show ?case
    using Cons find_absorber_eq [of srels r m s]
    by (auto simp: ends becomes_loop_def loops_of_def collisions_of_def safe_of_def
        split: option.splits)
qed

lemma absorber_for_Some:
  "absorber_for srels m s r = Some a \<Longrightarrow> a \<in> set srels \<and> rel_triple a = repointed_triple m s r"
  by (auto simp: absorber_for_def find_Some_iff)

lemma absorber_for_None:
  "absorber_for srels m s r = None \<Longrightarrow> a \<in> set srels \<Longrightarrow> rel_triple a \<noteq> repointed_triple m s r"
  by (auto simp: absorber_for_def find_None_iff)

text \<open>
  A relationship of the merged entity that does not become a loop has its other end at a third
  entity. Repointing is therefore injective on such relationships.
\<close>

lemma nonloop_other_end:
  assumes "touches m r" "\<not> becomes_loop m s r" "m \<noteq> s"
  shows "(r_source_object_id r = m \<and> r_target_object_id r \<notin> {m, s})
    \<or> (r_target_object_id r = m \<and> r_source_object_id r \<notin> {m, s})"
  using assms by (auto simp: touches_def becomes_loop_def repointed_ends_def split: if_splits)

lemma repointed_triple_inj:
  assumes "touches m r" "\<not> becomes_loop m s r" "touches m r'" "\<not> becomes_loop m s r'" "m \<noteq> s"
    and "repointed_triple m s r = repointed_triple m s r'"
  shows "rel_triple r = rel_triple r'"
  using nonloop_other_end [OF assms(1,2,5)] nonloop_other_end [OF assms(3,4,5)] assms(5,6)
  by (auto simp: repointed_triple_def repointed_ends_def rel_triple_def split: if_splits)

lemma repointed_triple_not_touching:
  assumes "rel_triple a = repointed_triple m s r" "m \<noteq> s"
  shows "\<not> touches m a"
  using assms by (auto simp: touches_def repointed_triple_def repointed_ends_def rel_triple_def
      split: if_splits)

lemma repointed_triple_touches:
  assumes "rel_triple a = repointed_triple m s r" "touches m r"
  shows "touches s a"
  using assms by (auto simp: touches_def repointed_triple_def repointed_ends_def rel_triple_def
      split: if_splits)

text \<open>
  The classification loses nothing and invents nothing: every relationship of the merged
  entity falls into exactly one of the three groups, in order. A self loop is one whose two ends
  coincide after repointing; a collision pairs a relationship with one of the survivor that has
  exactly the repointed triple; a safe one is repointed to a triple that no relationship of the
  survivor has.
\<close>

theorem classification_partition:
  assumes "classify_relationships rels srels m s = (loops, cols, safe)"
  shows "loops = filter (\<lambda>r. r \<in> set loops) rels
    \<and> map co_absorbed cols = filter (\<lambda>r. r \<in> co_absorbed ` set cols) rels
    \<and> safe = filter (\<lambda>r. r \<in> set safe) rels
    \<and> set rels = set loops \<union> co_absorbed ` set cols \<union> set safe
    \<and> set loops \<inter> co_absorbed ` set cols = {} \<and> set loops \<inter> set safe = {}
    \<and> co_absorbed ` set cols \<inter> set safe = {}
    \<and> length loops + length cols + length safe = length rels
    \<and> (\<forall>r \<in> set loops. fst (repointed_ends r m s) = snd (repointed_ends r m s))
    \<and> (\<forall>c \<in> set cols. co_absorber c \<in> set srels
        \<and> rel_triple (co_absorber c) = repointed_triple m s (co_absorbed c))
    \<and> (\<forall>r \<in> set safe. \<forall>a \<in> set srels. rel_triple a \<noteq> repointed_triple m s r)"
proof -
  have eqs: "loops = loops_of rels m s" "cols = collisions_of rels srels m s"
    "safe = safe_of rels srels m s"
    using assms by (simp_all add: classify_relationships_eq)
  have absorbed: "map co_absorbed cols =
      filter (\<lambda>r. \<not> becomes_loop m s r \<and> absorber_for srels m s r \<noteq> None) rels"
    by (simp add: eqs collisions_of_def comp_def)
  have absorbed_set: "co_absorbed ` set cols = set (map co_absorbed cols)" by simp
  have order: "loops = filter (\<lambda>r. r \<in> set loops) rels" "safe = filter (\<lambda>r. r \<in> set safe) rels"
    "map co_absorbed cols = filter (\<lambda>r. r \<in> co_absorbed ` set cols) rels"
    unfolding absorbed_set absorbed
    by (simp_all only: eqs loops_of_def safe_of_def filter_mem_self)
  have parts: "set rels = set loops \<union> co_absorbed ` set cols \<union> set safe"
    "set loops \<inter> co_absorbed ` set cols = {}" "set loops \<inter> set safe = {}"
    "co_absorbed ` set cols \<inter> set safe = {}"
    unfolding absorbed_set absorbed by (auto simp: eqs loops_of_def safe_of_def)
  have "length (filter (becomes_loop m s) xs)
      + length (filter (\<lambda>r. \<not> becomes_loop m s r \<and> absorber_for srels m s r \<noteq> None) xs)
      + length (filter (\<lambda>r. \<not> becomes_loop m s r \<and> absorber_for srels m s r = None) xs)
      = length xs" for xs
    by (induction xs) auto
  then have len: "length loops + length cols + length safe = length rels"
    by (simp add: eqs loops_of_def collisions_of_def safe_of_def)
  have loop: "\<forall>r \<in> set loops. fst (repointed_ends r m s) = snd (repointed_ends r m s)"
    by (simp add: eqs loops_of_def becomes_loop_def)
  have col: "\<forall>c \<in> set cols. co_absorber c \<in> set srels
      \<and> rel_triple (co_absorber c) = repointed_triple m s (co_absorbed c)"
    by (auto simp: eqs collisions_of_def dest: absorber_for_Some)
  have safe: "\<forall>r \<in> set safe. \<forall>a \<in> set srels. rel_triple a \<noteq> repointed_triple m s r"
    by (auto simp: eqs safe_of_def dest: absorber_for_None)
  show ?thesis
    by (intro conjI order parts len loop col safe)
qed

section \<open>Constraints are kept\<close>

definition acc_ok :: "merge_acc \<Rightarrow> bool" where
  "acc_ok acc \<longleftrightarrow> store_ok (ma_db acc)"

lemma move_evidence_keeps: "store_ok d \<Longrightarrow> move_evidence rel ev d = Inr d' \<Longrightarrow> store_ok d'"
  by (auto simp: move_evidence_def dest: put_relationship_evidence_keeps)

interpretation evidence_move: checked_write "move_evidence rel" store_ok for rel
  by unfold_locales (rule move_evidence_keeps)

interpretation self_loop_step: checked_write merge_self_loop acc_ok
  by unfold_locales
    (auto simp: merge_self_loop_def acc_ok_def rbind_Inr_iff dest: delete_relationship_keeps)

interpretation collision_step: checked_write "merge_collision clock" acc_ok for clock
  by unfold_locales
    (auto simp: merge_collision_def acc_ok_def rbind_Inr_iff Let_def
      dest!: delete_relationship_keeps [rotated] put_relationship_keeps [rotated]
        evidence_move.rfold_keeps [rotated])

interpretation repoint_step: checked_write "merge_safe_repoint clock m s" acc_ok for clock m s
  by unfold_locales
    (auto simp: merge_safe_repoint_def acc_ok_def rbind_Inr_iff Let_def dest: put_relationship_keeps)

interpretation alias_step: checked_write "merge_alias m s" acc_ok for m s
  by unfold_locales
    (auto simp: merge_alias_def acc_ok_def rbind_Inr_iff dest: put_entity_alias_keeps)

interpretation identifier_step: checked_write "merge_identifier m s" acc_ok for m s
  by unfold_locales
    (auto simp: merge_identifier_def acc_ok_def rbind_Inr_iff dest: put_entity_identifier_keeps)

interpretation extraction_step: checked_write "merge_extraction m s" acc_ok for m s
  by unfold_locales
    (auto simp: merge_extraction_def acc_ok_def rbind_Inr_iff dest: put_entity_extraction_keeps)

lemma merge_writes_keeps:
  assumes "store_ok d" "merge_writes clock m s cls al idn ext d = Inr acc"
  shows "store_ok (ma_db acc)"
proof -
  obtain loops cols safe where cls: "cls = (loops, cols, safe)" by (cases cls) auto
  from assms have "acc_ok acc"
    by (auto simp: merge_writes_def cls rbind_Inr_iff acc_ok_def [of "\<lparr>ma_db = d, ma_repointed = [],
          ma_merged = [], ma_changes = []\<rparr>"]
        dest!: self_loop_step.rfold_keeps [rotated] collision_step.rfold_keeps [rotated]
          repoint_step.rfold_keeps [rotated] alias_step.rfold_keeps [rotated]
          identifier_step.rfold_keeps [rotated] extraction_step.rfold_keeps [rotated])
  then show ?thesis by (simp add: acc_ok_def)
qed

lemma execute_in_tx_keeps:
  assumes "store_ok d"
    and "execute_in_tx clock now new_id survivor merged reason operator audit d = Inr (h, ch, d')"
  shows "store_ok d'"
  using assms
  by (auto simp: execute_in_tx_def rbind_Inr_iff Let_def
      dest!: put_merge_history_keeps [rotated] put_entity_keeps [rotated]
        merge_writes_keeps [rotated])

end
