(* ===== verification/MergePhases.thy ===== *)
theory MergePhases
  imports MergeEffect
begin

text \<open>
  The closed form of the six loops of the merge transaction. Each loop is shown to succeed on the
  rows the classification hands it, and to change the tables by one row-wise function.
\<close>

section \<open>Deleting the self loops\<close>

definition drop_relationships :: "uuid set \<Rightarrow> db \<Rightarrow> db" where
  "drop_relationships K d = d\<lparr>
     db_relationships := tbl_rows (\<lambda>r. if r_id r \<in> K then None else Some r) (db_relationships d),
     db_relationship_evidence :=
       tbl_rows (\<lambda>ev. if re_relationship_id ev \<in> K then None else Some ev)
         (db_relationship_evidence d)\<rparr>"

lemma drop_relationships_sel [simp]:
  "db_entities (drop_relationships K d) = db_entities d"
  "db_candidate_evidence_relationships (drop_relationships K d) = db_candidate_evidence_relationships d"
  by (simp_all add: drop_relationships_def)

lemma drop_relationships_none: "drop_relationships {} d = d"
  by (simp add: drop_relationships_def)

lemma tbl_rows_drop_drop:
  "tbl_rows (\<lambda>r. if P r then None else Some r) (tbl_rows (\<lambda>r. if Q r then None else Some r) t)
     = tbl_rows (\<lambda>r. if Q r \<or> P r then None else Some r) t"
  by (simp only: tbl_rows_rows) (rule tbl_rows_cong, simp)

lemma drop_relationships_insert:
  "drop_relationships K (drop_relationships {i} d) = drop_relationships (insert i K) d"
  by (simp add: drop_relationships_def tbl_rows_drop_drop)

lemma get_relationship_drop:
  "store_ok d \<Longrightarrow> get_relationship (drop_relationships K d) i
     = (if i \<in> K then None else get_relationship d i)"
  by (auto simp: drop_relationships_def get_relationship_def tbl_get_rows store_ok_def
      relationships_ok_def tbl_keyedD split: bind_splits)

lemma delete_relationship_run:
  assumes "store_ok d" "get_relationship d i \<noteq> None" "i \<notin> set (db_candidate_evidence_relationships d)"
  shows "delete_relationship i d = Inr (True, drop_relationships {i} d)"
  using assms
  by (auto simp: delete_relationship_def drop_relationships_def store_ok_def relationships_ok_def
      evidence_ok_def tbl_del_rows tbl_delete_where_rows tbl_keyedD)

definition loop_record :: "relationship \<Rightarrow> merged_relationship" where
  "loop_record rel = \<lparr>mr_absorbed_relationship_id = r_id rel, mr_absorber_relationship_id = None,
     mr_absorbed_snapshot = rel, mr_absorber_pre_merge = None, mr_moved_evidence_ids = []\<rparr>"

lemma self_loops_run:
  assumes "store_ok (ma_db acc)" "distinct (map r_id rels)"
    and "\<And>r. r \<in> set rels \<Longrightarrow> get_relationship (ma_db acc) (r_id r) \<noteq> None
        \<and> r_id r \<notin> set (db_candidate_evidence_relationships (ma_db acc))"
  shows "rfold merge_self_loop rels acc = Inr (acc\<lparr>
      ma_db := drop_relationships (r_id ` set rels) (ma_db acc),
      ma_merged := ma_merged acc @ map loop_record rels,
      ma_changes := ma_changes acc @ map (\<lambda>r. from_relationship r Deleted) rels\<rparr>)"
  using assms
proof (induction rels arbitrary: acc)
  case Nil
  then show ?case by (simp add: drop_relationships_none)
next
  case (Cons r rels)
  let ?acc = "acc\<lparr>ma_db := drop_relationships {r_id r} (ma_db acc),
      ma_changes := ma_changes acc @ [from_relationship r Deleted],
      ma_merged := ma_merged acc @ [loop_record r]\<rparr>"
  have del: "delete_relationship (r_id r) (ma_db acc) = Inr (True, drop_relationships {r_id r} (ma_db acc))"
    using Cons.prems by (intro delete_relationship_run) auto
  then have step: "merge_self_loop r acc = Inr ?acc"
    by (simp add: merge_self_loop_def loop_record_def)
  have ok: "store_ok (ma_db ?acc)"
    using delete_relationship_keeps [OF Cons.prems(1) del] by simp
  have "rfold merge_self_loop rels ?acc = Inr (?acc\<lparr>
      ma_db := drop_relationships (r_id ` set rels) (ma_db ?acc),
      ma_merged := ma_merged ?acc @ map loop_record rels,
      ma_changes := ma_changes ?acc @ map (\<lambda>r. from_relationship r Deleted) rels\<rparr>)"
    by (rule Cons.IH [OF ok])
      (use Cons.prems in \<open>force simp: get_relationship_drop image_iff\<close>)+
  then show ?case
    by (simp add: step drop_relationships_insert)
qed

section \<open>Absorbing the collisions\<close>

definition move_row :: "uuid \<Rightarrow> uuid \<Rightarrow> relationship_evidence \<Rightarrow> relationship_evidence" where
  "move_row from to ev = (if re_relationship_id ev = from then ev\<lparr>re_relationship_id := to\<rparr> else ev)"

definition absorb :: "(uuid \<Rightarrow> time) \<Rightarrow> collision \<Rightarrow> db \<Rightarrow> db" where
  "absorb clock c d = d\<lparr>
     db_relationships := tbl_rows (\<lambda>r.
         if r_id r = r_id (co_absorbed c) then None
         else Some (if r_id r = r_id (co_absorber c) then updated_absorber (clock (r_id r)) c else r))
       (db_relationships d),
     db_relationship_evidence :=
       tbl_rows (\<lambda>ev. Some (move_row (r_id (co_absorbed c)) (r_id (co_absorber c)) ev))
         (db_relationship_evidence d)\<rparr>"

definition evidence_of :: "db \<Rightarrow> uuid \<Rightarrow> relationship_evidence list" where
  "evidence_of d rel = sort_key re_created_at
     (tbl_select (\<lambda>ev. re_relationship_id ev = rel) (db_relationship_evidence d))"

lemma list_relationship_evidence_all:
  "length (evidence_of d rel) < MERGE_REF_CAP \<Longrightarrow>
     list_relationship_evidence d rel MERGE_REF_CAP = evidence_of d rel"
  by (simp add: list_relationship_evidence_def evidence_of_def MERGE_REF_CAP_def clamp_limit_def
      clamp_nat_def)

lemma set_evidence_of:
  "store_ok d \<Longrightarrow> ev \<in> set (evidence_of d rel) \<longleftrightarrow>
     get_relationship_evidence d (re_id ev) = Some ev \<and> re_relationship_id ev = rel"
  by (auto simp: evidence_of_def set_tbl_select store_ok_def evidence_ok_def tbl_keyedD
      get_relationship_evidence_def)

lemma distinct_evidence_of: "store_ok d \<Longrightarrow> distinct (map re_id (evidence_of d rel))"
proof -
  assume "store_ok d"
  then have "distinct (map re_id (tbl_select (\<lambda>ev. re_relationship_id ev = rel)
      (db_relationship_evidence d)))"
    by (intro distinct_tbl_select_key) (auto simp: store_ok_def evidence_ok_def tbl_keyedD)
  then show ?thesis by (simp add: evidence_of_def distinct_map)
qed

text \<open>Moving the listed rows one by one: the rows with the listed ids now point to \<open>to\<close>.\<close>

lemma move_evidence_step:
  assumes "store_ok d" "get_relationship d to \<noteq> None"
    and "get_relationship_evidence d (re_id ev) = Some ev"
  shows "move_evidence to ev d = Inr (d\<lparr>db_relationship_evidence :=
      tbl_upd re_id {re_id ev} (re_relationship_id_update (\<lambda>_. to)) (db_relationship_evidence d)\<rparr>)"
proof -
  have keyed: "tbl_keyed re_id (db_relationship_evidence d)"
    and fk: "fk_opt (db_raw_evidence_keys d) (re_raw_evidence_id ev)"
    using assms by (auto simp: store_ok_def evidence_ok_def evidence_fk_def)
  from assms(3) tbl_put_upd [OF keyed, of "re_id ev" ev "re_relationship_id_update (\<lambda>_. to)"]
    assms(2) fk show ?thesis
    by (simp add: move_evidence_def put_relationship_evidence_def in_keys_iff get_relationship_def
        get_relationship_evidence_def)
qed

lemma move_evidence_run:
  assumes "store_ok d" "get_relationship d to \<noteq> None" "distinct (map re_id evs)"
    and "\<And>ev. ev \<in> set evs \<Longrightarrow> get_relationship_evidence d (re_id ev) = Some ev"
  shows "rfold (move_evidence to) evs d = Inr (d\<lparr>db_relationship_evidence :=
      tbl_upd re_id (re_id ` set evs) (re_relationship_id_update (\<lambda>_. to)) (db_relationship_evidence d)\<rparr>)"
  using assms
proof (induction evs arbitrary: d)
  case Nil
  then show ?case by simp
next
  case (Cons ev evs)
  let ?f = "re_relationship_id_update (\<lambda>_. to)"
  let ?d = "d\<lparr>db_relationship_evidence := tbl_upd re_id {re_id ev} ?f (db_relationship_evidence d)\<rparr>"
  have keyed: "tbl_keyed re_id (db_relationship_evidence d)"
    using Cons.prems(1) by (simp add: store_ok_def evidence_ok_def)
  have step: "move_evidence to ev d = Inr ?d"
    using Cons.prems by (intro move_evidence_step) auto
  have ok: "store_ok ?d" by (rule move_evidence_keeps [OF Cons.prems(1) step])
  have new: "re_id ev \<notin> re_id ` set evs" using Cons.prems(3) by simp
  have "rfold (move_evidence to) evs ?d = Inr (?d\<lparr>db_relationship_evidence :=
      tbl_upd re_id (re_id ` set evs) ?f (db_relationship_evidence ?d)\<rparr>)"
  proof (rule Cons.IH [OF ok])
    show "get_relationship_evidence ?d (re_id x) = Some x" if "x \<in> set evs" for x
    proof -
      have "re_id x \<noteq> re_id ev" using that new by (metis imageI)
      with Cons.prems(4) [of x] that keyed show ?thesis
        by (simp add: get_relationship_evidence_def tbl_get_upd)
    qed
  qed (use Cons.prems in \<open>simp_all add: get_relationship_def\<close>)
  then show ?case
    by (simp add: step tbl_upd_insert [OF new])
qed

lemma put_relationship_run:
  assumes "store_ok d"
    and "\<And>k x. get_relationship d k = Some x \<Longrightarrow> rel_triple x = rel_triple r \<Longrightarrow> k = r_id r"
  shows "put_relationship r d =
    Inr (d\<lparr>db_relationships := tbl_put (r_id r) r (db_relationships d)\<rparr>)"
proof -
  have "tbl_keyed r_id (db_relationships d)"
    using assms(1) by (simp add: store_ok_def relationships_ok_def)
  from tbl_conflict_iff [OF this, of r rel_triple] assms(2) show ?thesis
    by (auto simp: put_relationship_def get_relationship_def)
qed

lemma relationship_keyedD:
  "store_ok d \<Longrightarrow> tbl_keyed r_id (db_relationships d)"
  "store_ok d \<Longrightarrow> get_relationship d i = Some r \<Longrightarrow> r_id r = i"
  "store_ok d \<Longrightarrow> get_relationship d i = Some r \<Longrightarrow> get_relationship d j = Some r' \<Longrightarrow>
     rel_triple r = rel_triple r' \<Longrightarrow> i = j"
  by (auto simp: store_ok_def relationships_ok_def get_relationship_def tbl_keyedD dest: tbl_uniqueD)

lemma updated_absorber_sel [simp]:
  "r_id (updated_absorber now c) = r_id (co_absorber c)"
  "rel_triple (updated_absorber now c) = rel_triple (co_absorber c)"
  by (simp_all add: updated_absorber_def Let_def rel_triple_def)

definition collision_ready :: "db \<Rightarrow> collision \<Rightarrow> bool" where
  "collision_ready d c \<longleftrightarrow>
     get_relationship d (r_id (co_absorbed c)) = Some (co_absorbed c) \<and>
     get_relationship d (r_id (co_absorber c)) = Some (co_absorber c) \<and>
     r_id (co_absorbed c) \<noteq> r_id (co_absorber c) \<and>
     r_id (co_absorbed c) \<notin> set (db_candidate_evidence_relationships d) \<and>
     length (evidence_of d (r_id (co_absorbed c))) < MERGE_REF_CAP"

definition collision_record :: "db \<Rightarrow> collision \<Rightarrow> merged_relationship" where
  "collision_record d c = \<lparr>mr_absorbed_relationship_id = r_id (co_absorbed c),
     mr_absorber_relationship_id = Some (r_id (co_absorber c)),
     mr_absorbed_snapshot = co_absorbed c,
     mr_absorber_pre_merge = Some (pre_merge (co_absorber c)),
     mr_moved_evidence_ids = map re_id (evidence_of d (r_id (co_absorbed c)))\<rparr>"

definition collision_changes :: "(uuid \<Rightarrow> time) \<Rightarrow> collision \<Rightarrow> relationship_change list" where
  "collision_changes clock c = [from_relationship (co_absorbed c) Deleted,
     from_relationship (updated_absorber (clock (r_id (co_absorber c))) c) Upserted]"

lemma absorb_tables:
  assumes ok: "store_ok d" and c: "collision_ready d c"
  shows "drop_relationships {r_id (co_absorbed c)}
      (d\<lparr>db_relationship_evidence := tbl_upd re_id (re_id ` set (evidence_of d (r_id (co_absorbed c))))
            (re_relationship_id_update (\<lambda>_. r_id (co_absorber c))) (db_relationship_evidence d),
         db_relationships := tbl_put (r_id (co_absorber c))
            (updated_absorber (clock (r_id (co_absorber c))) c) (db_relationships d)\<rparr>)
    = absorb clock c d"
proof -
  let ?a = "r_id (co_absorbed c)" and ?b = "r_id (co_absorber c)"
  have "tbl_put ?b (updated_absorber (clock ?b) c) (db_relationships d) =
      tbl_rows (\<lambda>x. Some (if r_id x = ?b then updated_absorber (clock ?b) c else x)) (db_relationships d)"
    using c relationship_keyedD(1) [OF ok]
    by (intro tbl_put_rows) (auto simp: collision_ready_def get_relationship_def)
  then have rel: "tbl_rows (\<lambda>r. if r_id r \<in> {?a} then None else Some r)
        (tbl_put ?b (updated_absorber (clock ?b) c) (db_relationships d))
      = tbl_rows (\<lambda>r. if r_id r = ?a then None
          else Some (if r_id r = ?b then updated_absorber (clock (r_id r)) c else r)) (db_relationships d)"
    using c by (simp only: tbl_rows_rows) (rule tbl_rows_cong, auto simp: collision_ready_def)
  have mem: "re_id ev \<in> re_id ` set (evidence_of d ?a) \<longleftrightarrow> re_relationship_id ev = ?a"
    if "(k, ev) \<in> set (db_relationship_evidence d)" for k ev
  proof -
    have "get_relationship_evidence d (re_id ev) = Some ev"
      using that ok by (auto simp: get_relationship_evidence_def store_ok_def evidence_ok_def
          tbl_get_iff tbl_keyedD)
    then show ?thesis using ok by (force simp: set_evidence_of)
  qed
  have ev: "tbl_rows (\<lambda>ev. if re_relationship_id ev \<in> {?a} then None else Some ev)
        (tbl_upd re_id (re_id ` set (evidence_of d ?a)) (re_relationship_id_update (\<lambda>_. ?b))
          (db_relationship_evidence d))
      = tbl_rows (\<lambda>ev. Some (move_row ?a ?b ev)) (db_relationship_evidence d)"
    unfolding tbl_upd_def tbl_rows_rows
    by (rule tbl_rows_cong) (use c mem in \<open>auto simp: move_row_def collision_ready_def\<close>)
  show ?thesis
    using rel ev by (simp add: drop_relationships_def absorb_def)
qed

lemma merge_collision_step:
  assumes ok: "store_ok (ma_db acc)" and c: "collision_ready (ma_db acc) c"
  shows "merge_collision clock c acc = Inr (acc\<lparr>ma_db := absorb clock c (ma_db acc),
      ma_changes := ma_changes acc @ collision_changes clock c,
      ma_merged := ma_merged acc @ [collision_record (ma_db acc) c]\<rparr>)"
proof -
  let ?d = "ma_db acc" and ?a = "r_id (co_absorbed c)" and ?b = "r_id (co_absorber c)"
  let ?evs = "evidence_of ?d ?a" and ?new = "updated_absorber (clock ?b) c"
  let ?d1 = "?d\<lparr>db_relationship_evidence := tbl_upd re_id (re_id ` set ?evs)
      (re_relationship_id_update (\<lambda>_. ?b)) (db_relationship_evidence ?d)\<rparr>"
  let ?d2 = "?d1\<lparr>db_relationships := tbl_put ?b ?new (db_relationships ?d)\<rparr>"
  have lst: "reject_truncated ''relationship_evidence'' ?a
      (list_relationship_evidence ?d ?a MERGE_REF_CAP) = Inr ?evs"
    using c by (simp add: reject_truncated_def list_relationship_evidence_all collision_ready_def)
  have mv: "rfold (move_evidence ?b) ?evs ?d = Inr ?d1"
    using c by (intro move_evidence_run [OF ok])
      (auto simp: collision_ready_def distinct_evidence_of [OF ok] set_evidence_of [OF ok])
  have ok1: "store_ok ?d1" by (rule evidence_move.rfold_keeps [OF ok mv])
  have put: "put_relationship ?new ?d1 = Inr ?d2"
  proof -
    have "put_relationship ?new ?d1 =
        Inr (?d1\<lparr>db_relationships := tbl_put (r_id ?new) ?new (db_relationships ?d1)\<rparr>)"
      by (rule put_relationship_run [OF ok1])
        (use c relationship_keyedD(3) [OF ok] in \<open>auto simp: collision_ready_def get_relationship_def\<close>)
    then show ?thesis by simp
  qed
  have ok2: "store_ok ?d2" by (rule put_relationship_keeps [OF ok1 put])
  have "delete_relationship ?a ?d2 = Inr (True, absorb clock c ?d)"
    using delete_relationship_run [OF ok2, of ?a] absorb_tables [OF ok c, of clock] c
    by (simp add: collision_ready_def get_relationship_def)
  then show ?thesis
    using lst mv put by (simp add: merge_collision_def Let_def collision_changes_def
        collision_record_def)
qed

text \<open>The whole loop.\<close>

definition collisions_ready :: "db \<Rightarrow> collision list \<Rightarrow> bool" where
  "collisions_ready d cs \<longleftrightarrow> (\<forall>c \<in> set cs. collision_ready d c) \<and>
     distinct (map (\<lambda>c. r_id (co_absorbed c)) cs @ map (\<lambda>c. r_id (co_absorber c)) cs)"

definition move_all :: "collision list \<Rightarrow> relationship_evidence \<Rightarrow> relationship_evidence" where
  "move_all cs ev = fold (\<lambda>c. move_row (r_id (co_absorbed c)) (r_id (co_absorber c))) cs ev"

lemma absorb_sel [simp]:
  "db_entities (absorb clock c d) = db_entities d"
  "db_candidate_evidence_relationships (absorb clock c d) = db_candidate_evidence_relationships d"
  by (simp_all add: absorb_def)

lemma get_relationship_absorb:
  "store_ok d \<Longrightarrow> get_relationship (absorb clock c d) i =
     (if i = r_id (co_absorbed c) then None
      else if i = r_id (co_absorber c)
        then map_option (\<lambda>_. updated_absorber (clock i) c) (get_relationship d i)
      else get_relationship d i)"
  by (auto simp: absorb_def get_relationship_def tbl_get_rows dest: relationship_keyedD(1)
      split: bind_splits simp: relationship_keyedD tbl_keyedD)

lemma tbl_select_rows_same:
  assumes "\<And>r. P (f r) = P r" "\<And>r. P r \<Longrightarrow> f r = r"
  shows "tbl_select P (tbl_rows (\<lambda>r. Some (f r)) t) = tbl_select P t"
  using assms by (induction t) (auto simp: tbl_select_def)

lemma evidence_of_absorb:
  "x \<noteq> r_id (co_absorbed c) \<Longrightarrow> x \<noteq> r_id (co_absorber c) \<Longrightarrow>
     evidence_of (absorb clock c d) x = evidence_of d x"
  unfolding evidence_of_def absorb_def
  by (simp, rule arg_cong [of _ _ "sort_key re_created_at"], rule tbl_select_rows_same)
    (auto simp: move_row_def)

lemma collisions_ready_step:
  assumes "store_ok d" "collisions_ready d (c # cs)"
  shows "store_ok (absorb clock c d)" "collisions_ready (absorb clock c d) cs"
    "map (collision_record (absorb clock c d)) cs = map (collision_record d) cs"
proof -
  have c: "collision_ready d c" using assms(2) by (simp add: collisions_ready_def)
  show "store_ok (absorb clock c d)"
    using collision_step.keeps [OF _ merge_collision_step [where acc = "\<lparr>ma_db = d,
          ma_repointed = [], ma_merged = [], ma_changes = []\<rparr>"]] assms(1) c
    by (simp add: acc_ok_def)
  have fresh: "r_id (co_absorbed c') \<notin> {r_id (co_absorbed c), r_id (co_absorber c)}"
      "r_id (co_absorber c') \<notin> {r_id (co_absorbed c), r_id (co_absorber c)}" if "c' \<in> set cs" for c'
    using assms(2) imageI [OF that, of "\<lambda>c. r_id (co_absorbed c)"]
      imageI [OF that, of "\<lambda>c. r_id (co_absorber c)"]
    unfolding collisions_ready_def by (auto simp del: image_eqI)
  show "collisions_ready (absorb clock c d) cs"
    using assms fresh
    by (auto simp: collisions_ready_def collision_ready_def get_relationship_absorb evidence_of_absorb)
  show "map (collision_record (absorb clock c d)) cs = map (collision_record d) cs"
    using fresh by (simp add: collision_record_def evidence_of_absorb)
qed

lemma collisions_run:
  assumes "store_ok (ma_db acc)" "collisions_ready (ma_db acc) cs"
  shows "rfold (merge_collision clock) cs acc = Inr (acc\<lparr>
      ma_db := fold (absorb clock) cs (ma_db acc),
      ma_merged := ma_merged acc @ map (collision_record (ma_db acc)) cs,
      ma_changes := ma_changes acc @ concat (map (collision_changes clock) cs)\<rparr>)"
  using assms
proof (induction cs arbitrary: acc)
  case Nil
  then show ?case by simp
next
  case (Cons c cs)
  note step = collisions_ready_step [OF Cons.prems, where clock = clock]
  let ?acc = "acc\<lparr>ma_db := absorb clock c (ma_db acc),
      ma_changes := ma_changes acc @ collision_changes clock c,
      ma_merged := ma_merged acc @ [collision_record (ma_db acc) c]\<rparr>"
  have "merge_collision clock c acc = Inr ?acc"
    using Cons.prems by (intro merge_collision_step) (simp_all add: collisions_ready_def)
  with Cons.IH [of ?acc] step show ?case by simp
qed

lemma absorb_all_relationships:
  assumes "store_ok d" "collisions_ready d cs"
  shows "store_ok (fold (absorb clock) cs d)
    \<and> (\<forall>c \<in> set cs. get_relationship (fold (absorb clock) cs d) (r_id (co_absorbed c)) = None
        \<and> get_relationship (fold (absorb clock) cs d) (r_id (co_absorber c))
            = Some (updated_absorber (clock (r_id (co_absorber c))) c))
    \<and> (\<forall>i. i \<notin> (\<lambda>c. r_id (co_absorbed c)) ` set cs \<longrightarrow> i \<notin> (\<lambda>c. r_id (co_absorber c)) ` set cs \<longrightarrow>
        get_relationship (fold (absorb clock) cs d) i = get_relationship d i)"
  using assms
proof (induction cs arbitrary: d)
  case (Cons x xs)
  let ?d = "absorb clock x d"
  note step = collisions_ready_step [OF Cons.prems, where clock = clock]
  note IH = Cons.IH [OF step(1,2)]
  have x: "collision_ready d x"
    and fresh: "r_id (co_absorbed x) \<notin> (\<lambda>c. r_id (co_absorbed c)) ` set xs"
      "r_id (co_absorbed x) \<notin> (\<lambda>c. r_id (co_absorber c)) ` set xs"
      "r_id (co_absorber x) \<notin> (\<lambda>c. r_id (co_absorbed c)) ` set xs"
      "r_id (co_absorber x) \<notin> (\<lambda>c. r_id (co_absorber c)) ` set xs"
    using Cons.prems(2) by (auto simp: collisions_ready_def)
  have "get_relationship (fold (absorb clock) xs ?d) (r_id (co_absorbed x)) = None"
    "get_relationship (fold (absorb clock) xs ?d) (r_id (co_absorber x))
        = Some (updated_absorber (clock (r_id (co_absorber x))) x)"
    using IH fresh x Cons.prems(1) by (simp_all add: get_relationship_absorb collision_ready_def)
  moreover have "get_relationship (fold (absorb clock) xs ?d) i = get_relationship d i"
    if "i \<notin> (\<lambda>c. r_id (co_absorbed c)) ` set (x # xs)" "i \<notin> (\<lambda>c. r_id (co_absorber c)) ` set (x # xs)" for i
    using IH that Cons.prems(1) by (simp add: get_relationship_absorb)
  ultimately show ?case using IH by simp
qed simp

lemma absorb_all_frame:
  "\<exists>R. fold (absorb clock) cs d = d\<lparr>db_relationships := R, db_relationship_evidence :=
      tbl_rows (\<lambda>ev. Some (move_all cs ev)) (db_relationship_evidence d)\<rparr>"
proof (induction cs arbitrary: d)
  case Nil
  show ?case by (rule exI [of _ "db_relationships d"]) (simp add: move_all_def)
next
  case (Cons c cs)
  from Cons.IH [of "absorb clock c d"] show ?case
    by (auto simp: absorb_def tbl_rows_rows move_all_def)
qed

section \<open>Repointing the remaining relationships\<close>

definition repoint_row :: "(uuid \<Rightarrow> time) \<Rightarrow> uuid \<Rightarrow> uuid \<Rightarrow> relationship \<Rightarrow> relationship" where
  "repoint_row clock m s r = repointed_relationship (clock (r_id r)) m s r"

definition repoint_all :: "(uuid \<Rightarrow> time) \<Rightarrow> uuid \<Rightarrow> uuid \<Rightarrow> uuid set \<Rightarrow> db \<Rightarrow> db" where
  "repoint_all clock m s K d =
     d\<lparr>db_relationships := tbl_upd r_id K (repoint_row clock m s) (db_relationships d)\<rparr>"

lemma repoint_row_sel [simp]:
  "r_id (repoint_row clock m s r) = r_id r"
  "rel_triple (repoint_row clock m s r) = repointed_triple m s r"
  by (simp_all add: repoint_row_def repointed_relationship_def repointed_triple_def rel_triple_def
      case_prod_beta)

definition repoints_ready :: "db \<Rightarrow> uuid \<Rightarrow> uuid \<Rightarrow> relationship list \<Rightarrow> bool" where
  "repoints_ready d m s rels \<longleftrightarrow>
     distinct (map r_id rels) \<and> distinct (map (repointed_triple m s) rels) \<and>
     (\<forall>r \<in> set rels. get_relationship d (r_id r) = Some r
        \<and> relationship_repoint_column r m \<noteq> None
        \<and> (\<forall>k x. get_relationship d k = Some x \<longrightarrow> rel_triple x \<noteq> repointed_triple m s r))"

definition repoint_record :: "uuid \<Rightarrow> relationship \<Rightarrow> repointed_reference" where
  "repoint_record m r =
     repointed ''relationships'' (r_id r) (the (relationship_repoint_column r m)) m"

lemma get_relationship_repoint_all:
  "store_ok d \<Longrightarrow> get_relationship (repoint_all clock m s K d) i =
     map_option (\<lambda>r. if i \<in> K then repoint_row clock m s r else r) (get_relationship d i)"
  by (simp add: get_relationship_def repoint_all_def tbl_get_upd relationship_keyedD)

lemma safe_repoint_step:
  assumes ok: "store_ok (ma_db acc)" and r: "repoints_ready (ma_db acc) m s (r # rels)"
  shows "merge_safe_repoint clock m s r acc = Inr (acc\<lparr>
      ma_db := repoint_all clock m s {r_id r} (ma_db acc),
      ma_changes := ma_changes acc @ [from_relationship (repoint_row clock m s r) Upserted],
      ma_repointed := ma_repointed acc @ [repoint_record m r]\<rparr>)"
    and "store_ok (repoint_all clock m s {r_id r} (ma_db acc))"
    and "repoints_ready (repoint_all clock m s {r_id r} (ma_db acc)) m s rels"
proof -
  let ?d = "ma_db acc"
  have row: "get_relationship ?d (r_id r) = Some r"
    and no_clash: "\<And>k x. get_relationship ?d k = Some x \<Longrightarrow> rel_triple x \<noteq> repointed_triple m s r"
    using r by (auto simp: repoints_ready_def)
  obtain column where col: "relationship_repoint_column r m = Some column"
    using r by (auto simp: repoints_ready_def)
  have "put_relationship (repoint_row clock m s r) ?d = Inr (?d\<lparr>db_relationships :=
      tbl_put (r_id (repoint_row clock m s r)) (repoint_row clock m s r) (db_relationships ?d)\<rparr>)"
    by (rule put_relationship_run [OF ok]) (use no_clash in auto)
  also have "\<dots> = Inr (repoint_all clock m s {r_id r} ?d)"
    using tbl_put_upd [OF relationship_keyedD(1) [OF ok], of "r_id r" r "repoint_row clock m s"] row
    by (simp add: repoint_all_def get_relationship_def)
  finally have put: "put_relationship (repoint_row clock m s r) ?d
      = Inr (repoint_all clock m s {r_id r} ?d)" .
  then show "merge_safe_repoint clock m s r acc = Inr (acc\<lparr>
      ma_db := repoint_all clock m s {r_id r} (ma_db acc),
      ma_changes := ma_changes acc @ [from_relationship (repoint_row clock m s r) Upserted],
      ma_repointed := ma_repointed acc @ [repoint_record m r]\<rparr>)"
    using col unfolding merge_safe_repoint_def repoint_row_def
    by (simp add: Let_def repoint_record_def)
  show "store_ok (repoint_all clock m s {r_id r} ?d)"
    by (rule put_relationship_keeps [OF ok put])
  have fresh: "r_id x \<noteq> r_id r" "repointed_triple m s x \<noteq> repointed_triple m s r"
    if "x \<in> set rels" for x
  proof -
    have "r_id r \<notin> r_id ` set rels" "repointed_triple m s r \<notin> repointed_triple m s ` set rels"
      using r by (simp_all add: repoints_ready_def)
    with that show "r_id x \<noteq> r_id r" "repointed_triple m s x \<noteq> repointed_triple m s r"
      by (metis imageI)+
  qed
  have clash: "rel_triple y \<noteq> repointed_triple m s x"
    if "x \<in> set rels" "get_relationship (repoint_all clock m s {r_id r} ?d) k = Some y" for x k y
  proof -
    from that(2) obtain y0 where "get_relationship ?d k = Some y0"
      "y = (if k = r_id r then repoint_row clock m s y0 else y0)"
      by (auto simp: get_relationship_repoint_all [OF ok])
    moreover have "\<forall>k z. get_relationship ?d k = Some z \<longrightarrow> rel_triple z \<noteq> repointed_triple m s x"
      using r that(1) by (simp add: repoints_ready_def)
    ultimately show ?thesis
      using row fresh(2) [OF that(1)] by (metis option.inject repoint_row_sel(2))
  qed
  show "repoints_ready (repoint_all clock m s {r_id r} ?d) m s rels"
    using r fresh(1) clash by (simp add: repoints_ready_def get_relationship_repoint_all [OF ok])
qed

lemma safe_repoints_run:
  assumes "store_ok (ma_db acc)" "repoints_ready (ma_db acc) m s rels"
  shows "rfold (merge_safe_repoint clock m s) rels acc = Inr (acc\<lparr>
      ma_db := repoint_all clock m s (r_id ` set rels) (ma_db acc),
      ma_changes := ma_changes acc
        @ map (\<lambda>r. from_relationship (repoint_row clock m s r) Upserted) rels,
      ma_repointed := ma_repointed acc @ map (repoint_record m) rels\<rparr>)"
  using assms
proof (induction rels arbitrary: acc)
  case Nil
  then show ?case by (simp add: repoint_all_def)
next
  case (Cons r rels)
  note step = safe_repoint_step [OF Cons.prems, where clock = clock]
  let ?acc = "acc\<lparr>ma_db := repoint_all clock m s {r_id r} (ma_db acc),
      ma_changes := ma_changes acc @ [from_relationship (repoint_row clock m s r) Upserted],
      ma_repointed := ma_repointed acc @ [repoint_record m r]\<rparr>"
  have "r_id r \<notin> r_id ` set rels" using Cons.prems(2) by (auto simp: repoints_ready_def)
  then have "repoint_all clock m s (r_id ` set rels) (repoint_all clock m s {r_id r} (ma_db acc))
      = repoint_all clock m s (r_id ` set (r # rels)) (ma_db acc)"
    by (simp add: repoint_all_def tbl_upd_insert)
  with Cons.IH [of ?acc] step show ?case by simp
qed

section \<open>Moving aliases, identifiers and extractions\<close>

lemma aliases_run:
  assumes "store_ok (ma_db acc)" "entity_exists (ma_db acc) s" "distinct (map ea_id xs)"
    and "\<And>x. x \<in> set xs \<Longrightarrow> get_entity_alias (ma_db acc) (ea_id x) = Some x"
  shows "rfold (merge_alias m s) xs acc = Inr (acc\<lparr>
      ma_db := (ma_db acc)\<lparr>db_entity_aliases := tbl_upd ea_id (ea_id ` set xs)
        (ea_entity_id_update (\<lambda>_. s)) (db_entity_aliases (ma_db acc))\<rparr>,
      ma_repointed := ma_repointed acc
        @ map (\<lambda>x. repointed ''entity_aliases'' (ea_id x) ''entity_id'' m) xs\<rparr>)"
  using assms
proof (induction xs arbitrary: acc)
  case (Cons x xs)
  let ?d = "ma_db acc" and ?f = "ea_entity_id_update (\<lambda>_. s)"
  let ?d' = "?d\<lparr>db_entity_aliases := tbl_upd ea_id {ea_id x} ?f (db_entity_aliases ?d)\<rparr>"
  let ?acc = "acc\<lparr>ma_db := ?d', ma_repointed := ma_repointed acc
        @ [repointed ''entity_aliases'' (ea_id x) ''entity_id'' m]\<rparr>"
  have keyed: "tbl_keyed ea_id (db_entity_aliases ?d)"
    and row: "tbl_get (db_entity_aliases ?d) (ea_id x) = Some x"
    and fk: "fk_opt (db_source_keys ?d) (ea_source_id x)"
    using Cons.prems by (auto simp: store_ok_def aliases_ok_def get_entity_alias_def)
  have "put_entity_alias (?f x) ?d = Inr ?d'"
    using tbl_put_upd [OF keyed row, of ?f] Cons.prems(2) fk
    by (simp add: put_entity_alias_def entity_exists_def get_entity_def in_keys_iff)
  then have step: "merge_alias m s x acc = Inr ?acc" and ok: "store_ok ?d'"
    using put_entity_alias_keeps [OF Cons.prems(1)] by (simp_all add: merge_alias_def)
  have new: "ea_id x \<notin> ea_id ` set xs" using Cons.prems(3) by simp
  have rows: "get_entity_alias ?d' (ea_id y) = Some y" if "y \<in> set xs" for y
    using Cons.prems(4) [of y] that imageI [OF that, of ea_id] new keyed
    by (auto simp: get_entity_alias_def tbl_get_upd simp del: image_eqI)
  from Cons.IH [of ?acc] ok rows Cons.prems show ?case
    by (simp add: step tbl_upd_insert [OF new] entity_exists_def get_entity_def)
qed simp

lemma identifiers_run:
  assumes "store_ok (ma_db acc)" "entity_exists (ma_db acc) s" "distinct (map ei_id xs)"
    and "\<And>x. x \<in> set xs \<Longrightarrow> get_entity_identifier (ma_db acc) (ei_id x) = Some x"
  shows "rfold (merge_identifier m s) xs acc = Inr (acc\<lparr>
      ma_db := (ma_db acc)\<lparr>db_entity_identifiers := tbl_upd ei_id (ei_id ` set xs)
        (ei_entity_id_update (\<lambda>_. s)) (db_entity_identifiers (ma_db acc))\<rparr>,
      ma_repointed := ma_repointed acc
        @ map (\<lambda>x. repointed ''entity_identifiers'' (ei_id x) ''entity_id'' m) xs\<rparr>)"
  using assms
proof (induction xs arbitrary: acc)
  case (Cons x xs)
  let ?d = "ma_db acc" and ?f = "ei_entity_id_update (\<lambda>_. s)"
  let ?d' = "?d\<lparr>db_entity_identifiers := tbl_upd ei_id {ei_id x} ?f (db_entity_identifiers ?d)\<rparr>"
  let ?acc = "acc\<lparr>ma_db := ?d', ma_repointed := ma_repointed acc
        @ [repointed ''entity_identifiers'' (ei_id x) ''entity_id'' m]\<rparr>"
  have keyed: "tbl_keyed ei_id (db_entity_identifiers ?d)"
    and uniq: "tbl_unique identifier_natural_key (db_entity_identifiers ?d)"
    and row: "tbl_get (db_entity_identifiers ?d) (ei_id x) = Some x"
    and fk: "fk_opt (db_source_keys ?d) (ei_source_id x)"
    using Cons.prems by (auto simp: store_ok_def identifiers_ok_def get_entity_identifier_def)
  have "\<not> (\<exists>r \<in> set (map snd (db_entity_identifiers ?d)). ei_id r \<noteq> ei_id (?f x)
      \<and> identifier_natural_key r = identifier_natural_key (?f x))"
    using tbl_uniqueD [OF uniq _ row]
    by (subst tbl_conflict_iff [OF keyed]) (auto simp: identifier_natural_key_def)
  then have "put_entity_identifier (?f x) ?d = Inr ?d'"
    using tbl_put_upd [OF keyed row, of ?f] Cons.prems(2) fk
    by (simp add: put_entity_identifier_def entity_exists_def get_entity_def in_keys_iff)
  then have step: "merge_identifier m s x acc = Inr ?acc" and ok: "store_ok ?d'"
    using put_entity_identifier_keeps [OF Cons.prems(1)] by (simp_all add: merge_identifier_def)
  have new: "ei_id x \<notin> ei_id ` set xs" using Cons.prems(3) by simp
  have rows: "get_entity_identifier ?d' (ei_id y) = Some y" if "y \<in> set xs" for y
    using Cons.prems(4) [of y] that imageI [OF that, of ei_id] new keyed
    by (auto simp: get_entity_identifier_def tbl_get_upd simp del: image_eqI)
  from Cons.IH [of ?acc] ok rows Cons.prems show ?case
    by (simp add: step tbl_upd_insert [OF new] entity_exists_def get_entity_def)
qed simp

lemma extractions_run:
  assumes "store_ok (ma_db acc)" "entity_exists (ma_db acc) s" "distinct (map ex_id xs)"
    and "\<And>x. x \<in> set xs \<Longrightarrow> get_entity_extraction (ma_db acc) (ex_id x) = Some x"
  shows "rfold (merge_extraction m s) xs acc = Inr (acc\<lparr>
      ma_db := (ma_db acc)\<lparr>db_entity_extractions := tbl_upd ex_id (ex_id ` set xs)
        (ex_entity_id_update (\<lambda>_. s)) (db_entity_extractions (ma_db acc))\<rparr>,
      ma_repointed := ma_repointed acc
        @ map (\<lambda>x. repointed ''entity_extractions'' (ex_id x) ''entity_id'' m) xs\<rparr>)"
  using assms
proof (induction xs arbitrary: acc)
  case (Cons x xs)
  let ?d = "ma_db acc" and ?f = "ex_entity_id_update (\<lambda>_. s)"
  let ?d' = "?d\<lparr>db_entity_extractions := tbl_upd ex_id {ex_id x} ?f (db_entity_extractions ?d)\<rparr>"
  let ?acc = "acc\<lparr>ma_db := ?d', ma_repointed := ma_repointed acc
        @ [repointed ''entity_extractions'' (ex_id x) ''entity_id'' m]\<rparr>"
  have keyed: "tbl_keyed ex_id (db_entity_extractions ?d)"
    and row: "tbl_get (db_entity_extractions ?d) (ex_id x) = Some x"
    using Cons.prems by (auto simp: store_ok_def extractions_ok_def get_entity_extraction_def)
  have "put_entity_extraction (?f x) ?d = Inr ?d'"
    using tbl_put_upd [OF keyed row, of ?f] Cons.prems(2)
    by (simp add: put_entity_extraction_def entity_exists_def get_entity_def in_keys_iff)
  then have step: "merge_extraction m s x acc = Inr ?acc" and ok: "store_ok ?d'"
    using put_entity_extraction_keeps [OF Cons.prems(1)] by (simp_all add: merge_extraction_def)
  have new: "ex_id x \<notin> ex_id ` set xs" using Cons.prems(3) by simp
  have rows: "get_entity_extraction ?d' (ex_id y) = Some y" if "y \<in> set xs" for y
    using Cons.prems(4) [of y] that imageI [OF that, of ex_id] new keyed
    by (auto simp: get_entity_extraction_def tbl_get_upd simp del: image_eqI)
  from Cons.IH [of ?acc] ok rows Cons.prems show ?case
    by (simp add: step tbl_upd_insert [OF new] entity_exists_def get_entity_def)
qed simp

end
