(* ===== verification/MergeCorrect.thy ===== *)
theory MergeCorrect
  imports MergePhases
begin

text \<open>
  The whole merge transaction: under what conditions it succeeds, and what the store holds
  afterwards. The conditions are those the code checks, together with what the schema keeps
  (\<open>store_ok\<close>) and one the code does not check: no relationship of the merged entity may be
  referenced by a row of \<open>candidate_evidence\<close>.
\<close>

section \<open>The rows a merge collects\<close>

definition rels_of :: "db \<Rightarrow> uuid \<Rightarrow> relationship list" where
  "rels_of d x = rev (tbl_select (touches x) (db_relationships d))"

definition aliases_of :: "db \<Rightarrow> uuid \<Rightarrow> entity_alias list" where
  "aliases_of d x = tbl_select (\<lambda>a. ea_entity_id a = x) (db_entity_aliases d)"

definition identifiers_of :: "db \<Rightarrow> uuid \<Rightarrow> entity_identifier list" where
  "identifiers_of d x = tbl_select (\<lambda>a. ei_entity_id a = x) (db_entity_identifiers d)"

definition extractions_of :: "db \<Rightarrow> uuid \<Rightarrow> entity_extraction list" where
  "extractions_of d x = tbl_select (\<lambda>a. ex_entity_id a = x) (db_entity_extractions d)"

definition mergeable :: "db \<Rightarrow> entity \<Rightarrow> entity \<Rightarrow> bool" where
  "mergeable d survivor merged \<longleftrightarrow> store_ok d \<and>
     get_entity d (e_id survivor) = Some survivor \<and> get_entity d (e_id merged) = Some merged \<and>
     e_id survivor \<noteq> e_id merged \<and> e_entity_type survivor = e_entity_type merged \<and>
     e_merged_into survivor = None \<and> e_merged_into merged = None \<and>
     length (rels_of d (e_id merged)) < MERGE_REF_CAP \<and>
     length (rels_of d (e_id survivor)) < MERGE_REF_CAP \<and>
     length (aliases_of d (e_id merged)) < MERGE_REF_CAP \<and>
     length (identifiers_of d (e_id merged)) < MERGE_REF_CAP \<and>
     length (extractions_of d (e_id merged)) < MERGE_REF_CAP \<and>
     (\<forall>r \<in> set (rels_of d (e_id merged)). length (evidence_of d (r_id r)) < MERGE_REF_CAP
        \<and> r_id r \<notin> set (db_candidate_evidence_relationships d))"

lemma touches_fun: "(\<lambda>r. r_source_object_id r = x \<or> r_target_object_id r = x) = touches x"
  by (simp add: fun_eq_iff touches_def)

lemma collected_lists:
  assumes "length (rels_of d x) < MERGE_REF_CAP"
  shows "list_relationships_by_object d x MERGE_REF_CAP = rels_of d x"
  using assms
  by (simp add: list_relationships_by_object_def touches_fun rels_of_def MERGE_REF_CAP_def
      clamp_limit_def clamp_nat_def)

lemma collected_entity_lists:
  "length (aliases_of d x) < MERGE_REF_CAP \<Longrightarrow>
     list_entity_aliases_by_entity d x MERGE_REF_CAP = aliases_of d x"
  "length (identifiers_of d x) < MERGE_REF_CAP \<Longrightarrow>
     list_entity_identifiers_by_entity d x MERGE_REF_CAP = identifiers_of d x"
  "length (extractions_of d x) < MERGE_REF_CAP \<Longrightarrow>
     list_entity_extractions_by_entity d x MERGE_REF_CAP = extractions_of d x"
  by (simp_all add: list_entity_aliases_by_entity_def list_entity_identifiers_by_entity_def
      list_entity_extractions_by_entity_def aliases_of_def identifiers_of_def extractions_of_def
      MERGE_REF_CAP_def clamp_limit_def clamp_nat_def)

lemma set_rels_of:
  "store_ok d \<Longrightarrow> r \<in> set (rels_of d x) \<longleftrightarrow> get_relationship d (r_id r) = Some r \<and> touches x r"
  by (simp add: rels_of_def get_relationship_def mem_tbl_select [OF relationship_keyedD(1)])

lemma distinct_rels_of: "store_ok d \<Longrightarrow> distinct (map r_id (rels_of d x))"
  unfolding rels_of_def rev_map [symmetric] distinct_rev
  by (intro distinct_tbl_select_key) (auto dest: relationship_keyedD(1) tbl_keyedD)

lemma entity_rows_of:
  assumes "store_ok d"
  shows "distinct (map ea_id (aliases_of d x))" "distinct (map ei_id (identifiers_of d x))"
    "distinct (map ex_id (extractions_of d x))"
    and "a \<in> set (aliases_of d x) \<longleftrightarrow> get_entity_alias d (ea_id a) = Some a \<and> ea_entity_id a = x"
    and "i \<in> set (identifiers_of d x) \<longleftrightarrow> get_entity_identifier d (ei_id i) = Some i \<and> ei_entity_id i = x"
    and "e \<in> set (extractions_of d x) \<longleftrightarrow> get_entity_extraction d (ex_id e) = Some e \<and> ex_entity_id e = x"
  using assms unfolding aliases_of_def identifiers_of_def extractions_of_def
  by (auto intro!: distinct_tbl_select_key
      simp: store_ok_def aliases_ok_def identifiers_ok_def extractions_ok_def tbl_keyedD
        set_tbl_select store_gets)

section \<open>The loops are ready\<close>

definition loops :: "db \<Rightarrow> uuid \<Rightarrow> uuid \<Rightarrow> relationship list" where
  "loops d m s = loops_of (rels_of d m) m s"

definition cols :: "db \<Rightarrow> uuid \<Rightarrow> uuid \<Rightarrow> collision list" where
  "cols d m s = collisions_of (rels_of d m) (rels_of d s) m s"

definition safe :: "db \<Rightarrow> uuid \<Rightarrow> uuid \<Rightarrow> relationship list" where
  "safe d m s = safe_of (rels_of d m) (rels_of d s) m s"

lemma absorber_row:
  "store_ok d \<Longrightarrow> absorber_for (rels_of d s) m s r = Some a \<Longrightarrow>
     get_relationship d (r_id a) = Some a \<and> rel_triple a = repointed_triple m s r"
  using absorber_for_Some [of "rels_of d s" m s r a] by (simp add: set_rels_of)

text \<open>A row of the graph, by its class.\<close>

lemma class_rows:
  assumes "store_ok d"
  shows "r \<in> set (loops d m s) \<longleftrightarrow>
      get_relationship d (r_id r) = Some r \<and> touches m r \<and> becomes_loop m s r"
    and "r \<in> set (safe d m s) \<longleftrightarrow> get_relationship d (r_id r) = Some r \<and> touches m r
      \<and> \<not> becomes_loop m s r \<and> absorber_for (rels_of d s) m s r = None"
  using assms
  by (auto simp: loops_def loops_of_def safe_def safe_of_def set_rels_of)

lemma cols_rows:
  assumes "store_ok d" "c \<in> set (cols d m s)"
  shows "get_relationship d (r_id (co_absorbed c)) = Some (co_absorbed c)"
    "get_relationship d (r_id (co_absorber c)) = Some (co_absorber c)"
    "rel_triple (co_absorber c) = repointed_triple m s (co_absorbed c)"
    "touches m (co_absorbed c)" "\<not> becomes_loop m s (co_absorbed c)"
  using assms
  by (auto simp: cols_def collisions_of_def set_rels_of dest: absorber_row)

lemma absorber_untouched:
  assumes "store_ok d" "m \<noteq> s" "c \<in> set (cols d m s)"
  shows "\<not> touches m (co_absorber c)"
  by (rule repointed_triple_not_touching [OF cols_rows(3) [OF assms(1,3)] assms(2)])

lemma class_covers:
  assumes "store_ok d" "get_relationship d i = Some r" "touches m r"
  shows "r \<in> set (loops d m s) \<or> r \<in> co_absorbed ` set (cols d m s) \<or> r \<in> set (safe d m s)"
proof -
  have "r \<in> set (rels_of d m)"
    using assms by (simp add: set_rels_of relationship_keyedD(2))
  then show ?thesis
    by (auto simp: loops_def loops_of_def safe_def safe_of_def cols_def collisions_of_def image_iff)
qed

lemma distinct_classes:
  assumes "store_ok d"
  shows "distinct (map r_id (loops d m s))" "distinct (map r_id (safe d m s))"
    "distinct (map (\<lambda>c. r_id (co_absorbed c)) (cols d m s))"
  using distinct_rels_of [OF assms, of m]
  by (auto simp: loops_def loops_of_def safe_def safe_of_def cols_def collisions_of_def comp_def
      distinct_map_filter)

lemma distinct_absorbers:
  assumes "store_ok d" "m \<noteq> s"
  shows "distinct (map (\<lambda>c. r_id (co_absorber c)) (cols d m s))"
proof -
  have "r_id (co_absorbed c) = r_id (co_absorbed c')"
    if c: "c \<in> set (cols d m s)" "c' \<in> set (cols d m s)" "r_id (co_absorber c) = r_id (co_absorber c')" for c c'
  proof -
    note r = cols_rows [OF assms(1) c(1)] and r' = cols_rows [OF assms(1) c(2)]
    have "co_absorber c = co_absorber c'" using r(2) r'(2) c(3) by (metis option.inject)
    then have "repointed_triple m s (co_absorbed c) = repointed_triple m s (co_absorbed c')"
      using r(3) r'(3) by metis
    from repointed_triple_inj [OF r(4,5) r'(4,5) assms(2) this] show ?thesis
      by (rule relationship_keyedD(3) [OF assms(1) r(1) r'(1)])
  qed
  moreover have "distinct (cols d m s)" "inj_on (\<lambda>c. r_id (co_absorbed c)) (set (cols d m s))"
    using distinct_classes(3) [OF assms(1)] by (simp_all only: distinct_map)
  ultimately have "inj_on (\<lambda>c. r_id (co_absorber c)) (set (cols d m s))"
    by (intro inj_onI) (blast dest: inj_onD)
  with \<open>distinct (cols d m s)\<close> show ?thesis by (simp only: distinct_map simp_thms)
qed

text \<open>The graph after the first two loops, row by row.\<close>

definition graph1 :: "db \<Rightarrow> uuid \<Rightarrow> uuid \<Rightarrow> db" where
  "graph1 d m s = drop_relationships (r_id ` set (loops d m s)) d"

definition graph2 :: "(uuid \<Rightarrow> time) \<Rightarrow> db \<Rightarrow> uuid \<Rightarrow> uuid \<Rightarrow> db" where
  "graph2 clock d m s = fold (absorb clock) (cols d m s) (graph1 d m s)"

lemma loop_ids:
  assumes "store_ok d" "get_relationship d i = Some r"
  shows "i \<in> r_id ` set (loops d m s) \<longleftrightarrow> touches m r \<and> becomes_loop m s r"
  using assms relationship_keyedD(2) [OF assms]
  by (auto simp: class_rows(1) [OF assms(1)] image_iff)

lemma graph1_relationship:
  assumes "store_ok d"
  shows "get_relationship (graph1 d m s) i = (case get_relationship d i of None \<Rightarrow> None
    | Some r \<Rightarrow> if touches m r \<and> becomes_loop m s r then None else Some r)"
  using assms
  by (auto simp: graph1_def get_relationship_drop loop_ids split: option.splits)

lemma tbl_select_drop:
  "(\<And>r. P r \<Longrightarrow> \<not> Q r) \<Longrightarrow>
     tbl_select P (tbl_rows (\<lambda>r. if Q r then None else Some r) t) = tbl_select P t"
  by (induction t) (auto simp: tbl_select_def)

lemma evidence_of_drop: "x \<notin> K \<Longrightarrow> evidence_of (drop_relationships K d) x = evidence_of d x"
  unfolding evidence_of_def drop_relationships_def
  by (simp, rule arg_cong [of _ _ "sort_key re_created_at"], rule tbl_select_drop) auto

lemma mergeableD:
  assumes "mergeable d survivor merged"
  shows "store_ok d" "e_id merged \<noteq> e_id survivor" "entity_exists d (e_id survivor)"
    "get_entity d (e_id survivor) = Some survivor" "get_entity d (e_id merged) = Some merged"
    and "\<And>i r. get_relationship d i = Some r \<Longrightarrow> touches (e_id merged) r \<Longrightarrow>
        length (evidence_of d i) < MERGE_REF_CAP \<and> i \<notin> set (db_candidate_evidence_relationships d)"
proof -
  show D: "store_ok d" "e_id merged \<noteq> e_id survivor" "entity_exists d (e_id survivor)"
    "get_entity d (e_id survivor) = Some survivor" "get_entity d (e_id merged) = Some merged"
    using assms by (auto simp: mergeable_def entity_exists_def)
  fix i r
  assume r: "get_relationship d i = Some r" "touches (e_id merged) r"
  then have "r \<in> set (rels_of d (e_id merged))" "r_id r = i"
    using D(1) by (simp_all add: set_rels_of relationship_keyedD(2))
  then show "length (evidence_of d i) < MERGE_REF_CAP \<and> i \<notin> set (db_candidate_evidence_relationships d)"
    using assms by (auto simp: mergeable_def)
qed

lemma graph1_ok:
  assumes "mergeable d survivor merged"
  shows "store_ok (graph1 d (e_id merged) (e_id survivor))"
    and "rfold merge_self_loop (loops d (e_id merged) (e_id survivor))
        \<lparr>ma_db = d, ma_repointed = [], ma_merged = [], ma_changes = []\<rparr>
      = Inr \<lparr>ma_db = graph1 d (e_id merged) (e_id survivor), ma_repointed = [],
          ma_merged = map loop_record (loops d (e_id merged) (e_id survivor)),
          ma_changes = map (\<lambda>r. from_relationship r Deleted) (loops d (e_id merged) (e_id survivor))\<rparr>"
proof -
  let ?acc = "\<lparr>ma_db = d, ma_repointed = [], ma_merged = [], ma_changes = []\<rparr>"
  note D = mergeableD [OF assms]
  have run: "rfold merge_self_loop (loops d (e_id merged) (e_id survivor)) ?acc = Inr (?acc\<lparr>
      ma_db := graph1 d (e_id merged) (e_id survivor),
      ma_merged := ma_merged ?acc @ map loop_record (loops d (e_id merged) (e_id survivor)),
      ma_changes := ma_changes ?acc
        @ map (\<lambda>r. from_relationship r Deleted) (loops d (e_id merged) (e_id survivor))\<rparr>)"
    unfolding graph1_def
    by (subst self_loops_run) (use D distinct_classes(1) [OF D(1)] in \<open>auto simp: class_rows(1)\<close>)
  then show "rfold merge_self_loop (loops d (e_id merged) (e_id survivor)) ?acc
      = Inr \<lparr>ma_db = graph1 d (e_id merged) (e_id survivor), ma_repointed = [],
          ma_merged = map loop_record (loops d (e_id merged) (e_id survivor)),
          ma_changes = map (\<lambda>r. from_relationship r Deleted) (loops d (e_id merged) (e_id survivor))\<rparr>"
    by simp
  from self_loop_step.rfold_keeps [OF _ run] D(1)
  show "store_ok (graph1 d (e_id merged) (e_id survivor))" by (simp add: acc_ok_def)
qed

lemma cols_ready:
  assumes "mergeable d survivor merged"
  shows "collisions_ready (graph1 d (e_id merged) (e_id survivor)) (cols d (e_id merged) (e_id survivor))"
proof -
  let ?m = "e_id merged" and ?s = "e_id survivor"
  note D = mergeableD [OF assms]
  have ready: "collision_ready (graph1 d ?m ?s) c" if c: "c \<in> set (cols d ?m ?s)" for c
  proof -
    note r = cols_rows [OF D(1) c] and a = absorber_untouched [OF D(1,2) c]
    have "r_id (co_absorbed c) \<notin> r_id ` set (loops d ?m ?s)"
      using loop_ids [OF D(1) r(1)] r(5) by blast
    moreover have "r_id (co_absorbed c) \<noteq> r_id (co_absorber c)"
      using r(1,2,4) a by (metis option.inject)
    ultimately show ?thesis
      using r a D(6) [OF r(1,4)]
      by (simp add: collision_ready_def graph1_relationship [OF D(1)])
        (simp add: graph1_def evidence_of_drop)
  qed
  have "r_id (co_absorbed c) \<noteq> r_id (co_absorber c')"
    if c: "c \<in> set (cols d ?m ?s)" and c': "c' \<in> set (cols d ?m ?s)" for c c'
    using cols_rows(1,4) [OF D(1) c] cols_rows(2) [OF D(1) c'] absorber_untouched [OF D(1,2) c']
    by (metis option.inject)
  then have "set (map (\<lambda>c. r_id (co_absorbed c)) (cols d ?m ?s))
      \<inter> set (map (\<lambda>c. r_id (co_absorber c)) (cols d ?m ?s)) = {}"
    by auto
  with ready distinct_classes(3) [OF D(1)] distinct_absorbers [OF D(1,2)] show ?thesis
    by (simp only: collisions_ready_def distinct_append) blast
qed

lemma graph2_ok:
  assumes "mergeable d survivor merged"
  shows "store_ok (graph2 clock d (e_id merged) (e_id survivor))"
  using absorb_all_relationships [OF graph1_ok(1) cols_ready, OF assms assms]
  by (simp add: graph2_def)

text \<open>What the graph after two loops still holds of a row of the original one.\<close>

lemma graph2_relationship:
  assumes "mergeable d survivor merged" and m: "m = e_id merged" and s: "s = e_id survivor"
  shows "c \<in> set (cols d m s) \<Longrightarrow> get_relationship (graph2 clock d m s) (r_id (co_absorbed c)) = None"
    and "c \<in> set (cols d m s) \<Longrightarrow> get_relationship (graph2 clock d m s) (r_id (co_absorber c))
      = Some (updated_absorber (clock (r_id (co_absorber c))) c)"
    and "i \<notin> (\<lambda>c. r_id (co_absorbed c)) ` set (cols d m s) \<Longrightarrow>
      i \<notin> (\<lambda>c. r_id (co_absorber c)) ` set (cols d m s) \<Longrightarrow>
      get_relationship (graph2 clock d m s) i = get_relationship (graph1 d m s) i"
  using absorb_all_relationships [OF graph1_ok(1) cols_ready, OF assms(1) assms(1), of clock]
  unfolding m s graph2_def by auto

lemma graph2_triples:
  assumes "mergeable d survivor merged" "m = e_id merged" "s = e_id survivor"
    and "get_relationship (graph2 clock d m s) i = Some x"
  shows "\<exists>r. get_relationship d i = Some r \<and> rel_triple r = rel_triple x"
proof -
  note D = mergeableD [OF assms(1)] and G = graph2_relationship [OF assms(1-3), of _ clock]
  consider c where "c \<in> set (cols d m s)" "i = r_id (co_absorbed c)"
    | c where "c \<in> set (cols d m s)" "i = r_id (co_absorber c)"
    | "i \<notin> (\<lambda>c. r_id (co_absorbed c)) ` set (cols d m s)"
      "i \<notin> (\<lambda>c. r_id (co_absorber c)) ` set (cols d m s)"
    by auto
  then show ?thesis
  proof cases
    case 1
    with G(1) assms(4) show ?thesis by simp
  next
    case 2
    with G(2) [OF 2(1)] cols_rows(2) [OF D(1) 2(1)] assms(4) show ?thesis by auto
  next
    case 3
    with G(3) assms(4) show ?thesis
      by (auto simp: graph1_relationship [OF D(1)] split: option.splits if_splits)
  qed
qed

lemma safe_in_graph2:
  assumes "mergeable d survivor merged" "m = e_id merged" "s = e_id survivor" "r \<in> set (safe d m s)"
  shows "get_relationship (graph2 clock d m s) (r_id r) = Some r"
proof -
  note D = mergeableD [OF assms(1)]
  from assms(4) have r: "get_relationship d (r_id r) = Some r" "touches m r" "\<not> becomes_loop m s r"
      "absorber_for (rels_of d s) m s r = None"
    by (simp_all add: class_rows(2) [OF D(1)])
  have "r_id r \<noteq> r_id (co_absorbed c)" "r_id r \<noteq> r_id (co_absorber c)"
    if c: "c \<in> set (cols d m s)" for c
  proof -
    have "absorber_for (rels_of d s) m s (co_absorbed c) \<noteq> None"
      using c by (auto simp: cols_def collisions_of_def)
    with r(1,4) cols_rows(1) [OF D(1) c] show "r_id r \<noteq> r_id (co_absorbed c)"
      by (metis option.inject)
    from r(1,2) cols_rows(2) [OF D(1) c] absorber_untouched [OF D(1) _ c] D(2) assms(2,3)
    show "r_id r \<noteq> r_id (co_absorber c)" by (metis option.inject)
  qed
  then have "get_relationship (graph2 clock d m s) (r_id r) = get_relationship (graph1 d m s) (r_id r)"
    by (intro graph2_relationship(3) [OF assms(1-3)]) auto
  with r show ?thesis by (simp add: graph1_relationship [OF D(1)])
qed

lemma safe_ready:
  assumes "mergeable d survivor merged" "m = e_id merged" "s = e_id survivor"
  shows "repoints_ready (graph2 clock d m s) m s (safe d m s)"
proof -
  note D = mergeableD [OF assms(1)]
  have ms: "m \<noteq> s" using D(2) assms by simp
  have row: "touches m r" "\<not> becomes_loop m s r" "absorber_for (rels_of d s) m s r = None"
      "get_relationship d (r_id r) = Some r" if "r \<in> set (safe d m s)" for r
    using that by (simp_all add: class_rows(2) [OF D(1)])
  have col: "relationship_repoint_column r m \<noteq> None" if "r \<in> set (safe d m s)" for r
    using nonloop_other_end [OF row(1,2) [OF that] ms] by (auto simp: relationship_repoint_column_def)
  have clash: "rel_triple x \<noteq> repointed_triple m s r"
    if r: "r \<in> set (safe d m s)" and x: "get_relationship (graph2 clock d m s) k = Some x" for r k x
  proof
    assume eq: "rel_triple x = repointed_triple m s r"
    obtain y where y: "get_relationship d k = Some y" "rel_triple y = rel_triple x"
      using graph2_triples [OF assms x] by blast
    then have "y \<in> set (rels_of d s)"
      using repointed_triple_touches [of y m s r] eq row(1) [OF r]
      by (simp add: set_rels_of [OF D(1)] relationship_keyedD(2) [OF D(1)])
    with absorber_for_None [OF row(3) [OF r]] y eq show False by simp
  qed
  have inj: "r = r'" if r: "r \<in> set (safe d m s)" "r' \<in> set (safe d m s)"
      and eq: "repointed_triple m s r = repointed_triple m s r'" for r r'
  proof -
    have "rel_triple r = rel_triple r'"
      by (rule repointed_triple_inj [OF row(1,2) [OF r(1)] row(1,2) [OF r(2)] ms eq])
    then have "r_id r = r_id r'"
      by (rule relationship_keyedD(3) [OF D(1) row(4) [OF r(1)] row(4) [OF r(2)]])
    then show ?thesis using row(4) [OF r(1)] row(4) [OF r(2)] by (metis option.inject)
  qed
  have "distinct (safe d m s)"
    using distinct_classes(2) [OF D(1)] by (simp only: distinct_map)
  then have "distinct (map (repointed_triple m s) (safe d m s))"
    unfolding distinct_map by (intro conjI inj_onI inj)
  then show ?thesis
    unfolding repoints_ready_def
    by (intro conjI ballI allI impI distinct_classes(2) [OF D(1)] safe_in_graph2 [OF assms] col clash)
qed

section \<open>The transaction in closed form\<close>

definition graph3 :: "(uuid \<Rightarrow> time) \<Rightarrow> db \<Rightarrow> uuid \<Rightarrow> uuid \<Rightarrow> db" where
  "graph3 clock d m s = repoint_all clock m s (r_id ` set (safe d m s)) (graph2 clock d m s)"

definition moved_tables :: "(uuid \<Rightarrow> time) \<Rightarrow> db \<Rightarrow> uuid \<Rightarrow> uuid \<Rightarrow> db" where
  "moved_tables clock d m s = (graph3 clock d m s)\<lparr>
     db_entity_aliases := tbl_upd ea_id (ea_id ` set (aliases_of d m))
       (ea_entity_id_update (\<lambda>_. s)) (db_entity_aliases d),
     db_entity_identifiers := tbl_upd ei_id (ei_id ` set (identifiers_of d m))
       (ei_entity_id_update (\<lambda>_. s)) (db_entity_identifiers d),
     db_entity_extractions := tbl_upd ex_id (ex_id ` set (extractions_of d m))
       (ex_entity_id_update (\<lambda>_. s)) (db_entity_extractions d)\<rparr>"

definition merge_refs :: "db \<Rightarrow> uuid \<Rightarrow> uuid \<Rightarrow> repointed_reference list" where
  "merge_refs d m s =
     map (repoint_record m) (safe d m s)
     @ map (\<lambda>x. repointed ''entity_aliases'' (ea_id x) ''entity_id'' m) (aliases_of d m)
     @ map (\<lambda>x. repointed ''entity_identifiers'' (ei_id x) ''entity_id'' m) (identifiers_of d m)
     @ map (\<lambda>x. repointed ''entity_extractions'' (ex_id x) ''entity_id'' m) (extractions_of d m)"

definition merge_records :: "db \<Rightarrow> uuid \<Rightarrow> uuid \<Rightarrow> merged_relationship list" where
  "merge_records d m s = map loop_record (loops d m s)
     @ map (collision_record (graph1 d m s)) (cols d m s)"

definition merge_changes :: "(uuid \<Rightarrow> time) \<Rightarrow> db \<Rightarrow> uuid \<Rightarrow> uuid \<Rightarrow> relationship_change list" where
  "merge_changes clock d m s =
     map (\<lambda>r. from_relationship r Deleted) (loops d m s)
     @ concat (map (collision_changes clock) (cols d m s))
     @ map (\<lambda>r. from_relationship (repoint_row clock m s r) Upserted) (safe d m s)"

lemma graph2_frame:
  "\<exists>R. graph2 clock d m s = d\<lparr>db_relationships := R, db_relationship_evidence :=
     tbl_rows (\<lambda>ev. Some (move_all (cols d m s) ev))
       (db_relationship_evidence (graph1 d m s))\<rparr>"
  using absorb_all_frame [of clock "cols d m s" "graph1 d m s"]
  by (auto simp: graph2_def graph1_def drop_relationships_def)

lemma graph3_frame:
  "\<exists>R. graph3 clock d m s = d\<lparr>db_relationships := R, db_relationship_evidence :=
     tbl_rows (\<lambda>ev. Some (move_all (cols d m s) ev))
       (db_relationship_evidence (graph1 d m s))\<rparr>"
proof -
  obtain R where "graph2 clock d m s = d\<lparr>db_relationships := R, db_relationship_evidence :=
      tbl_rows (\<lambda>ev. Some (move_all (cols d m s) ev)) (db_relationship_evidence (graph1 d m s))\<rparr>"
    using graph2_frame [of clock d m s] by blast
  then show ?thesis
    by (intro exI [of _ "tbl_upd r_id (r_id ` set (safe d m s)) (repoint_row clock m s) R"])
      (rule db.equality, simp_all add: graph3_def repoint_all_def)
qed

lemma graph3_sel [simp]:
  "db_entities (graph3 clock d m s) = db_entities d"
  "db_entity_aliases (graph3 clock d m s) = db_entity_aliases d"
  "db_entity_identifiers (graph3 clock d m s) = db_entity_identifiers d"
  "db_entity_extractions (graph3 clock d m s) = db_entity_extractions d"
  "db_merge_history (graph3 clock d m s) = db_merge_history d"
  using graph3_frame [of clock d m s] by auto

lemma merge_writes_run:
  assumes mg: "mergeable d survivor merged" and m: "m = e_id merged" and s: "s = e_id survivor"
  shows "merge_writes clock m s (classify_relationships (rels_of d m) (rels_of d s) m s)
      (aliases_of d m) (identifiers_of d m) (extractions_of d m) d
    = Inr \<lparr>ma_db = moved_tables clock d m s, ma_repointed = merge_refs d m s,
        ma_merged = merge_records d m s, ma_changes = merge_changes clock d m s\<rparr>"
proof -
  note D = mergeableD [OF mg] and G1 = graph1_ok [OF mg, folded m s]
  let ?acc1 = "\<lparr>ma_db = graph1 d m s, ma_repointed = [], ma_merged = map loop_record (loops d m s),
      ma_changes = map (\<lambda>r. from_relationship r Deleted) (loops d m s)\<rparr>"
  let ?acc2 = "\<lparr>ma_db = graph2 clock d m s, ma_repointed = [], ma_merged = merge_records d m s,
      ma_changes = map (\<lambda>r. from_relationship r Deleted) (loops d m s)
        @ concat (map (collision_changes clock) (cols d m s))\<rparr>"
  let ?acc3 = "\<lparr>ma_db = graph3 clock d m s, ma_repointed = map (repoint_record m) (safe d m s),
      ma_merged = merge_records d m s, ma_changes = merge_changes clock d m s\<rparr>"
  have r2: "rfold (merge_collision clock) (cols d m s) ?acc1 = Inr ?acc2"
    using collisions_run [of ?acc1 "cols d m s" clock] G1(1) cols_ready [OF mg, folded m s]
    by (simp add: graph2_def merge_records_def)
  have ok2: "store_ok (graph2 clock d m s)" using graph2_ok [OF mg] m s by simp
  have r3: "rfold (merge_safe_repoint clock m s) (safe d m s) ?acc2 = Inr ?acc3"
    using safe_repoints_run [of ?acc2 m s "safe d m s" clock] ok2 safe_ready [OF mg m s]
    by (simp add: graph3_def merge_changes_def)
  have ok3: "store_ok (graph3 clock d m s)"
    using repoint_step.rfold_keeps [OF _ r3] ok2 by (simp add: acc_ok_def)
  let ?d4 = "(graph3 clock d m s)\<lparr>db_entity_aliases := tbl_upd ea_id (ea_id ` set (aliases_of d m))
       (ea_entity_id_update (\<lambda>_. s)) (db_entity_aliases d)\<rparr>"
  let ?d5 = "?d4\<lparr>db_entity_identifiers := tbl_upd ei_id (ei_id ` set (identifiers_of d m))
       (ei_entity_id_update (\<lambda>_. s)) (db_entity_identifiers d)\<rparr>"
  let ?refs4 = "map (repoint_record m) (safe d m s)
     @ map (\<lambda>x. repointed ''entity_aliases'' (ea_id x) ''entity_id'' m) (aliases_of d m)"
  let ?refs5 = "?refs4
     @ map (\<lambda>x. repointed ''entity_identifiers'' (ei_id x) ''entity_id'' m) (identifiers_of d m)"
  let ?acc4 = "?acc3\<lparr>ma_db := ?d4, ma_repointed := ?refs4\<rparr>"
  let ?acc5 = "?acc3\<lparr>ma_db := ?d5, ma_repointed := ?refs5\<rparr>"
  have ex: "entity_exists d s" using D(3) s by simp
  have r4: "rfold (merge_alias m s) (aliases_of d m) ?acc3 = Inr ?acc4"
    using aliases_run [of ?acc3 s "aliases_of d m" m] ok3 ex entity_rows_of [OF D(1)]
    by (simp add: entity_exists_def get_entity_def get_entity_alias_def)
  have ok4: "store_ok ?d4" using alias_step.rfold_keeps [OF _ r4] ok3 by (simp add: acc_ok_def)
  have r5: "rfold (merge_identifier m s) (identifiers_of d m) ?acc4 = Inr ?acc5"
    using identifiers_run [of ?acc4 s "identifiers_of d m" m] ok4 ex entity_rows_of [OF D(1)]
    by (simp add: entity_exists_def get_entity_def get_entity_identifier_def)
  have ok5: "store_ok ?d5" using identifier_step.rfold_keeps [OF _ r5] ok4 by (simp add: acc_ok_def)
  have r6: "rfold (merge_extraction m s) (extractions_of d m) ?acc5 = Inr (?acc3\<lparr>
      ma_db := moved_tables clock d m s, ma_repointed := merge_refs d m s\<rparr>)"
    using extractions_run [of ?acc5 s "extractions_of d m" m] ok5 ex entity_rows_of [OF D(1)]
    by (simp add: entity_exists_def get_entity_def get_entity_extraction_def moved_tables_def
        merge_refs_def)
  have cls: "classify_relationships (rels_of d m) (rels_of d s) m s
      = (loops d m s, cols d m s, safe d m s)"
    by (simp add: classify_relationships_eq loops_def cols_def safe_def)
  show ?thesis
    unfolding merge_writes_def cls
    by (simp only: prod.case rbind_simps G1(2) r2 r3 r4 r5 r6) simp
qed

definition merge_entry ::
  "time \<Rightarrow> uuid \<Rightarrow> uuid \<Rightarrow> uuid \<Rightarrow> string \<Rightarrow> string \<Rightarrow> json option \<Rightarrow> db \<Rightarrow> merge_history" where
  "merge_entry now new_id s m reason operator audit d =
     \<lparr>mh_id = new_id, mh_survivor_id = s, mh_merged_id = m, mh_reason = reason,
      mh_operator = operator, mh_timestamp = now, mh_repointed_references = merge_refs d m s,
      mh_merged_relationships = merge_records d m s, mh_undone_at = None,
      mh_auto_approval_audit = audit\<rparr>"

definition merged_db :: "(uuid \<Rightarrow> time) \<Rightarrow> merge_history \<Rightarrow> uuid \<Rightarrow> uuid \<Rightarrow> db \<Rightarrow> db" where
  "merged_db clock h m s d = (moved_tables clock d m s)\<lparr>
     db_entities := tbl_upd e_id {m} (e_merged_into_update (\<lambda>_. Some s)) (db_entities d),
     db_merge_history := tbl_put (mh_id h) h (db_merge_history d)\<rparr>"

text \<open>Rewriting \<open>merged_into\<close> of an entity that is already stored cannot clash.\<close>

lemma put_entity_merged_into:
  assumes "store_ok d" "get_entity d i = Some e" "\<And>j. x = Some j \<Longrightarrow> entity_exists d j"
  shows "put_entity (e\<lparr>e_merged_into := x\<rparr>) d =
    Inr (d\<lparr>db_entities := tbl_upd e_id {i} (e_merged_into_update (\<lambda>_. x)) (db_entities d)\<rparr>)"
proof -
  let ?e = "e\<lparr>e_merged_into := x\<rparr>"
  have keyed: "tbl_keyed e_id (db_entities d)" and uniq: "tbl_unique entity_natural_key (db_entities d)"
    using assms(1) by (simp_all add: store_ok_def entities_ok_def)
  have row: "tbl_get (db_entities d) i = Some e" using assms(2) by (simp add: get_entity_def)
  then have id: "e_id e = i" using keyed by (simp add: tbl_keyedD)
  have "\<not> (\<exists>r \<in> set (map snd (db_entities d)). e_id r \<noteq> e_id ?e
      \<and> entity_natural_key r = entity_natural_key ?e)"
    using tbl_uniqueD [OF uniq _ row] id
    by (subst tbl_conflict_iff [OF keyed]) (auto simp: entity_natural_key_def)
  moreover have "fk_opt (e_id ?e # map fst (db_entities d)) (e_merged_into ?e)"
    using assms(3) by (cases x) (auto simp: fk_opt_def entity_exists_def get_entity_def in_keys_iff)
  moreover have "tbl_put i ?e (db_entities d)
      = tbl_upd e_id {i} (e_merged_into_update (\<lambda>_. x)) (db_entities d)"
    using tbl_put_upd [OF keyed row, of "e_merged_into_update (\<lambda>_. x)"] by simp
  ultimately show ?thesis using id by (simp add: put_entity_def)
qed

lemma moved_tables_sel [simp]:
  "db_entities (moved_tables clock d m s) = db_entities d"
  "db_merge_history (moved_tables clock d m s) = db_merge_history d"
  by (simp_all add: moved_tables_def)

lemma execute_in_tx_run:
  assumes mg: "mergeable d survivor merged" and m: "m = e_id merged" and s: "s = e_id survivor"
    and h: "h = merge_entry now new_id s m reason operator audit d"
  shows "execute_in_tx clock now new_id survivor merged reason operator audit d
      = Inr (h, merge_changes clock d m s, merged_db clock h m s d)"
    and "store_ok (merged_db clock h m s d)"
proof -
  note D = mergeableD [OF mg] and W = merge_writes_run [OF mg m s, of clock]
  have caps: "length (rels_of d m) < MERGE_REF_CAP" "length (rels_of d s) < MERGE_REF_CAP"
    "length (aliases_of d m) < MERGE_REF_CAP" "length (identifiers_of d m) < MERGE_REF_CAP"
    "length (extractions_of d m) < MERGE_REF_CAP"
    using mg m s by (simp_all add: mergeable_def)
  have okw: "store_ok (moved_tables clock d m s)"
    using merge_writes_keeps [OF D(1) W] by simp
  have ents: "get_entity (moved_tables clock d a b) i = get_entity d i" for a b i
    by (simp add: get_entity_def)
  let ?d = "(moved_tables clock d m s)\<lparr>db_entities :=
      tbl_upd e_id {m} (e_merged_into_update (\<lambda>_. Some s)) (db_entities d)\<rparr>"
  have put: "put_entity (merged\<lparr>e_merged_into := Some s\<rparr>) (moved_tables clock d m s) = Inr ?d"
    using put_entity_merged_into [OF okw, of m merged "Some s"] D(3,5) m s
    by (simp add: ents entity_exists_def)
  have ok: "store_ok ?d" by (rule put_entity_keeps [OF okw put])
  have keyed: "tbl_keyed e_id (db_entities d)"
    using D(1) by (simp add: store_ok_def entities_ok_def)
  have hist: "put_merge_history h ?d = Inr (merged_db clock h m s d)"
    using D(4) keyed s
    by (simp add: put_merge_history_def merged_db_def h merge_entry_def in_keys_iff tbl_get_upd
        get_entity_def)
  show "execute_in_tx clock now new_id survivor merged reason operator audit d
      = Inr (h, merge_changes clock d m s, merged_db clock h m s d)"
    using caps W put hist
    by (simp add: execute_in_tx_def Let_def m [symmetric] s [symmetric] collected_lists
        collected_entity_lists reject_truncated_def h merge_entry_def)
  show "store_ok (merged_db clock h m s d)" by (rule put_merge_history_keeps [OF ok hist])
qed

end
