(* ===== verification/MergeTheorems.thy ===== *)
theory MergeTheorems
  imports MergeCorrect
begin

text \<open>
  The properties of the merge: what becomes of every relationship, every piece of evidence and
  every other reference of the merged entity, which constraints survive, and what each refusal
  leaves behind.
\<close>

section \<open>The merged graph, row by row\<close>

lemma graph3_relationship:
  assumes mg: "mergeable d survivor merged" and m: "m = e_id merged" and s: "s = e_id survivor"
  shows "get_relationship (graph3 clock d m s) i =
    map_option (\<lambda>r. if i \<in> r_id ` set (safe d m s) then repoint_row clock m s r else r)
      (get_relationship (graph2 clock d m s) i)"
  unfolding graph3_def m s by (rule get_relationship_repoint_all [OF graph2_ok [OF mg]])

text \<open>Every row left in the merged graph stems from the row with the same id.\<close>

lemma graph3_origin:
  assumes mg: "mergeable d survivor merged" and m: "m = e_id merged" and s: "s = e_id survivor"
    and x: "get_relationship (graph3 clock d m s) i = Some x"
  shows "\<exists>r. get_relationship d i = Some r \<and> rel_triple x = repointed_triple m s r \<and> \<not> touches m x"
proof -
  note D = mergeableD [OF mg]
  have ms: "m \<noteq> s" using D(2) m s by simp
  from x obtain y where y: "get_relationship (graph2 clock d m s) i = Some y"
    and xy: "x = (if i \<in> r_id ` set (safe d m s) then repoint_row clock m s y else y)"
    by (auto simp: graph3_relationship [OF mg m s])
  from graph2_triples [OF mg m s y] obtain r where r: "get_relationship d i = Some r"
    "rel_triple r = rel_triple y" by blast
  have same: "repointed_triple m s r = repointed_triple m s y"
    using r(2) by (simp add: rel_triple_def repointed_triple_def repointed_ends_def)
  have "rel_triple x = repointed_triple m s r"
  proof (cases "i \<in> r_id ` set (safe d m s)")
    case True
    then show ?thesis by (simp add: xy same)
  next
    case False
    have "\<not> touches m r"
    proof
      assume t: "touches m r"
      have id: "r_id r = i" by (rule relationship_keyedD(2) [OF D(1) r(1)])
      from class_covers [OF D(1) r(1) t, of s] False id
      consider "r \<in> set (loops d m s)" | c where "c \<in> set (cols d m s)" "r = co_absorbed c" by auto
      then show False
      proof cases
        case 1
        then have "touches m r \<and> becomes_loop m s r" by (simp add: class_rows(1) [OF D(1)])
        then have "get_relationship (graph1 d m s) i = None"
          using r(1) by (simp add: graph1_relationship [OF D(1)])
        moreover have "i \<notin> (\<lambda>c. r_id (co_absorbed c)) ` set (cols d m s)"
          "i \<notin> (\<lambda>c. r_id (co_absorber c)) ` set (cols d m s)"
          using \<open>touches m r \<and> becomes_loop m s r\<close> r(1) cols_rows(1,2,5) [OF D(1)]
            absorber_untouched [OF D(1) ms] by (metis (no_types, lifting) imageE option.inject)+
        ultimately show False using graph2_relationship(3) [OF mg m s] y by simp
      next
        case 2
        then show False using graph2_relationship(1) [OF mg m s 2(1)] y id by simp
      qed
    qed
    then have "repointed_triple m s r = rel_triple r"
      by (auto simp: repointed_triple_def repointed_ends_def touches_def rel_triple_def)
    with False r(2) show ?thesis by (simp add: xy)
  qed
  with r(1) repointed_triple_not_touching [OF _ ms] show ?thesis by blast
qed

text \<open>Every relationship that does not become a loop has a counterpart.\<close>

definition counterpart :: "db \<Rightarrow> uuid \<Rightarrow> uuid \<Rightarrow> uuid \<Rightarrow> uuid" where
  "counterpart d m s i =
     (case find (\<lambda>c. r_id (co_absorbed c) = i) (cols d m s) of
        None \<Rightarrow> i | Some c \<Rightarrow> r_id (co_absorber c))"

lemma counterpart_absorbed:
  assumes "store_ok d" "c \<in> set (cols d m s)"
  shows "counterpart d m s (r_id (co_absorbed c)) = r_id (co_absorber c)"
proof -
  have "find (\<lambda>x. r_id (co_absorbed x) = r_id (co_absorbed c)) xs = Some c"
    if "distinct (map (\<lambda>c. r_id (co_absorbed c)) xs)" "c \<in> set xs" for xs
    using that by (induction xs) (auto simp: image_iff)
  from this [OF distinct_classes(3) [OF assms(1)] assms(2)] show ?thesis
    by (simp add: counterpart_def)
qed

lemma counterpart_other:
  "i \<notin> (\<lambda>c. r_id (co_absorbed c)) ` set (cols d m s) \<Longrightarrow> counterpart d m s i = i"
  by (auto simp: counterpart_def find_Some_iff split: option.splits)

lemma graph3_counterpart:
  assumes mg: "mergeable d survivor merged" and m: "m = e_id merged" and s: "s = e_id survivor"
    and r: "get_relationship d i = Some r" and nl: "\<not> (touches m r \<and> becomes_loop m s r)"
  shows "\<exists>x. get_relationship (graph3 clock d m s) (counterpart d m s i) = Some x
    \<and> rel_triple x = repointed_triple m s r"
proof -
  note D = mergeableD [OF mg] and G = graph2_relationship [OF mg m s, of _ clock]
  have ms: "m \<noteq> s" using D(2) m s by simp
  have id: "r_id r = i" by (rule relationship_keyedD(2) [OF D(1) r])
  have safe_m: "touches m x" if "x \<in> set (safe d m s)" for x
    using that by (simp add: class_rows(2) [OF D(1)])
  consider c where "c \<in> set (cols d m s)" "i = r_id (co_absorbed c)"
    | c where "c \<in> set (cols d m s)" "i = r_id (co_absorber c)"
    | "i \<notin> (\<lambda>c. r_id (co_absorbed c)) ` set (cols d m s)"
      "i \<notin> (\<lambda>c. r_id (co_absorber c)) ` set (cols d m s)"
    by auto
  then have "\<exists>y. get_relationship (graph2 clock d m s) (counterpart d m s i) = Some y"
  proof cases
    case 1
    then show ?thesis using G(2) [OF 1(1)] counterpart_absorbed [OF D(1) 1(1)] by simp
  next
    case 2
    have "i \<notin> (\<lambda>c. r_id (co_absorbed c)) ` set (cols d m s)"
      using cols_rows(1,4) [OF D(1)] cols_rows(2) [OF D(1) 2(1)] absorber_untouched [OF D(1) ms 2(1)] 2(2)
      by (metis (no_types, lifting) imageE option.inject)
    then show ?thesis using G(2) [OF 2(1)] 2(2) by (simp add: counterpart_other)
  next
    case 3
    then show ?thesis using G(3) nl r
      by (simp add: counterpart_other graph1_relationship [OF D(1)])
  qed
  then obtain x where x: "get_relationship (graph3 clock d m s) (counterpart d m s i) = Some x"
    by (auto simp: graph3_relationship [OF mg m s])
  obtain r' where r': "get_relationship d (counterpart d m s i) = Some r'"
    "rel_triple x = repointed_triple m s r'"
    using graph3_origin [OF mg m s x] by blast
  have "repointed_triple m s r' = repointed_triple m s r"
  proof (cases "i \<in> (\<lambda>c. r_id (co_absorbed c)) ` set (cols d m s)")
    case True
    then obtain c where c: "c \<in> set (cols d m s)" "i = r_id (co_absorbed c)" by auto
    then have "r' = co_absorber c" "r = co_absorbed c"
      using r r'(1) cols_rows(1,2) [OF D(1) c(1)] counterpart_absorbed [OF D(1) c(1)] by simp_all
    moreover have "repointed_triple m s (co_absorber c) = rel_triple (co_absorber c)"
      using absorber_untouched [OF D(1) ms c(1)]
      by (auto simp: repointed_triple_def repointed_ends_def touches_def rel_triple_def)
    ultimately show ?thesis using cols_rows(3) [OF D(1) c(1)] by simp
  next
    case False
    then show ?thesis using r r'(1) by (simp add: counterpart_other)
  qed
  with x r'(2) show ?thesis by auto
qed

section \<open>Evidence\<close>

lemma move_all_other:
  "re_relationship_id ev \<notin> (\<lambda>c. r_id (co_absorbed c)) ` set cs \<Longrightarrow> move_all cs ev = ev"
  by (induction cs arbitrary: ev) (auto simp: move_all_def move_row_def)

lemma move_all_absorbed:
  assumes "distinct (map (\<lambda>c. r_id (co_absorbed c)) cs @ map (\<lambda>c. r_id (co_absorber c)) cs)"
    and "c \<in> set cs" "re_relationship_id ev = r_id (co_absorbed c)"
  shows "move_all cs ev = ev\<lparr>re_relationship_id := r_id (co_absorber c)\<rparr>"
  using assms
proof (induction cs arbitrary: ev)
  case (Cons x cs)
  have step: "move_all (x # cs) ev
      = move_all cs (move_row (r_id (co_absorbed x)) (r_id (co_absorber x)) ev)"
    by (simp add: move_all_def)
  show ?case
  proof (cases "c = x")
    case True
    with Cons.prems have "move_all (x # cs) ev = move_all cs (ev\<lparr>re_relationship_id := r_id (co_absorber c)\<rparr>)"
      by (simp add: step move_row_def)
    also have "\<dots> = ev\<lparr>re_relationship_id := r_id (co_absorber c)\<rparr>"
      using Cons.prems(1) True by (intro move_all_other) simp
    finally show ?thesis .
  next
    case False
    with Cons.prems have c: "c \<in> set cs" by simp
    with Cons.prems have "r_id (co_absorbed c) \<noteq> r_id (co_absorbed x)"
      by (auto simp: image_iff)
    with Cons.prems have "move_all (x # cs) ev = move_all cs ev"
      by (simp add: step move_row_def)
    with Cons.IH c Cons.prems show ?thesis by simp
  qed
qed simp

lemma graph1_evidence:
  assumes "store_ok d"
  shows "get_relationship_evidence (graph1 d m s) j = (case get_relationship_evidence d j of
      None \<Rightarrow> None
    | Some ev \<Rightarrow> if re_relationship_id ev \<in> r_id ` set (loops d m s) then None else Some ev)"
proof -
  have "tbl_ok (db_relationship_evidence d)"
    by (rule tbl_keyedD(1) [OF store_ok_keyed(3) [OF assms]])
  then show ?thesis
    by (simp add: graph1_def drop_relationships_def get_relationship_evidence_def tbl_get_rows
        split: option.splits)
qed

lemma graph3_evidence:
  assumes "store_ok d"
  shows "get_relationship_evidence (graph3 clock d m s) j =
    map_option (move_all (cols d m s)) (get_relationship_evidence (graph1 d m s) j)"
proof -
  have "tbl_ok (db_relationship_evidence (graph1 d m s))"
    using tbl_keyedD(1) [OF store_ok_keyed(3) [OF assms]]
    by (simp add: graph1_def drop_relationships_def)
  with graph3_frame [of clock d m s] show ?thesis
    by (auto simp: get_relationship_evidence_def tbl_get_rows map_option_case split: option.splits)
qed

text \<open>A row of evidence follows its relationship to the counterpart.\<close>

lemma graph3_evidence_row:
  assumes mg: "mergeable d survivor merged" and m: "m = e_id merged" and s: "s = e_id survivor"
    and ev: "get_relationship_evidence d j = Some ev"
    and r: "get_relationship d (re_relationship_id ev) = Some r"
  shows "get_relationship_evidence (graph3 clock d m s) j =
    (if touches m r \<and> becomes_loop m s r then None
     else Some (ev\<lparr>re_relationship_id := counterpart d m s (re_relationship_id ev)\<rparr>))"
proof -
  note D = mergeableD [OF mg] and ready = cols_ready [OF mg, folded m s]
  have "move_all (cols d m s) ev
      = ev\<lparr>re_relationship_id := counterpart d m s (re_relationship_id ev)\<rparr>"
  proof (cases "re_relationship_id ev \<in> (\<lambda>c. r_id (co_absorbed c)) ` set (cols d m s)")
    case True
    then obtain c where c: "c \<in> set (cols d m s)" "re_relationship_id ev = r_id (co_absorbed c)"
      by auto
    then show ?thesis
      using ready move_all_absorbed [of "cols d m s" c ev] counterpart_absorbed [OF D(1) c(1)]
      unfolding collisions_ready_def by metis
  next
    case False
    then show ?thesis by (simp add: move_all_other counterpart_other)
  qed
  then show ?thesis
    using loop_ids [OF D(1) r, of m s] ev
    by (simp add: graph3_evidence [OF D(1)] graph1_evidence [OF D(1)])
qed

section \<open>Properties\<close>

lemma merged_db_relationships:
  "get_relationship (merged_db clock h m s d) = get_relationship (graph3 clock d m s)"
  "get_relationship_evidence (merged_db clock h m s d) = get_relationship_evidence (graph3 clock d m s)"
  by (simp_all add: fun_eq_iff merged_db_def moved_tables_def get_relationship_def
      get_relationship_evidence_def)

lemma execute_merge_run:
  assumes mg: "mergeable (ms_store S) survivor merged" and m: "m = e_id merged" and s: "s = e_id survivor"
  shows "execute_merge_with_audit producer clock now new_id s m reason operator audit S =
    (let h = merge_entry now new_id s m reason operator audit (ms_store S) in
     (Inr h, publish_relationship_changes producer (merge_changes clock (ms_store S) m s)
        (S\<lparr>ms_store := merged_db clock h m s (ms_store S)\<rparr>)))"
proof -
  have "merge_checks s m S = Inr (survivor, merged)"
    using mg m s by (simp add: merge_checks_def require_entity_def mergeable_def)
  with execute_in_tx_run(1) [OF mg m s refl] show ?thesis
    by (simp add: execute_merge_with_audit_def Let_def)
qed

lemma publish_store [simp]: "ms_store (publish_relationship_changes producer changes S) = ms_store S"
  by (simp add: publish_relationship_changes_def split: option.splits)

lemma moved_rows:
  assumes "store_ok d"
  shows "get_entity_alias (merged_db clock h m s d) i =
      map_option (\<lambda>a. if ea_entity_id a = m then a\<lparr>ea_entity_id := s\<rparr> else a) (get_entity_alias d i)"
    and "get_entity_identifier (merged_db clock h m s d) i =
      map_option (\<lambda>a. if ei_entity_id a = m then a\<lparr>ei_entity_id := s\<rparr> else a) (get_entity_identifier d i)"
    and "get_entity_extraction (merged_db clock h m s d) i =
      map_option (\<lambda>a. if ex_entity_id a = m then a\<lparr>ex_entity_id := s\<rparr> else a) (get_entity_extraction d i)"
  by (simp_all add: merged_db_def moved_tables_def store_gets aliases_of_def identifiers_of_def
      extractions_of_def tbl_get_upd_select [OF store_ok_keyed(4) [OF assms]]
      tbl_get_upd_select [OF store_ok_keyed(5) [OF assms]]
      tbl_get_upd_select [OF store_ok_keyed(6) [OF assms]])

text \<open>
  C2: A merge of two live entities of the same type whose references fit the collection limits
  succeeds, leaves a store that satisfies every constraint, and moves everything. No relationship
  touches the merged entity any more; every relationship that would not become a self loop has a
  counterpart with exactly the repointed triple, and every relationship that is left is the
  repointed form of the one that had its id. The aliases, identifiers and extractions of the
  merged entity now belong to the survivor and are otherwise unchanged, those of all other
  entities are untouched. The only entity changed is the merged one, which points to the survivor.
  The history entry is stored.
\<close>

theorem merge_moves_everything:
  assumes "mergeable (ms_store S) survivor merged" "m = e_id merged" "s = e_id survivor"
  shows "\<exists>h S'. execute_merge_with_audit producer clock now new_id s m reason operator audit S = (Inr h, S')
    \<and> store_ok (ms_store S')
    \<and> (\<forall>i r. get_relationship (ms_store S') i = Some r \<longrightarrow> \<not> touches m r)
    \<and> (\<forall>i r. get_relationship (ms_store S) i = Some r \<longrightarrow> \<not> (touches m r \<and> becomes_loop m s r) \<longrightarrow>
         (\<exists>j r'. get_relationship (ms_store S') j = Some r' \<and> rel_triple r' = repointed_triple m s r))
    \<and> (\<forall>i r'. get_relationship (ms_store S') i = Some r' \<longrightarrow>
         (\<exists>r. get_relationship (ms_store S) i = Some r \<and> rel_triple r' = repointed_triple m s r))
    \<and> (\<forall>i. get_entity_alias (ms_store S') i = map_option
         (\<lambda>a. if ea_entity_id a = m then a\<lparr>ea_entity_id := s\<rparr> else a) (get_entity_alias (ms_store S) i))
    \<and> (\<forall>i. get_entity_identifier (ms_store S') i = map_option
         (\<lambda>a. if ei_entity_id a = m then a\<lparr>ei_entity_id := s\<rparr> else a) (get_entity_identifier (ms_store S) i))
    \<and> (\<forall>i. get_entity_extraction (ms_store S') i = map_option
         (\<lambda>a. if ex_entity_id a = m then a\<lparr>ex_entity_id := s\<rparr> else a) (get_entity_extraction (ms_store S) i))
    \<and> get_entity (ms_store S') = (get_entity (ms_store S))(m \<mapsto> merged\<lparr>e_merged_into := Some s\<rparr>)
    \<and> get_merge_history (ms_store S') = (get_merge_history (ms_store S))(new_id \<mapsto> h)"
proof -
  let ?d = "ms_store S"
  let ?h = "merge_entry now new_id s m reason operator audit ?d"
  let ?d' = "merged_db clock ?h m s ?d"
  note D = mergeableD [OF assms(1)] and T = execute_in_tx_run [OF assms refl]
  have ents: "get_entity ?d' = (get_entity ?d)(m \<mapsto> merged\<lparr>e_merged_into := Some s\<rparr>)"
    using D(5) store_ok_keyed(1) [OF D(1)] assms(2)
    by (auto simp: fun_eq_iff get_entity_def merged_db_def tbl_get_upd option.map_ident)
  have hist: "get_merge_history ?d' = (get_merge_history ?d)(new_id \<mapsto> ?h)"
    by (simp add: fun_eq_iff get_merge_history_def merged_db_def merge_entry_def)
  let ?S = "publish_relationship_changes producer (merge_changes clock ?d m s) (S\<lparr>ms_store := ?d'\<rparr>)"
  have run: "execute_merge_with_audit producer clock now new_id s m reason operator audit S = (Inr ?h, ?S)"
    by (simp add: execute_merge_run [OF assms] Let_def)
  have store: "ms_store ?S = ?d'" by simp
  show ?thesis
    by (rule exI [of _ ?h], rule exI [of _ ?S], unfold store merged_db_relationships,
        intro conjI run T(2) ents hist allI impI moved_rows [OF D(1)])
      (use graph3_origin [OF assms] graph3_counterpart [OF assms] in blast)+
qed


end
