(* ===== verification/MergeUndo.thy ===== *)
theory MergeUndo
  imports MergeTheorems
begin

text \<open>
  Undoing a merge. The lemmas run the undo transaction backwards through the phases of the merge
  and show that each reversed loop restores the tables the corresponding merge loop changed.
\<close>

section \<open>Constraints\<close>

definition undo_ok :: "db \<times> relationship_change list \<Rightarrow> bool" where
  "undo_ok acc \<longleftrightarrow> store_ok (fst acc)"

lemma restore_reference_keeps:
  assumes "store_ok d" "restore_reference clock r d = Inr (row, d')"
  shows "store_ok d'"
  using assms
  by (auto simp: restore_reference_def restore_relationship_def Let_def rbind_Inr_iff
      split: if_splits dest: put_relationship_keeps put_entity_alias_keeps
        put_entity_identifier_keeps put_entity_extraction_keeps)

lemma move_evidence_back_keeps:
  "store_ok d \<Longrightarrow> move_evidence_back rel i d = Inr d' \<Longrightarrow> store_ok d'"
  by (auto simp: move_evidence_back_def rbind_Inr_iff dest: put_relationship_evidence_keeps)

interpretation evidence_back: checked_write "move_evidence_back rel" store_ok for rel
  by unfold_locales (rule move_evidence_back_keeps)

interpretation undo_reference_step: checked_write "undo_reference clock" undo_ok for clock
  by unfold_locales
    (auto simp: undo_reference_def undo_ok_def rbind_Inr_iff split: prod.splits
      dest: restore_reference_keeps)

interpretation undo_relationship_step: checked_write "undo_merged_relationship clock h" undo_ok for clock h
  by unfold_locales
    (auto simp: undo_merged_relationship_def undo_ok_def rbind_Inr_iff Let_def
      split: prod.splits option.splits
      dest!: put_relationship_keeps [rotated] evidence_back.rfold_keeps [rotated])

lemma undo_in_tx_keeps:
  assumes "store_ok d" "undo_in_tx clock now h d = Inr (changes, d')"
  shows "store_ok d'"
proof -
  from assms(2) obtain acc acc' merged d1 where
    "rfold (undo_reference clock) (rev (mh_repointed_references h)) (d, []) = Inr acc"
    "rfold (undo_merged_relationship clock (mh_id h)) (rev (mh_merged_relationships h)) acc = Inr acc'"
    and put: "put_entity (merged\<lparr>e_merged_into := None\<rparr>) (fst acc') = Inr d1"
      "put_merge_history (h\<lparr>mh_undone_at := Some now\<rparr>) d1 = Inr d'"
    by (auto simp: undo_in_tx_def rbind_Inr_iff split: prod.splits)
  with assms(1) have "undo_ok acc'"
    by (metis fst_conv undo_ok_def undo_reference_step.rfold_keeps undo_relationship_step.rfold_keeps)
  with put show ?thesis
    by (auto simp: undo_ok_def dest: put_entity_keeps put_merge_history_keeps)
qed

section \<open>Entity references\<close>

lemma undo_aliases_run:
  assumes "store_ok d" "entity_exists d m" "distinct (map ea_id xs)"
    and "\<And>x. x \<in> set xs \<Longrightarrow> get_entity_alias d (ea_id x) \<noteq> None"
  shows "rfold (undo_reference clock)
      (map (\<lambda>x. repointed ''entity_aliases'' (ea_id x) ''entity_id'' m) xs) (d, ch) =
    Inr (d\<lparr>db_entity_aliases := tbl_upd ea_id (ea_id ` set xs) (ea_entity_id_update (\<lambda>_. m))
      (db_entity_aliases d)\<rparr>, ch)"
  using assms
proof (induction xs arbitrary: d)
  case (Cons x xs)
  let ?f = "ea_entity_id_update (\<lambda>_. m)"
  let ?d = "d\<lparr>db_entity_aliases := tbl_upd ea_id {ea_id x} ?f (db_entity_aliases d)\<rparr>"
  note keyed = store_ok_keyed(4) [OF Cons.prems(1)]
  obtain y where y: "get_entity_alias d (ea_id x) = Some y" using Cons.prems(4) [of x] by auto
  then have row: "tbl_get (db_entity_aliases d) (ea_id x) = Some y" and id: "ea_id y = ea_id x"
    and fk: "fk_opt (db_source_keys d) (ea_source_id y)"
    using Cons.prems(1) keyed by (auto simp: get_entity_alias_def store_ok_def aliases_ok_def tbl_keyedD)
  have put: "put_entity_alias (?f y) d = Inr ?d"
    using tbl_put_upd [OF keyed row, of ?f] Cons.prems(2) fk id
    by (simp add: put_entity_alias_def entity_exists_def get_entity_def in_keys_iff)
  then have step: "undo_reference clock (repointed ''entity_aliases'' (ea_id x) ''entity_id'' m) (d, ch)
      = Inr (?d, ch)"
    by (simp add: undo_reference_def restore_reference_def repointed_def y)
  have ok: "store_ok ?d" by (rule put_entity_alias_keeps [OF Cons.prems(1) put])
  have new: "ea_id x \<notin> ea_id ` set xs" using Cons.prems(3) by simp
  from Cons.IH [OF ok] Cons.prems show ?case
    by (simp add: step tbl_upd_insert [OF new] entity_exists_def get_entity_def
        get_entity_alias_def tbl_get_upd [OF keyed])
qed simp

lemma undo_identifiers_run:
  assumes "store_ok d" "entity_exists d m" "distinct (map ei_id xs)"
    and "\<And>x. x \<in> set xs \<Longrightarrow> get_entity_identifier d (ei_id x) \<noteq> None"
  shows "rfold (undo_reference clock)
      (map (\<lambda>x. repointed ''entity_identifiers'' (ei_id x) ''entity_id'' m) xs) (d, ch) =
    Inr (d\<lparr>db_entity_identifiers := tbl_upd ei_id (ei_id ` set xs) (ei_entity_id_update (\<lambda>_. m))
      (db_entity_identifiers d)\<rparr>, ch)"
  using assms
proof (induction xs arbitrary: d)
  case (Cons x xs)
  let ?f = "ei_entity_id_update (\<lambda>_. m)"
  let ?d = "d\<lparr>db_entity_identifiers := tbl_upd ei_id {ei_id x} ?f (db_entity_identifiers d)\<rparr>"
  note keyed = store_ok_keyed(5) [OF Cons.prems(1)]
  obtain y where y: "get_entity_identifier d (ei_id x) = Some y" using Cons.prems(4) [of x] by auto
  then have row: "tbl_get (db_entity_identifiers d) (ei_id x) = Some y" and id: "ei_id y = ei_id x"
    and fk: "fk_opt (db_source_keys d) (ei_source_id y)"
    and uniq: "tbl_unique identifier_natural_key (db_entity_identifiers d)"
    using Cons.prems(1) keyed
    by (auto simp: get_entity_identifier_def store_ok_def identifiers_ok_def tbl_keyedD)
  have "\<not> (\<exists>r \<in> set (map snd (db_entity_identifiers d)). ei_id r \<noteq> ei_id (?f y)
      \<and> identifier_natural_key r = identifier_natural_key (?f y))"
    using tbl_uniqueD [OF uniq _ row] id
    by (subst tbl_conflict_iff [OF keyed]) (auto simp: identifier_natural_key_def)
  then have put: "put_entity_identifier (?f y) d = Inr ?d"
    using tbl_put_upd [OF keyed row, of ?f] Cons.prems(2) fk id
    by (simp add: put_entity_identifier_def entity_exists_def get_entity_def in_keys_iff)
  then have step: "undo_reference clock (repointed ''entity_identifiers'' (ei_id x) ''entity_id'' m) (d, ch)
      = Inr (?d, ch)"
    by (simp add: undo_reference_def restore_reference_def repointed_def y)
  have ok: "store_ok ?d" by (rule put_entity_identifier_keeps [OF Cons.prems(1) put])
  have new: "ei_id x \<notin> ei_id ` set xs" using Cons.prems(3) by simp
  from Cons.IH [OF ok] Cons.prems show ?case
    by (simp add: step tbl_upd_insert [OF new] entity_exists_def get_entity_def
        get_entity_identifier_def tbl_get_upd [OF keyed])
qed simp

lemma undo_extractions_run:
  assumes "store_ok d" "entity_exists d m" "distinct (map ex_id xs)"
    and "\<And>x. x \<in> set xs \<Longrightarrow> get_entity_extraction d (ex_id x) \<noteq> None"
  shows "rfold (undo_reference clock)
      (map (\<lambda>x. repointed ''entity_extractions'' (ex_id x) ''entity_id'' m) xs) (d, ch) =
    Inr (d\<lparr>db_entity_extractions := tbl_upd ex_id (ex_id ` set xs) (ex_entity_id_update (\<lambda>_. m))
      (db_entity_extractions d)\<rparr>, ch)"
  using assms
proof (induction xs arbitrary: d)
  case (Cons x xs)
  let ?f = "ex_entity_id_update (\<lambda>_. m)"
  let ?d = "d\<lparr>db_entity_extractions := tbl_upd ex_id {ex_id x} ?f (db_entity_extractions d)\<rparr>"
  note keyed = store_ok_keyed(6) [OF Cons.prems(1)]
  obtain y where y: "get_entity_extraction d (ex_id x) = Some y" using Cons.prems(4) [of x] by auto
  then have row: "tbl_get (db_entity_extractions d) (ex_id x) = Some y" and id: "ex_id y = ex_id x"
    using keyed by (auto simp: get_entity_extraction_def tbl_keyedD)
  have put: "put_entity_extraction (?f y) d = Inr ?d"
    using tbl_put_upd [OF keyed row, of ?f] Cons.prems(2) id
    by (simp add: put_entity_extraction_def entity_exists_def get_entity_def in_keys_iff)
  then have step: "undo_reference clock (repointed ''entity_extractions'' (ex_id x) ''entity_id'' m) (d, ch)
      = Inr (?d, ch)"
    by (simp add: undo_reference_def restore_reference_def repointed_def y)
  have ok: "store_ok ?d" by (rule put_entity_extraction_keeps [OF Cons.prems(1) put])
  have new: "ex_id x \<notin> ex_id ` set xs" using Cons.prems(3) by simp
  from Cons.IH [OF ok] Cons.prems show ?case
    by (simp add: step tbl_upd_insert [OF new] entity_exists_def get_entity_def
        get_entity_extraction_def tbl_get_upd [OF keyed])
qed simp

section \<open>Repointed relationships\<close>

text \<open>
  A graph that is the original one up to the modification stamps of the rows in \<open>X\<close>, except for
  the rows in \<open>H\<close>, which are still to be restored.
\<close>

definition row_restamped :: "bool \<Rightarrow> relationship option \<Rightarrow> relationship option \<Rightarrow> bool" where
  "row_restamped stamped row row' \<longleftrightarrow>
     (case row of
        None \<Rightarrow> row' = None
      | Some r \<Rightarrow> \<exists>t. row' = Some (r\<lparr>r_updated_at := t\<rparr>) \<and> (\<not> stamped \<longrightarrow> t = r_updated_at r))"

definition restamped :: "uuid set \<Rightarrow> db \<Rightarrow> db \<Rightarrow> uuid set \<Rightarrow> bool" where
  "restamped X d0 d H \<longleftrightarrow>
     (\<forall>i. i \<notin> H \<longrightarrow> row_restamped (i \<in> X) (get_relationship d0 i) (get_relationship d i))"

lemma restampedI:
  assumes "\<And>i. i \<notin> H \<Longrightarrow> i \<in> X \<Longrightarrow>
      get_relationship d i = map_option (r_updated_at_update (\<lambda>_. f i)) (get_relationship d0 i)"
    and "\<And>i. i \<notin> H \<Longrightarrow> i \<notin> X \<Longrightarrow> get_relationship d i = get_relationship d0 i"
  shows "restamped X d0 d H"
  unfolding restamped_def row_restamped_def
proof (intro allI impI)
  fix i assume i: "i \<notin> H"
  show "case get_relationship d0 i of None \<Rightarrow> get_relationship d i = None
      | Some r \<Rightarrow> \<exists>t. get_relationship d i = Some (r\<lparr>r_updated_at := t\<rparr>) \<and> (i \<notin> X \<longrightarrow> t = r_updated_at r)"
  proof (cases "i \<in> X")
    case True
    with assms(1) [OF i] show ?thesis by (auto split: option.splits)
  next
    case False
    with assms(2) [OF i] show ?thesis
      by (auto split: option.splits intro!: exI [of _ "r_updated_at r" for r])
  qed
qed

lemma restampedD:
  assumes "restamped X d0 d H" "i \<notin> H" "get_relationship d i = Some x"
  shows "\<exists>r t. get_relationship d0 i = Some r \<and> x = r\<lparr>r_updated_at := t\<rparr>"
proof -
  from assms(1,2) have "case get_relationship d0 i of None \<Rightarrow> get_relationship d i = None
      | Some r \<Rightarrow> \<exists>t. get_relationship d i = Some (r\<lparr>r_updated_at := t\<rparr>) \<and> (i \<notin> X \<longrightarrow> t = r_updated_at r)"
    unfolding restamped_def row_restamped_def by blast
  with assms(3) show ?thesis by (auto split: option.splits)
qed

lemma restamped_cong:
  "restamped X d0 d H \<Longrightarrow> get_relationship d' = get_relationship d \<Longrightarrow> restamped X d0 d' H"
  by (simp add: restamped_def)

lemma restamped_base:
  "restamped X d1 d {} \<Longrightarrow> (\<And>i. i \<notin> H \<Longrightarrow> get_relationship d1 i = get_relationship d0 i) \<Longrightarrow>
     restamped X d0 d H"
  unfolding restamped_def by (metis empty_iff)

lemma restamp_self: "\<exists>t. r = r\<lparr>r_updated_at := t\<rparr> \<and> (P \<longrightarrow> t = r_updated_at r)"
  by (rule exI [of _ "r_updated_at r"]) simp

definition restore_row :: "(uuid \<Rightarrow> time) \<Rightarrow> relationship \<Rightarrow> relationship" where
  "restore_row clock r = r\<lparr>r_updated_at := clock (r_id r)\<rparr>"

lemma restore_row_sel [simp]:
  "r_id (restore_row clock r) = r_id r" "rel_triple (restore_row clock r) = rel_triple r"
  by (simp_all add: restore_row_def rel_triple_def)

lemma undo_repoint_step:
  assumes ok: "store_ok d" and row: "get_relationship d (r_id r) = Some (repoint_row clk m s r)"
    and r: "touches m r" "\<not> becomes_loop m s r" "m \<noteq> s"
    and no_clash: "\<forall>k x. get_relationship d k = Some x \<longrightarrow> rel_triple x \<noteq> rel_triple r"
  shows "undo_reference clock (repoint_record m r) (d, ch) =
      Inr (d\<lparr>db_relationships := tbl_put (r_id r) (restore_row clock r) (db_relationships d)\<rparr>,
        ch @ [from_relationship (restore_row clock r) Upserted])"
    and "store_ok (d\<lparr>db_relationships := tbl_put (r_id r) (restore_row clock r) (db_relationships d)\<rparr>)"
proof -
  have put: "put_relationship (restore_row clock r) d =
      Inr (d\<lparr>db_relationships := tbl_put (r_id r) (restore_row clock r) (db_relationships d)\<rparr>)"
    using put_relationship_run [OF ok, of "restore_row clock r"] no_clash by simp
  have ids: "rr_row_id (repoint_record m r) = r_id r"
    "rr_table (repoint_record m r) = ''relationships''" "rr_previous_value (repoint_record m r) = m"
    by (simp_all add: repoint_record_def repointed_def)
  from nonloop_other_end [OF r]
  have "restore_relationship clock (repoint_record m r) d =
      Inr (Some (restore_row clock r), d\<lparr>db_relationships :=
        tbl_put (r_id r) (restore_row clock r) (db_relationships d)\<rparr>)"
  proof
    assume e: "r_source_object_id r = m \<and> r_target_object_id r \<notin> {m, s}"
    then have col: "rr_column (repoint_record m r) = ''source_object_id''"
      by (simp add: repoint_record_def repointed_def relationship_repoint_column_def)
    have "(repoint_row clk m s r)\<lparr>r_source_object_id := m, r_updated_at := clock (r_id r)\<rparr>
        = restore_row clock r"
      using e by (intro relationship.equality)
        (simp_all add: repoint_row_def repointed_relationship_def repointed_ends_def restore_row_def)
    then show ?thesis using put row by (simp add: restore_relationship_def ids col Let_def)
  next
    assume e: "r_target_object_id r = m \<and> r_source_object_id r \<notin> {m, s}"
    then have col: "rr_column (repoint_record m r) = ''target_object_id''"
      by (simp add: repoint_record_def repointed_def relationship_repoint_column_def)
    have "(repoint_row clk m s r)\<lparr>r_target_object_id := m, r_updated_at := clock (r_id r)\<rparr>
        = restore_row clock r"
      using e by (intro relationship.equality)
        (simp_all add: repoint_row_def repointed_relationship_def repointed_ends_def restore_row_def)
    then show ?thesis using put row by (simp add: restore_relationship_def ids col Let_def)
  qed
  then show "undo_reference clock (repoint_record m r) (d, ch) =
      Inr (d\<lparr>db_relationships := tbl_put (r_id r) (restore_row clock r) (db_relationships d)\<rparr>,
        ch @ [from_relationship (restore_row clock r) Upserted])"
    by (simp add: undo_reference_def restore_reference_def ids)
  show "store_ok (d\<lparr>db_relationships := tbl_put (r_id r) (restore_row clock r) (db_relationships d)\<rparr>)"
    by (rule put_relationship_keeps [OF ok put])
qed

lemma undo_repoints_run:
  assumes "store_ok d" "m \<noteq> s" "distinct (map r_id rels)" "distinct (map rel_triple rels)"
    and "\<forall>r \<in> set rels. get_relationship d (r_id r) = Some (repoint_row clk m s r)
        \<and> touches m r \<and> \<not> becomes_loop m s r"
    and "\<forall>r \<in> set rels. \<forall>k x. get_relationship d k = Some x \<longrightarrow> rel_triple x \<noteq> rel_triple r"
  shows "\<exists>R ch'. rfold (undo_reference clock) (map (repoint_record m) rels) (d, ch) =
      Inr (d\<lparr>db_relationships := R\<rparr>, ch')
    \<and> (\<forall>r \<in> set rels. tbl_get R (r_id r) = Some (restore_row clock r))
    \<and> (\<forall>i. i \<notin> r_id ` set rels \<longrightarrow> tbl_get R i = get_relationship d i)"
  using assms
proof (induction rels arbitrary: d ch)
  case Nil
  then show ?case by (auto simp: get_relationship_def intro!: exI [of _ "db_relationships d"])
next
  case (Cons r rels)
  let ?d = "d\<lparr>db_relationships := tbl_put (r_id r) (restore_row clock r) (db_relationships d)\<rparr>"
  have ex: "get_relationship d (r_id r) = Some (repoint_row clk m s r)" "touches m r"
      "\<not> becomes_loop m s r"
      "\<forall>k x. get_relationship d k = Some x \<longrightarrow> rel_triple x \<noteq> rel_triple r"
    using Cons.prems(5,6) by simp_all
  note step = undo_repoint_step [OF Cons.prems(1) ex(1-3) Cons.prems(2) ex(4), where clock = clock]
  have get: "get_relationship ?d i =
      (if i = r_id r then Some (restore_row clock r) else get_relationship d i)" for i
    by (simp add: get_relationship_def)
  have new: "r_id r \<notin> r_id ` set rels" "rel_triple r \<notin> rel_triple ` set rels"
    using Cons.prems(3,4) by simp_all
  have rows: "\<forall>x \<in> set rels. get_relationship ?d (r_id x) = Some (repoint_row clk m s x) \<and> touches m x
      \<and> \<not> becomes_loop m s x"
  proof
    fix x assume x: "x \<in> set rels"
    then have "r_id x \<noteq> r_id r" using new(1) by (metis imageI)
    then show "get_relationship ?d (r_id x) = Some (repoint_row clk m s x) \<and> touches m x
        \<and> \<not> becomes_loop m s x"
      using Cons.prems(5) x unfolding get by simp
  qed
  have clash: "\<forall>x \<in> set rels. \<forall>k y. get_relationship ?d k = Some y \<longrightarrow> rel_triple y \<noteq> rel_triple x"
  proof (intro ballI allI impI)
    fix x k y assume x: "x \<in> set rels" and y: "get_relationship ?d k = Some y"
    show "rel_triple y \<noteq> rel_triple x"
    proof (cases "k = r_id r")
      case True
      then have "rel_triple y = rel_triple r" using y unfolding get by auto
      then show ?thesis using new(2) imageI [OF x, of rel_triple] by metis
    next
      case False
      then show ?thesis using Cons.prems(6) x y unfolding get by simp
    qed
  qed
  have dist: "distinct (map r_id rels)" "distinct (map rel_triple rels)"
    using Cons.prems(3,4) by simp_all
  from Cons.IH [OF step(2) Cons.prems(2) dist rows clash, where ch = "ch @ [from_relationship (restore_row clock r) Upserted]"]
  obtain R ch' where R: "rfold (undo_reference clock) (map (repoint_record m) rels)
      (?d, ch @ [from_relationship (restore_row clock r) Upserted]) = Inr (?d\<lparr>db_relationships := R\<rparr>, ch')"
    "\<forall>r \<in> set rels. tbl_get R (r_id r) = Some (restore_row clock r)"
    "\<forall>i. i \<notin> r_id ` set rels \<longrightarrow> tbl_get R i = get_relationship ?d i"
    by blast
  have "tbl_get R (r_id r) = Some (restore_row clock r)" using R(3) new(1) get by simp
  then show ?case
    using R step(1) get by (intro exI [of _ R] exI [of _ ch']) simp
qed

section \<open>Absorbed relationships\<close>

definition same_triples :: "db \<Rightarrow> db \<Rightarrow> bool" where
  "same_triples d0 d \<longleftrightarrow> (\<forall>k x. get_relationship d k = Some x \<longrightarrow>
     (\<exists>r. get_relationship d0 k = Some r \<and> rel_triple r = rel_triple x))"

text \<open>A row can be put back when what is there has its original triples.\<close>

lemma put_back:
  assumes "store_ok d0" "store_ok d" "same_triples d0 d"
    and "get_relationship d0 i = Some r0" "r_id r = i" "rel_triple r = rel_triple r0"
  shows "put_relationship r d = Inr (d\<lparr>db_relationships := tbl_put i r (db_relationships d)\<rparr>)"
    and "same_triples d0 (d\<lparr>db_relationships := tbl_put i r (db_relationships d)\<rparr>)"
    and "store_ok (d\<lparr>db_relationships := tbl_put i r (db_relationships d)\<rparr>)"
proof -
  have "k = r_id r" if "get_relationship d k = Some x" "rel_triple x = rel_triple r" for k x
  proof -
    from assms(3) that(1) obtain y where "get_relationship d0 k = Some y" "rel_triple y = rel_triple x"
      unfolding same_triples_def by blast
    then show ?thesis
      using relationship_keyedD(3) [OF assms(1) _ assms(4), of k y] that(2) assms(5,6) by simp
  qed
  then show put: "put_relationship r d = Inr (d\<lparr>db_relationships := tbl_put i r (db_relationships d)\<rparr>)"
    using put_relationship_run [OF assms(2), of r] assms(5) by simp
  show "same_triples d0 (d\<lparr>db_relationships := tbl_put i r (db_relationships d)\<rparr>)"
    using assms(3,4,6) by (simp add: same_triples_def get_relationship_def)
  show "store_ok (d\<lparr>db_relationships := tbl_put i r (db_relationships d)\<rparr>)"
    by (rule put_relationship_keeps [OF assms(2) put])
qed

lemma move_back_run:
  assumes "store_ok d" "get_relationship d to \<noteq> None" "distinct ids"
    and "\<And>i. i \<in> set ids \<Longrightarrow> get_relationship_evidence d i \<noteq> None"
  shows "rfold (move_evidence_back to) ids d = Inr (d\<lparr>db_relationship_evidence :=
      tbl_upd re_id (set ids) (re_relationship_id_update (\<lambda>_. to)) (db_relationship_evidence d)\<rparr>)"
  using assms
proof (induction ids arbitrary: d)
  case (Cons i ids)
  let ?f = "re_relationship_id_update (\<lambda>_. to)"
  let ?d = "d\<lparr>db_relationship_evidence := tbl_upd re_id {i} ?f (db_relationship_evidence d)\<rparr>"
  note keyed = store_ok_keyed(3) [OF Cons.prems(1)]
  obtain y where y: "get_relationship_evidence d i = Some y" using Cons.prems(4) [of i] by auto
  then have id: "re_id y = i"
    using keyed by (auto simp: get_relationship_evidence_def tbl_keyedD)
  have step: "move_evidence_back to i d = Inr ?d"
    using move_evidence_step [OF Cons.prems(1,2), of y] y id
    by (simp add: move_evidence_back_def move_evidence_def)
  have ok: "store_ok ?d" by (rule move_evidence_back_keeps [OF Cons.prems(1) step])
  from Cons.IH [OF ok] Cons.prems show ?case
    by (simp add: step tbl_upd_insert get_relationship_def get_relationship_evidence_def
        tbl_get_upd [OF keyed])
qed simp

lemma restored_absorber_updated:
  "restored_absorber now (pre_merge (co_absorber c)) (updated_absorber t c)
     = (co_absorber c)\<lparr>r_updated_at := now\<rparr>"
  by (rule relationship.equality)
    (simp_all add: restored_absorber_def pre_merge_def updated_absorber_def Let_def)

text \<open>What the graph looks like while the collisions \<open>cs\<close> are still absorbed.\<close>

definition absorbed_graph ::
  "uuid set \<Rightarrow> (uuid \<Rightarrow> time) \<Rightarrow> db \<Rightarrow> collision list \<Rightarrow> db \<Rightarrow> bool" where
  "absorbed_graph X clk d1 cs d \<longleftrightarrow> store_ok d \<and> same_triples d1 d \<and>
     (\<forall>c \<in> set cs. get_relationship d (r_id (co_absorbed c)) = None \<and>
        get_relationship d (r_id (co_absorber c)) = Some (updated_absorber (clk (r_id (co_absorber c))) c)) \<and>
     restamped X d1 d ((\<lambda>c. r_id (co_absorbed c)) ` set cs \<union> (\<lambda>c. r_id (co_absorber c)) ` set cs) \<and>
     db_relationship_evidence d =
       tbl_rows (\<lambda>ev. Some (move_all cs ev)) (db_relationship_evidence d1)"

lemma move_all_snoc:
  "move_all (cs @ [c]) ev = move_row (r_id (co_absorbed c)) (r_id (co_absorber c)) (move_all cs ev)"
  by (simp add: move_all_def)

lemma evidence_moved_back:
  assumes ok: "store_ok d1" and ready: "collisions_ready d1 (cs @ [c])"
    and a: "a = r_id (co_absorbed c)" and b: "b = r_id (co_absorber c)"
  shows "tbl_upd re_id (re_id ` set (evidence_of d1 a)) (re_relationship_id_update (\<lambda>_. a))
      (tbl_rows (\<lambda>ev. Some (move_all (cs @ [c]) ev)) (db_relationship_evidence d1))
    = tbl_rows (\<lambda>ev. Some (move_all cs ev)) (db_relationship_evidence d1)"
  unfolding tbl_upd_def tbl_rows_rows
proof (rule tbl_rows_cong)
  fix k ev
  assume mem: "(k, ev) \<in> set (db_relationship_evidence d1)"
  have dist: "distinct (map (\<lambda>c. r_id (co_absorbed c)) cs @ map (\<lambda>c. r_id (co_absorber c)) cs)"
    and fresh: "a \<notin> (\<lambda>c. r_id (co_absorbed c)) ` set cs" "a \<notin> (\<lambda>c. r_id (co_absorber c)) ` set cs"
    using ready a by (auto simp: collisions_ready_def)
  have id: "re_id (move_all xs e) = re_id e" for xs e
    by (induction xs arbitrary: e) (simp_all add: move_all_def move_row_def)
  have "get_relationship_evidence d1 (re_id ev) = Some ev"
    using mem store_ok_keyed(3) [OF ok]
    by (auto simp: get_relationship_evidence_def tbl_get_iff tbl_keyedD)
  then have iff: "re_id ev \<in> re_id ` set (evidence_of d1 a) \<longleftrightarrow> re_relationship_id ev = a"
    by (force simp: set_evidence_of [OF ok])
  show "Option.bind (Some (move_all (cs @ [c]) ev)) (\<lambda>x. Some
      (if re_id x \<in> re_id ` set (evidence_of d1 a) then x\<lparr>re_relationship_id := a\<rparr> else x))
    = Some (move_all cs ev)"
  proof (cases "re_relationship_id ev = a")
    case True
    then have "move_all cs ev = ev" using fresh by (intro move_all_other) simp
    with True iff id show ?thesis by (simp add: move_all_snoc move_row_def a)
  next
    case False
    have "re_relationship_id (move_all cs ev) \<noteq> a"
    proof (cases "re_relationship_id ev \<in> (\<lambda>c. r_id (co_absorbed c)) ` set cs")
      case True
      then obtain c' where c': "c' \<in> set cs" "re_relationship_id ev = r_id (co_absorbed c')" by auto
      from move_all_absorbed [OF dist this] fresh(2) c'(1) show ?thesis by auto
    next
      case f: False
      then show ?thesis using False by (simp add: move_all_other)
    qed
    with False iff id show ?thesis by (simp add: move_all_snoc move_row_def a)
  qed
qed

definition graph_frame :: "db \<Rightarrow> db \<Rightarrow> bool" where
  "graph_frame d d' \<longleftrightarrow> d' = d\<lparr>db_relationships := db_relationships d',
     db_relationship_evidence := db_relationship_evidence d'\<rparr>"

lemma graph_frame_sel:
  assumes "graph_frame d d'"
  shows "db_entities d' = db_entities d" "db_entity_aliases d' = db_entity_aliases d"
    "db_entity_identifiers d' = db_entity_identifiers d"
    "db_entity_extractions d' = db_entity_extractions d"
    "db_merge_history d' = db_merge_history d"
  by (subst assms [unfolded graph_frame_def], simp)+

lemma graph_frame_refl: "graph_frame d d"
  by (simp add: graph_frame_def)

lemma graph_frame_trans: "graph_frame d d' \<Longrightarrow> graph_frame d' d'' \<Longrightarrow> graph_frame d d''"
  unfolding graph_frame_def by (metis (no_types, lifting) db.surjective db.update_convs(2,3))

lemma undo_collision_step:
  assumes ok1: "store_ok d1" and ready: "collisions_ready d1 (cs @ [c])"
    and inv: "absorbed_graph X clk d1 (cs @ [c]) d" and X: "r_id (co_absorber c) \<in> X"
  shows "\<exists>d' ch'. undo_merged_relationship clock h (collision_record d1 c) (d, ch) = Inr (d', ch')
    \<and> absorbed_graph X clk d1 cs d' \<and> graph_frame d d'"
proof -
  define a where "a = r_id (co_absorbed c)"
  define b where "b = r_id (co_absorber c)"
  let ?abs = "(co_absorber c)\<lparr>r_updated_at := clock b\<rparr>"
  let ?ids = "map re_id (evidence_of d1 a)"
  let ?da = "d\<lparr>db_relationships := tbl_put a (co_absorbed c) (db_relationships d)\<rparr>"
  let ?db = "?da\<lparr>db_relationship_evidence := tbl_upd re_id (set ?ids)
      (re_relationship_id_update (\<lambda>_. a)) (db_relationship_evidence d)\<rparr>"
  let ?dc = "?db\<lparr>db_relationships := tbl_put b ?abs (db_relationships ?da)\<rparr>"
  have c: "get_relationship d1 a = Some (co_absorbed c)" "get_relationship d1 b = Some (co_absorber c)"
      "a \<noteq> b"
    using ready by (simp_all add: collisions_ready_def collision_ready_def a_def b_def)
  have d: "store_ok d" "same_triples d1 d" "get_relationship d b = Some (updated_absorber (clk b) c)"
    and st: "restamped X d1 d (insert a (insert b ((\<lambda>c. r_id (co_absorbed c)) ` set cs
        \<union> (\<lambda>c. r_id (co_absorber c)) ` set cs)))"
    and E: "db_relationship_evidence d
        = tbl_rows (\<lambda>ev. Some (move_all (cs @ [c]) ev)) (db_relationship_evidence d1)"
    and rest: "\<forall>c' \<in> set cs. get_relationship d (r_id (co_absorbed c')) = None \<and>
        get_relationship d (r_id (co_absorber c')) = Some (updated_absorber (clk (r_id (co_absorber c'))) c')"
    using inv by (simp_all add: absorbed_graph_def a_def b_def insert_commute)
  note pa = put_back [OF ok1 d(1,2) c(1) a_def [symmetric] refl]
  have mv: "rfold (move_evidence_back a) ?ids ?da = Inr ?db"
  proof -
    have "get_relationship_evidence ?da i \<noteq> None" if "i \<in> set ?ids" for i
    proof -
      from that obtain ev where "get_relationship_evidence d1 i = Some ev"
        by (auto simp: set_evidence_of [OF ok1])
      then show ?thesis
        by (simp add: get_relationship_evidence_def E tbl_get_rows
            tbl_keyedD(1) [OF store_ok_keyed(3) [OF ok1]])
    qed
    from move_back_run [OF pa(3) _ distinct_evidence_of [OF ok1] this, of a] show ?thesis
      by (simp add: get_relationship_def)
  qed
  have okb: "store_ok ?db" by (rule evidence_back.rfold_keeps [OF pa(3) mv])
  have sb: "same_triples d1 ?db"
    using pa(2) by (simp add: same_triples_def get_relationship_def)
  note pb = put_back [OF ok1 okb sb c(2), of ?abs]
  have ids: "r_id ?abs = b" "rel_triple ?abs = rel_triple (co_absorber c)"
    by (simp_all add: b_def rel_triple_def)
  have putb: "put_relationship ?abs ?db = Inr ?dc" using pb(1) ids by simp
  have getb: "get_relationship ?db b = Some (updated_absorber (clk b) c)"
    using d(3) c(3) by (simp add: get_relationship_def)
  have run: "undo_merged_relationship clock h (collision_record d1 c) (d, ch) =
      Inr (?dc, ch @ [from_relationship (co_absorbed c) Upserted, from_relationship ?abs Upserted])"
    using pa(1) mv getb putb
    by (simp add: undo_merged_relationship_def collision_record_def a_def [symmetric]
        b_def [symmetric] restored_absorber_updated Let_def)
  have get: "get_relationship ?dc i = (if i = b then Some ?abs else if i = a then Some (co_absorbed c)
      else get_relationship d i)" for i
    by (simp add: get_relationship_def)
  have fresh: "r_id (co_absorbed c') \<notin> {a, b} \<and> r_id (co_absorber c') \<notin> {a, b}" if "c' \<in> set cs" for c'
  proof -
    have "a \<notin> (\<lambda>c. r_id (co_absorbed c)) ` set cs" "a \<notin> (\<lambda>c. r_id (co_absorber c)) ` set cs"
      "b \<notin> (\<lambda>c. r_id (co_absorbed c)) ` set cs" "b \<notin> (\<lambda>c. r_id (co_absorber c)) ` set cs"
      using ready by (auto simp: collisions_ready_def a_def b_def)
    with that show ?thesis by (metis (no_types, lifting) empty_iff image_eqI insert_iff)
  qed
  have "restamped X d1 ?dc ((\<lambda>c. r_id (co_absorbed c)) ` set cs \<union> (\<lambda>c. r_id (co_absorber c)) ` set cs)"
    unfolding restamped_def row_restamped_def
  proof (intro allI impI)
    fix i assume i: "i \<notin> (\<lambda>c. r_id (co_absorbed c)) ` set cs \<union> (\<lambda>c. r_id (co_absorber c)) ` set cs"
    show "case get_relationship d1 i of None \<Rightarrow> get_relationship ?dc i = None
      | Some r \<Rightarrow> \<exists>t. get_relationship ?dc i = Some (r\<lparr>r_updated_at := t\<rparr>) \<and> (i \<notin> X \<longrightarrow> t = r_updated_at r)"
    proof (cases "i = a \<or> i = b")
      case True
      then show ?thesis using c X unfolding get by (auto simp: b_def [symmetric] restamp_self)
    next
      case False
      with i st show ?thesis unfolding get restamped_def row_restamped_def by simp
    qed
  qed
  moreover have "\<forall>c' \<in> set cs. get_relationship ?dc (r_id (co_absorbed c')) = None \<and>
      get_relationship ?dc (r_id (co_absorber c')) = Some (updated_absorber (clk (r_id (co_absorber c'))) c')"
    using rest fresh unfolding get by auto
  moreover have "store_ok ?dc" "same_triples d1 ?dc"
    using pb(2,3) ids by simp_all
  moreover have "db_relationship_evidence ?dc
      = tbl_rows (\<lambda>ev. Some (move_all cs ev)) (db_relationship_evidence d1)"
    using evidence_moved_back [OF ok1 ready a_def b_def] by (simp add: E)
  ultimately have "absorbed_graph X clk d1 cs ?dc" unfolding absorbed_graph_def by blast
  moreover have "graph_frame d ?dc"
    unfolding graph_frame_def by (rule db.equality) simp_all
  ultimately show ?thesis using run by blast
qed

lemma collisions_ready_butlast: "collisions_ready d (cs @ [c]) \<Longrightarrow> collisions_ready d cs"
  by (auto simp: collisions_ready_def)

lemma undo_collisions_run:
  assumes "store_ok d1" "collisions_ready d1 cs" "absorbed_graph X clk d1 cs d"
    and "(\<lambda>c. r_id (co_absorber c)) ` set cs \<subseteq> X"
  shows "\<exists>d' ch'. rfold (undo_merged_relationship clock h) (rev (map (collision_record d1) cs)) (d, ch)
      = Inr (d', ch') \<and> absorbed_graph X clk d1 [] d' \<and> graph_frame d d'"
  using assms
proof (induction cs arbitrary: d ch rule: rev_induct)
  case Nil
  then show ?case by (simp add: graph_frame_refl)
next
  case (snoc c cs)
  have "r_id (co_absorber c) \<in> X" using snoc.prems(4) by simp
  from undo_collision_step [OF snoc.prems(1-3) this, of clock h ch] obtain d' ch' where
    step: "undo_merged_relationship clock h (collision_record d1 c) (d, ch) = Inr (d', ch')"
    and inv: "absorbed_graph X clk d1 cs d'" and fr: "graph_frame d d'"
    by blast
  from snoc.IH [OF snoc.prems(1) collisions_ready_butlast [OF snoc.prems(2)] inv, of ch'] snoc.prems(4)
  obtain d'' ch'' where "rfold (undo_merged_relationship clock h) (rev (map (collision_record d1) cs)) (d', ch')
      = Inr (d'', ch'')" "absorbed_graph X clk d1 [] d''" "graph_frame d' d''"
    by auto
  with step fr graph_frame_trans show ?case by fastforce
qed

section \<open>Self loops\<close>

lemma undo_loops_run:
  assumes ok0: "store_ok d0"
    and "store_ok d" "same_triples d0 d" "restamped X d0 d (r_id ` set ls)" "distinct (map r_id ls)"
    and "\<forall>r \<in> set ls. get_relationship d0 (r_id r) = Some r"
  shows "\<exists>R ch'. rfold (undo_merged_relationship clock h) (map loop_record ls) (d, ch)
      = Inr (d\<lparr>db_relationships := R\<rparr>, ch')
    \<and> restamped X d0 (d\<lparr>db_relationships := R\<rparr>) {} \<and> store_ok (d\<lparr>db_relationships := R\<rparr>)"
  using assms(2-)
proof (induction ls arbitrary: d ch)
  case Nil
  then show ?case by (auto intro!: exI [of _ "db_relationships d"])
next
  case (Cons r ls)
  let ?d = "d\<lparr>db_relationships := tbl_put (r_id r) r (db_relationships d)\<rparr>"
  have r: "get_relationship d0 (r_id r) = Some r" using Cons.prems(5) by simp
  note put = put_back [OF ok0 Cons.prems(1,2) r refl refl]
  have step: "undo_merged_relationship clock h (loop_record r) (d, ch)
      = Inr (?d, ch @ [from_relationship r Upserted])"
    using put(1) by (simp add: undo_merged_relationship_def loop_record_def)
  have "restamped X d0 ?d (r_id ` set ls)"
    unfolding restamped_def row_restamped_def
  proof (intro allI impI)
    fix i assume i: "i \<notin> r_id ` set ls"
    have get: "get_relationship ?d i = (if i = r_id r then Some r else get_relationship d i)"
      by (simp add: get_relationship_def)
    show "case get_relationship d0 i of None \<Rightarrow> get_relationship ?d i = None
      | Some x \<Rightarrow> \<exists>t. get_relationship ?d i = Some (x\<lparr>r_updated_at := t\<rparr>) \<and> (i \<notin> X \<longrightarrow> t = r_updated_at x)"
    proof (cases "i = r_id r")
      case True
      then show ?thesis using r unfolding get by (auto simp: restamp_self)
    next
      case False
      with i Cons.prems(3) show ?thesis unfolding get restamped_def row_restamped_def by simp
    qed
  qed
  from Cons.IH [OF put(3,2) this, of "ch @ [from_relationship r Upserted]"] Cons.prems(4,5)
  show ?case by (simp add: step)
qed

section \<open>The whole undo\<close>

definition stamped_ids :: "db \<Rightarrow> uuid \<Rightarrow> uuid \<Rightarrow> uuid set" where
  "stamped_ids d m s = r_id ` set (safe d m s) \<union> (\<lambda>c. r_id (co_absorber c)) ` set (cols d m s)"

lemma safe_triples_distinct: "store_ok d \<Longrightarrow> distinct (map rel_triple (safe d m s))"
proof -
  assume ok: "store_ok d"
  have "r = r'" if "r \<in> set (safe d m s)" "r' \<in> set (safe d m s)" "rel_triple r = rel_triple r'" for r r'
  proof -
    have g: "get_relationship d (r_id r) = Some r" "get_relationship d (r_id r') = Some r'"
      using that by (simp_all add: class_rows(2) [OF ok])
    from relationship_keyedD(3) [OF ok g that(3)] g show ?thesis by (metis option.inject)
  qed
  moreover have "distinct (safe d m s)"
    using distinct_classes(2) [OF ok] by (simp only: distinct_map)
  ultimately show ?thesis unfolding distinct_map by (intro conjI inj_onI)
qed

text \<open>Undoing the repointed relationships from the merged graph gives back the second graph.\<close>

lemma undo_safe_run:
  assumes mg: "mergeable d survivor merged" and m: "m = e_id merged" and s: "s = e_id survivor"
    and u: "store_ok u" "get_relationship u = get_relationship (graph3 clk d m s)"
      "db_relationship_evidence u = db_relationship_evidence (graph3 clk d m s)"
  shows "\<exists>R ch'. rfold (undo_reference clock) (map (repoint_record m) (rev (safe d m s))) (u, ch)
      = Inr (u\<lparr>db_relationships := R\<rparr>, ch')
    \<and> absorbed_graph (stamped_ids d m s) clk (graph1 d m s) (cols d m s) (u\<lparr>db_relationships := R\<rparr>)"
proof -
  note D = mergeableD [OF mg]
  have ms: "m \<noteq> s" using D(2) m s by simp
  have row: "get_relationship u (r_id r) = Some (repoint_row clk m s r)" "touches m r"
      "\<not> becomes_loop m s r" if "r \<in> set (safe d m s)" for r
    using that safe_in_graph2 [OF mg m s that, of clk]
    by (simp_all add: u(2) graph3_relationship [OF mg m s] class_rows(2) [OF D(1)])
  have clash: "rel_triple x \<noteq> rel_triple r"
    if "r \<in> set (safe d m s)" "get_relationship u k = Some x" for r k x
    using graph3_origin [OF mg m s, of clk k x] that row(2) [OF that(1)] u(2)
    by (auto simp: touches_def rel_triple_def)
  obtain R ch' where run: "rfold (undo_reference clock) (map (repoint_record m) (rev (safe d m s))) (u, ch)
      = Inr (u\<lparr>db_relationships := R\<rparr>, ch')"
    and R: "\<forall>r \<in> set (safe d m s). tbl_get R (r_id r) = Some (restore_row clock r)"
      "\<forall>i. i \<notin> r_id ` set (safe d m s) \<longrightarrow> tbl_get R i = get_relationship u i"
    using undo_repoints_run [OF u(1) ms, of "rev (safe d m s)" clk clock ch]
      distinct_classes(2) [OF D(1), of m s] safe_triples_distinct [OF D(1), of m s] row clash
    by (auto simp: rev_map [symmetric])
  let ?u = "u\<lparr>db_relationships := R\<rparr>"
  have get: "get_relationship ?u i = tbl_get R i" for i by (simp add: get_relationship_def)
  have other: "get_relationship ?u i = get_relationship (graph2 clk d m s) i"
    if "i \<notin> r_id ` set (safe d m s)" for i
    using R(2) that unfolding get by (simp add: u(2) graph3_relationship [OF mg m s] option.map_ident)
  have ok: "store_ok ?u"
    using undo_reference_step.rfold_keeps [OF _ run] u(1) by (simp add: undo_ok_def)
  have absd: "r_id (co_absorbed c) \<notin> r_id ` set (safe d m s)"
      "r_id (co_absorber c) \<notin> r_id ` set (safe d m s)" if c: "c \<in> set (cols d m s)" for c
  proof -
    show "r_id (co_absorbed c) \<notin> r_id ` set (safe d m s)"
      using graph2_relationship(1) [OF mg m s c, of clk] safe_in_graph2 [OF mg m s, of _ clk]
      by (metis imageE option.distinct(1))
    show "r_id (co_absorber c) \<notin> r_id ` set (safe d m s)"
    proof
      assume "r_id (co_absorber c) \<in> r_id ` set (safe d m s)"
      then obtain r where r: "r \<in> set (safe d m s)" "r_id r = r_id (co_absorber c)" by auto
      then have "r = co_absorber c"
        using cols_rows(2) [OF D(1) c] by (simp add: class_rows(2) [OF D(1)])
      then show False using row(2) [OF r(1)] absorber_untouched [OF D(1) ms c] by simp
    qed
  qed
  have rows: "\<forall>c \<in> set (cols d m s). get_relationship ?u (r_id (co_absorbed c)) = None \<and>
      get_relationship ?u (r_id (co_absorber c)) = Some (updated_absorber (clk (r_id (co_absorber c))) c)"
    using other absd graph2_relationship(1,2) [OF mg m s] by simp
  have st: "restamped (stamped_ids d m s) (graph1 d m s) ?u
      ((\<lambda>c. r_id (co_absorbed c)) ` set (cols d m s) \<union> (\<lambda>c. r_id (co_absorber c)) ` set (cols d m s))"
  proof (rule restampedI [where f = clock])
    fix i
    assume i: "i \<notin> (\<lambda>c. r_id (co_absorbed c)) ` set (cols d m s) \<union> (\<lambda>c. r_id (co_absorber c)) ` set (cols d m s)"
    have g: "get_relationship (graph2 clk d m s) i = get_relationship (graph1 d m s) i"
      using i by (intro graph2_relationship(3) [OF mg m s]) auto
    {
      assume "i \<in> stamped_ids d m s"
      then obtain r where r: "r \<in> set (safe d m s)" "i = r_id r" using i by (auto simp: stamped_ids_def)
      then have "get_relationship ?u i = Some (restore_row clock r)" using R(1) unfolding get by simp
      then show "get_relationship ?u i
          = map_option (r_updated_at_update (\<lambda>_. clock i)) (get_relationship (graph1 d m s) i)"
        using safe_in_graph2 [OF mg m s r(1), of clk] g [symmetric] r(2) by (simp add: restore_row_def)
    next
      assume "i \<notin> stamped_ids d m s"
      then show "get_relationship ?u i = get_relationship (graph1 d m s) i"
        using other g by (simp add: stamped_ids_def)
    }
  qed
  have same: "same_triples (graph1 d m s) ?u"
    unfolding same_triples_def
  proof (intro allI impI)
    fix k x assume x: "get_relationship ?u k = Some x"
    consider c where "c \<in> set (cols d m s)" "k = r_id (co_absorber c)"
      | c where "c \<in> set (cols d m s)" "k = r_id (co_absorbed c)"
      | "k \<notin> (\<lambda>c. r_id (co_absorbed c)) ` set (cols d m s) \<union> (\<lambda>c. r_id (co_absorber c)) ` set (cols d m s)"
      by auto
    then show "\<exists>r. get_relationship (graph1 d m s) k = Some r \<and> rel_triple r = rel_triple x"
    proof cases
      case 1
      then have "collision_ready (graph1 d m s) c"
        using cols_ready [OF mg, folded m s] by (simp add: collisions_ready_def)
      with 1 rows x show ?thesis by (auto simp: collision_ready_def)
    next
      case 2
      with rows x show ?thesis by auto
    next
      case 3
      from restampedD [OF st this x] show ?thesis by (auto simp: rel_triple_def)
    qed
  qed
  have "db_relationship_evidence ?u = tbl_rows (\<lambda>ev. Some (move_all (cols d m s) ev))
      (db_relationship_evidence (graph1 d m s))"
    using graph3_frame [of clk d m s] u(3) by auto
  with ok same rows st have "absorbed_graph (stamped_ids d m s) clk (graph1 d m s) (cols d m s) ?u"
    unfolding absorbed_graph_def by blast
  with run show ?thesis by blast
qed

text \<open>The tables of entity references are as they were.\<close>

lemma references_back:
  assumes "store_ok d"
  shows "tbl_upd ea_id (ea_id ` set (aliases_of d m)) (ea_entity_id_update (\<lambda>_. m))
      (tbl_upd ea_id (ea_id ` set (aliases_of d m)) (ea_entity_id_update (\<lambda>_. s)) (db_entity_aliases d))
      = db_entity_aliases d"
    and "tbl_upd ei_id (ei_id ` set (identifiers_of d m)) (ei_entity_id_update (\<lambda>_. m))
      (tbl_upd ei_id (ei_id ` set (identifiers_of d m)) (ei_entity_id_update (\<lambda>_. s)) (db_entity_identifiers d))
      = db_entity_identifiers d"
    and "tbl_upd ex_id (ex_id ` set (extractions_of d m)) (ex_entity_id_update (\<lambda>_. m))
      (tbl_upd ex_id (ex_id ` set (extractions_of d m)) (ex_entity_id_update (\<lambda>_. s)) (db_entity_extractions d))
      = db_entity_extractions d"
  unfolding aliases_of_def identifiers_of_def extractions_of_def
  by (rule tbl_upd_back; use store_ok_keyed [OF assms] in simp)+

definition refs_back :: "db \<Rightarrow> db \<Rightarrow> db" where
  "refs_back d u = u\<lparr>db_entity_aliases := db_entity_aliases d,
     db_entity_identifiers := db_entity_identifiers d,
     db_entity_extractions := db_entity_extractions d\<rparr>"

lemma undo_entity_refs_run:
  assumes mg: "mergeable d survivor merged" and m: "m = e_id merged" and s: "s = e_id survivor"
    and ok: "store_ok (merged_db clk h m s d)"
  shows "\<exists>ch'. rfold (undo_reference clock) (rev (merge_refs d m s)) (merged_db clk h m s d, ch) =
    rfold (undo_reference clock) (map (repoint_record m) (rev (safe d m s)))
      (refs_back d (merged_db clk h m s d), ch')
    \<and> store_ok (refs_back d (merged_db clk h m s d))"
proof -
  note D = mergeableD [OF mg]
  let ?u0 = "merged_db clk h m s d"
  let ?u1 = "?u0\<lparr>db_entity_extractions := db_entity_extractions d\<rparr>"
  let ?u2 = "?u1\<lparr>db_entity_identifiers := db_entity_identifiers d\<rparr>"
  let ?u3 = "?u2\<lparr>db_entity_aliases := db_entity_aliases d\<rparr>"
  have ex: "entity_exists ?u0 m"
    using D(5) m store_ok_keyed(1) [OF D(1)]
    by (simp add: entity_exists_def get_entity_def merged_db_def tbl_get_upd)
  have tabs: "db_entity_aliases ?u0 = tbl_upd ea_id (ea_id ` set (aliases_of d m))
        (ea_entity_id_update (\<lambda>_. s)) (db_entity_aliases d)"
      "db_entity_identifiers ?u0 = tbl_upd ei_id (ei_id ` set (identifiers_of d m))
        (ei_entity_id_update (\<lambda>_. s)) (db_entity_identifiers d)"
      "db_entity_extractions ?u0 = tbl_upd ex_id (ex_id ` set (extractions_of d m))
        (ex_entity_id_update (\<lambda>_. s)) (db_entity_extractions d)"
    by (simp_all add: merged_db_def moved_tables_def)
  have r1: "rfold (undo_reference clock) (map (\<lambda>x. repointed ''entity_extractions'' (ex_id x) ''entity_id'' m)
      (rev (extractions_of d m))) (?u0, ch) = Inr (?u1, ch)"
    using undo_extractions_run [OF ok ex, of "rev (extractions_of d m)" clock ch]
      entity_rows_of [OF D(1)] references_back(3) [OF D(1), of m s]
    by (simp add: rev_map [symmetric] moved_rows [OF D(1)] tabs)
  have ok1: "store_ok ?u1"
    using undo_reference_step.rfold_keeps [OF _ r1] ok by (simp add: undo_ok_def)
  have gets: "get_entity_identifier ?u1 i = get_entity_identifier ?u0 i"
      "get_entity_alias ?u2 i = get_entity_alias ?u0 i"
      "get_entity ?u1 i = get_entity ?u0 i" "get_entity ?u2 i = get_entity ?u0 i" for i
    by (simp_all add: store_gets)
  have r2: "rfold (undo_reference clock) (map (\<lambda>x. repointed ''entity_identifiers'' (ei_id x) ''entity_id'' m)
      (rev (identifiers_of d m))) (?u1, ch) = Inr (?u2, ch)"
    using undo_identifiers_run [OF ok1, of m "rev (identifiers_of d m)" clock ch] ex
      entity_rows_of [OF D(1)] references_back(2) [OF D(1), of m s]
    by (simp add: rev_map [symmetric] gets entity_exists_def moved_rows [OF D(1)] tabs)
  have ok2: "store_ok ?u2"
    using undo_reference_step.rfold_keeps [OF _ r2] ok1 by (simp add: undo_ok_def)
  have r3: "rfold (undo_reference clock) (map (\<lambda>x. repointed ''entity_aliases'' (ea_id x) ''entity_id'' m)
      (rev (aliases_of d m))) (?u2, ch) = Inr (?u3, ch)"
    using undo_aliases_run [OF ok2, of m "rev (aliases_of d m)" clock ch] ex
      entity_rows_of [OF D(1)] references_back(1) [OF D(1), of m s]
    by (simp add: rev_map [symmetric] gets entity_exists_def moved_rows [OF D(1)] tabs)
  have ok3: "store_ok ?u3"
    using undo_reference_step.rfold_keeps [OF _ r3] ok2 by (simp add: undo_ok_def)
  have u3: "?u3 = refs_back d ?u0"
    unfolding refs_back_def by (rule db.equality) simp_all
  have "rfold (undo_reference clock) (rev (merge_refs d m s)) (?u0, ch) =
      rfold (undo_reference clock) (map (repoint_record m) (rev (safe d m s))) (?u3, ch)"
    unfolding merge_refs_def rev_append rfold_append rev_map
    by (simp only: r1 r2 r3 rbind_simps append_assoc)
  with ok3 show ?thesis unfolding u3 by blast
qed

lemma stamped_ids_touch:
  assumes mg: "mergeable d survivor merged" and m: "m = e_id merged" and s: "s = e_id survivor"
    and "get_relationship d i = Some r" "i \<in> stamped_ids d m s"
  shows "touches m r \<or> touches s r"
proof -
  note D = mergeableD [OF mg]
  from assms(5) consider x where "x \<in> set (safe d m s)" "i = r_id x"
    | c where "c \<in> set (cols d m s)" "i = r_id (co_absorber c)"
    by (auto simp: stamped_ids_def)
  then show ?thesis
  proof cases
    case 1
    then have "get_relationship d (r_id x) = Some x" "touches m x"
      by (simp_all add: class_rows(2) [OF D(1)])
    with 1 assms(4) show ?thesis by simp
  next
    case 2
    then have "r = co_absorber c" using cols_rows(2) [OF D(1) 2(1)] assms(4) by simp
    with repointed_triple_touches [OF cols_rows(3,4) [OF D(1) 2(1)]] show ?thesis by simp
  qed
qed

text \<open>The two lists of records, run on what the reference loop leaves.\<close>

lemma undo_records_run:
  assumes mg: "mergeable d survivor merged" and m: "m = e_id merged" and s: "s = e_id survivor"
    and inv: "absorbed_graph (stamped_ids d m s) clk (graph1 d m s) (cols d m s) u"
  shows "\<exists>v ch'. rfold (undo_merged_relationship clock h) (rev (merge_records d m s)) (u, ch) = Inr (v, ch')
    \<and> store_ok v \<and> restamped (stamped_ids d m s) d v {} \<and> graph_frame u v
    \<and> db_relationship_evidence v = db_relationship_evidence (graph1 d m s)"
proof -
  note D = mergeableD [OF mg] and ok1 = graph1_ok(1) [OF mg, folded m s]
    and ready = cols_ready [OF mg, folded m s]
  have "(\<lambda>c. r_id (co_absorber c)) ` set (cols d m s) \<subseteq> stamped_ids d m s"
    by (auto simp: stamped_ids_def)
  from undo_collisions_run [OF ok1 ready inv this, of clock h ch] obtain v ch1 where
    v: "rfold (undo_merged_relationship clock h) (rev (map (collision_record (graph1 d m s)) (cols d m s))) (u, ch)
      = Inr (v, ch1)" "absorbed_graph (stamped_ids d m s) clk (graph1 d m s) [] v" "graph_frame u v"
    by blast
  have vok: "store_ok v" "same_triples (graph1 d m s) v" "restamped (stamped_ids d m s) (graph1 d m s) v {}"
    and ev: "db_relationship_evidence v = db_relationship_evidence (graph1 d m s)"
    using v(2) by (simp_all add: absorbed_graph_def move_all_def)
  have g1: "get_relationship (graph1 d m s) i =
      (if i \<in> r_id ` set (loops d m s) then None else get_relationship d i)" for i
    by (simp add: graph1_def get_relationship_drop [OF D(1)])
  have same: "same_triples d v"
    using vok(2) unfolding same_triples_def g1 by (metis option.distinct(1))
  have st: "restamped (stamped_ids d m s) d v (r_id ` set (rev (loops d m s)))"
    by (rule restamped_base [OF vok(3)]) (simp add: g1)
  have rows: "distinct (map r_id (rev (loops d m s)))"
      "\<forall>r \<in> set (rev (loops d m s)). get_relationship d (r_id r) = Some r"
    using distinct_classes(1) [OF D(1), of m s]
    by (simp_all add: rev_map [symmetric] class_rows(1) [OF D(1)])
  from undo_loops_run [OF D(1) vok(1) same st rows, of clock h ch1] obtain R ch2 where
    R: "rfold (undo_merged_relationship clock h) (map loop_record (rev (loops d m s))) (v, ch1)
      = Inr (v\<lparr>db_relationships := R\<rparr>, ch2)"
      "restamped (stamped_ids d m s) d (v\<lparr>db_relationships := R\<rparr>) {}" "store_ok (v\<lparr>db_relationships := R\<rparr>)"
    by blast
  have "rfold (undo_merged_relationship clock h) (rev (merge_records d m s)) (u, ch)
      = Inr (v\<lparr>db_relationships := R\<rparr>, ch2)"
    unfolding merge_records_def rev_append rfold_append v(1) rbind_simps
    by (simp only: rev_map R(1))
  moreover have "graph_frame u (v\<lparr>db_relationships := R\<rparr>)"
    by (rule graph_frame_trans [OF v(3)]) (unfold graph_frame_def, rule db.equality, simp_all)
  ultimately show ?thesis using R(2,3) ev by auto
qed

lemma merged_into_back:
  assumes "mergeable d survivor merged" "m = e_id merged"
  shows "tbl_upd e_id {m} (e_merged_into_update (\<lambda>_. None))
      (tbl_upd e_id {m} (e_merged_into_update (\<lambda>_. Some s)) (db_entities d)) = db_entities d"
proof -
  note D = mergeableD [OF assms(1)] and keyed = store_ok_keyed(1) [OF mergeableD(1) [OF assms(1)]]
  have m: "r = merged" if "tbl_get (db_entities d) k = Some r" "k \<in> {m}" for k r
    using that D(5) assms(2) by (simp add: get_entity_def)
  have none: "merged\<lparr>e_merged_into := None\<rparr> = merged"
    using assms(1) by (intro entity.equality) (simp_all add: mergeable_def)
  have "tbl_upd e_id {m} (e_merged_into_update (\<lambda>_. None))
      (tbl_upd e_id {m} (e_merged_into_update (\<lambda>_. Some s)) (db_entities d))
      = tbl_upd e_id {m} (\<lambda>r. r) (db_entities d)"
    by (rule tbl_upd_upd [OF keyed]) (use m none in auto)
  also have "\<dots> = db_entities d" by (rule tbl_upd_id [OF keyed refl])
  finally show ?thesis .
qed

text \<open>The whole undo transaction on the store a merge left.\<close>

lemma undo_in_tx_run:
  assumes mg: "mergeable d survivor merged" and m: "m = e_id merged" and s: "s = e_id survivor"
    and h: "h = merge_entry now new_id s m reason operator audit d"
  shows "\<exists>v changes. undo_in_tx clock t h (merged_db clk h m s d) = Inr (changes, v)
    \<and> store_ok v \<and> restamped (stamped_ids d m s) d v {}
    \<and> db_relationship_evidence v = db_relationship_evidence (graph1 d m s)
    \<and> db_entities v = db_entities d \<and> db_entity_aliases v = db_entity_aliases d
    \<and> db_entity_identifiers v = db_entity_identifiers d
    \<and> db_entity_extractions v = db_entity_extractions d
    \<and> db_merge_history v = tbl_put new_id (h\<lparr>mh_undone_at := Some t\<rparr>) (db_merge_history d)"
proof -
  note D = mergeableD [OF mg]
  let ?u = "refs_back d (merged_db clk h m s d)"
  have ok0: "store_ok (merged_db clk h m s d)" by (rule execute_in_tx_run(2) [OF mg m s h])
  obtain ch where refs: "rfold (undo_reference clock) (rev (merge_refs d m s)) (merged_db clk h m s d, [])
      = rfold (undo_reference clock) (map (repoint_record m) (rev (safe d m s))) (?u, ch)"
    and oku: "store_ok ?u"
    using undo_entity_refs_run [OF mg m s ok0, of clock "[]"] by blast
  have u: "get_relationship ?u = get_relationship (graph3 clk d m s)"
      "db_relationship_evidence ?u = db_relationship_evidence (graph3 clk d m s)"
    by (simp_all add: fun_eq_iff get_relationship_def refs_back_def merged_db_def moved_tables_def)
  from undo_safe_run [OF mg m s oku u, of clock ch] obtain R ch1 where
    R: "rfold (undo_reference clock) (map (repoint_record m) (rev (safe d m s))) (?u, ch)
      = Inr (?u\<lparr>db_relationships := R\<rparr>, ch1)"
    "absorbed_graph (stamped_ids d m s) clk (graph1 d m s) (cols d m s) (?u\<lparr>db_relationships := R\<rparr>)"
    by blast
  from undo_records_run [OF mg m s R(2), of clock "mh_id h" ch1] obtain v ch2 where
    v: "rfold (undo_merged_relationship clock (mh_id h)) (rev (merge_records d m s))
      (?u\<lparr>db_relationships := R\<rparr>, ch1) = Inr (v, ch2)"
    "store_ok v" "restamped (stamped_ids d m s) d v {}"
    and frame: "graph_frame (?u\<lparr>db_relationships := R\<rparr>) v"
    and ev: "db_relationship_evidence v = db_relationship_evidence (graph1 d m s)"
    by blast
  have tabs: "db_entities v = tbl_upd e_id {m} (e_merged_into_update (\<lambda>_. Some s)) (db_entities d)"
      "db_entity_aliases v = db_entity_aliases d" "db_entity_identifiers v = db_entity_identifiers d"
      "db_entity_extractions v = db_entity_extractions d"
      "db_merge_history v = tbl_put new_id h (db_merge_history d)"
    by (simp_all add: graph_frame_sel [OF frame] refs_back_def merged_db_def h merge_entry_def)
  have gm: "get_entity v m = Some (merged\<lparr>e_merged_into := Some s\<rparr>)"
    using D(5) m store_ok_keyed(1) [OF D(1)] by (simp add: get_entity_def tabs(1) tbl_get_upd)
  let ?w = "v\<lparr>db_entities := db_entities d\<rparr>"
  have put: "put_entity (merged\<lparr>e_merged_into := None\<rparr>) v = Inr ?w"
    using put_entity_merged_into [OF v(2) gm, of None] merged_into_back [OF mg m, of s]
    by (simp add: tabs(1))
  have okw: "store_ok ?w" by (rule put_entity_keeps [OF v(2) put])
  let ?x = "?w\<lparr>db_merge_history := tbl_put new_id (h\<lparr>mh_undone_at := Some t\<rparr>) (db_merge_history d)\<rparr>"
  have "tbl_put new_id (h\<lparr>mh_undone_at := Some t\<rparr>) (tbl_put new_id h (db_merge_history d))
      = tbl_put new_id (h\<lparr>mh_undone_at := Some t\<rparr>) (db_merge_history d)"
    by (rule tbl.put_put [OF tbl_keyedD(1) [OF store_ok_keyed(7) [OF D(1)]]])
  then have hist: "put_merge_history (h\<lparr>mh_undone_at := Some t\<rparr>) ?w = Inr ?x"
    using D(4) s by (simp add: put_merge_history_def in_keys_iff get_entity_def h merge_entry_def tabs(5))
  have okx: "store_ok ?x" by (rule put_merge_history_keeps [OF okw hist])
  have "undo_in_tx clock t h (merged_db clk h m s d) = Inr (ch2, ?x)"
    using refs R(1) v(1) gm put hist
    by (simp add: undo_in_tx_def) (simp add: h merge_entry_def)
  moreover have "restamped (stamped_ids d m s) d ?x {}"
    by (rule restamped_cong [OF v(3)]) (simp add: fun_eq_iff get_relationship_def)
  ultimately show ?thesis using okx ev tabs by auto
qed

section \<open>Properties\<close>

text \<open>
  C1: Undoing a merge that has just been made succeeds and gives the store back: the entities,
  aliases, identifiers and extractions are exactly what they were, every relationship is back
  with its id, ends, type, confidence, dates and evidence count, and only the modification stamp
  of a relationship of one of the two entities may differ. All evidence is back where it was,
  except the evidence of relationships between the two entities, which the merge deleted. The
  history entry is marked as undone, so that a second undo is refused.
\<close>

theorem undo_restores_merge:
  assumes "mergeable (ms_store S) survivor merged" "m = e_id merged" "s = e_id survivor"
    and "execute_merge_with_audit producer clk now new_id s m reason operator audit S = (Inr h, S1)"
  shows "\<exists>S2. undo_merge producer clock t (mh_id h) S1 = (Inr (), S2) \<and> store_ok (ms_store S2)
    \<and> db_entities (ms_store S2) = db_entities (ms_store S)
    \<and> db_entity_aliases (ms_store S2) = db_entity_aliases (ms_store S)
    \<and> db_entity_identifiers (ms_store S2) = db_entity_identifiers (ms_store S)
    \<and> db_entity_extractions (ms_store S2) = db_entity_extractions (ms_store S)
    \<and> (\<forall>i. get_relationship (ms_store S) i = None \<longrightarrow> get_relationship (ms_store S2) i = None)
    \<and> (\<forall>i r. get_relationship (ms_store S) i = Some r \<longrightarrow>
         (\<exists>u. get_relationship (ms_store S2) i = Some (r\<lparr>r_updated_at := u\<rparr>)
            \<and> (\<not> touches m r \<and> \<not> touches s r \<longrightarrow> u = r_updated_at r)))
    \<and> (\<forall>j. get_relationship_evidence (ms_store S2) j =
         (case get_relationship_evidence (ms_store S) j of
            None \<Rightarrow> None
          | Some ev \<Rightarrow> if \<exists>r. get_relationship (ms_store S) (re_relationship_id ev) = Some r
                \<and> touches m r \<and> becomes_loop m s r then None else Some ev))
    \<and> get_merge_history (ms_store S2)
        = (get_merge_history (ms_store S))(mh_id h \<mapsto> h\<lparr>mh_undone_at := Some t\<rparr>)
    \<and> fst (undo_merge producer clock t (mh_id h) S2) = Inl (AlreadyUndone (mh_id h) t)"
proof -
  let ?d = "ms_store S"
  note D = mergeableD [OF assms(1)]
  have h: "h = merge_entry now new_id s m reason operator audit ?d"
    and S1: "ms_store S1 = merged_db clk h m s ?d"
    using assms(4) by (auto simp: execute_merge_run [OF assms(1-3)] Let_def)
  have id: "mh_id h = new_id" "mh_survivor_id h = s" "mh_merged_id h = m" "mh_undone_at h = None"
    by (simp_all add: h merge_entry_def)
  obtain v changes where v: "undo_in_tx clock t h (merged_db clk h m s ?d) = Inr (changes, v)" "store_ok v"
    "restamped (stamped_ids ?d m s) ?d v {}"
    "db_relationship_evidence v = db_relationship_evidence (graph1 ?d m s)"
    "db_entities v = db_entities ?d" "db_entity_aliases v = db_entity_aliases ?d"
    "db_entity_identifiers v = db_entity_identifiers ?d"
    "db_entity_extractions v = db_entity_extractions ?d"
    "db_merge_history v = tbl_put new_id (h\<lparr>mh_undone_at := Some t\<rparr>) (db_merge_history ?d)"
    using undo_in_tx_run [OF assms(1-3) h, of clock t clk] by blast
  have ents: "get_entity (ms_store S1) s = Some survivor"
      "get_entity (ms_store S1) m = Some (merged\<lparr>e_merged_into := Some s\<rparr>)"
      "get_merge_history (ms_store S1) new_id = Some h"
    using D(2,4,5) assms(2,3) store_ok_keyed(1) [OF D(1)]
    by (simp_all add: S1 store_gets merged_db_def tbl_get_upd id)
  have "e_merged_into survivor = None" using assms(1) by (simp add: mergeable_def)
  then have chk: "undo_checks new_id S1 = Inr h"
    using ents by (simp add: undo_checks_def require_entity_def id)
  let ?S2 = "publish_relationship_changes producer changes (S1\<lparr>ms_store := v\<rparr>)"
  have run: "undo_merge producer clock t (mh_id h) S1 = (Inr (), ?S2)"
    using chk v(1) by (simp add: undo_merge_def id S1)
  have st: "ms_store ?S2 = v" by simp
  have hist: "get_merge_history v = (get_merge_history ?d)(mh_id h \<mapsto> h\<lparr>mh_undone_at := Some t\<rparr>)"
    by (simp add: fun_eq_iff get_merge_history_def v(9) id)
  have again: "fst (undo_merge producer clock t (mh_id h) ?S2) = Inl (AlreadyUndone (mh_id h) t)"
    using hist by (simp add: undo_merge_def undo_checks_def)
  have rows: "row_restamped (i \<in> stamped_ids ?d m s) (get_relationship ?d i) (get_relationship v i)" for i
    using v(3) by (simp add: restamped_def)
  have gone: "get_relationship v i = None" if "get_relationship ?d i = None" for i
    using rows [of i] that by (simp add: row_restamped_def)
  have kept: "\<exists>u. get_relationship v i = Some (r\<lparr>r_updated_at := u\<rparr>)
      \<and> (\<not> touches m r \<and> \<not> touches s r \<longrightarrow> u = r_updated_at r)" if "get_relationship ?d i = Some r" for i r
    using rows [of i] stamped_ids_touch [OF assms(1-3) that] that by (auto simp: row_restamped_def)
  have loop: "re_relationship_id ev \<in> r_id ` set (loops ?d m s) \<longleftrightarrow>
      (\<exists>r. get_relationship ?d (re_relationship_id ev) = Some r \<and> touches m r \<and> becomes_loop m s r)" for ev
    using loop_ids [OF D(1)] class_rows(1) [OF D(1)] by (auto simp: image_iff)
  have evid: "get_relationship_evidence v j = (case get_relationship_evidence ?d j of
        None \<Rightarrow> None
      | Some ev \<Rightarrow> if \<exists>r. get_relationship ?d (re_relationship_id ev) = Some r
            \<and> touches m r \<and> becomes_loop m s r then None else Some ev)" for j
    using graph1_evidence [OF D(1), of m s j] unfolding loop
    by (simp add: get_relationship_evidence_def v(4))
  show ?thesis
    by (rule exI [of _ ?S2], unfold st, intro conjI allI impI run v(2) v(5-8) hist again gone kept evid)
qed


text \<open>
  Why a merge is refused. The refusals are checked in this order: an entity merged with
  itself, a missing survivor, a missing merged entity, different types, a merged entity that is
  already merged, a survivor that is already merged; after these, a hundred or more relationships
  of either entity, or aliases, identifiers or extractions of the merged one.
\<close>

theorem merge_refusals:
  "fst (execute_merge_with_audit producer clk now new_id s m reason operator audit S) =
    (if s = m then Inl (SelfMerge s)
     else case get_entity (ms_store S) s of None \<Rightarrow> Inl (EntityNotFound s) | Some survivor \<Rightarrow>
       (case get_entity (ms_store S) m of None \<Rightarrow> Inl (EntityNotFound m) | Some merged \<Rightarrow>
         if e_entity_type survivor \<noteq> e_entity_type merged
         then Inl (TypeMismatch (e_entity_type survivor) (e_entity_type merged))
         else case e_merged_into merged of Some x \<Rightarrow> Inl (AlreadyMerged m x) | None \<Rightarrow>
           (case e_merged_into survivor of Some x \<Rightarrow> Inl (AlreadyMerged s x) | None \<Rightarrow>
             map_sum id fst (execute_in_tx clk now new_id survivor merged reason operator audit (ms_store S)))))
   \<and> (\<forall>survivor merged. 100 \<le> length (rels_of (ms_store S) (e_id merged)) \<longrightarrow>
        execute_in_tx clk now new_id survivor merged reason operator audit (ms_store S)
          = Inl (CollectionTruncated ''relationships(merged)'' (e_id merged) 100))
   \<and> (\<forall>survivor merged. length (rels_of (ms_store S) (e_id merged)) < 100 \<longrightarrow>
        100 \<le> length (rels_of (ms_store S) (e_id survivor)) \<longrightarrow>
        execute_in_tx clk now new_id survivor merged reason operator audit (ms_store S)
          = Inl (CollectionTruncated ''relationships(survivor)'' (e_id survivor) 100))"
proof (intro conjI allI impI)
  have full: "reject_truncated c x (list_relationships_by_object d x MERGE_REF_CAP)
      = Inl (CollectionTruncated c x 100)" if "100 \<le> length (rels_of d x)" for c x d
    using that by (simp add: reject_truncated_def list_relationships_by_object_def touches_fun
        rels_of_def MERGE_REF_CAP_def clamp_limit_def clamp_nat_def)
  have fits: "reject_truncated c x (list_relationships_by_object d x MERGE_REF_CAP)
      = Inr (rels_of d x)" if "length (rels_of d x) < 100" for c x d
    using that collected_lists [of d x] by (simp add: reject_truncated_def MERGE_REF_CAP_def)
  fix survivor merged
  show "execute_in_tx clk now new_id survivor merged reason operator audit (ms_store S)
      = Inl (CollectionTruncated ''relationships(merged)'' (e_id merged) 100)"
    if "100 \<le> length (rels_of (ms_store S) (e_id merged))"
    using full [OF that] by (simp add: execute_in_tx_def Let_def)
  show "execute_in_tx clk now new_id survivor merged reason operator audit (ms_store S)
      = Inl (CollectionTruncated ''relationships(survivor)'' (e_id survivor) 100)"
    if "length (rels_of (ms_store S) (e_id merged)) < 100"
      "100 \<le> length (rels_of (ms_store S) (e_id survivor))"
    using full [OF that(2)] fits [OF that(1)] by (simp add: execute_in_tx_def Let_def)
qed (auto simp: execute_merge_with_audit_def merge_checks_def require_entity_def
    split: option.splits sum.splits prod.splits)

section \<open>A worked example\<close>

text \<open>
  Organizations 5 and 2 are the same; 3 is another one. Relationship 11 collides with 10, 12 can
  be repointed, 13 becomes a self loop.
\<close>

definition sample_entity :: "uuid \<Rightarrow> string \<Rightarrow> entity" where
  "sample_entity i name = \<lparr>e_id = i, e_entity_type = Organization, e_name = name,
     e_normalized_name = name, e_description = None, e_confidence = 1, e_first_seen = 0,
     e_last_seen = 0, e_merged_into = None, e_attributes = JObject []\<rparr>"

definition sample_relationship ::
  "uuid \<Rightarrow> uuid \<Rightarrow> relationship_type \<Rightarrow> uuid \<Rightarrow> relationship" where
  "sample_relationship i a ty b = \<lparr>r_id = i, r_source_object_id = a, r_relationship_type = ty,
     r_target_object_id = b, r_confidence = 1, r_first_seen = int i, r_last_seen = 5,
     r_evidence_count = 1, r_created_at = 0, r_updated_at = 0\<rparr>"

definition sample_evidence :: "uuid \<Rightarrow> uuid \<Rightarrow> relationship_evidence" where
  "sample_evidence i rel = \<lparr>re_id = i, re_relationship_id = rel, re_object_id = 7,
     re_raw_evidence_id = None, re_excerpt = None, re_confidence = 1, re_created_at = 0\<rparr>"

definition sample_graph_writes :: "storage_error + db" where
  "sample_graph_writes =
     rbind (rfold put_entity [sample_entity 5 ''acme'', sample_entity 2 ''acme inc'',
              sample_entity 3 ''bolt''] empty_db) (\<lambda>d.
     rbind (rfold put_relationship [sample_relationship 10 5 Owns 3, sample_relationship 11 2 Owns 3,
              sample_relationship 12 2 Uses 3, sample_relationship 13 5 AssociatedWith 2] d) (\<lambda>d.
     rbind (rfold put_relationship_evidence [sample_evidence 20 11, sample_evidence 21 13] d) (\<lambda>d.
     put_entity_alias \<lparr>ea_id = 30, ea_entity_id = 2, ea_alias = ''acme'', ea_alias_type = ''name'',
       ea_source_id = None, ea_confidence = 1, ea_first_seen = 0, ea_last_seen = 0\<rparr> d)))"

definition sample_graph :: db where
  "sample_graph = (case sample_graph_writes of Inl e \<Rightarrow> empty_db | Inr d \<Rightarrow> d)"

lemma sample_graph_ok: "store_ok sample_graph"
proof (cases sample_graph_writes)
  case (Inl e)
  show ?thesis unfolding sample_graph_def Inl by (simp add: store_ok_empty)
next
  case (Inr d)
  then have "store_ok d"
    unfolding sample_graph_writes_def rbind_Inr_iff
    using store_ok_empty entity_write.rfold_keeps relationship_write.rfold_keeps
      evidence_write.rfold_keeps put_entity_alias_keeps by blast
  then show ?thesis unfolding sample_graph_def Inr by simp
qed

lemma sample_mergeable: "mergeable sample_graph (sample_entity 5 ''acme'') (sample_entity 2 ''acme inc'')"
proof -
  have "get_entity sample_graph 5 = Some (sample_entity 5 ''acme'')"
    "get_entity sample_graph 2 = Some (sample_entity 2 ''acme inc'')"
    "length (rels_of sample_graph 2) < MERGE_REF_CAP" "length (rels_of sample_graph 5) < MERGE_REF_CAP"
    "length (aliases_of sample_graph 2) < MERGE_REF_CAP"
    "length (identifiers_of sample_graph 2) < MERGE_REF_CAP"
    "length (extractions_of sample_graph 2) < MERGE_REF_CAP"
    "\<forall>r \<in> set (rels_of sample_graph 2). length (evidence_of sample_graph (r_id r)) < MERGE_REF_CAP
        \<and> r_id r \<notin> set (db_candidate_evidence_relationships sample_graph)"
    by code_simp+
  with sample_graph_ok show ?thesis
    by (simp add: mergeable_def) (simp add: sample_entity_def)
qed

definition sample_service :: merge_service where
  "sample_service = \<lparr>ms_store = sample_graph, ms_published = []\<rparr>"

lemma sample_service_mergeable:
  "mergeable (ms_store sample_service) (sample_entity 5 ''acme'') (sample_entity 2 ''acme inc'')"
  by (simp add: sample_service_def sample_mergeable)

lemma sample_ids: "2 = e_id (sample_entity 2 ''acme inc'')" "5 = e_id (sample_entity 5 ''acme'')"
  by (simp_all add: sample_entity_def)

theorem classification_partition_witness:
  "\<exists>loops cols safe. classify_relationships (rels_of sample_graph 2) (rels_of sample_graph 5) 2 5
      = (loops, cols, safe)
    \<and> map r_id loops = [13] \<and> map (\<lambda>c. r_id (co_absorbed c)) cols = [11] \<and> map r_id safe = [12]
    \<and> length loops + length cols + length safe = length (rels_of sample_graph 2)"
proof -
  obtain loops cols safe where cls: "classify_relationships (rels_of sample_graph 2)
      (rels_of sample_graph 5) 2 5 = (loops, cols, safe)"
    by (metis prod.exhaust)
  have "case classify_relationships (rels_of sample_graph 2) (rels_of sample_graph 5) 2 5 of
      (loops, cols, safe) \<Rightarrow> map r_id loops = [13] \<and> map (\<lambda>c. r_id (co_absorbed c)) cols = [11]
        \<and> map r_id safe = [12]"
    by code_simp
  with cls classification_partition [OF cls] show ?thesis by auto
qed

theorem merge_moves_everything_witness:
  "\<exists>h S'. execute_merge_with_audit None (\<lambda>_. 9) 9 50 5 2 ''same'' ''analyst'' None sample_service = (Inr h, S')
    \<and> store_ok (ms_store S') \<and> (\<forall>i r. get_relationship (ms_store S') i = Some r \<longrightarrow> \<not> touches 2 r)"
  using merge_moves_everything [OF sample_service_mergeable sample_ids, of None "\<lambda>_. 9" 9 50
      "''same''" "''analyst''" None]
  by blast


theorem undo_restores_merge_witness:
  "\<exists>h S1 S2. execute_merge_with_audit None (\<lambda>_. 9) 9 50 5 2 ''same'' ''analyst'' None sample_service = (Inr h, S1)
    \<and> undo_merge None (\<lambda>_. 10) 10 (mh_id h) S1 = (Inr (), S2)
    \<and> db_entities (ms_store S2) = db_entities sample_graph
    \<and> db_entity_aliases (ms_store S2) = db_entity_aliases sample_graph"
proof -
  obtain h S1 where run: "execute_merge_with_audit None (\<lambda>_. 9) 9 50 5 2 ''same'' ''analyst'' None
      sample_service = (Inr h, S1)"
    using execute_merge_run [OF sample_service_mergeable sample_ids] by (simp add: Let_def)
  from undo_restores_merge [OF sample_service_mergeable sample_ids run, of "\<lambda>_. 10" 10] run
  show ?thesis by (auto simp: sample_service_def)
qed


theorem merge_refusals_witness:
  "fst (execute_merge_with_audit None (\<lambda>_. 9) 9 50 5 5 ''same'' ''analyst'' None sample_service)
    = Inl (SelfMerge 5)
   \<and> fst (execute_merge_with_audit None (\<lambda>_. 9) 9 50 5 8 ''same'' ''analyst'' None sample_service)
    = Inl (EntityNotFound 8)"
proof -
  have "get_entity (ms_store sample_service) 8 = None" "get_entity (ms_store sample_service) 5 \<noteq> None"
    by code_simp+
  then show ?thesis
    using merge_refusals [of None "\<lambda>_. 9" 9 50 5 5 "''same''" "''analyst''" None sample_service]
      merge_refusals [of None "\<lambda>_. 9" 9 50 5 8 "''same''" "''analyst''" None sample_service]
    by auto
qed

end
