(* ===== verification/Pressure.thy ===== *)
theory Pressure
  imports Prelude
begin

text \<open>
  The AI gateway's pressure signal and admission control, \<open>crates/ai-gateway/src/pressure.rs\<close> and
  \<open>admission.rs\<close>. Instants are milliseconds on one line, latencies are milliseconds. The ratios are
  exact rationals; the code divides and compares \<open>f64\<close> values, which agrees for the sample counts
  the window can hold (at most 1024) and thresholds with a few decimal digits. The index of the
  95th percentile is \<open>ceil (19 n / 20)\<close>, which is what the \<open>f64\<close> expression gives for every
  \<open>n\<close> up to 1024.

  A semaphore is its number of free permits together with the permits handed out; a caller that
  has to wait for a permit makes no step until one is free.
\<close>

section \<open>Priorities and pressure levels\<close>

datatype priority = P0 | P1 | P2 | P3 | P4

fun priority_rank :: "priority \<Rightarrow> nat" where
  "priority_rank P0 = 0"
| "priority_rank P1 = 1"
| "priority_rank P2 = 2"
| "priority_rank P3 = 3"
| "priority_rank P4 = 4"

lemma priority_rank_inj: "priority_rank p = priority_rank q \<Longrightarrow> p = q"
  by (cases p; cases q) simp_all

text \<open>\<open>#[derive(Ord)]\<close>: the order of declaration.\<close>

instantiation priority :: linorder
begin

definition less_eq_priority :: "priority \<Rightarrow> priority \<Rightarrow> bool" where
  "less_eq_priority p q \<longleftrightarrow> priority_rank p \<le> priority_rank q"

definition less_priority :: "priority \<Rightarrow> priority \<Rightarrow> bool" where
  "less_priority p q \<longleftrightarrow> priority_rank p < priority_rank q"

instance
  by standard (auto simp: less_eq_priority_def less_priority_def dest: priority_rank_inj)

end

datatype resource_pressure = Normal | Elevated | High | Critical

fun severity :: "resource_pressure \<Rightarrow> nat" where
  "severity Normal = 0"
| "severity Elevated = 1"
| "severity High = 2"
| "severity Critical = 3"

section \<open>The observed pressure\<close>

datatype attempt_class = AttemptSuccess | RateLimited | AttemptTimeout | ServerError | OtherAttempt

record pressure_thresholds =
  pt_enabled :: bool
  pt_window :: duration
  pt_min_samples :: nat
  pt_cooldown :: duration
  pt_elevated_p95 :: duration
  pt_high_p95 :: duration
  pt_critical_p95 :: duration
  pt_elevated_429_ratio :: rat
  pt_high_429_ratio :: rat
  pt_critical_429_ratio :: rat
  pt_elevated_timeout_ratio :: rat
  pt_high_timeout_ratio :: rat
  pt_critical_timeout_ratio :: rat
  pt_elevated_5xx_ratio :: rat
  pt_high_5xx_ratio :: rat
  pt_critical_5xx_ratio :: rat
  pt_elevated_queue :: nat
  pt_high_queue :: nat
  pt_critical_queue :: nat

definition speculative_defaults :: pressure_thresholds where
  "speculative_defaults = \<lparr>pt_enabled = True, pt_window = 30000, pt_min_samples = 5,
     pt_cooldown = 15000, pt_elevated_p95 = 5000, pt_high_p95 = 15000, pt_critical_p95 = 30000,
     pt_elevated_429_ratio = 1/10, pt_high_429_ratio = 1/4, pt_critical_429_ratio = 1/2,
     pt_elevated_timeout_ratio = 1/20, pt_high_timeout_ratio = 3/20,
     pt_critical_timeout_ratio = 3/10, pt_elevated_5xx_ratio = 1/20, pt_high_5xx_ratio = 3/20,
     pt_critical_5xx_ratio = 3/10, pt_elevated_queue = 2, pt_high_queue = 8,
     pt_critical_queue = 16\<rparr>"

definition MAX_SAMPLES :: nat where
  "MAX_SAMPLES = 1024"

record sample =
  sa_at :: time
  sa_latency :: duration
  sa_class :: attempt_class

record observed_pressure =
  op_samples :: "sample list"
  op_level :: resource_pressure
  op_last_change :: time
  op_queue_depth :: nat
  op_thresholds :: pressure_thresholds

definition with_clock :: "pressure_thresholds \<Rightarrow> time \<Rightarrow> observed_pressure" where
  "with_clock t now = \<lparr>op_samples = [], op_level = Normal, op_last_change = now,
     op_queue_depth = 0, op_thresholds = t\<rparr>"

definition set_queue_depth :: "nat \<Rightarrow> observed_pressure \<Rightarrow> observed_pressure" where
  "set_queue_depth depth p = p\<lparr>op_queue_depth := depth\<rparr>"

definition prune :: "time \<Rightarrow> duration \<Rightarrow> sample list \<Rightarrow> sample list" where
  "prune now window samples = dropWhile (\<lambda>s. window < since now (sa_at s)) samples"

definition record_attempt ::
  "time \<Rightarrow> attempt_class \<Rightarrow> duration \<Rightarrow> observed_pressure \<Rightarrow> observed_pressure" where
  "record_attempt now cls latency p =
     (let samples = prune now (pt_window (op_thresholds p))
            (op_samples p @ [\<lparr>sa_at = now, sa_latency = latency, sa_class = cls\<rparr>])
      in p\<lparr>op_samples := drop (length samples - MAX_SAMPLES) samples\<rparr>)"

definition percentile95 :: "duration list \<Rightarrow> duration" where
  "percentile95 latencies =
     (let values = sort latencies in
      if values = [] then 0
      else values ! min ((19 * length values + 19) div 20 - 1) (length values - 1))"

definition class_ratio :: "attempt_class \<Rightarrow> sample list \<Rightarrow> rat" where
  "class_ratio c samples =
     of_nat (length (filter (\<lambda>s. sa_class s = c) samples)) / of_nat (length samples)"

definition raw_level :: "sample list \<Rightarrow> nat \<Rightarrow> pressure_thresholds \<Rightarrow> resource_pressure" where
  "raw_level samples queue t =
     (if length samples < pt_min_samples t then Normal
      else
        let p95 = percentile95 (map sa_latency samples);
            ratio_429 = class_ratio RateLimited samples;
            ratio_timeout = class_ratio AttemptTimeout samples;
            ratio_5xx = class_ratio ServerError samples;
            level = Normal;
            level = (if pt_elevated_p95 t \<le> p95 \<or> pt_elevated_429_ratio t \<le> ratio_429
                  \<or> pt_elevated_timeout_ratio t \<le> ratio_timeout
                  \<or> pt_elevated_5xx_ratio t \<le> ratio_5xx \<or> pt_elevated_queue t \<le> queue
                then Elevated else level);
            level = (if pt_high_p95 t \<le> p95 \<or> pt_high_429_ratio t \<le> ratio_429
                  \<or> pt_high_timeout_ratio t \<le> ratio_timeout
                  \<or> pt_high_5xx_ratio t \<le> ratio_5xx \<or> pt_high_queue t \<le> queue
                then High else level);
            level = (if pt_critical_p95 t \<le> p95 \<or> pt_critical_429_ratio t \<le> ratio_429
                  \<or> pt_critical_timeout_ratio t \<le> ratio_timeout
                  \<or> pt_critical_5xx_ratio t \<le> ratio_5xx \<or> pt_critical_queue t \<le> queue
                then Critical else level)
        in level)"

fun step_down :: "resource_pressure \<Rightarrow> resource_pressure" where
  "step_down Critical = High"
| "step_down High = Elevated"
| "step_down Elevated = Normal"
| "step_down Normal = Normal"

definition apply_hysteresis ::
  "resource_pressure \<Rightarrow> time \<Rightarrow> duration \<Rightarrow> observed_pressure \<Rightarrow> observed_pressure" where
  "apply_hysteresis raw now cooldown p =
     (let current = severity (op_level p); target = severity raw in
      if current < target then p\<lparr>op_level := raw, op_last_change := now\<rparr>
      else if target < current \<and> cooldown \<le> since now (op_last_change p)
        then p\<lparr>op_level := step_down (op_level p), op_last_change := now\<rparr>
      else p)"

definition evaluate_pressure :: "time \<Rightarrow> observed_pressure \<Rightarrow> resource_pressure \<times> observed_pressure" where
  "evaluate_pressure now p =
     (if \<not> pt_enabled (op_thresholds p) then (Normal, p)
      else
        let t = op_thresholds p;
            p = p\<lparr>op_samples := prune now (pt_window t) (op_samples p)\<rparr>;
            raw = raw_level (op_samples p) (op_queue_depth p) t;
            p = apply_hysteresis raw now (pt_cooldown t) p
        in (op_level p, p))"

section \<open>Admission\<close>

datatype admission_error = P0Busy | RejectedByPressure resource_pressure

record admission_controller =
  ac_reserved_p0 :: nat
  ac_shared :: nat
  ac_p0_guards :: nat
  ac_shared_guards :: nat

definition new_controller :: "nat \<Rightarrow> nat \<Rightarrow> admission_controller" where
  "new_controller p0_capacity shared_capacity =
     \<lparr>ac_reserved_p0 = max p0_capacity 1, ac_shared = max shared_capacity 1,
      ac_p0_guards = 0, ac_shared_guards = 0\<rparr>"

definition try_admit_p0 :: "admission_controller \<Rightarrow> admission_error + admission_controller" where
  "try_admit_p0 c =
     (if ac_reserved_p0 c = 0 then Inl P0Busy
      else Inr (c\<lparr>ac_reserved_p0 := ac_reserved_p0 c - 1, ac_p0_guards := ac_p0_guards c + 1\<rparr>))"

definition admission_blocked :: "resource_pressure \<Rightarrow> priority \<Rightarrow> bool" where
  "admission_blocked pressure p =
     (case pressure of
        Normal \<Rightarrow> False
      | Elevated \<Rightarrow> p = P4
      | High \<Rightarrow> P2 \<le> p
      | Critical \<Rightarrow> P1 \<le> p)"

text \<open>\<open>None\<close>: the caller waits for a shared permit. The semaphore is never closed.\<close>

definition admit ::
  "resource_pressure \<Rightarrow> priority \<Rightarrow> admission_controller
     \<Rightarrow> admission_error + admission_controller option" where
  "admit pressure p c =
     (if admission_blocked pressure p then Inl (RejectedByPressure pressure)
      else if ac_shared c = 0 then Inr None
      else Inr (Some (c\<lparr>ac_shared := ac_shared c - 1, ac_shared_guards := ac_shared_guards c + 1\<rparr>)))"

text \<open>Dropping a guard returns its permit.\<close>

definition drop_p0_guard :: "admission_controller \<Rightarrow> admission_controller" where
  "drop_p0_guard c = (if ac_p0_guards c = 0 then c
     else c\<lparr>ac_reserved_p0 := ac_reserved_p0 c + 1, ac_p0_guards := ac_p0_guards c - 1\<rparr>)"

definition drop_shared_guard :: "admission_controller \<Rightarrow> admission_controller" where
  "drop_shared_guard c = (if ac_shared_guards c = 0 then c
     else c\<lparr>ac_shared := ac_shared c + 1, ac_shared_guards := ac_shared_guards c - 1\<rparr>)"

section \<open>The sliding window\<close>

text \<open>The last \<open>n\<close> elements of a list.\<close>

definition lastn :: "nat \<Rightarrow> 'a list \<Rightarrow> 'a list" where
  "lastn n xs = rev (take n (rev xs))"

lemma lastn_drop: "lastn n xs = drop (length xs - n) xs"
  by (simp add: lastn_def rev_take)

lemma lastn_lastn: "lastn k (lastn n xs) = lastn (min k n) xs"
  by (simp add: lastn_def min.commute)

lemma lastn_snoc [simp]: "lastn (Suc k) (xs @ [x]) = lastn k xs @ [x]"
  by (simp add: lastn_def)

lemma lastn_simps [simp]: "lastn 0 xs = []" "lastn k [] = []"
  by (simp_all add: lastn_def)

lemma length_lastn [simp]: "length (lastn k xs) = min k (length xs)"
  by (simp add: lastn_def min.commute)

lemma sorted_lastn: "sorted (map f xs) \<Longrightarrow> sorted (map f (lastn k xs))"
  by (simp add: lastn_drop drop_map [symmetric] sorted_wrt_drop)

definition recent :: "time \<Rightarrow> duration \<Rightarrow> sample \<Rightarrow> bool" where
  "recent now window s \<longleftrightarrow> since now (sa_at s) \<le> window"

definition recent_count :: "time \<Rightarrow> duration \<Rightarrow> sample list \<Rightarrow> nat" where
  "recent_count now window xs = length (filter (recent now window) xs)"

lemma recent_later: "recent now window s \<Longrightarrow> t \<le> now \<Longrightarrow> recent t window s"
  by (simp add: recent_def since_le_iff)

lemma recent_count_mono: "t \<le> now \<Longrightarrow> recent_count now window xs \<le> recent_count t window xs"
  unfolding recent_count_def by (induction xs) (auto dest: recent_later)

text \<open>Of samples in the order of their instants, pruning keeps exactly the recent ones.\<close>

lemma prune_filter:
  assumes "sorted (map sa_at xs)"
  shows "prune now window xs = filter (recent now window) xs"
  using assms
proof (induction xs)
  case (Cons x xs)
  show ?case
  proof (cases "recent now window x")
    case True
    have "recent now window y" if "y \<in> set xs" for y
      using True that Cons.prems by (auto simp: recent_def since_le_iff)
    then have "filter (recent now window) xs = xs" by (simp add: filter_id_conv)
    moreover have "prune now window (x # xs) = x # xs"
      using True by (simp add: prune_def recent_def)
    ultimately show ?thesis using True by simp
  next
    case False
    with Cons show ?thesis by (simp add: prune_def recent_def)
  qed
qed (simp add: prune_def)

lemma prune_lastn:
  assumes "sorted (map sa_at xs)"
  shows "prune now window (lastn k xs) = lastn (min k (recent_count now window xs)) xs"
proof -
  have "filter (recent now window) (lastn k xs) = lastn (min k (recent_count now window xs)) xs"
    using assms
  proof (induction xs arbitrary: k rule: rev_induct)
    case (snoc x xs)
    show ?case
    proof (cases k)
      case (Suc k')
      show ?thesis
      proof (cases "recent now window x")
        case True
        with snoc Suc show ?thesis by (simp add: recent_count_def sorted_append)
      next
        case False
        have "\<not> recent now window y" if "y \<in> set (xs @ [x])" for y
          using False that snoc.prems by (auto simp: recent_def since_le_iff sorted_append)
        then have "recent_count now window (xs @ [x]) = 0"
          by (auto simp: recent_count_def filter_empty_conv)
        moreover have "filter (recent now window) (lastn k (xs @ [x])) = []"
          using \<open>\<And>y. y \<in> set (xs @ [x]) \<Longrightarrow> \<not> recent now window y\<close>
          by (auto simp: filter_empty_conv lastn_drop dest: in_set_dropD)
        ultimately show ?thesis by simp
      qed
    qed simp
  qed simp
  then show ?thesis by (simp add: prune_filter [OF sorted_lastn [OF assms]])
qed

text \<open>
  The events the gateway feeds in: an attempt, a new queue depth, a reading. \<open>recorded\<close> is the list
  of all samples ever recorded, which the code does not keep.
\<close>

datatype pressure_event =
    Recorded time attempt_class duration
  | QueueDepth nat
  | Evaluated time

fun pressure_step :: "pressure_event \<Rightarrow> observed_pressure \<Rightarrow> observed_pressure" where
  "pressure_step (Recorded now cls latency) p = record_attempt now cls latency p"
| "pressure_step (QueueDepth depth) p = set_queue_depth depth p"
| "pressure_step (Evaluated now) p = snd (evaluate_pressure now p)"

definition pressure_run :: "pressure_event list \<Rightarrow> observed_pressure \<Rightarrow> observed_pressure" where
  "pressure_run evs p = fold pressure_step evs p"

fun event_times :: "pressure_event list \<Rightarrow> time list" where
  "event_times [] = []"
| "event_times (Recorded now _ _ # evs) = now # event_times evs"
| "event_times (QueueDepth _ # evs) = event_times evs"
| "event_times (Evaluated now # evs) = now # event_times evs"

fun recorded :: "pressure_event list \<Rightarrow> sample list" where
  "recorded [] = []"
| "recorded (Recorded now cls latency # evs) =
     \<lparr>sa_at = now, sa_latency = latency, sa_class = cls\<rparr> # recorded evs"
| "recorded (_ # evs) = recorded evs"

definition window_ok :: "duration \<Rightarrow> time \<Rightarrow> sample list \<Rightarrow> sample list \<Rightarrow> bool" where
  "window_ok window t0 all samples \<longleftrightarrow> sorted (map sa_at all) \<and> (\<forall>s \<in> set all. sa_at s \<le> t0) \<and>
     (\<exists>k. samples = lastn k all \<and> k \<le> MAX_SAMPLES \<and>
        (\<forall>t \<ge> t0. min k (recent_count t window all) = min MAX_SAMPLES (recent_count t window all)))"

lemma hysteresis_frame [simp]:
  "op_samples (apply_hysteresis raw now cd p) = op_samples p"
  "op_thresholds (apply_hysteresis raw now cd p) = op_thresholds p"
  "op_queue_depth (apply_hysteresis raw now cd p) = op_queue_depth p"
  by (simp_all add: apply_hysteresis_def Let_def)

lemma step_thresholds [simp]: "op_thresholds (pressure_step ev p) = op_thresholds p"
  by (cases ev) (simp_all add: record_attempt_def set_queue_depth_def evaluate_pressure_def Let_def)

lemma window_ok_record:
  assumes "window_ok window t0 all samples" "t0 \<le> now"
    and "new = \<lparr>sa_at = now, sa_latency = l, sa_class = c\<rparr>"
    and "pruned = prune now window (samples @ [new])"
  shows "window_ok window now (all @ [new]) (drop (length pruned - MAX_SAMPLES) pruned)"
proof -
  let ?all = "all @ [new]"
  from assms(1) obtain k where k: "samples = lastn k all" "k \<le> MAX_SAMPLES"
    and eq: "\<And>t. t0 \<le> t \<Longrightarrow> min k (recent_count t window all) = min MAX_SAMPLES (recent_count t window all)"
    and srt: "sorted (map sa_at all)" "\<forall>s \<in> set all. sa_at s \<le> t0"
    by (auto simp: window_ok_def)
  have srt': "sorted (map sa_at ?all)" "\<forall>s \<in> set ?all. sa_at s \<le> now"
    using srt assms(2,3) by (auto simp: sorted_append)
  let ?k = "min MAX_SAMPLES (min (Suc k) (recent_count now window ?all))"
  have "pruned = lastn (min (Suc k) (recent_count now window ?all)) ?all"
    unfolding assms(4) k(1) lastn_snoc [symmetric] by (rule prune_lastn [OF srt'(1)])
  then have smp: "drop (length pruned - MAX_SAMPLES) pruned = lastn ?k ?all"
    by (simp only: lastn_drop [symmetric] lastn_lastn)
  have "min ?k (recent_count t window ?all) = min MAX_SAMPLES (recent_count t window ?all)"
    if t: "now \<le> t" for t
  proof -
    have "recent_count t window ?all \<le> recent_count now window ?all"
      using t by (rule recent_count_mono)
    moreover have "recent_count t window ?all \<le> Suc (recent_count t window all)"
      by (simp add: recent_count_def)
    moreover note eq [of t] assms(2) t
    ultimately show ?thesis by (auto simp: min_def split: if_splits)
  qed
  with srt' smp show ?thesis unfolding window_ok_def by (metis min.cobounded1)
qed

lemma window_ok_prune:
  assumes "window_ok window t0 all samples" "t0 \<le> now"
  shows "window_ok window now all (prune now window samples)"
    and "prune now window samples = filter (recent now window) (lastn MAX_SAMPLES all)"
proof -
  from assms(1) obtain k where k: "samples = lastn k all" "k \<le> MAX_SAMPLES"
    and eq: "\<And>t. t0 \<le> t \<Longrightarrow> min k (recent_count t window all) = min MAX_SAMPLES (recent_count t window all)"
    and srt: "sorted (map sa_at all)" "\<forall>s \<in> set all. sa_at s \<le> t0"
    by (auto simp: window_ok_def)
  let ?k = "min k (recent_count now window all)"
  have smp: "prune now window samples = lastn ?k all"
    unfolding k(1) by (rule prune_lastn [OF srt(1)])
  have "min ?k (recent_count t window all) = min MAX_SAMPLES (recent_count t window all)"
    if t: "now \<le> t" for t
    using recent_count_mono [OF t, of window all] eq [of t] assms(2) t
    by (auto simp: min_def split: if_splits)
  with srt smp k(2) assms(2) show "window_ok window now all (prune now window samples)"
    unfolding window_ok_def by (metis (no_types, lifting) min.coboundedI1 order_trans)
  have "prune now window samples = lastn (min MAX_SAMPLES (recent_count now window all)) all"
    using smp eq [OF assms(2)] by simp
  also have "\<dots> = prune now window (lastn MAX_SAMPLES all)"
    by (rule prune_lastn [OF srt(1), symmetric])
  also have "\<dots> = filter (recent now window) (lastn MAX_SAMPLES all)"
    by (rule prune_filter [OF sorted_lastn [OF srt(1)]])
  finally show "prune now window samples = filter (recent now window) (lastn MAX_SAMPLES all)" .
qed

definition last_time :: "time \<Rightarrow> pressure_event list \<Rightarrow> time" where
  "last_time t0 evs = last (t0 # event_times evs)"

lemma last_time_Cons:
  "last_time t0 (Recorded now c l # evs) = last_time now evs"
  "last_time t0 (QueueDepth n # evs) = last_time t0 evs"
  "last_time t0 (Evaluated now # evs) = last_time now evs"
  by (simp_all add: last_time_def)

lemmas events_induct = recorded.induct [case_names Nil Recorded QueueDepth Evaluated]

lemma window_ok_run:
  assumes "window_ok (pt_window (op_thresholds p)) t0 all (op_samples p)"
    and "sorted (t0 # event_times evs)"
  shows "window_ok (pt_window (op_thresholds p)) (last_time t0 evs) (all @ recorded evs)
    (op_samples (pressure_run evs p))"
  using assms
proof (induction evs arbitrary: t0 all p rule: events_induct)
  case Nil
  then show ?case by (simp add: pressure_run_def last_time_def)
next
  case (Recorded now cls latency evs)
  let ?new = "\<lparr>sa_at = now, sa_latency = latency, sa_class = cls\<rparr>"
  have "window_ok (pt_window (op_thresholds p)) now (all @ [?new])
      (op_samples (record_attempt now cls latency p))"
    using window_ok_record [OF Recorded(2) _ refl refl, of now latency cls] Recorded(3)
    by (simp add: record_attempt_def Let_def)
  with Recorded(1) [of "pressure_step (Recorded now cls latency) p" now "all @ [?new]"] Recorded(3)
    step_thresholds [of "Recorded now cls latency" p]
  show ?case by (simp add: pressure_run_def last_time_Cons)
next
  case (QueueDepth n evs)
  from QueueDepth(1) [of "pressure_step (QueueDepth n) p" t0 all] QueueDepth(2,3) show ?case
    by (simp add: pressure_run_def last_time_Cons set_queue_depth_def)
next
  case (Evaluated now evs)
  have t: "t0 \<le> now" using Evaluated(3) by simp
  have "window_ok (pt_window (op_thresholds p)) now all (op_samples (pressure_step (Evaluated now) p))"
  proof (cases "pt_enabled (op_thresholds p)")
    case True
    then show ?thesis
      using window_ok_prune(1) [OF Evaluated(2) t] by (simp add: evaluate_pressure_def Let_def)
  next
    case False
    have "window_ok w now all smp" if "window_ok w t0 all smp" for w smp
      using that t unfolding window_ok_def by (force intro: order_trans)
    with False Evaluated(2) show ?thesis by (simp add: evaluate_pressure_def)
  qed
  from Evaluated(1) [of "pressure_step (Evaluated now) p" now all] this Evaluated(3) show ?case
    by (simp add: pressure_run_def last_time_Cons del: pressure_step.simps)
qed

section \<open>Hysteresis\<close>

lemma severity_inj: "severity a = severity b \<longleftrightarrow> a = b"
  by (cases a; cases b) simp_all

lemma severity_step_down: "severity (step_down l) = severity l - 1"
  by (cases l) simp_all

lemma hysteresis_cases:
  obtains (rise) "severity (op_level p) < severity raw"
      "apply_hysteresis raw now cd p = p\<lparr>op_level := raw, op_last_change := now\<rparr>"
    | (fall) "severity raw < severity (op_level p)" "cd \<le> since now (op_last_change p)"
      "apply_hysteresis raw now cd p = p\<lparr>op_level := step_down (op_level p), op_last_change := now\<rparr>"
    | (stay) "severity raw \<le> severity (op_level p)" "apply_hysteresis raw now cd p = p"
proof -
  let ?rise = "severity (op_level p) < severity raw"
  let ?fall = "severity raw < severity (op_level p) \<and> cd \<le> since now (op_last_change p)"
  show ?thesis
  proof (cases ?rise)
    case True
    then show ?thesis by (intro rise) (simp_all add: apply_hysteresis_def)
  next
    case up: False
    show ?thesis
    proof (cases ?fall)
      case True
      with up show ?thesis by (intro fall) (auto simp: apply_hysteresis_def Let_def)
    next
      case False
      with up show ?thesis by (intro stay) (auto simp: apply_hysteresis_def Let_def)
    qed
  qed
qed

text \<open>How often the level fell during a run.\<close>

fun level_drops :: "pressure_event list \<Rightarrow> observed_pressure \<Rightarrow> nat" where
  "level_drops [] p = 0"
| "level_drops (ev # evs) p =
     (let p' = pressure_step ev p in
      (if severity (op_level p') < severity (op_level p) then 1 else 0) + level_drops evs p')"

lemma drops_cooldown:
  assumes "op_last_change p \<le> t0" "sorted (t0 # event_times evs)"
  shows "int (pt_cooldown (op_thresholds p)) * int (level_drops evs p)
    \<le> last_time t0 evs - op_last_change p"
  using assms
proof (induction evs arbitrary: p t0)
  case Nil
  then show ?case by (simp add: last_time_def)
next
  case (Cons ev evs)
  show ?case
  proof (cases ev)
    case (Recorded now cls latency)
    with Cons.IH [of "pressure_step ev p" now] Cons.prems show ?thesis
      by (simp add: last_time_Cons record_attempt_def Let_def)
  next
    case (QueueDepth n)
    with Cons.IH [of "pressure_step ev p" t0] Cons.prems show ?thesis
      by (simp add: last_time_Cons set_queue_depth_def)
  next
    case (Evaluated now)
    let ?p = "pressure_step ev p" and ?cd = "pt_cooldown (op_thresholds p)"
    let ?q = "p\<lparr>op_samples := prune now (pt_window (op_thresholds p)) (op_samples p)\<rparr>"
    let ?raw = "raw_level (op_samples ?q) (op_queue_depth p) (op_thresholds p)"
    have t: "t0 \<le> now" and rest: "sorted (now # event_times evs)"
      using Cons.prems(2) Evaluated by auto
    have step: "?p = (if pt_enabled (op_thresholds p) then apply_hysteresis ?raw now ?cd ?q else p)"
      by (simp add: Evaluated evaluate_pressure_def Let_def)
    have drop1: "op_last_change ?p \<le> now \<and>
        int ?cd * (if severity (op_level ?p) < severity (op_level p) then 1 else 0)
          \<le> op_last_change ?p - op_last_change p"
      using Cons.prems(1) t unfolding step
      by (cases rule: hysteresis_cases [where p = ?q and raw = ?raw and now = now and cd = ?cd])
        (auto simp: severity_step_down since_def)
    from Cons.IH [OF _ rest, of ?p] drop1
    have "int ?cd * int (level_drops evs ?p) \<le> last_time now evs - op_last_change ?p" by simp
    with drop1 show ?thesis
      by (auto simp: Let_def Evaluated last_time_Cons distrib_left simp del: pressure_step.simps)
  qed
qed

section \<open>Properties\<close>

text \<open>
  What a reading of the pressure looks at. For any history of attempts, queue depths and
  readings in the order of time, the samples behind a reading are exactly those of the last 1024
  recorded attempts that are not older than the window: none is lost by the pruning in between.
\<close>

theorem pressure_window_exact:
  assumes "sorted (t0 # event_times evs)" "last_time t0 evs \<le> now" "pt_enabled t"
  shows "op_samples (snd (evaluate_pressure now (pressure_run evs (with_clock t t0))))
    = filter (\<lambda>s. since now (sa_at s) \<le> pt_window t) (lastn 1024 (recorded evs))"
proof -
  let ?p = "pressure_run evs (with_clock t t0)"
  have th: "op_thresholds (pressure_run evs p) = op_thresholds p" for evs p
    unfolding pressure_run_def by (induction evs arbitrary: p) simp_all
  have "window_ok (pt_window t) t0 [] []"
    by (auto simp: window_ok_def recent_count_def)
  then have "window_ok (pt_window t) (last_time t0 evs) (recorded evs) (op_samples ?p)"
    using window_ok_run [OF _ assms(1), of "with_clock t t0" "[]"] by (simp add: with_clock_def)
  from window_ok_prune(2) [OF this assms(2)] show ?thesis
    using th [of evs "with_clock t t0"] assms(3)
    by (simp add: evaluate_pressure_def Let_def recent_def [abs_def] with_clock_def MAX_SAMPLES_def)
qed

theorem pressure_window_exact_witness:
  "op_samples (snd (evaluate_pressure 70000 (pressure_run
      [Recorded 10000 AttemptSuccess 5, Recorded 50000 RateLimited 7, Evaluated 60000]
      (with_clock speculative_defaults 0))))
   = [\<lparr>sa_at = 50000, sa_latency = 7, sa_class = RateLimited\<rparr>]"
proof -
  let ?evs = "[Recorded 10000 AttemptSuccess 5, Recorded 50000 RateLimited 7, Evaluated 60000]"
  have "filter (\<lambda>s. since 70000 (sa_at s) \<le> pt_window speculative_defaults) (lastn 1024 (recorded ?evs))
      = [\<lparr>sa_at = 50000, sa_latency = 7, sa_class = RateLimited\<rparr>]"
    by (simp add: lastn_def since_def speculative_defaults_def)
  moreover have "sorted (0 # event_times ?evs)" "last_time 0 ?evs \<le> 70000" "pt_enabled speculative_defaults"
    by (simp_all add: last_time_def speculative_defaults_def)
  ultimately show ?thesis using pressure_window_exact [of 0 ?evs 70000 speculative_defaults] by simp
qed

text \<open>
  A reading never understates the load: the level it returns is at least the level the samples
  and the queue call for. It rises to that level at once; it falls by one step at a time, and only
  when the cooldown has passed since the last change. With the signal switched off, every reading
  is normal and changes nothing.
\<close>

theorem pressure_reading:
  "if \<not> pt_enabled (op_thresholds p) then evaluate_pressure now p = (Normal, p)
   else
     let raw = raw_level (prune now (pt_window (op_thresholds p)) (op_samples p))
                 (op_queue_depth p) (op_thresholds p);
         level = fst (evaluate_pressure now p); p' = snd (evaluate_pressure now p)
     in op_level p' = level \<and> severity raw \<le> severity level
        \<and> severity level \<le> max (severity raw) (severity (op_level p))
        \<and> (severity (op_level p) < severity raw \<longrightarrow> level = raw \<and> op_last_change p' = now)
        \<and> (severity level < severity (op_level p) \<longrightarrow>
             severity level = severity (op_level p) - 1
             \<and> pt_cooldown (op_thresholds p) \<le> since now (op_last_change p)
             \<and> op_last_change p' = now)
        \<and> (level = op_level p \<longrightarrow> op_last_change p' = op_last_change p)"
proof (cases "pt_enabled (op_thresholds p)")
  case False
  then show ?thesis by (simp add: evaluate_pressure_def)
next
  case True
  let ?q = "p\<lparr>op_samples := prune now (pt_window (op_thresholds p)) (op_samples p)\<rparr>"
  let ?raw = "raw_level (op_samples ?q) (op_queue_depth p) (op_thresholds p)"
  have ev: "evaluate_pressure now p =
      (op_level (apply_hysteresis ?raw now (pt_cooldown (op_thresholds p)) ?q),
       apply_hysteresis ?raw now (pt_cooldown (op_thresholds p)) ?q)"
    using True by (simp add: evaluate_pressure_def Let_def)
  show ?thesis
  proof (cases rule: hysteresis_cases [where p = ?q and raw = ?raw and now = now
        and cd = "pt_cooldown (op_thresholds p)"])
    case rise
    then show ?thesis using True unfolding ev Let_def by auto
  next
    case fall
    have "step_down (op_level p) \<noteq> op_level p"
      using fall(1) by (cases "op_level p") simp_all
    with fall show ?thesis using True unfolding ev Let_def by (auto simp: severity_step_down)
  next
    case stay
    then show ?thesis using True unfolding ev Let_def by auto
  qed
qed

theorem pressure_reading_witness:
  "fst (evaluate_pressure 7 (set_queue_depth 9 (with_clock (speculative_defaults\<lparr>pt_min_samples := 0\<rparr>) 0)))
    = High"
proof -
  let ?p = "set_queue_depth 9 (with_clock (speculative_defaults\<lparr>pt_min_samples := 0\<rparr>) 0)"
  have "raw_level (prune 7 (pt_window (op_thresholds ?p)) (op_samples ?p)) (op_queue_depth ?p)
      (op_thresholds ?p) = High" "pt_enabled (op_thresholds ?p)" "op_level ?p = Normal"
    by (simp_all add: raw_level_def class_ratio_def percentile95_def prune_def set_queue_depth_def
        with_clock_def speculative_defaults_def)
  then show ?thesis using pressure_reading [of ?p 7] by (simp add: Let_def)
qed

text \<open>
  The level does not flap: during any history the level falls at most once per cooldown
  period since the last change before it.
\<close>

theorem pressure_no_flapping:
  assumes "op_last_change p \<le> t0" "sorted (t0 # event_times evs)"
  shows "int (pt_cooldown (op_thresholds p)) * int (level_drops evs p)
    \<le> last_time t0 evs - op_last_change p"
  using assms by (rule drops_cooldown)

theorem pressure_no_flapping_witness:
  "int (pt_cooldown speculative_defaults) * int (level_drops [Evaluated 20000, Evaluated 21000]
      (with_clock speculative_defaults 0)) \<le> 21000"
  using pressure_no_flapping [of "with_clock speculative_defaults 0" 0 "[Evaluated 20000, Evaluated 21000]"]
  by (simp add: with_clock_def last_time_def)

text \<open>
  The steps of the admission controller, in any interleaving: requests of all priorities under
  any pressure, and guards being dropped. A request that is refused or has to wait changes
  nothing.
\<close>

inductive admission_step :: "admission_controller \<Rightarrow> admission_controller \<Rightarrow> bool" where
  p0_admitted: "try_admit_p0 c = Inr c' \<Longrightarrow> admission_step c c'"
| shared_admitted: "admit pressure p c = Inr (Some c') \<Longrightarrow> admission_step c c'"
| p0_dropped: "admission_step c (drop_p0_guard c)"
| shared_dropped: "admission_step c (drop_shared_guard c)"

definition permits_ok :: "nat \<Rightarrow> nat \<Rightarrow> admission_controller \<Rightarrow> bool" where
  "permits_ok p0_cap shared_cap c \<longleftrightarrow>
     ac_reserved_p0 c + ac_p0_guards c = p0_cap \<and> ac_shared c + ac_shared_guards c = shared_cap"

lemma permits_step: "admission_step c c' \<Longrightarrow> permits_ok a b c \<Longrightarrow> permits_ok a b c'"
  by (induction rule: admission_step.induct)
    (auto simp: permits_ok_def try_admit_p0_def admit_def drop_p0_guard_def drop_shared_guard_def
      split: if_splits)

lemma permits_steps: "admission_step\<^sup>*\<^sup>* c c' \<Longrightarrow> permits_ok a b c \<Longrightarrow> permits_ok a b c'"
  by (induction rule: rtranclp_induct) (auto dest: permits_step)

text \<open>
  C33: However requests and releases interleave, the number of requests in flight never exceeds
  the capacities, and the reserved permits belong to interactive requests alone: one is admitted
  at once exactly when fewer than the reserved number of them are in flight, whatever the
  background load and the pressure. A background request that pressure does not block is admitted
  exactly when a shared permit is free.
\<close>

theorem admission_capacity:
  assumes "admission_step\<^sup>*\<^sup>* (new_controller p0_cap shared_cap) c"
  shows "ac_p0_guards c \<le> max p0_cap 1 \<and> ac_shared_guards c \<le> max shared_cap 1
    \<and> ((\<exists>c'. try_admit_p0 c = Inr c') \<longleftrightarrow> ac_p0_guards c < max p0_cap 1)
    \<and> (\<forall>pressure p. \<not> admission_blocked pressure p \<longrightarrow>
         ((\<exists>c'. admit pressure p c = Inr (Some c')) \<longleftrightarrow> ac_shared_guards c < max shared_cap 1))"
proof -
  have "permits_ok (max p0_cap 1) (max shared_cap 1) c"
    using permits_steps [OF assms, of "max p0_cap 1" "max shared_cap 1"]
    by (simp add: permits_ok_def new_controller_def)
  then show ?thesis
    by (auto simp: permits_ok_def try_admit_p0_def admit_def)
qed

theorem admission_capacity_witness:
  "admission_step\<^sup>*\<^sup>* (new_controller 1 1) (new_controller 1 1\<lparr>ac_reserved_p0 := 0, ac_p0_guards := 1\<rparr>)
   \<and> \<not> (\<exists>c'. try_admit_p0 (new_controller 1 1\<lparr>ac_reserved_p0 := 0, ac_p0_guards := 1\<rparr>) = Inr c')"
proof -
  let ?c = "new_controller 1 1\<lparr>ac_reserved_p0 := 0, ac_p0_guards := 1\<rparr>"
  have "try_admit_p0 (new_controller 1 1) = Inr ?c"
    by (simp add: try_admit_p0_def new_controller_def)
  then have reach: "admission_step\<^sup>*\<^sup>* (new_controller 1 1) ?c"
    by (blast intro: p0_admitted)
  from admission_capacity [OF this] show ?thesis
    using reach by (simp add: new_controller_def)
qed

text \<open>
  Blocking is monotone: what is blocked at some pressure stays blocked at a higher one and for
  every lower priority, interactive requests are never blocked, and at normal pressure nothing is.
\<close>

theorem admission_monotone:
  "(severity a \<le> severity b \<longrightarrow> p \<le> q \<longrightarrow> admission_blocked a p \<longrightarrow> admission_blocked b q)
   \<and> \<not> admission_blocked a P0 \<and> \<not> admission_blocked Normal p
   \<and> (admission_blocked a p \<longrightarrow> admit a p c = Inl (RejectedByPressure a))"
  by (cases a; cases b; cases p; cases q)
    (simp_all add: admission_blocked_def less_eq_priority_def admit_def)

theorem admission_monotone_witness:
  "admission_blocked Elevated P4 \<and> admission_blocked Critical P4"
  using admission_monotone [of Elevated Critical P4 P4]
  by (simp add: admission_blocked_def)

end
