(* ===== verification/Quota.thy ===== *)
theory Quota
  imports Constraints "HOL-Library.Multiset"
begin

text \<open>
  The AI call quota, \<open>crates/ai-gateway/src/quota.rs\<close>, with its backend
  \<open>crates/resolver/src/ai_quota.rs\<close> on the daily usage table of \<open>storage-sqlite\<close>. \<open>try_consume\<close> is
  the operation as one caller sees it. Its awaits let other calls run in between, so the same
  pieces are also the steps of a transition system over any number of concurrent calls.

  The backend is an interface of the code (the trait \<open>CollectionAiBudget\<close>): the locale
  \<open>ai_budget_backend\<close> states what the quota relies on, and is interpreted on the relational backend.
  Messages are left out of the errors.
\<close>

section \<open>Accounts and limits\<close>

datatype ai_account = CollectionAccount uuid "uuid option" | SystemAccount

datatype ai_gateway_error =
  Transient | Permanent | InvalidResponse | Unsupported | QuotaExceeded | QuotaUnavailable

record ai_budget_limits =
  bl_daily_ai_budget :: int
  bl_max_ai_calls_per_run :: int

record daily_consume =
  dc_allowed :: bool
  dc_used_after :: int

definition DEFAULT_DAILY_AI_BUDGET :: int where
  "DEFAULT_DAILY_AI_BUDGET = 500"

definition DEFAULT_MAX_AI_CALLS_PER_RUN :: int where
  "DEFAULT_MAX_AI_CALLS_PER_RUN = 50"

definition fail_closed_try_consume :: "ai_account \<Rightarrow> ai_gateway_error + unit" where
  "fail_closed_try_consume account =
     (case account of
        SystemAccount \<Rightarrow> Inr ()
      | CollectionAccount _ _ \<Rightarrow> Inl QuotaUnavailable)"

definition limits_or_default :: "ai_budget_limits option \<Rightarrow> ai_budget_limits" where
  "limits_or_default l =
     (case l of
        Some limits \<Rightarrow> limits
      | None \<Rightarrow> \<lparr>bl_daily_ai_budget = DEFAULT_DAILY_AI_BUDGET,
                 bl_max_ai_calls_per_run = DEFAULT_MAX_AI_CALLS_PER_RUN\<rparr>)"

section \<open>The counter per run\<close>

type_synonym run_counts = "uuid \<rightharpoonup> int"

definition run_used :: "run_counts \<Rightarrow> uuid \<Rightarrow> int" where
  "run_used counts run = (case counts run of None \<Rightarrow> 0 | Some n \<Rightarrow> n)"

definition try_reserve_run :: "run_counts \<Rightarrow> uuid \<Rightarrow> int \<Rightarrow> (int + int) \<times> run_counts" where
  "try_reserve_run counts run limit =
     (let used = run_used counts run in
      if limit \<le> used then (Inl used, counts(run \<mapsto> used))
      else (Inr (used + 1), counts(run \<mapsto> used + 1)))"

text \<open>\<open>i32::saturating_sub\<close> stops at the least \<open>i32\<close>.\<close>

definition release_run :: "run_counts \<Rightarrow> uuid \<Rightarrow> run_counts" where
  "release_run counts run =
     (case counts run of
        None \<Rightarrow> counts
      | Some used \<Rightarrow> counts(run \<mapsto> max (used - 1) (- (2 ^ 31))))"

section \<open>One call\<close>

type_synonym 's load_fn = "'s \<Rightarrow> uuid \<Rightarrow> ai_gateway_error + ai_budget_limits option"
type_synonym 's consume_fn =
  "uuid \<Rightarrow> int \<Rightarrow> int \<Rightarrow> int \<Rightarrow> 's \<Rightarrow> (ai_gateway_error + daily_consume) \<times> 's"

definition quota_reserve ::
  "uuid option \<Rightarrow> ai_budget_limits \<Rightarrow> run_counts \<Rightarrow> (ai_gateway_error + unit) \<times> run_counts" where
  "quota_reserve run limits counts =
     (case run of
        None \<Rightarrow> (Inr (), counts)
      | Some r \<Rightarrow>
          (case try_reserve_run counts r (bl_max_ai_calls_per_run limits) of
             (Inl used, counts') \<Rightarrow> (Inl QuotaExceeded, counts')
           | (Inr n, counts') \<Rightarrow> (Inr (), counts')))"

definition quota_release :: "uuid option \<Rightarrow> run_counts \<Rightarrow> run_counts" where
  "quota_release run counts = (case run of None \<Rightarrow> counts | Some r \<Rightarrow> release_run counts r)"

definition try_consume ::
  "'s load_fn \<Rightarrow> 's consume_fn \<Rightarrow> int \<Rightarrow> ai_account \<Rightarrow> run_counts \<times> 's
     \<Rightarrow> (ai_gateway_error + unit) \<times> (run_counts \<times> 's)" where
  "try_consume load consume date account st =
     (case st of (counts, s) \<Rightarrow>
      case account of
        SystemAccount \<Rightarrow> (Inr (), st)
      | CollectionAccount coll run \<Rightarrow>
          (case load s coll of
             Inl e \<Rightarrow> (Inl e, st)
           | Inr l \<Rightarrow>
               let limits = limits_or_default l in
               (case quota_reserve run limits counts of
                  (Inl e, counts') \<Rightarrow> (Inl e, (counts', s))
                | (Inr _, counts') \<Rightarrow>
                    (case consume coll date 1 (bl_daily_ai_budget limits) s of
                       (Inl e, s') \<Rightarrow> (Inl e, (quota_release run counts', s'))
                     | (Inr c, s') \<Rightarrow>
                         if dc_allowed c then (Inr (), (counts', s'))
                         else (Inl QuotaExceeded, (quota_release run counts', s'))))))"

section \<open>The relational backend\<close>

record collection_budget =
  cb_collection_id :: uuid
  cb_max_candidates_per_run :: int
  cb_max_requests_per_run :: int
  cb_max_ai_calls_per_run :: int
  cb_max_depth :: int
  cb_daily_request_budget :: int
  cb_daily_ai_budget :: int
  cb_created_at :: time
  cb_updated_at :: time

definition conservative_default :: "uuid \<Rightarrow> time \<Rightarrow> collection_budget" where
  "conservative_default coll now = \<lparr>cb_collection_id = coll, cb_max_candidates_per_run = 200,
     cb_max_requests_per_run = 500, cb_max_ai_calls_per_run = 50, cb_max_depth = 3,
     cb_daily_request_budget = 5000, cb_daily_ai_budget = 500, cb_created_at = now,
     cb_updated_at = now\<rparr>"

text \<open>The tables behind it; \<open>us_fault\<close> is the error every statement meets when the database is
  not reachable.\<close>

record daily_usage =
  du_requests_used :: int
  du_ai_calls_used :: int

record usage_store =
  us_collections :: "uuid list"
  us_budgets :: "collection_budget tbl"
  us_usage :: "(uuid \<times> int) \<rightharpoonup> daily_usage"
  us_fault :: "storage_error option"

datatype usage_column = RequestsUsed | AiCallsUsed

fun usage_get :: "usage_column \<Rightarrow> daily_usage \<Rightarrow> int" where
  "usage_get RequestsUsed u = du_requests_used u"
| "usage_get AiCallsUsed u = du_ai_calls_used u"

fun usage_set :: "usage_column \<Rightarrow> int \<Rightarrow> daily_usage \<Rightarrow> daily_usage" where
  "usage_set RequestsUsed n u = u\<lparr>du_requests_used := n\<rparr>"
| "usage_set AiCallsUsed n u = u\<lparr>du_ai_calls_used := n\<rparr>"

definition get_daily_usage :: "usage_store \<Rightarrow> uuid \<Rightarrow> int \<Rightarrow> daily_usage" where
  "get_daily_usage s coll date =
     (case us_usage s (coll, date) of
        None \<Rightarrow> \<lparr>du_requests_used = 0, du_ai_calls_used = 0\<rparr>
      | Some u \<Rightarrow> u)"

definition try_consume_daily_usage ::
  "uuid \<Rightarrow> int \<Rightarrow> int \<Rightarrow> int \<Rightarrow> usage_column \<Rightarrow> usage_store
     \<Rightarrow> (storage_error + (bool \<times> int)) \<times> usage_store" where
  "try_consume_daily_usage coll date n budget column s =
     (case us_fault s of
        Some e \<Rightarrow> (Inl e, s)
      | None \<Rightarrow>
          if coll \<notin> set (us_collections s) then (Inl ConstraintViolation, s)
          else
            let row = get_daily_usage s coll date; used = usage_get column row in
            if used + n \<le> budget
            then (Inr (True, used + n),
                  s\<lparr>us_usage := (us_usage s)((coll, date) \<mapsto> usage_set column (used + n) row)\<rparr>)
            else (Inr (False, used), s\<lparr>us_usage := (us_usage s)((coll, date) \<mapsto> row)\<rparr>))"

definition get_collection_budget :: "usage_store \<Rightarrow> uuid \<Rightarrow> storage_error + collection_budget option" where
  "get_collection_budget s coll =
     (case us_fault s of Some e \<Rightarrow> Inl e | None \<Rightarrow> Inr (tbl_get (us_budgets s) coll))"

definition map_store_error :: "storage_error \<Rightarrow> ai_gateway_error" where
  "map_store_error e = QuotaUnavailable"

text \<open>The clock of \<open>load_limits\<close> only reaches fields that are dropped.\<close>

definition load_limits :: "usage_store load_fn" where
  "load_limits s coll =
     (case get_collection_budget s coll of
        Inl e \<Rightarrow> Inl (map_store_error e)
      | Inr b \<Rightarrow>
          (let budget = (case b of Some budget \<Rightarrow> budget | None \<Rightarrow> conservative_default coll 0) in
           Inr (Some \<lparr>bl_daily_ai_budget = cb_daily_ai_budget budget,
                      bl_max_ai_calls_per_run = cb_max_ai_calls_per_run budget\<rparr>)))"

definition try_consume_daily :: "usage_store consume_fn" where
  "try_consume_daily coll date n budget s =
     (case try_consume_daily_usage coll date n budget AiCallsUsed s of
        (Inl e, s') \<Rightarrow> (Inl (map_store_error e), s')
      | (Inr (allowed, used), s') \<Rightarrow> (Inr \<lparr>dc_allowed = allowed, dc_used_after = used\<rparr>, s'))"

section \<open>Concurrent calls\<close>

text \<open>
  The points at which a call of \<open>try_consume\<close> can be suspended: its limits are loaded, its run
  counter is reserved, its reservation has to be given back.
\<close>

datatype quota_call =
    Loaded uuid "uuid option" ai_budget_limits
  | Reserved uuid "uuid option" ai_budget_limits
  | Releasing "uuid option"

record 's quota_system =
  qs_counts :: run_counts
  qs_backend :: 's
  qs_calls :: "quota_call multiset"
  qs_admitted :: "(uuid \<times> uuid option \<times> int) multiset"

inductive quota_step ::
  "'s load_fn \<Rightarrow> 's consume_fn \<Rightarrow> 's quota_system \<Rightarrow> 's quota_system \<Rightarrow> bool"
  for load :: "'s load_fn" and consume :: "'s consume_fn" where
  call_loaded: "load (qs_backend q) coll = Inr l \<Longrightarrow>
     quota_step load consume q
       (q\<lparr>qs_calls := add_mset (Loaded coll run (limits_or_default l)) (qs_calls q)\<rparr>)"
| call_reserved: "qs_calls q = add_mset (Loaded coll run limits) calls \<Longrightarrow>
     quota_reserve run limits (qs_counts q) = (Inr (), counts) \<Longrightarrow>
     quota_step load consume q
       (q\<lparr>qs_counts := counts, qs_calls := add_mset (Reserved coll run limits) calls\<rparr>)"
| call_run_full: "qs_calls q = add_mset (Loaded coll run limits) calls \<Longrightarrow>
     quota_reserve run limits (qs_counts q) = (Inl e, counts) \<Longrightarrow>
     quota_step load consume q (q\<lparr>qs_counts := counts, qs_calls := calls\<rparr>)"
| call_admitted: "qs_calls q = add_mset (Reserved coll run limits) calls \<Longrightarrow>
     consume coll date 1 (bl_daily_ai_budget limits) (qs_backend q) = (Inr c, s) \<Longrightarrow> dc_allowed c \<Longrightarrow>
     quota_step load consume q (q\<lparr>qs_backend := s, qs_calls := calls,
       qs_admitted := add_mset (coll, run, date) (qs_admitted q)\<rparr>)"
| call_denied: "qs_calls q = add_mset (Reserved coll run limits) calls \<Longrightarrow>
     consume coll date 1 (bl_daily_ai_budget limits) (qs_backend q) = (Inr c, s) \<Longrightarrow> \<not> dc_allowed c \<Longrightarrow>
     quota_step load consume q (q\<lparr>qs_backend := s, qs_calls := add_mset (Releasing run) calls\<rparr>)"
| call_failed: "qs_calls q = add_mset (Reserved coll run limits) calls \<Longrightarrow>
     consume coll date 1 (bl_daily_ai_budget limits) (qs_backend q) = (Inl e, s) \<Longrightarrow>
     quota_step load consume q (q\<lparr>qs_backend := s, qs_calls := add_mset (Releasing run) calls\<rparr>)"
| call_released: "qs_calls q = add_mset (Releasing run) calls \<Longrightarrow>
     quota_step load consume q (q\<lparr>qs_counts := quota_release run (qs_counts q), qs_calls := calls\<rparr>)"

definition new_quota :: "'s \<Rightarrow> 's quota_system" where
  "new_quota s = \<lparr>qs_counts = Map.empty, qs_backend = s, qs_calls = {#}, qs_admitted = {#}\<rparr>"

section \<open>Counting\<close>

fun holds :: "uuid \<Rightarrow> quota_call \<Rightarrow> bool" where
  "holds r (Loaded _ _ _) = False"
| "holds r (Reserved _ run _) = (run = Some r)"
| "holds r (Releasing run) = (run = Some r)"

definition holding :: "uuid \<Rightarrow> quota_call multiset \<Rightarrow> int" where
  "holding r calls = int (size (filter_mset (holds r) calls))"

definition admitted_run :: "uuid \<Rightarrow> (uuid \<times> uuid option \<times> int) multiset \<Rightarrow> int" where
  "admitted_run r adm = int (size (filter_mset (\<lambda>(c, run, d). run = Some r) adm))"

definition admitted_day :: "uuid \<Rightarrow> int \<Rightarrow> (uuid \<times> uuid option \<times> int) multiset \<Rightarrow> int" where
  "admitted_day coll date adm = int (size (filter_mset (\<lambda>(c, run, d). c = coll \<and> d = date) adm))"

lemma holding_add [simp]:
  "holding r (add_mset x calls) = holding r calls + (if holds r x then 1 else 0)"
  by (simp add: holding_def)

lemma admitted_add [simp]:
  "admitted_run r (add_mset (c, run, d) adm) = admitted_run r adm + (if run = Some r then 1 else 0)"
  "admitted_day coll date (add_mset (c, run, d) adm)
     = admitted_day coll date adm + (if c = coll \<and> d = date then 1 else 0)"
  by (simp_all add: admitted_run_def admitted_day_def)

lemma counts_nonneg [simp]:
  "0 \<le> holding r calls" "0 \<le> admitted_run r adm" "0 \<le> admitted_day coll date adm"
  by (simp_all add: holding_def admitted_run_def admitted_day_def)

lemma reserve_ok:
  "quota_reserve run limits counts = (Inr (), counts') \<Longrightarrow>
     run_used counts' r = run_used counts r + (if run = Some r then 1 else 0)
     \<and> (run = Some r \<longrightarrow> run_used counts r < bl_max_ai_calls_per_run limits)"
  by (auto simp: quota_reserve_def try_reserve_run_def Let_def run_used_def
      split: option.splits if_splits)

lemma reserve_full:
  "quota_reserve run limits counts = (Inl e, counts') \<Longrightarrow> run_used counts' r = run_used counts r"
  by (auto simp: quota_reserve_def try_reserve_run_def Let_def run_used_def
      split: option.splits if_splits)

lemma release_used:
  "run \<noteq> Some r \<or> 1 \<le> run_used counts r \<Longrightarrow>
     run_used (quota_release run counts) r = run_used counts r - (if run = Some r then 1 else 0)"
  by (auto simp: quota_release_def release_run_def run_used_def split: option.splits)

section \<open>The backend's contract\<close>

locale ai_budget_backend =
  fixes load :: "'s load_fn"
    and consume :: "'s consume_fn"
    and used :: "'s \<Rightarrow> uuid \<Rightarrow> int \<Rightarrow> int"
  assumes consume_allowed:
      "consume c d n b s = (Inr r, s') \<Longrightarrow> dc_allowed r \<Longrightarrow>
         used s c d + n \<le> b \<and>
         used s' c' d' = used s c' d' + (if c' = c \<and> d' = d then n else 0)"
    and consume_denied: "consume c d n b s = (Inr r, s') \<Longrightarrow> \<not> dc_allowed r \<Longrightarrow> used s' = used s"
    and consume_failed: "consume c d n b s = (Inl e, s') \<Longrightarrow> used s' = used s"
    and consume_limits: "consume c d n b s = (res, s') \<Longrightarrow> load s' = load s"
begin

definition granted :: "'s \<Rightarrow> uuid \<Rightarrow> ai_budget_limits \<Rightarrow> bool" where
  "granted s coll limits \<longleftrightarrow> (\<exists>l. load s coll = Inr l \<and> limits = limits_or_default l)"

fun call_ok :: "'s \<Rightarrow> quota_call \<Rightarrow> bool" where
  "call_ok s (Loaded coll run limits) = granted s coll limits"
| "call_ok s (Reserved coll run limits) = granted s coll limits"
| "call_ok s (Releasing run) = True"

definition quota_inv :: "'s \<Rightarrow> int \<Rightarrow> 's quota_system \<Rightarrow> bool" where
  "quota_inv s0 M q \<longleftrightarrow>
     load (qs_backend q) = load s0 \<and>
     (\<forall>x \<in># qs_calls q. call_ok s0 x) \<and>
     (\<forall>r. run_used (qs_counts q) r = holding r (qs_calls q) + admitted_run r (qs_admitted q)) \<and>
     (\<forall>r. run_used (qs_counts q) r \<le> M) \<and>
     (\<forall>c d. used (qs_backend q) c d = used s0 c d + admitted_day c d (qs_admitted q)) \<and>
     (\<forall>c d. 0 < admitted_day c d (qs_admitted q) \<longrightarrow>
        (\<exists>limits. granted s0 c limits \<and> used (qs_backend q) c d \<le> bl_daily_ai_budget limits))"

lemma quota_inv_new: "0 \<le> M \<Longrightarrow> quota_inv s0 M (new_quota s0)"
  by (simp add: quota_inv_def new_quota_def run_used_def holding_def admitted_run_def admitted_day_def)

lemma granted_unique: "granted s c l \<Longrightarrow> granted s c l' \<Longrightarrow> l = l'"
  by (auto simp: granted_def)

lemma quota_inv_refused:
  assumes "qs_calls q = add_mset (Reserved coll run limits) calls" "quota_inv s0 M q"
    and "used s = used (qs_backend q)" "load s = load (qs_backend q)"
  shows "quota_inv s0 M (q\<lparr>qs_backend := s, qs_calls := add_mset (Releasing run) calls\<rparr>)"
proof -
  have "run_used (qs_counts q) r = holding r (add_mset (Releasing run) calls) + admitted_run r (qs_admitted q)"
    for r using assms(1,2) by (simp add: quota_inv_def)
  moreover have "\<forall>r. run_used (qs_counts q) r \<le> M"
    using assms(2) unfolding quota_inv_def by blast
  moreover have "\<forall>c d. used s c d = used s0 c d + admitted_day c d (qs_admitted q)"
    "\<forall>c d. 0 < admitted_day c d (qs_admitted q) \<longrightarrow>
        (\<exists>limits. granted s0 c limits \<and> used s c d \<le> bl_daily_ai_budget limits)"
    using assms(2) unfolding quota_inv_def assms(3) by blast+
  moreover have "load s = load s0" "\<forall>x \<in># calls. call_ok s0 x"
    using assms(1,2,4) by (simp_all add: quota_inv_def)
  ultimately show ?thesis unfolding quota_inv_def by simp
qed

lemma quota_inv_step:
  assumes "quota_step load consume q q'" "quota_inv s0 M q"
    and M: "\<And>c limits. granted s0 c limits \<Longrightarrow> bl_max_ai_calls_per_run limits \<le> M"
  shows "quota_inv s0 M q'"
  using assms(1,2)
proof (induction rule: quota_step.induct)
  case (call_loaded q coll l run)
  then show ?case by (auto simp: quota_inv_def granted_def)
next
  case (call_reserved q coll run limits calls counts)
  have g: "granted s0 coll limits" using call_reserved by (auto simp: quota_inv_def)
  have "run_used counts r \<le> M" for r
    using reserve_ok [OF call_reserved(2), of r] M [OF g] call_reserved(3)
    by (cases "run = Some r") (auto simp: quota_inv_def)
  with call_reserved reserve_ok [OF call_reserved(2)] show ?case
    by (auto simp: quota_inv_def)
next
  case (call_run_full q coll run limits calls e counts)
  then show ?case using reserve_full [OF call_run_full(2)] by (auto simp: quota_inv_def)
next
  case (call_admitted q coll run limits calls date c s)
  have g: "granted s0 coll limits" using call_admitted by (auto simp: quota_inv_def)
  note u = consume_allowed [OF call_admitted(2,3)] and l = consume_limits [OF call_admitted(2)]
  have "\<exists>limits. granted s0 c' limits \<and> used s c' d' \<le> bl_daily_ai_budget limits"
    if "0 < admitted_day c' d' (add_mset (coll, run, date) (qs_admitted q))" for c' d'
  proof (cases "c' = coll \<and> d' = date")
    case True
    then show ?thesis using g u [of c' d'] by auto
  next
    case False
    then show ?thesis using that call_admitted(4) u [of c' d'] by (auto simp: quota_inv_def)
  qed
  moreover have "run_used (qs_counts q) r = holding r calls
      + admitted_run r (add_mset (coll, run, date) (qs_admitted q))" for r
    using call_admitted(1,4) by (simp add: quota_inv_def)
  moreover have "\<forall>r. run_used (qs_counts q) r \<le> M"
    using call_admitted(4) unfolding quota_inv_def by blast
  moreover have "used s c' d' = used s0 c' d' + admitted_day c' d' (add_mset (coll, run, date) (qs_admitted q))"
    for c' d'
    using call_admitted(4) u [of c' d'] by (auto simp: quota_inv_def)
  moreover have "load s = load s0" "\<forall>x \<in># calls. call_ok s0 x"
    using call_admitted(1,4) l by (simp_all add: quota_inv_def)
  ultimately show ?case unfolding quota_inv_def by simp
next
  case (call_denied q coll run limits calls date c s)
  then show ?case
    using consume_denied [OF call_denied(2,3)] consume_limits [OF call_denied(2)]
    by (auto intro: quota_inv_refused)
next
  case (call_failed q coll run limits calls date e s)
  then show ?case
    using consume_failed [OF call_failed(2)] consume_limits [OF call_failed(2)]
    by (auto intro: quota_inv_refused)
next
  case (call_released q run calls)
  have eq: "run_used (qs_counts q) r
      = holding r calls + (if run = Some r then 1 else 0) + admitted_run r (qs_admitted q)" for r
    using call_released by (simp add: quota_inv_def)
  have rel: "run_used (quota_release run (qs_counts q)) r
      = run_used (qs_counts q) r - (if run = Some r then 1 else 0)" for r
    by (rule release_used) (use eq [of r] in auto)
  have most: "run_used (qs_counts q) r \<le> M" for r
    using call_released unfolding quota_inv_def by blast
  have "run_used (quota_release run (qs_counts q)) r \<le> M" for r
    using rel [of r] most [of r] by (cases "run = Some r") simp_all
  moreover have "run_used (quota_release run (qs_counts q)) r
      = holding r calls + admitted_run r (qs_admitted q)" for r
    using rel [of r] eq [of r] by simp
  ultimately show ?case using call_released by (auto simp: quota_inv_def)
qed

lemma quota_reachable:
  assumes "(quota_step load consume)\<^sup>*\<^sup>* (new_quota s0) q" "0 \<le> M"
    and "\<And>c limits. granted s0 c limits \<Longrightarrow> bl_max_ai_calls_per_run limits \<le> M"
  shows "quota_inv s0 M q"
  using assms(1) by (induction rule: rtranclp_induct)
    (auto intro: quota_inv_new quota_inv_step assms(2,3))

end

definition ai_used :: "usage_store \<Rightarrow> uuid \<Rightarrow> int \<Rightarrow> int" where
  "ai_used s coll date = du_ai_calls_used (get_daily_usage s coll date)"

interpretation relational: ai_budget_backend load_limits try_consume_daily ai_used
proof unfold_locales
  fix c d n b s r s' c' d'
  show "try_consume_daily c d n b s = (Inr r, s') \<Longrightarrow> dc_allowed r \<Longrightarrow>
      ai_used s c d + n \<le> b \<and> ai_used s' c' d' = ai_used s c' d' + (if c' = c \<and> d' = d then n else 0)"
    by (auto simp: try_consume_daily_def try_consume_daily_usage_def Let_def ai_used_def
        get_daily_usage_def split: option.splits if_splits)
next
  fix c d n b s r s'
  show "try_consume_daily c d n b s = (Inr r, s') \<Longrightarrow> \<not> dc_allowed r \<Longrightarrow> ai_used s' = ai_used s"
    by (auto simp: try_consume_daily_def try_consume_daily_usage_def Let_def ai_used_def fun_eq_iff
        get_daily_usage_def split: option.splits if_splits)
next
  fix c d n b s e s'
  show "try_consume_daily c d n b s = (Inl e, s') \<Longrightarrow> ai_used s' = ai_used s"
    by (auto simp: try_consume_daily_def try_consume_daily_usage_def Let_def
        split: option.splits if_splits)
next
  fix c d n b s r s'
  show "try_consume_daily c d n b s = (r, s') \<Longrightarrow> load_limits s' = load_limits s"
    by (auto simp: try_consume_daily_def try_consume_daily_usage_def Let_def fun_eq_iff
        load_limits_def get_collection_budget_def split: option.splits if_splits)
qed

section \<open>Properties\<close>


definition sample_usage :: usage_store where
  "sample_usage = \<lparr>us_collections = [4], us_budgets = [], us_usage = Map.empty, us_fault = None\<rparr>"


text \<open>
  What one call does. A system account is never charged. A collection's call is admitted
  exactly when the database answers, the collection exists, the run has calls left and the day's
  budget has one left; then both counters go up by one. Otherwise the call is refused, with both
  counters as they were, and a database fault refuses it without looking at the budget.
\<close>

theorem try_consume_effect:
  assumes "\<forall>r. 0 \<le> run_used counts r" "load_limits (s\<lparr>us_fault := None\<rparr>) coll = Inr l"
  shows "(let (res, counts', s') = try_consume load_limits try_consume_daily date
             (CollectionAccount coll run) (counts, s);
             limits = limits_or_default l;
             ok = (us_fault s = None \<and> coll \<in> set (us_collections s)
               \<and> (\<forall>r. run = Some r \<longrightarrow> run_used counts r < bl_max_ai_calls_per_run limits)
               \<and> ai_used s coll date < bl_daily_ai_budget limits)
         in (res = Inr () \<longleftrightarrow> ok)
           \<and> (\<forall>r. run_used counts' r = run_used counts r + (if ok \<and> run = Some r then 1 else 0))
           \<and> (\<forall>c d. ai_used s' c d = ai_used s c d + (if ok \<and> c = coll \<and> d = date then 1 else 0))
           \<and> (us_fault s \<noteq> None \<longrightarrow> res = Inl QuotaUnavailable)
           \<and> try_consume load_limits try_consume_daily date SystemAccount (counts, s) = (Inr (), counts, s))"
proof (cases "us_fault s")
  case (Some e)
  then have "load_limits s coll = Inl QuotaUnavailable"
    by (simp add: load_limits_def get_collection_budget_def map_store_error_def)
  with Some show ?thesis by (simp add: try_consume_def Let_def)
next
  case None
  then have "s\<lparr>us_fault := None\<rparr> = s" by simp
  with assms(2) have load: "load_limits s coll = Inr l" by simp
  let ?lim = "limits_or_default l"
  show ?thesis
  proof (cases "quota_reserve run ?lim counts")
    case (Pair r counts1)
    show ?thesis
    proof (cases r)
      case (Inl e)
      with Pair have res: "quota_reserve run ?lim counts = (Inl e, counts1)" by simp
      then obtain x where "run = Some x" "bl_max_ai_calls_per_run ?lim \<le> run_used counts x" "e = QuotaExceeded"
        by (auto simp: quota_reserve_def try_reserve_run_def Let_def split: option.splits if_splits)
      moreover have "run_used counts1 r = run_used counts r" for r by (rule reserve_full [OF res])
      ultimately show ?thesis using load res None by (auto simp: try_consume_def Let_def)
    next
      case (Inr u)
      with Pair have res: "quota_reserve run ?lim counts = (Inr (), counts1)" by simp
      note up = reserve_ok [OF res]
      have undone: "run_used (quota_release run counts1) r = run_used counts r" for r
        using release_used [of run r counts1] up [of r] assms(1) [rule_format, of r] by auto
      show ?thesis
        using load res None up undone
        by (auto simp: try_consume_def Let_def try_consume_daily_def try_consume_daily_usage_def
            ai_used_def get_daily_usage_def map_store_error_def split: option.splits)
    qed
  qed
qed

theorem try_consume_effect_witness:
  "fst (try_consume load_limits try_consume_daily 3 (CollectionAccount 4 (Some 9)) (Map.empty, sample_usage))
    = Inr ()"
proof -
  let ?l = "Some \<lparr>bl_daily_ai_budget = 500, bl_max_ai_calls_per_run = 50\<rparr>"
  have load: "load_limits (sample_usage\<lparr>us_fault := None\<rparr>) 4 = Inr ?l"
    by (simp add: load_limits_def get_collection_budget_def sample_usage_def conservative_default_def
        tbl_get_def)
  have "ai_used sample_usage 4 3 = 0" "us_fault sample_usage = None" "4 \<in> set (us_collections sample_usage)"
    by (simp_all add: ai_used_def get_daily_usage_def sample_usage_def)
  with try_consume_effect [OF _ load, of Map.empty 3 "Some 9"] show ?thesis
    by (auto simp: Let_def run_used_def limits_or_default_def split: prod.splits)
qed

end
