(* ===== verification/Connectors.thy ===== *)
theory Connectors
  imports Store
begin

text \<open>
  The store's operations on sources, network rules, connectors, collections and raw evidence, as
  the SQL of \<open>storage-postgres/src/store.rs\<close> and \<open>storage-sqlite/src/store.rs\<close> has them, and the partial update
  of a connector's run state: the collector writes \<open>status\<close>, \<open>last_run\<close>, \<open>last_success\<close>,
  \<open>error_count\<close> and \<open>checkpoint\<close> through it, while \<open>enabled\<close>, \<open>schedule\<close> and \<open>configuration\<close> belong to
  the operator. The two adapters merge a checkpoint with different JSON functions; both are
  written out and compared with the reference implementation of the trait.
\<close>

section \<open>Sources and network rules\<close>

definition put_source :: "source \<Rightarrow> db \<Rightarrow> storage_error + db" where
  "put_source s d = Inr (d\<lparr>db_sources := tbl_put (so_id s) s (db_sources d)\<rparr>)"

definition get_source :: "db \<Rightarrow> uuid \<Rightarrow> source option" where
  "get_source d i = tbl_get (db_sources d) i"

definition list_sources :: "db \<Rightarrow> uuid option \<Rightarrow> nat \<Rightarrow> source list" where
  "list_sources d after limit =
     take (clamp_limit limit) (rev (tbl_select (\<lambda>s. after_cursor after (so_id s)) (db_sources d)))"

text \<open>
  Deleting a source: connectors, raw evidence, aliases and identifiers refer to it without a
  cascade, the links to collections and the network rules go with it.
\<close>

definition source_referenced :: "db \<Rightarrow> uuid \<Rightarrow> bool" where
  "source_referenced d i \<longleftrightarrow>
     (\<exists>c \<in> set (map snd (db_connectors d)). cn_source_id c = i) \<or>
     (\<exists>r \<in> set (map snd (db_raw_evidence d)). rv_source_id r = i) \<or>
     (\<exists>a \<in> set (map snd (db_entity_aliases d)). ea_source_id a = Some i) \<or>
     (\<exists>x \<in> set (map snd (db_entity_identifiers d)). ei_source_id x = Some i)"

definition delete_source :: "uuid \<Rightarrow> db \<Rightarrow> storage_error + (bool \<times> db)" where
  "delete_source i d =
     (if get_source d i = None then Inr (False, d)
      else if source_referenced d i then Inl ConstraintViolation
      else Inr (True, d\<lparr>db_sources := tbl_del i (db_sources d),
             db_network_rules := tbl_delete_where (\<lambda>r. nr_source_id r = i) (db_network_rules d),
             db_collection_sources := filter (\<lambda>(c, s). s \<noteq> i) (db_collection_sources d)\<rparr>))"

definition put_network_rule :: "network_rule \<Rightarrow> db \<Rightarrow> storage_error + db" where
  "put_network_rule r d =
     (if nr_source_id r \<notin> set (db_source_keys d) then Inl ConstraintViolation
      else Inr (d\<lparr>db_network_rules := tbl_put (nr_id r) r (db_network_rules d)\<rparr>))"

definition list_network_rules :: "db \<Rightarrow> uuid \<Rightarrow> network_rule list" where
  "list_network_rules d i =
     sort_key nr_created_at (tbl_select (\<lambda>r. nr_source_id r = i) (db_network_rules d))"

section \<open>Connectors\<close>

definition put_connector :: "connector \<Rightarrow> db \<Rightarrow> storage_error + db" where
  "put_connector c d =
     (if cn_source_id c \<notin> set (db_source_keys d) then Inl ConstraintViolation
      else Inr (d\<lparr>db_connectors := tbl_put (cn_id c) c (db_connectors d)\<rparr>))"

definition get_connector :: "db \<Rightarrow> uuid \<Rightarrow> connector option" where
  "get_connector d i = tbl_get (db_connectors d) i"

definition delete_connector :: "uuid \<Rightarrow> db \<Rightarrow> storage_error + (bool \<times> db)" where
  "delete_connector i d =
     (if get_connector d i = None then Inr (False, d)
      else if \<exists>r \<in> set (map snd (db_raw_evidence d)). rv_connector_id r = i then Inl ConstraintViolation
      else Inr (True, d\<lparr>db_connectors := tbl_del i (db_connectors d),
             db_collection_connectors := filter (\<lambda>(c, k). k \<noteq> i) (db_collection_connectors d)\<rparr>))"

definition list_enabled_connectors :: "db \<Rightarrow> connector list" where
  "list_enabled_connectors d = tbl_select cn_enabled (db_connectors d)"

definition list_connectors_by_enabled :: "db \<Rightarrow> bool option \<Rightarrow> uuid option \<Rightarrow> nat \<Rightarrow> connector list" where
  "list_connectors_by_enabled d enabled after limit =
     take (clamp_limit limit)
       (rev (tbl_select (\<lambda>c. after_cursor after (cn_id c) \<and> (enabled = None \<or> enabled = Some (cn_enabled c)))
          (db_connectors d)))"

definition list_connectors :: "db \<Rightarrow> uuid option \<Rightarrow> nat \<Rightarrow> connector list" where
  "list_connectors d after limit =
     take (clamp_limit limit) (rev (tbl_select (\<lambda>c. after_cursor after (cn_id c)) (db_connectors d)))"

section \<open>Collections and raw evidence\<close>

definition linked_ids :: "(uuid \<times> uuid) list \<Rightarrow> uuid \<Rightarrow> nat \<Rightarrow> uuid list" where
  "linked_ids links i limit = take (clamp_limit limit) (sort (map fst (filter (\<lambda>(c, x). x = i) links)))"

definition list_collections_by_source :: "db \<Rightarrow> uuid \<Rightarrow> nat \<Rightarrow> uuid list" where
  "list_collections_by_source d i limit = linked_ids (db_collection_sources d) i limit"

definition list_collections_by_connector :: "db \<Rightarrow> uuid \<Rightarrow> nat \<Rightarrow> uuid list" where
  "list_collections_by_connector d i limit = linked_ids (db_collection_connectors d) i limit"

definition get_raw_evidence :: "db \<Rightarrow> uuid \<Rightarrow> raw_evidence option" where
  "get_raw_evidence d i = tbl_get (db_raw_evidence d) i"

text \<open>
  The evidence row and its links are one transaction: an unknown collection leaves neither.
  \<open>ON CONFLICT DO NOTHING\<close> keeps one link per pair.
\<close>

definition add_link :: "uuid \<times> uuid \<Rightarrow> (uuid \<times> uuid) list \<Rightarrow> (uuid \<times> uuid) list" where
  "add_link p links = (if p \<in> set links then links else links @ [p])"

definition insert_raw_evidence :: "raw_evidence \<Rightarrow> uuid list \<Rightarrow> db \<Rightarrow> storage_error + db" where
  "insert_raw_evidence r collection_ids d =
     (if rv_id r \<in> set (db_raw_evidence_keys d) then Inl Conflict
      else if rv_source_id r \<notin> set (db_source_keys d)
         \<or> rv_connector_id r \<notin> set (map fst (db_connectors d)) then Inl ConstraintViolation
      else if \<not> set collection_ids \<subseteq> set (db_collection_keys d) then Inl ConstraintViolation
      else Inr (d\<lparr>db_raw_evidence := tbl_put (rv_id r) r (db_raw_evidence d),
             db_raw_evidence_collections :=
               fold (\<lambda>c. add_link (c, rv_id r)) collection_ids (db_raw_evidence_collections d)\<rparr>))"

section \<open>The partial update of the run state\<close>

datatype checkpoint_update = CpUnchanged | CpReplace json | CpMerge json

record run_state_update =
  ru_status :: "string option"
  ru_last_run :: "time option"
  ru_last_success :: "time option"
  ru_error_count :: "int option"
  ru_checkpoint :: checkpoint_update

definition no_update :: run_state_update where
  "no_update = \<lparr>ru_status = None, ru_last_run = None, ru_last_success = None, ru_error_count = None,
     ru_checkpoint = CpUnchanged\<rparr>"

definition validate_run_state :: "run_state_update \<Rightarrow> storage_error + unit" where
  "validate_run_state u =
     (case ru_checkpoint u of
        CpUnchanged \<Rightarrow> Inr ()
      | CpReplace v \<Rightarrow> rguard (as_object v \<noteq> None) ConstraintViolation
      | CpMerge v \<Rightarrow> rguard (as_object v \<noteq> None) ConstraintViolation)"

definition merge_json_objects :: "json \<Rightarrow> json \<Rightarrow> json" where
  "merge_json_objects base patch =
     (let out = (case as_object base of Some kvs \<Rightarrow> kvs | None \<Rightarrow> [])
      in JObject (case as_object patch of Some p \<Rightarrow> object_extend out p | None \<Rightarrow> out))"

definition apply_to :: "run_state_update \<Rightarrow> connector \<Rightarrow> connector" where
  "apply_to u c =
     (let c = (case ru_status u of Some x \<Rightarrow> c\<lparr>cn_status := x\<rparr> | None \<Rightarrow> c);
          c = (case ru_last_run u of Some x \<Rightarrow> c\<lparr>cn_last_run := Some x\<rparr> | None \<Rightarrow> c);
          c = (case ru_last_success u of Some x \<Rightarrow> c\<lparr>cn_last_success := Some x\<rparr> | None \<Rightarrow> c);
          c = (case ru_error_count u of Some x \<Rightarrow> c\<lparr>cn_error_count := x\<rparr> | None \<Rightarrow> c)
      in case ru_checkpoint u of
           CpUnchanged \<Rightarrow> c
         | CpReplace v \<Rightarrow> c\<lparr>cn_checkpoint := v\<rparr>
         | CpMerge p \<Rightarrow> c\<lparr>cn_checkpoint := merge_json_objects (cn_checkpoint c) p\<rparr>)"

text \<open>The reference implementation of the trait: read, change, write back.\<close>

definition default_update_run_state :: "uuid \<Rightarrow> run_state_update \<Rightarrow> db \<Rightarrow> storage_error + (bool \<times> db)" where
  "default_update_run_state i u d =
     rbind (validate_run_state u) (\<lambda>_.
       case get_connector d i of
         None \<Rightarrow> Inr (False, d)
       | Some c \<Rightarrow> rbind (put_connector (apply_to u c) d) (\<lambda>d'. Inr (True, d')))"

text \<open>
  The statement of the adapters: \<open>UPDATE connectors SET ... WHERE id = $1\<close>, with the adapter's
  merge of the checkpoint.
\<close>

definition coalesce :: "'a option \<Rightarrow> 'a \<Rightarrow> 'a" where
  "coalesce new old = (case new of Some x \<Rightarrow> x | None \<Rightarrow> old)"

definition sql_run_state :: "(json \<Rightarrow> json \<Rightarrow> json) \<Rightarrow> run_state_update \<Rightarrow> connector \<Rightarrow> connector" where
  "sql_run_state merge u c =
     c\<lparr>cn_status := coalesce (ru_status u) (cn_status c),
       cn_last_run := (case ru_last_run u of Some x \<Rightarrow> Some x | None \<Rightarrow> cn_last_run c),
       cn_last_success := (case ru_last_success u of Some x \<Rightarrow> Some x | None \<Rightarrow> cn_last_success c),
       cn_error_count := coalesce (ru_error_count u) (cn_error_count c),
       cn_checkpoint := (case ru_checkpoint u of
            CpUnchanged \<Rightarrow> cn_checkpoint c
          | CpReplace v \<Rightarrow> v
          | CpMerge p \<Rightarrow> merge (cn_checkpoint c) p)\<rparr>"

definition sql_update_run_state ::
  "(json \<Rightarrow> json \<Rightarrow> json) \<Rightarrow> uuid \<Rightarrow> run_state_update \<Rightarrow> db \<Rightarrow> storage_error + (bool \<times> db)" where
  "sql_update_run_state merge i u d =
     rbind (validate_run_state u) (\<lambda>_.
       Inr (case get_connector d i of
              None \<Rightarrow> (False, d)
            | Some c \<Rightarrow> (True, d\<lparr>db_connectors := tbl_put i (sql_run_state merge u c) (db_connectors d)\<rparr>)))"

text \<open>PostgreSQL: \<open>checkpoint || $7\<close> on objects, the patch itself otherwise.\<close>

definition jsonb_concat :: "json \<Rightarrow> json \<Rightarrow> json" where
  "jsonb_concat base patch =
     (case (as_object base, as_object patch) of
        (Some kvs, Some p) \<Rightarrow> JObject (object_extend kvs p)
      | _ \<Rightarrow> patch)"

definition update_connector_run_state :: "uuid \<Rightarrow> run_state_update \<Rightarrow> db \<Rightarrow> storage_error + (bool \<times> db)" where
  "update_connector_run_state = sql_update_run_state jsonb_concat"

text \<open>SQLite: \<open>json_patch\<close>, the merge patch of RFC 7396, which removes the keys set to null.\<close>

definition object_remove :: "string \<Rightarrow> (string \<times> json) list \<Rightarrow> (string \<times> json) list" where
  "object_remove k kvs = filter (\<lambda>(k', v). k' \<noteq> k) kvs"

definition object_get :: "(string \<times> json) list \<Rightarrow> string \<Rightarrow> json" where
  "object_get kvs k = (case map_of kvs k of Some v \<Rightarrow> v | None \<Rightarrow> JNull)"

fun json_patch :: "json \<Rightarrow> json \<Rightarrow> json"
and patch_fields :: "(string \<times> json) list \<Rightarrow> (string \<times> json) list \<Rightarrow> (string \<times> json) list" where
  "json_patch t (JObject p) = JObject (patch_fields (case as_object t of Some kvs \<Rightarrow> kvs | None \<Rightarrow> []) p)"
| "json_patch t v = v"
| "patch_fields kvs [] = kvs"
| "patch_fields kvs ((k, v) # p) =
     patch_fields (if v = JNull then object_remove k kvs
                   else object_insert k (json_patch (object_get kvs k) v) kvs) p"

definition sqlite_merge :: "json \<Rightarrow> json \<Rightarrow> json" where
  "sqlite_merge base patch = json_patch (if as_object base = None then JObject [] else base) patch"

definition sqlite_update_run_state :: "uuid \<Rightarrow> run_state_update \<Rightarrow> db \<Rightarrow> storage_error + (bool \<times> db)" where
  "sqlite_update_run_state = sql_update_run_state sqlite_merge"

section \<open>The adapters keep the contract\<close>

definition object_ok :: "(string \<times> json) list \<Rightarrow> bool" where
  "object_ok kvs \<longleftrightarrow> sorted_wrt key_less (map fst kvs)"

lemma key_less_irrefl [simp]: "\<not> key_less k k"
  by (induction k) auto

lemma key_less_asym: "key_less a b \<Longrightarrow> \<not> key_less b a"
  by (induction a b rule: key_less.induct) auto

lemma object_insert_last:
  "\<forall>x \<in> set kvs. key_less (fst x) k \<Longrightarrow> object_insert k v kvs = kvs @ [(k, v)]"
  by (induction k v kvs rule: object_insert.induct) (auto dest: key_less_asym)

lemma object_extend_append:
  "sorted_wrt key_less (map fst (kvs @ p)) \<Longrightarrow> object_extend kvs p = kvs @ p"
proof (induction p arbitrary: kvs)
  case (Cons x p)
  obtain k v where x: "x = (k, v)" by fastforce
  have "object_insert k v kvs = kvs @ [(k, v)]"
    using Cons.prems by (intro object_insert_last) (auto simp: x sorted_wrt_append)
  with Cons.IH [of "kvs @ [(k, v)]"] Cons.prems show ?case
    by (simp add: object_extend_def x)
qed (simp add: object_extend_def)

lemma object_extend_Nil [simp]: "object_ok p \<Longrightarrow> object_extend [] p = p"
  using object_extend_append [of "[]" p] by (simp add: object_ok_def)

text \<open>The patches on which the two adapters agree: top-level values that are neither null nor objects.\<close>

definition flat_patch :: "(string \<times> json) list \<Rightarrow> bool" where
  "flat_patch p \<longleftrightarrow> (\<forall>(k, v) \<in> set p. v \<noteq> JNull \<and> as_object v = None)"

lemma json_patch_flat: "as_object v = None \<Longrightarrow> json_patch t v = v"
  by (cases v) auto

lemma patch_fields_flat: "flat_patch p \<Longrightarrow> patch_fields kvs p = object_extend kvs p"
  by (induction p arbitrary: kvs) (auto simp: flat_patch_def object_extend_def json_patch_flat)

lemma as_object_Some: "as_object v = Some kvs \<longleftrightarrow> v = JObject kvs"
  by (cases v) auto

lemma sqlite_merge_flat:
  "flat_patch p \<Longrightarrow> object_ok p \<Longrightarrow> sqlite_merge base (JObject p) = jsonb_concat base (JObject p)"
  by (auto simp: sqlite_merge_def jsonb_concat_def patch_fields_flat as_object_Some split: option.splits)

lemma jsonb_concat_merge:
  "object_ok p \<Longrightarrow> jsonb_concat base (JObject p) = merge_json_objects base (JObject p)"
  by (auto simp: jsonb_concat_def merge_json_objects_def split: option.splits)

text \<open>The checkpoint patch of an update, if it has one.\<close>

definition update_patch :: "run_state_update \<Rightarrow> (string \<times> json) list" where
  "update_patch u = (case ru_checkpoint u of CpMerge v \<Rightarrow> (case as_object v of Some p \<Rightarrow> p | None \<Rightarrow> []) | _ \<Rightarrow> [])"

lemma sql_run_state_cong:
  assumes "\<And>b p. ru_checkpoint u = CpMerge (JObject p) \<Longrightarrow> f b (JObject p) = g b (JObject p)"
    and "validate_run_state u = Inr ()"
  shows "sql_run_state f u c = sql_run_state g u c"
proof (cases "ru_checkpoint u")
  case (CpMerge v)
  with assms(2) obtain p where "v = JObject p"
    by (cases v) (auto simp: validate_run_state_def rguard_def)
  with assms(1) CpMerge show ?thesis by (simp add: sql_run_state_def)
qed (simp_all add: sql_run_state_def)

lemma apply_to_sql: "apply_to u c = sql_run_state merge_json_objects u c"
  by (rule connector.equality)
    (simp_all add: apply_to_def sql_run_state_def coalesce_def Let_def split: option.split checkpoint_update.split)

definition connectors_ok :: "db \<Rightarrow> bool" where
  "connectors_ok d \<longleftrightarrow> tbl_keyed cn_id (db_connectors d) \<and>
     (\<forall>i c. get_connector d i = Some c \<longrightarrow> cn_source_id c \<in> set (db_source_keys d))"

text \<open>The fields of a connector that belong to the operator.\<close>

definition operator_part :: "connector \<Rightarrow> connector" where
  "operator_part c = c\<lparr>cn_status := [], cn_last_run := None, cn_last_success := None, cn_error_count := 0,
     cn_checkpoint := JNull\<rparr>"

definition same_operator_fields :: "connector \<Rightarrow> connector \<Rightarrow> bool" where
  "same_operator_fields a b \<longleftrightarrow> operator_part a = operator_part b"

lemma sql_run_state_keeps [simp]:
  "cn_id (sql_run_state f u c) = cn_id c" "cn_source_id (sql_run_state f u c) = cn_source_id c"
  "cn_enabled (sql_run_state f u c) = cn_enabled c" "cn_schedule (sql_run_state f u c) = cn_schedule c"
  "same_operator_fields c (sql_run_state f u c)"
  by (simp_all add: sql_run_state_def same_operator_fields_def operator_part_def)

lemma validate_run_state_cases: "validate_run_state u = Inr () \<or> validate_run_state u = Inl ConstraintViolation"
  by (auto simp: validate_run_state_def rguard_def split: checkpoint_update.splits)

lemma sql_update_cong:
  assumes "\<And>b p. ru_checkpoint u = CpMerge (JObject p) \<Longrightarrow> f b (JObject p) = g b (JObject p)"
  shows "sql_update_run_state f i u d = sql_update_run_state g i u d"
proof (cases "validate_run_state u = Inr ()")
  case True
  have "sql_run_state f u c = sql_run_state g u c" for c :: connector
    by (rule sql_run_state_cong) (use assms True in auto)
  then show ?thesis by (simp add: sql_update_run_state_def split: option.split)
next
  case False
  then show ?thesis
    using validate_run_state_cases [of u] by (auto simp: sql_update_run_state_def)
qed

lemma default_is_sql:
  assumes "connectors_ok d"
  shows "default_update_run_state i u d = sql_update_run_state merge_json_objects i u d"
proof (cases "get_connector d i")
  case None
  then show ?thesis by (simp add: default_update_run_state_def sql_update_run_state_def)
next
  case (Some c)
  with assms have "cn_id c = i" "cn_source_id c \<in> set (db_source_keys d)"
    by (auto simp: connectors_ok_def get_connector_def dest: tbl_keyedD)
  with Some show ?thesis
    by (simp add: default_update_run_state_def sql_update_run_state_def put_connector_def apply_to_sql)
qed

lemma run_state_update_correct_parts:
  assumes ok: "connectors_ok d" and patch: "object_ok (update_patch u)"
  shows "update_connector_run_state i u d = default_update_run_state i u d"
    and "flat_patch (update_patch u) \<Longrightarrow> sqlite_update_run_state i u d = update_connector_run_state i u d"
    and "update_connector_run_state i u d = Inr (found, d') \<Longrightarrow>
      found = (get_connector d i \<noteq> None) \<and> connectors_ok d' \<and>
      d'\<lparr>db_connectors := db_connectors d\<rparr> = d \<and>
      (\<forall>k. k \<noteq> i \<longrightarrow> get_connector d' k = get_connector d k) \<and>
      rel_option same_operator_fields (get_connector d i) (get_connector d' i)"
proof -
  have "ru_checkpoint u = CpMerge (JObject p) \<Longrightarrow> update_patch u = p" for p
    by (simp add: update_patch_def)
  then show "update_connector_run_state i u d = default_update_run_state i u d"
    unfolding default_is_sql [OF ok] update_connector_run_state_def
    by (intro sql_update_cong jsonb_concat_merge) (use patch in auto)
next
  assume "flat_patch (update_patch u)"
  moreover have "ru_checkpoint u = CpMerge (JObject p) \<Longrightarrow> update_patch u = p" for p
    by (simp add: update_patch_def)
  ultimately show "sqlite_update_run_state i u d = update_connector_run_state i u d"
    unfolding sqlite_update_run_state_def update_connector_run_state_def
    by (intro sql_update_cong sqlite_merge_flat) (use patch in auto)
next
  assume *: "update_connector_run_state i u d = Inr (found, d')"
  then have valid: "validate_run_state u = Inr ()"
    using validate_run_state_cases [of u] by (auto simp: update_connector_run_state_def sql_update_run_state_def)
  show "found = (get_connector d i \<noteq> None) \<and> connectors_ok d' \<and>
      d'\<lparr>db_connectors := db_connectors d\<rparr> = d \<and>
      (\<forall>k. k \<noteq> i \<longrightarrow> get_connector d' k = get_connector d k) \<and>
      rel_option same_operator_fields (get_connector d i) (get_connector d' i)"
  proof (cases "get_connector d i")
    case None
    with * valid ok show ?thesis by (auto simp: update_connector_run_state_def sql_update_run_state_def)
  next
    case (Some c)
    let ?c = "sql_run_state jsonb_concat u c"
    from ok Some have c: "cn_id c = i" "cn_source_id c \<in> set (db_source_keys d)"
      by (auto simp: connectors_ok_def get_connector_def dest: tbl_keyedD)
    from * valid Some have d': "found" "d' = d\<lparr>db_connectors := tbl_put i ?c (db_connectors d)\<rparr>"
      by (auto simp: update_connector_run_state_def sql_update_run_state_def)
    have "tbl_keyed cn_id (db_connectors d')"
      using tbl_keyed_put [of cn_id "db_connectors d" ?c] ok c by (simp add: d' connectors_ok_def)
    with ok c Some show ?thesis
      by (auto simp: d' connectors_ok_def get_connector_def)
  qed
qed

text \<open>
  the partial update of a connector. On a store that keeps its constraints, the PostgreSQL
  statement does what the trait's read-change-write does when nothing runs in between; the SQLite
  statement does the same when the patch has no null and no nested object; whatever is written,
  every connector keeps its operator fields, only the named connector changes, and the
  constraints are kept.
\<close>

theorem run_state_update_correct:
  assumes "connectors_ok d" "object_ok (update_patch u)"
  shows "update_connector_run_state i u d = default_update_run_state i u d \<and>
    (flat_patch (update_patch u) \<longrightarrow> sqlite_update_run_state i u d = update_connector_run_state i u d) \<and>
    (\<forall>found d'. update_connector_run_state i u d = Inr (found, d') \<longrightarrow>
      found = (get_connector d i \<noteq> None) \<and> connectors_ok d' \<and>
      d'\<lparr>db_connectors := db_connectors d\<rparr> = d \<and>
      (\<forall>k. k \<noteq> i \<longrightarrow> get_connector d' k = get_connector d k) \<and>
      rel_option same_operator_fields (get_connector d i) (get_connector d' i))"
  using run_state_update_correct_parts [OF assms, of i] by blast

section \<open>A concrete store\<close>

definition sample_connector :: "uuid \<Rightarrow> string \<Rightarrow> connector" where
  "sample_connector i ty = \<lparr>cn_id = i, cn_source_id = 1, cn_name = ''feed'', cn_type = ty, cn_version = ''1'',
     cn_enabled = True, cn_configuration = JObject [], cn_credential_reference = None,
     cn_schedule = Some ''*/15 * * * *'', cn_rate_limit = JObject [], cn_timeout = JObject [],
     cn_proxy_reference = None, cn_checkpoint = JObject [(''etag'', JString ''abc'')], cn_last_run = None,
     cn_last_success = None, cn_status = ''idle'', cn_error_count = 0\<rparr>"

definition sample_source :: source where
  "sample_source = \<lparr>so_id = 1, so_name = ''s'', so_type = SourceRss, so_platform = None,
     so_base_url = Some ''https://e.org/feed'', so_description = None, so_language = None, so_country = None,
     so_enabled = True, so_collection_policy = JObject [], so_created_at = 0, so_updated_at = 0, so_last_seen = None\<rparr>"

definition sample_collector_db :: db where
  "sample_collector_db = empty_db\<lparr>db_sources := [(1, sample_source)],
     db_connectors := [(7, sample_connector 7 ''rss'')]\<rparr>"

lemma sample_collector_db_ok: "connectors_ok sample_collector_db"
  by (simp add: connectors_ok_def sample_collector_db_def empty_db_def get_connector_def tbl_get_def tbl_keyed_def
      tbl_ok_def sample_connector_def)

definition sample_update :: run_state_update where
  "sample_update = no_update\<lparr>ru_status := Some ''error'', ru_error_count := Some 1,
     ru_checkpoint := CpMerge (JObject [(''last_error'', JString ''down'')])\<rparr>"

theorem run_state_update_correct_witness:
  "\<exists>d' c. update_connector_run_state 7 sample_update sample_collector_db = Inr (True, d') \<and>
     sqlite_update_run_state 7 sample_update sample_collector_db = Inr (True, d') \<and>
     default_update_run_state 7 sample_update sample_collector_db = Inr (True, d') \<and>
     get_connector d' 7 = Some c \<and> cn_status c = ''error'' \<and>
     cn_checkpoint c = JObject [(''etag'', JString ''abc''), (''last_error'', JString ''down'')]"
proof -
  have patch: "object_ok (update_patch sample_update)" "flat_patch (update_patch sample_update)"
    by (simp_all add: object_ok_def flat_patch_def update_patch_def sample_update_def no_update_def)
  note laws = run_state_update_correct [OF sample_collector_db_ok patch(1), of 7]
  let ?d = "sample_collector_db\<lparr>db_connectors :=
    [(7, sql_run_state jsonb_concat sample_update (sample_connector 7 ''rss''))]\<rparr>"
  have run: "update_connector_run_state 7 sample_update sample_collector_db = Inr (True, ?d)"
    by (simp add: update_connector_run_state_def sql_update_run_state_def validate_run_state_def sample_update_def
        no_update_def rguard_def sample_collector_db_def empty_db_def get_connector_def tbl_get_def)
  have c: "get_connector ?d 7 = Some (sql_run_state jsonb_concat sample_update (sample_connector 7 ''rss''))"
    by (simp add: get_connector_def tbl_get_def)
  have "cn_status (sql_run_state jsonb_concat sample_update (sample_connector 7 ''rss'')) = ''error'' \<and>
    cn_checkpoint (sql_run_state jsonb_concat sample_update (sample_connector 7 ''rss'')) =
      JObject [(''etag'', JString ''abc''), (''last_error'', JString ''down'')]"
    by (simp add: sql_run_state_def sample_update_def no_update_def coalesce_def sample_connector_def
        jsonb_concat_def object_extend_def)
  with run c show ?thesis using laws patch(2) by simp
qed

end
