(* ===== verification/Backoff.thy ===== *)
theory Backoff
  imports Model
begin

text \<open>
  The back-off after failed runs, \<open>crates/connector-sdk/src/backoff.rs\<close>: exponential in the number of failures,
  capped, with a deterministic jitter taken from the connector's id. The \<open>croner\<close> library is the
  record \<open>cron_lib\<close>. \<open>chrono\<close>'s \<open>DateTime + TimeDelta\<close> panics past the last representable
  instant, which is a parameter here; a panic is \<open>None\<close>.
\<close>

record 'c cron_lib =
  cl_parse :: "string \<Rightarrow> 'c option"
  cl_next :: "'c \<Rightarrow> time \<Rightarrow> time option"

definition DEFAULT_BASE_SECS :: nat where "DEFAULT_BASE_SECS = 300"
definition DEFAULT_MAX_SECS :: nat where "DEFAULT_MAX_SECS = 43200"

record backoff_config =
  bc_base :: duration
  bc_max :: duration

definition from_secs :: "nat \<Rightarrow> nat \<Rightarrow> backoff_config" where
  "from_secs base_secs max_secs = \<lparr>bc_base = base_secs * 1000, bc_max = max_secs * 1000\<rparr>"

definition default_backoff :: backoff_config where
  "default_backoff = from_secs DEFAULT_BASE_SECS DEFAULT_MAX_SECS"

definition as_secs :: "duration \<Rightarrow> nat" where
  "as_secs d = d div 1000"

text \<open>\<open>error_count\<close> is positive here, so the cast to \<open>u32\<close> keeps its value.\<close>

definition exponential_capped :: "int \<Rightarrow> backoff_config \<Rightarrow> duration" where
  "exponential_capped error_count cfg =
     (let e = nat error_count - 1
      in if 63 \<le> e then bc_max cfg
         else min (sat_mul u64_max (as_secs (bc_base cfg)) (2 ^ e)) (as_secs (bc_max cfg)) * 1000)"

text \<open>The product is an \<open>i128\<close> and saturates; the final cast to \<open>u64\<close> keeps the low 64 bits.\<close>

definition apply_jitter :: "duration \<Rightarrow> uuid \<Rightarrow> duration \<Rightarrow> duration" where
  "apply_jitter delay connector_id mx =
     (if delay = 0 then 0
      else
        let jitter_bp = int (connector_id mod 2001) - 1000;
            adjusted = min (int delay * (10000 + jitter_bp)) (2 ^ 127 - 1) div 10000;
            clamped = max 0 (min (int mx) adjusted)
        in nat clamped mod 2 ^ 64)"

definition retry_backoff :: "int \<Rightarrow> uuid \<Rightarrow> backoff_config \<Rightarrow> duration" where
  "retry_backoff error_count connector_id cfg =
     (if error_count \<le> 0 \<or> bc_base cfg = 0 then 0
      else apply_jitter (exponential_capped error_count cfg) connector_id (bc_max cfg))"

text \<open>A \<open>TimeDelta\<close> holds at most \<open>i64::MAX\<close> milliseconds; what does not fit counts as zero.\<close>

definition add_duration :: "time \<Rightarrow> time \<Rightarrow> duration \<Rightarrow> time option" where
  "add_duration max_utc w delay =
     (let delta = (if delay < 2 ^ 63 then int delay else 0)
      in if max_utc < w + delta then None else Some (w + delta))"

definition cron_next_after :: "'c cron_lib \<Rightarrow> string \<Rightarrow> time option \<Rightarrow> time \<Rightarrow> time option" where
  "cron_next_after lib schedule last_run now =
     Option.bind (cl_parse lib schedule) (\<lambda>cron.
       case last_run of
         None \<Rightarrow> Some now
       | Some prev \<Rightarrow> cl_next lib cron prev)"

text \<open>The outer option is a panic, the inner one the result.\<close>

definition next_attempt_at ::
  "'c cron_lib \<Rightarrow> time \<Rightarrow> connector \<Rightarrow> time \<Rightarrow> backoff_config \<Rightarrow> time option option" where
  "next_attempt_at lib max_utc c now cfg =
     (let schedule = (case cn_schedule c of Some s \<Rightarrow> trim s | None \<Rightarrow> [])
      in if schedule = [] then Some None
         else
           Option.bind
             (case cn_last_run c of
                Some prev \<Rightarrow> add_duration max_utc prev (retry_backoff (cn_error_count c) (cn_id c) cfg)
              | None \<Rightarrow> Some now)
             (\<lambda>backoff_until.
                let cron_next = (case cron_next_after lib schedule (cn_last_run c) now of
                      Some t \<Rightarrow> t | None \<Rightarrow> now)
                in Some (Some (max cron_next backoff_until))))"

definition is_backing_off :: "time \<Rightarrow> connector \<Rightarrow> time \<Rightarrow> backoff_config \<Rightarrow> bool option" where
  "is_backing_off max_utc c now cfg =
     (if cn_error_count c \<le> 0 then Some False
      else case cn_last_run c of
             None \<Rightarrow> Some False
           | Some prev \<Rightarrow>
               map_option (\<lambda>t. now < t)
                 (add_duration max_utc prev (retry_backoff (cn_error_count c) (cn_id c) cfg)))"

section \<open>Bounds\<close>

text \<open>
  The configuration that \<open>CollectorConfig::validate\<close> admits, in seconds, with a maximum that a
  \<open>TimeDelta\<close> can hold.
\<close>

definition backoff_valid :: "backoff_config \<Rightarrow> bool" where
  "backoff_valid cfg \<longleftrightarrow> (\<exists>b m. cfg = from_secs b m \<and> b \<le> m \<and> m * 1000 < 2 ^ 63)"

text \<open>What the comment promises, without machine arithmetic.\<close>

definition nominal_delay :: "int \<Rightarrow> backoff_config \<Rightarrow> duration" where
  "nominal_delay n cfg = min (bc_base cfg * 2 ^ (nat n - 1)) (bc_max cfg)"

lemma exponential_nominal:
  assumes "backoff_valid cfg" "0 < n" "bc_base cfg \<noteq> 0"
  shows "exponential_capped n cfg = nominal_delay n cfg"
proof -
  obtain b m where cfg: "cfg = from_secs b m" "b \<le> m" "m * 1000 < 2 ^ 63"
    using assms(1) by (auto simp: backoff_valid_def)
  have b: "0 < b" using assms(3) by (simp add: cfg from_secs_def)
  let ?e = "nat n - 1"
  show ?thesis
  proof (cases "63 \<le> ?e")
    case True
    have "m * 1000 < 2 ^ 63" using cfg(3) by simp
    also have "\<dots> \<le> b * 1000 * 2 ^ 63" using b by simp
    also have "\<dots> \<le> b * 1000 * 2 ^ ?e"
      using True by (intro mult_le_mono power_increasing) auto
    finally show ?thesis
      using True by (simp add: exponential_capped_def nominal_delay_def cfg from_secs_def)
  next
    case False
    have "m \<le> u64_max" using cfg(3) by (simp add: u64_max_def)
    then have "min (sat_mul u64_max b (2 ^ ?e)) m = min (b * 2 ^ ?e) m"
      by (auto simp: sat_mul_def min_def)
    then have "min (sat_mul u64_max b (2 ^ ?e)) m * 1000 = min (b * 2 ^ ?e * 1000) (m * 1000)"
      by (simp add: min_def)
    with False show ?thesis
      by (simp add: exponential_capped_def nominal_delay_def cfg from_secs_def as_secs_def Let_def ac_simps)
  qed
qed

lemma apply_jitter_exact:
  assumes "delay \<le> mx" "mx < 2 ^ 64"
  shows "apply_jitter delay i mx = min (delay * (9000 + i mod 2001) div 10000) mx"
proof -
  have small: "int delay * (10000 + (int (i mod 2001) - 1000)) = int (delay * (9000 + i mod 2001))"
    by (simp add: algebra_simps)
  have "delay * (9000 + i mod 2001) \<le> 2 ^ 64 * 11000"
    using assms mod_less_divisor [of 2001 i] by (intro mult_le_mono) linarith+
  then have "int (delay * (9000 + i mod 2001)) \<le> int (2 ^ 64 * 11000)" by (simp only: of_nat_le_iff)
  then have "int (delay * (9000 + i mod 2001)) \<le> 2 ^ 127 - 1" by simp
  then have "min (int (delay * (9000 + i mod 2001))) (2 ^ 127 - 1) = int (delay * (9000 + i mod 2001))"
    by (rule min_absorb1)
  moreover have "int (delay * (9000 + i mod 2001)) div 10000 = int (delay * (9000 + i mod 2001) div 10000)"
    by (simp add: zdiv_int)
  moreover have "max 0 (min (int mx) (int (delay * (9000 + i mod 2001) div 10000)))
      = int (min (delay * (9000 + i mod 2001) div 10000) mx)"
    by (simp add: min_def)
  moreover have "min (delay * (9000 + i mod 2001) div 10000) mx mod 2 ^ 64
      = min (delay * (9000 + i mod 2001) div 10000) mx"
    using assms(2) by (intro mod_less) simp
  ultimately show ?thesis
    unfolding apply_jitter_def Let_def small by simp
qed

lemma retry_backoff_nominal:
  assumes "backoff_valid cfg" "0 < n" "bc_base cfg \<noteq> 0"
  shows "retry_backoff n i cfg = min (nominal_delay n cfg * (9000 + i mod 2001) div 10000) (bc_max cfg)"
proof -
  have "nominal_delay n cfg \<le> bc_max cfg" "bc_max cfg < 2 ^ 64"
    using assms(1) by (auto simp: nominal_delay_def backoff_valid_def from_secs_def)
  from apply_jitter_exact [OF this, of i] show ?thesis
    using assms exponential_nominal [OF assms] by (simp add: retry_backoff_def)
qed

lemma nominal_seconds:
  assumes "backoff_valid cfg"
  shows "\<exists>s. nominal_delay n cfg = s * 1000"
  using assms by (auto simp: nominal_delay_def backoff_valid_def from_secs_def min_def)

lemma nominal_mono: "m \<le> n \<Longrightarrow> nominal_delay m cfg \<le> nominal_delay n cfg"
  unfolding nominal_delay_def
  by (intro min.mono mult_le_mono power_increasing) auto

lemma retry_backoff_exact_parts:
  assumes "backoff_valid cfg"
  shows "n \<le> 0 \<or> bc_base cfg = 0 \<Longrightarrow> retry_backoff n i cfg = 0"
    and "0 < n \<Longrightarrow> bc_base cfg \<noteq> 0 \<Longrightarrow>
      retry_backoff n i cfg = min (nominal_delay n cfg * (9000 + i mod 2001) div 10000) (bc_max cfg) \<and>
      9 * nominal_delay n cfg \<le> 10 * retry_backoff n i cfg \<and>
      10 * retry_backoff n i cfg \<le> 11 * nominal_delay n cfg"
    and "retry_backoff n i cfg \<le> bc_max cfg"
    and "m \<le> n \<Longrightarrow> retry_backoff m i cfg \<le> retry_backoff n i cfg"
proof -
  show none: "n \<le> 0 \<or> bc_base cfg = 0 \<Longrightarrow> retry_backoff n i cfg = 0" for n
    by (auto simp: retry_backoff_def)
  note exact = retry_backoff_nominal [OF assms]
  have le_max: "nominal_delay n cfg \<le> bc_max cfg" by (simp add: nominal_delay_def)
  show "retry_backoff n i cfg \<le> bc_max cfg"
    using none [of n] exact [of n i] by (cases "n \<le> 0 \<or> bc_base cfg = 0") auto
  have mono: "retry_backoff m i cfg \<le> retry_backoff n i cfg" if "m \<le> n"
  proof (cases "m \<le> 0 \<or> bc_base cfg = 0")
    case True
    with none [of m] show ?thesis by simp
  next
    case False
    with that have *: "0 < m" "0 < n" "bc_base cfg \<noteq> 0" by auto
    show ?thesis
      unfolding exact [OF *(1,3)] exact [OF *(2,3)]
      by (intro min.mono div_le_mono mult_le_mono nominal_mono that order_refl)
  qed
  then show "m \<le> n \<Longrightarrow> retry_backoff m i cfg \<le> retry_backoff n i cfg" .
  assume n: "0 < n" "bc_base cfg \<noteq> 0"
  obtain s where s: "nominal_delay n cfg = s * 1000" using nominal_seconds [OF assms] by blast
  have "i mod 2001 \<le> 2000" using mod_less_divisor [of 2001 i] by linarith
  then have "s * 1000 * (9000 + i mod 2001) \<le> s * 1000 * 11000"
    by (intro mult_le_mono) auto
  then have "s * 1000 * (9000 + i mod 2001) div 10000 \<le> s * 1000 * 11000 div 10000"
    by (rule div_le_mono)
  then have "s * 1000 * (9000 + i mod 2001) div 10000 \<le> s * 1100"
    by (simp add: div_mult2_eq [symmetric])
  moreover have "s * 900 * 10000 \<le> s * 1000 * (9000 + i mod 2001)"
    by (simp add: algebra_simps)
  then have "s * 900 * 10000 div 10000 \<le> s * 1000 * (9000 + i mod 2001) div 10000"
    by (rule div_le_mono)
  then have "s * 900 \<le> s * 1000 * (9000 + i mod 2001) div 10000"
    by simp
  ultimately show "retry_backoff n i cfg = min (nominal_delay n cfg * (9000 + i mod 2001) div 10000) (bc_max cfg) \<and>
      9 * nominal_delay n cfg \<le> 10 * retry_backoff n i cfg \<and>
      10 * retry_backoff n i cfg \<le> 11 * nominal_delay n cfg"
    using le_max exact [OF n, of i] by (auto simp: s min_def)
qed

text \<open>
  the delay of a failing connector. Under a validated configuration the machine arithmetic
  computes the documented formula: nothing without failures or with a zero base; otherwise the
  doubled and capped delay shifted by a fixed part of the id, within ten percent of it, never above the
  maximum, and never shorter after more failures.
\<close>

theorem retry_backoff_exact:
  assumes "backoff_valid cfg"
  shows "(n \<le> 0 \<or> bc_base cfg = 0 \<longrightarrow> retry_backoff n i cfg = 0) \<and>
    (0 < n \<and> bc_base cfg \<noteq> 0 \<longrightarrow>
      retry_backoff n i cfg = min (nominal_delay n cfg * (9000 + i mod 2001) div 10000) (bc_max cfg) \<and>
      9 * nominal_delay n cfg \<le> 10 * retry_backoff n i cfg \<and>
      10 * retry_backoff n i cfg \<le> 11 * nominal_delay n cfg) \<and>
    retry_backoff n i cfg \<le> bc_max cfg \<and>
    (m \<le> n \<longrightarrow> retry_backoff m i cfg \<le> retry_backoff n i cfg)"
  using retry_backoff_exact_parts [OF assms] by blast

theorem retry_backoff_exact_witness:
  "backoff_valid default_backoff \<and> retry_backoff 3 7 default_backoff = 1080840 \<and>
   nominal_delay 3 default_backoff = 1200000 \<and>
   9 * nominal_delay 3 default_backoff \<le> 10 * retry_backoff 3 7 default_backoff"
proof -
  have valid: "backoff_valid default_backoff"
    unfolding backoff_valid_def default_backoff_def DEFAULT_BASE_SECS_def DEFAULT_MAX_SECS_def
    by (intro exI conjI) (rule refl, simp_all)
  have n: "nominal_delay 3 default_backoff = 1200000" "bc_base default_backoff \<noteq> 0" "bc_max default_backoff = 43200000"
    by (simp_all add: nominal_delay_def default_backoff_def from_secs_def DEFAULT_BASE_SECS_def DEFAULT_MAX_SECS_def)
  from retry_backoff_exact [OF valid, of 3 7] n valid show ?thesis by simp
qed

text \<open>
  backing off and the next attempt. While a connector is backing off, the next attempt that is shown is in the
  future; it is never before the end of the back-off, and without one it is what the schedule
  says. No call panics as long as the maximal delay fits before the end of time.
\<close>

theorem next_attempt_consistent:
  assumes valid: "backoff_valid cfg"
    and fits: "\<And>t. cn_last_run c = Some t \<Longrightarrow> t + int (bc_max cfg) \<le> max_utc"
    and sched: "cn_schedule c = Some s" "trim s \<noteq> []"
  shows "\<exists>b t. is_backing_off max_utc c now cfg = Some b \<and>
      next_attempt_at lib max_utc c now cfg = Some (Some t) \<and>
      (b \<longrightarrow> now < t) \<and>
      (\<forall>prev. cn_last_run c = Some prev \<longrightarrow> prev + int (retry_backoff (cn_error_count c) (cn_id c) cfg) \<le> t) \<and>
      (\<forall>cron prev u. cl_parse lib (trim s) = Some cron \<longrightarrow> cn_last_run c = Some prev \<longrightarrow> cl_next lib cron prev = Some u \<longrightarrow>
         u \<le> t \<and> (cn_error_count c \<le> 0 \<and> prev \<le> u \<longrightarrow> t = u))"
proof (cases "cn_last_run c")
  case None
  then have "is_backing_off max_utc c now cfg = Some False"
    "\<exists>t. next_attempt_at lib max_utc c now cfg = Some (Some t)"
    using sched by (simp_all add: is_backing_off_def next_attempt_at_def)
  with None show ?thesis by auto
next
  case (Some prev)
  let ?delay = "retry_backoff (cn_error_count c) (cn_id c) cfg"
  have "?delay \<le> bc_max cfg" "bc_max cfg < 2 ^ 63"
    using retry_backoff_nominal [OF valid, of "cn_error_count c" "cn_id c"] valid
    by (auto simp: retry_backoff_def backoff_valid_def from_secs_def)
  with fits [OF Some] have add: "add_duration max_utc prev ?delay = Some (prev + int ?delay)"
    by (simp add: add_duration_def)
  let ?cron = "case cron_next_after lib (trim s) (Some prev) now of Some t \<Rightarrow> t | None \<Rightarrow> now"
  have "next_attempt_at lib max_utc c now cfg = Some (Some (max ?cron (prev + int ?delay)))"
    using sched by (simp add: next_attempt_at_def Some add)
  moreover have "is_backing_off max_utc c now cfg = Some (0 < cn_error_count c \<and> now < prev + int ?delay)"
    by (simp add: is_backing_off_def Some add)
  moreover have "?delay = 0" if "cn_error_count c \<le> 0" using that by (simp add: retry_backoff_def)
  ultimately show ?thesis
    by (auto simp: Some cron_next_after_def)
qed

definition every_hour :: "unit cron_lib" where
  "every_hour = \<lparr>cl_parse = (\<lambda>_. Some ()), cl_next = (\<lambda>_ t. Some (t + 3600000))\<rparr>"

definition failing_connector :: connector where
  "failing_connector = \<lparr>cn_id = 7, cn_source_id = 1, cn_name = ''feed'', cn_type = ''rss'', cn_version = ''1'',
     cn_enabled = True, cn_configuration = JObject [], cn_credential_reference = None,
     cn_schedule = Some ''0 * * * *'', cn_rate_limit = JObject [], cn_timeout = JObject [],
     cn_proxy_reference = None, cn_checkpoint = JObject [], cn_last_run = Some 1000,
     cn_last_success = None, cn_status = ''error'', cn_error_count = 3\<rparr>"

theorem next_attempt_consistent_witness:
  "\<exists>t. is_backing_off (10 ^ 15) failing_connector 2000 default_backoff = Some True \<and>
     next_attempt_at every_hour (10 ^ 15) failing_connector 2000 default_backoff = Some (Some t) \<and> 2000 < t"
proof -
  have valid: "backoff_valid default_backoff"
    unfolding backoff_valid_def default_backoff_def DEFAULT_BASE_SECS_def DEFAULT_MAX_SECS_def
    by (intro exI conjI) (rule refl, simp_all)
  have s: "cn_schedule failing_connector = Some ''0 * * * *''" "trim ''0 * * * *'' \<noteq> []"
    by (simp_all add: failing_connector_def trim_def trim_start_def trim_end_def is_ws_def)
  have fits: "t + int (bc_max default_backoff) \<le> 10 ^ 15" if "cn_last_run failing_connector = Some t" for t
    using that by (simp add: failing_connector_def default_backoff_def from_secs_def DEFAULT_MAX_SECS_def)
  have "is_backing_off (10 ^ 15) failing_connector 2000 default_backoff = Some True"
    using retry_backoff_nominal [OF valid, of 3 7]
    by (simp add: is_backing_off_def failing_connector_def add_duration_def nominal_delay_def default_backoff_def
        from_secs_def DEFAULT_BASE_SECS_def DEFAULT_MAX_SECS_def)
  with next_attempt_consistent [OF valid fits s, of 2000 every_hour] show ?thesis by auto
qed

end
