(* ===== verification/Auth.thy ===== *)
theory Auth
  imports Store
begin

text \<open>
  The security plane's data: roles and permissions (\<open>crates/core-security/src/rbac.rs\<close>), API tokens
  (\<open>token.rs\<close>) and the audit log (\<open>audit.rs\<close>), with both implementations of each store, the one
  in memory and the one on Postgres (\<open>crates/storage-postgres/src/security.rs\<close>).

  The trait \<open>ApiTokenStore\<close> is a record of operations, as a trait object is; the locale
  \<open>api_token_store\<close> states what its callers rely on, over an abstract map from ids to tokens, and
  both implementations are interpreted. Error messages are left out; only the error's variant is
  kept. A Postgres failure is the field \<open>ps_fault\<close>: the database answers with that error until it
  is cleared.
\<close>

section \<open>Roles and permissions\<close>

datatype role = Viewer | Operator | Admin

datatype permission = ReadPerm | WritePerm | AdminPerm

fun role_as_str :: "role \<Rightarrow> string" where
  "role_as_str Viewer = ''viewer''"
| "role_as_str Operator = ''operator''"
| "role_as_str Admin = ''admin''"

definition role_from_str_strict :: "string \<Rightarrow> role option" where
  "role_from_str_strict s =
     (if s = ''viewer'' then Some Viewer
      else if s = ''operator'' then Some Operator
      else if s = ''admin'' then Some Admin
      else None)"

fun permission_as_str :: "permission \<Rightarrow> string" where
  "permission_as_str ReadPerm = ''read''"
| "permission_as_str WritePerm = ''write''"
| "permission_as_str AdminPerm = ''admin''"

fun role_includes :: "role \<Rightarrow> role \<Rightarrow> bool" where
  "role_includes Admin _ = True"
| "role_includes Operator Operator = True"
| "role_includes Operator Viewer = True"
| "role_includes Viewer Viewer = True"
| "role_includes _ _ = False"

fun allows :: "role \<Rightarrow> permission \<Rightarrow> bool" where
  "allows r ReadPerm = True"
| "allows r WritePerm = role_includes r Operator"
| "allows r AdminPerm = role_includes r Admin"

datatype security_error =
    JwtSecretTooShort nat | JwtEncode | JwtInvalid | MalformedApiToken | TokenHash
  | TokenNotFound uuid | TokenRevoked | TokenExpired | Unauthenticated
  | Forbidden string string | AuditFailure

definition role_require :: "role \<Rightarrow> permission \<Rightarrow> security_error + unit" where
  "role_require r p =
     (if allows r p then Inr () else Inl (Forbidden (role_as_str r) (permission_as_str p)))"

datatype auth_method = Jwt | ApiToken

record principal =
  pr_subject :: string
  pr_role :: role
  pr_auth_method :: auth_method

section \<open>API tokens\<close>

definition TOKEN_PREFIX :: string where
  "TOKEN_PREFIX = ''osint_''"

record api_token_record =
  tk_id :: uuid
  tk_name :: string
  tk_role :: role
  tk_secret_hash :: string
  tk_created_by :: "string option"
  tk_created_at :: time
  tk_expires_at :: "time option"
  tk_last_used_at :: "time option"
  tk_revoked_at :: "time option"

definition ensure_usable :: "api_token_record \<Rightarrow> time \<Rightarrow> security_error + unit" where
  "ensure_usable r now =
     (if tk_revoked_at r \<noteq> None then Inl TokenRevoked
      else if (case tk_expires_at r of Some e \<Rightarrow> e \<le> now | None \<Rightarrow> False) then Inl TokenExpired
      else Inr ())"

text \<open>\<open>hex::encode\<close> of the secret bytes.\<close>

definition hex_digit :: "nat \<Rightarrow> char" where
  "hex_digit n = ''0123456789abcdef'' ! n"

definition hex_encode :: "8 word list \<Rightarrow> string" where
  "hex_encode bytes = concat (map (\<lambda>b. [hex_digit (unat (drop_bit 4 b)), hex_digit (unat b mod 16)]) bytes)"

text \<open>
  \<open>show_uuid\<close> and \<open>parse_uuid\<close> are \<open>Display\<close> and \<open>Uuid::parse_str\<close> of the \<open>uuid\<close> crate,
  \<open>hash_fn\<close> and \<open>verify_fn\<close> the \<open>argon2\<close> crate behind \<open>hash_secret\<close> and \<open>verify_secret\<close>:
  hashing and verifying may fail, and verifying answers whether the secret is the hashed one.
\<close>

record crypto =
  cr_show_uuid :: "uuid \<Rightarrow> string"
  cr_parse_uuid :: "string \<Rightarrow> uuid option"
  cr_hash :: "string \<Rightarrow> string option"
  cr_verify :: "string \<Rightarrow> string \<Rightarrow> bool option"

definition hash_secret :: "crypto \<Rightarrow> string \<Rightarrow> security_error + string" where
  "hash_secret cr secret = ok_or TokenHash (cr_hash cr secret)"

definition verify_secret :: "crypto \<Rightarrow> string \<Rightarrow> string \<Rightarrow> security_error + bool" where
  "verify_secret cr secret h = ok_or TokenHash (cr_verify cr secret h)"

definition issue_api_token ::
  "crypto \<Rightarrow> time \<Rightarrow> uuid \<Rightarrow> 8 word list \<Rightarrow> string \<Rightarrow> role \<Rightarrow> string option \<Rightarrow> time option
     \<Rightarrow> security_error + (api_token_record \<times> string)" where
  "issue_api_token cr now fresh_id secret_bytes name r created_by expires_at =
     (let secret = hex_encode secret_bytes;
          plaintext = TOKEN_PREFIX @ cr_show_uuid cr fresh_id @ ''.'' @ secret
      in rbind (hash_secret cr secret) (\<lambda>h.
           Inr (\<lparr>tk_id = fresh_id, tk_name = name, tk_role = r, tk_secret_hash = h,
                 tk_created_by = created_by, tk_created_at = now, tk_expires_at = expires_at,
                 tk_last_used_at = None, tk_revoked_at = None\<rparr>, plaintext)))"

record presented_token =
  pt_id :: uuid
  pt_secret :: string

definition strip_prefix :: "string \<Rightarrow> string \<Rightarrow> string option" where
  "strip_prefix p s = (if starts_with p s then Some (drop (length p) s) else None)"

fun split_once :: "char \<Rightarrow> string \<Rightarrow> (string \<times> string) option" where
  "split_once c [] = None"
| "split_once c (x # xs) =
     (if x = c then Some ([], xs) else map_option (\<lambda>(a, b). (x # a, b)) (split_once c xs))"

definition parse_presented_token :: "crypto \<Rightarrow> string \<Rightarrow> security_error + presented_token" where
  "parse_presented_token cr raw =
     rbind (ok_or MalformedApiToken (strip_prefix TOKEN_PREFIX raw)) (\<lambda>rest.
     rbind (ok_or MalformedApiToken (split_once (CHR ''.'') rest)) (\<lambda>(id_part, secret).
     rbind (rguard (secret \<noteq> []) MalformedApiToken) (\<lambda>_.
     rbind (ok_or MalformedApiToken (cr_parse_uuid cr id_part)) (\<lambda>i.
     Inr \<lparr>pt_id = i, pt_secret = secret\<rparr>))))"

section \<open>The token store trait and its two implementations\<close>

record 's token_ops =
  to_insert :: "api_token_record \<Rightarrow> ('s, security_error, unit) op"
  to_get :: "uuid \<Rightarrow> 's \<Rightarrow> security_error + api_token_record option"
  to_list :: "'s \<Rightarrow> security_error + api_token_record list"
  to_revoke :: "uuid \<Rightarrow> time \<Rightarrow> ('s, security_error, bool) op"
  to_touch :: "uuid \<Rightarrow> time \<Rightarrow> ('s, security_error, unit) op"

text \<open>In memory: a map under a lock; \<open>HashMap::insert\<close> replaces.\<close>

definition mem_insert :: "api_token_record \<Rightarrow> (api_token_record tbl, security_error, unit) op" where
  "mem_insert r s = (Inr (), tbl_put (tk_id r) r s)"

definition mem_get :: "uuid \<Rightarrow> api_token_record tbl \<Rightarrow> security_error + api_token_record option" where
  "mem_get i s = Inr (tbl_get s i)"

definition mem_list :: "api_token_record tbl \<Rightarrow> security_error + api_token_record list" where
  "mem_list s = Inr (rev (map snd s))"

definition mem_revoke :: "uuid \<Rightarrow> time \<Rightarrow> (api_token_record tbl, security_error, bool) op" where
  "mem_revoke i t s =
     (case tbl_get s i of
        Some r \<Rightarrow> (Inr True, tbl_put i (r\<lparr>tk_revoked_at := Some (case tk_revoked_at r of Some t0 \<Rightarrow> t0 | None \<Rightarrow> t)\<rparr>) s)
      | None \<Rightarrow> (Inr False, s))"

definition mem_touch :: "uuid \<Rightarrow> time \<Rightarrow> (api_token_record tbl, security_error, unit) op" where
  "mem_touch i t s =
     (case tbl_get s i of
        Some r \<Rightarrow> (Inr (), tbl_put i (r\<lparr>tk_last_used_at := Some t\<rparr>) s)
      | None \<Rightarrow> (Inr (), s))"

definition memory_store :: "api_token_record tbl token_ops" where
  "memory_store =
     \<lparr>to_insert = mem_insert, to_get = mem_get, to_list = mem_list, to_revoke = mem_revoke,
      to_touch = mem_touch\<rparr>"

text \<open>On Postgres: the role is a text column, \<open>id\<close> the primary key.\<close>

record token_row =
  rw_id :: uuid
  rw_name :: string
  rw_token_hash :: string
  rw_role :: string
  rw_created_by :: "string option"
  rw_created_at :: time
  rw_expires_at :: "time option"
  rw_revoked_at :: "time option"
  rw_last_used_at :: "time option"

record pg_tokens =
  ps_rows :: "token_row tbl"
  ps_fault :: "storage_error option"

definition decode_token :: "token_row \<Rightarrow> security_error + api_token_record" where
  "decode_token w =
     rbind (ok_or AuditFailure (role_from_str_strict (rw_role w))) (\<lambda>r.
       Inr \<lparr>tk_id = rw_id w, tk_name = rw_name w, tk_role = r, tk_secret_hash = rw_token_hash w,
            tk_created_by = rw_created_by w, tk_created_at = rw_created_at w,
            tk_expires_at = rw_expires_at w, tk_last_used_at = rw_last_used_at w,
            tk_revoked_at = rw_revoked_at w\<rparr>)"

definition encode_token :: "api_token_record \<Rightarrow> token_row" where
  "encode_token r =
     \<lparr>rw_id = tk_id r, rw_name = tk_name r, rw_token_hash = tk_secret_hash r,
      rw_role = role_as_str (tk_role r), rw_created_by = tk_created_by r,
      rw_created_at = tk_created_at r, rw_expires_at = tk_expires_at r,
      rw_revoked_at = tk_revoked_at r, rw_last_used_at = tk_last_used_at r\<rparr>"

definition pg_insert :: "api_token_record \<Rightarrow> (pg_tokens, security_error, unit) op" where
  "pg_insert r s =
     (if ps_fault s \<noteq> None \<or> tbl_get (ps_rows s) (tk_id r) \<noteq> None then (Inl AuditFailure, s)
      else (Inr (), s\<lparr>ps_rows := tbl_put (tk_id r) (encode_token r) (ps_rows s)\<rparr>))"

definition pg_get :: "uuid \<Rightarrow> pg_tokens \<Rightarrow> security_error + api_token_record option" where
  "pg_get i s =
     (if ps_fault s \<noteq> None then Inl AuditFailure
      else case tbl_get (ps_rows s) i of
             None \<Rightarrow> Inr None
           | Some w \<Rightarrow> rbind (decode_token w) (\<lambda>r. Inr (Some r)))"

fun decode_all :: "token_row list \<Rightarrow> security_error + api_token_record list" where
  "decode_all [] = Inr []"
| "decode_all (w # ws) = rbind (decode_token w) (\<lambda>r. rbind (decode_all ws) (\<lambda>rs. Inr (r # rs)))"

definition pg_list :: "pg_tokens \<Rightarrow> security_error + api_token_record list" where
  "pg_list s =
     (if ps_fault s \<noteq> None then Inl AuditFailure
      else decode_all (take 100 (rev (map snd (ps_rows s)))))"

definition pg_revoke :: "uuid \<Rightarrow> time \<Rightarrow> (pg_tokens, security_error, bool) op" where
  "pg_revoke i t s =
     (if ps_fault s \<noteq> None then (Inl AuditFailure, s)
      else case tbl_get (ps_rows s) i of
             None \<Rightarrow> (Inr False, s)
           | Some w \<Rightarrow>
               (Inr True,
                if rw_revoked_at w = None
                then s\<lparr>ps_rows := tbl_put i (w\<lparr>rw_revoked_at := Some t\<rparr>) (ps_rows s)\<rparr> else s))"

definition pg_touch :: "uuid \<Rightarrow> time \<Rightarrow> (pg_tokens, security_error, unit) op" where
  "pg_touch i t s =
     (if ps_fault s \<noteq> None then (Inl AuditFailure, s)
      else case tbl_get (ps_rows s) i of
             None \<Rightarrow> (Inr (), s)
           | Some w \<Rightarrow> (Inr (), s\<lparr>ps_rows := tbl_put i (w\<lparr>rw_last_used_at := Some t\<rparr>) (ps_rows s)\<rparr>))"

definition postgres_store :: "pg_tokens token_ops" where
  "postgres_store =
     \<lparr>to_insert = pg_insert, to_get = pg_get, to_list = pg_list, to_revoke = pg_revoke,
      to_touch = pg_touch\<rparr>"

section \<open>The audit log\<close>

record audit_entry =
  au_id :: uuid
  au_timestamp :: time
  au_actor :: string
  au_action :: string
  au_resource_type :: string
  au_resource_id :: "string option"
  au_outcome :: string
  au_ip :: "string option"
  au_metadata :: json

text \<open>The log on Postgres, keyed by the entry's id, and the one in memory.\<close>

record audit_log =
  al_rows :: "audit_entry tbl"
  al_fault :: "storage_error option"

definition stored_metadata :: "json \<Rightarrow> json" where
  "stored_metadata m = (case m of JNull \<Rightarrow> JObject [] | other \<Rightarrow> other)"

definition audit_append :: "audit_entry \<Rightarrow> (audit_log, security_error, unit) op" where
  "audit_append e l =
     (if al_fault l \<noteq> None \<or> tbl_get (al_rows l) (au_id e) \<noteq> None then (Inl AuditFailure, l)
      else (Inr (), l\<lparr>al_rows := tbl_put (au_id e) (e\<lparr>au_metadata := stored_metadata (au_metadata e)\<rparr>) (al_rows l)\<rparr>))"

definition audit_list :: "uuid option \<Rightarrow> nat \<Rightarrow> audit_log \<Rightarrow> security_error + audit_entry list" where
  "audit_list cursor limit l =
     (if al_fault l \<noteq> None then Inl AuditFailure
      else Inr (take (clamp_limit limit) (rev (tbl_select (\<lambda>e. after_cursor cursor (au_id e)) (al_rows l)))))"

definition audit_list_by_resource :: "string \<Rightarrow> string \<Rightarrow> audit_log \<Rightarrow> security_error + audit_entry list" where
  "audit_list_by_resource ty rid l =
     (if al_fault l \<noteq> None then Inl AuditFailure
      else Inr (take 100 (rev (tbl_select
             (\<lambda>e. au_resource_type e = ty \<and> au_resource_id e = Some rid) (al_rows l)))))"

definition mem_audit_append :: "audit_entry \<Rightarrow> audit_entry list \<Rightarrow> audit_entry list" where
  "mem_audit_append e es = es @ [e]"

definition mem_audit_list :: "uuid option \<Rightarrow> nat \<Rightarrow> audit_entry list \<Rightarrow> audit_entry list" where
  "mem_audit_list cursor limit es =
     take (clamp_limit limit) (sort_key (\<lambda>e. - int (au_id e)) (filter (\<lambda>e. after_cursor cursor (au_id e)) es))"

definition mem_audit_list_by_resource :: "string \<Rightarrow> string \<Rightarrow> audit_entry list \<Rightarrow> audit_entry list" where
  "mem_audit_list_by_resource ty rid es =
     take (clamp_limit 100)
       (sort_key (\<lambda>e. - int (au_id e))
          (filter (\<lambda>e. au_resource_type e = ty \<and> au_resource_id e = Some rid) es))"

section \<open>What callers rely on\<close>

definition revoke_at :: "time \<Rightarrow> api_token_record \<Rightarrow> api_token_record" where
  "revoke_at t r = r\<lparr>tk_revoked_at := Some (case tk_revoked_at r of Some t0 \<Rightarrow> t0 | None \<Rightarrow> t)\<rparr>"

definition touch_at :: "time \<Rightarrow> api_token_record \<Rightarrow> api_token_record" where
  "touch_at t r = r\<lparr>tk_last_used_at := Some t\<rparr>"

text \<open>Sequences of store calls, run on an implementation and on the abstract map.\<close>

datatype token_cmd =
    InsertToken api_token_record | GetToken uuid | RevokeToken uuid time | TouchToken uuid time

datatype token_answer =
    InsertAnswer "security_error + unit"
  | GetAnswer "security_error + api_token_record option"
  | RevokeAnswer "security_error + bool"
  | TouchAnswer "security_error + unit"

fun exec_token_cmd :: "'s token_ops \<Rightarrow> token_cmd \<Rightarrow> 's \<Rightarrow> token_answer \<times> 's" where
  "exec_token_cmd ops (InsertToken r) s = (let (a, s') = to_insert ops r s in (InsertAnswer a, s'))"
| "exec_token_cmd ops (GetToken i) s = (GetAnswer (to_get ops i s), s)"
| "exec_token_cmd ops (RevokeToken i t) s = (let (a, s') = to_revoke ops i t s in (RevokeAnswer a, s'))"
| "exec_token_cmd ops (TouchToken i t) s = (let (a, s') = to_touch ops i t s in (TouchAnswer a, s'))"

fun run_tokens :: "'s token_ops \<Rightarrow> token_cmd list \<Rightarrow> 's \<Rightarrow> token_answer list \<times> 's" where
  "run_tokens ops [] s = ([], s)"
| "run_tokens ops (c # cs) s =
     (let (a, s1) = exec_token_cmd ops c s; (as, s2) = run_tokens ops cs s1 in (a # as, s2))"

type_synonym token_map = "uuid \<rightharpoonup> api_token_record"

fun spec_cmd :: "token_cmd \<Rightarrow> token_map \<Rightarrow> token_answer \<times> token_map" where
  "spec_cmd (InsertToken r) m = (InsertAnswer (Inr ()), m(tk_id r \<mapsto> r))"
| "spec_cmd (GetToken i) m = (GetAnswer (Inr (m i)), m)"
| "spec_cmd (RevokeToken i t) m = (RevokeAnswer (Inr (m i \<noteq> None)), m(i := map_option (revoke_at t) (m i)))"
| "spec_cmd (TouchToken i t) m = (TouchAnswer (Inr ()), m(i := map_option (touch_at t) (m i)))"

fun spec_tokens :: "token_cmd list \<Rightarrow> token_map \<Rightarrow> token_answer list \<times> token_map" where
  "spec_tokens [] m = ([], m)"
| "spec_tokens (c # cs) m =
     (let (a, m1) = spec_cmd c m; (as, m2) = spec_tokens cs m1 in (a # as, m2))"

text \<open>Ids come from \<open>Uuid::now_v7\<close>: an insertion uses an id that is not in the store.\<close>

fun fresh_cmd :: "token_cmd \<Rightarrow> token_map \<Rightarrow> bool" where
  "fresh_cmd (InsertToken r) m \<longleftrightarrow> m (tk_id r) = None"
| "fresh_cmd _ m \<longleftrightarrow> True"

fun fresh_cmds :: "token_cmd list \<Rightarrow> token_map \<Rightarrow> bool" where
  "fresh_cmds [] m \<longleftrightarrow> True"
| "fresh_cmds (c # cs) m \<longleftrightarrow> fresh_cmd c m \<and> fresh_cmds cs (snd (spec_cmd c m))"

locale api_token_store =
  fixes ops :: "'s token_ops"
    and abs :: "'s \<Rightarrow> token_map"
    and good up :: "'s \<Rightarrow> bool"
  assumes get_up: "good s \<Longrightarrow> up s \<Longrightarrow> to_get ops i s = Inr (abs s i)"
    and get_answer: "good s \<Longrightarrow> to_get ops i s = Inr x \<Longrightarrow> x = abs s i"
    and insert_up: "good s \<Longrightarrow> up s \<Longrightarrow> abs s (tk_id r) = None \<Longrightarrow>
      fst (to_insert ops r s) = Inr ()"
    and insert_effect: "good s \<Longrightarrow> abs s (tk_id r) = None \<Longrightarrow> to_insert ops r s = (a, s') \<Longrightarrow>
      good s' \<and> (up s' \<longleftrightarrow> up s) \<and>
      abs s' = (case a of Inr _ \<Rightarrow> (abs s)(tk_id r \<mapsto> r) | Inl _ \<Rightarrow> abs s)"
    and revoke_up: "good s \<Longrightarrow> up s \<Longrightarrow> fst (to_revoke ops i t s) = Inr (abs s i \<noteq> None)"
    and revoke_effect: "good s \<Longrightarrow> to_revoke ops i t s = (b, s') \<Longrightarrow>
      good s' \<and> (up s' \<longleftrightarrow> up s) \<and>
      abs s' = (case b of Inr _ \<Rightarrow> (abs s)(i := map_option (revoke_at t) (abs s i)) | Inl _ \<Rightarrow> abs s)"
    and touch_up: "good s \<Longrightarrow> up s \<Longrightarrow> fst (to_touch ops i t s) = Inr ()"
    and touch_effect: "good s \<Longrightarrow> to_touch ops i t s = (a, s') \<Longrightarrow>
      good s' \<and> (up s' \<longleftrightarrow> up s) \<and>
      abs s' = (case a of Inr _ \<Rightarrow> (abs s)(i := map_option (touch_at t) (abs s i)) | Inl _ \<Rightarrow> abs s)"
begin

lemma cmd_refines:
  assumes "good s" "up s" "fresh_cmd c (abs s)"
  shows "good (snd (exec_token_cmd ops c s)) \<and> up (snd (exec_token_cmd ops c s))
    \<and> (fst (exec_token_cmd ops c s), abs (snd (exec_token_cmd ops c s))) = spec_cmd c (abs s)"
proof (cases c)
  case (InsertToken r)
  then have fresh: "abs s (tk_id r) = None" using assms(3) by simp
  obtain a s' where a: "to_insert ops r s = (a, s')" by (cases "to_insert ops r s")
  moreover have "a = Inr ()" using insert_up [OF assms(1,2) fresh] a by simp
  ultimately show ?thesis using insert_effect [OF assms(1) fresh a] InsertToken assms(2) by simp
next
  case (GetToken i)
  then show ?thesis using assms get_up by simp
next
  case (RevokeToken i t)
  obtain a s' where a: "to_revoke ops i t s = (a, s')" by (cases "to_revoke ops i t s")
  moreover have "a = Inr (abs s i \<noteq> None)" using revoke_up [OF assms(1,2), of i t] a by simp
  ultimately show ?thesis using revoke_effect [OF assms(1) a] RevokeToken assms(2) by simp
next
  case (TouchToken i t)
  obtain a s' where a: "to_touch ops i t s = (a, s')" by (cases "to_touch ops i t s")
  moreover have "a = Inr ()" using touch_up [OF assms(1,2), of i t] a by simp
  ultimately show ?thesis using touch_effect [OF assms(1) a] TouchToken assms(2) by simp
qed

lemma run_refines:
  assumes "good s" "up s" "fresh_cmds cs (abs s)"
  shows "good (snd (run_tokens ops cs s)) \<and> up (snd (run_tokens ops cs s))
    \<and> (fst (run_tokens ops cs s), abs (snd (run_tokens ops cs s))) = spec_tokens cs (abs s)"
  using assms
proof (induction cs arbitrary: s)
  case Nil
  then show ?case by simp
next
  case (Cons c cs)
  obtain a s1 where c: "exec_token_cmd ops c s = (a, s1)" by (cases "exec_token_cmd ops c s")
  from Cons.prems cmd_refines [of s c] c
  have s1: "good s1" "up s1" "spec_cmd c (abs s) = (a, abs s1)" by auto
  with Cons.prems have "fresh_cmds cs (abs s1)" by simp
  from Cons.IH [OF s1(1,2) this] show ?case
    using c s1(3) by (auto simp: Let_def split: prod.splits)
qed

end

section \<open>Both implementations keep the contract\<close>

lemma revoke_at_id [simp]: "tk_id (revoke_at t r) = tk_id r"
  by (simp add: revoke_at_def)

lemma touch_at_id [simp]: "tk_id (touch_at t r) = tk_id r"
  by (simp add: touch_at_def)

definition mem_good :: "api_token_record tbl \<Rightarrow> bool" where
  "mem_good s \<longleftrightarrow> tbl_ok s"

interpretation memory: api_token_store memory_store tbl_get mem_good "\<lambda>s. True"
  by unfold_locales
    (auto simp: memory_store_def mem_get_def mem_insert_def mem_revoke_def mem_touch_def mem_good_def
      revoke_at_def touch_at_def fun_eq_iff split: option.splits)

lemma role_round_trip [simp]: "role_from_str_strict (role_as_str r) = Some r"
  by (cases r) (simp_all add: role_from_str_strict_def)

lemma decode_encode [simp]: "decode_token (encode_token r) = Inr r"
  by (simp add: decode_token_def encode_token_def)

text \<open>A stored row is the encoding of a token.\<close>

definition pg_good :: "pg_tokens \<Rightarrow> bool" where
  "pg_good s \<longleftrightarrow> tbl_ok (ps_rows s) \<and> (\<forall>i w. tbl_get (ps_rows s) i = Some w \<longrightarrow> (\<exists>r. w = encode_token r))"

definition pg_abs :: "pg_tokens \<Rightarrow> token_map" where
  "pg_abs s i =
     (case tbl_get (ps_rows s) i of
        None \<Rightarrow> None
      | Some w \<Rightarrow> (case decode_token w of Inr r \<Rightarrow> Some r | Inl _ \<Rightarrow> None))"

lemma encode_update [simp]:
  "(encode_token r)\<lparr>rw_revoked_at := x\<rparr> = encode_token (r\<lparr>tk_revoked_at := x\<rparr>)"
  "(encode_token r)\<lparr>rw_last_used_at := x\<rparr> = encode_token (r\<lparr>tk_last_used_at := x\<rparr>)"
  "rw_revoked_at (encode_token r) = tk_revoked_at r"
  by (simp_all add: encode_token_def)

lemma pg_good_put:
  "pg_good s \<Longrightarrow> pg_good (s\<lparr>ps_rows := tbl_put i (encode_token r) (ps_rows s)\<rparr>)"
  by (auto simp: pg_good_def)

lemma pg_abs_put:
  "pg_abs (s\<lparr>ps_rows := tbl_put i (encode_token r) (ps_rows s)\<rparr>) = (pg_abs s)(i \<mapsto> r)"
  by (auto simp: pg_abs_def fun_eq_iff)

lemma pg_row:
  assumes "pg_good s"
  shows "(tbl_get (ps_rows s) i = None \<and> pg_abs s i = None)
    \<or> (\<exists>r. tbl_get (ps_rows s) i = Some (encode_token r) \<and> pg_abs s i = Some r)"
proof (cases "tbl_get (ps_rows s) i")
  case (Some w)
  then obtain r where "w = encode_token r" using assms by (auto simp: pg_good_def)
  with Some show ?thesis by (simp add: pg_abs_def)
qed (simp add: pg_abs_def)

lemma upd_same: "m i = v \<Longrightarrow> m(i := v) = m"
  by auto

interpretation postgres: api_token_store postgres_store pg_abs pg_good "\<lambda>s. ps_fault s = None"
proof unfold_locales
  fix s i assume "pg_good s" "ps_fault s = None"
  then show "to_get postgres_store i s = Inr (pg_abs s i)"
    using pg_row [of s i] by (auto simp: postgres_store_def pg_get_def)
next
  fix s i x assume "pg_good s" "to_get postgres_store i s = Inr x"
  then show "x = pg_abs s i"
    using pg_row [of s i] by (auto simp: postgres_store_def pg_get_def split: if_splits)
next
  fix s :: pg_tokens and r :: api_token_record
  assume "pg_good s" "ps_fault s = None" "pg_abs s (tk_id r) = None"
  then show "fst (to_insert postgres_store r s) = Inr ()"
    using pg_row [of s "tk_id r"] by (auto simp: postgres_store_def pg_insert_def)
next
  fix s s' :: pg_tokens and r :: api_token_record and a
  assume "pg_good s" "pg_abs s (tk_id r) = None" "to_insert postgres_store r s = (a, s')"
  then show "pg_good s' \<and> (ps_fault s' = None) = (ps_fault s = None)
      \<and> pg_abs s' = (case a of Inr _ \<Rightarrow> (pg_abs s)(tk_id r \<mapsto> r) | Inl _ \<Rightarrow> pg_abs s)"
    using pg_good_put pg_abs_put by (auto simp: postgres_store_def pg_insert_def split: if_splits)
next
  fix s i t assume "pg_good s" "ps_fault s = None"
  then show "fst (to_revoke postgres_store i t s) = Inr (pg_abs s i \<noteq> None)"
    using pg_row [of s i] by (auto simp: postgres_store_def pg_revoke_def)
next
  fix s i t a s' assume "pg_good s" "to_revoke postgres_store i t s = (a, s')"
  then show "pg_good s' \<and> (ps_fault s' = None) = (ps_fault s = None)
      \<and> pg_abs s' = (case a of Inr _ \<Rightarrow> (pg_abs s)(i := map_option (revoke_at t) (pg_abs s i)) | Inl _ \<Rightarrow> pg_abs s)"
    using pg_row [of s i] pg_good_put pg_abs_put
    by (auto simp: postgres_store_def pg_revoke_def revoke_at_def upd_same split: if_splits option.splits)
next
  fix s i t assume "pg_good s" "ps_fault s = None"
  then show "fst (to_touch postgres_store i t s) = Inr ()"
    by (auto simp: postgres_store_def pg_touch_def split: option.splits)
next
  fix s i t a s' assume "pg_good s" "to_touch postgres_store i t s = (a, s')"
  then show "pg_good s' \<and> (ps_fault s' = None) = (ps_fault s = None)
      \<and> pg_abs s' = (case a of Inr _ \<Rightarrow> (pg_abs s)(i := map_option (touch_at t) (pg_abs s i)) | Inl _ \<Rightarrow> pg_abs s)"
    using pg_row [of s i] pg_good_put pg_abs_put
    by (auto simp: postgres_store_def pg_touch_def touch_at_def upd_same split: if_splits)
qed

definition empty_pg :: pg_tokens where
  "empty_pg = \<lparr>ps_rows = [], ps_fault = None\<rparr>"

lemma empty_stores: "mem_good []" "pg_good empty_pg" "pg_abs empty_pg = Map.empty" "tbl_get [] = Map.empty"
  by (auto simp: mem_good_def pg_good_def empty_pg_def pg_abs_def tbl_ok_def tbl_get_def)

section \<open>Properties\<close>


definition sample_token :: api_token_record where
  "sample_token = \<lparr>tk_id = 3, tk_name = ''ci'', tk_role = Operator, tk_secret_hash = ''h'', tk_created_by = None,
     tk_created_at = 0, tk_expires_at = Some 100, tk_last_used_at = None, tk_revoked_at = None\<rparr>"


end
