(* ===== verification/Api.thy ===== *)
theory Api
  imports Auth Jobs
begin

text \<open>
  The parts of the HTTP API that every handler uses, \<open>crates/core-api\<close>: the mapping of errors to
  HTTP statuses (\<open>error.rs\<close>), cursor pagination (\<open>pagination.rs\<close>) and, as its client, the job
  listing (\<open>jobs.rs\<close>). An API error is its status and its error code; messages are left out.

  The locale \<open>cursor_listing\<close> states what a listing has to promise so that a client who follows
  \<open>next_cursor\<close> sees every row exactly once; it is interpreted on the listings of the jobs and of
  the audit log.
\<close>

section \<open>Errors\<close>

datatype api_error = ApiError nat string

definition bad_request :: api_error where "bad_request = ApiError 400 ''bad_request''"
definition unauthorized :: api_error where "unauthorized = ApiError 401 ''unauthorized''"
definition forbidden :: api_error where "forbidden = ApiError 403 ''forbidden''"
definition not_found :: api_error where "not_found = ApiError 404 ''not_found''"
definition conflict :: api_error where "conflict = ApiError 409 ''conflict''"
definition unprocessable :: api_error where "unprocessable = ApiError 422 ''unprocessable''"
definition internal :: api_error where "internal = ApiError 500 ''internal''"
definition unavailable :: api_error where "unavailable = ApiError 503 ''unavailable''"

fun security_api_error :: "security_error \<Rightarrow> api_error" where
  "security_api_error Unauthenticated = unauthorized"
| "security_api_error JwtInvalid = unauthorized"
| "security_api_error MalformedApiToken = unauthorized"
| "security_api_error TokenRevoked = unauthorized"
| "security_api_error TokenExpired = unauthorized"
| "security_api_error (Forbidden _ _) = forbidden"
| "security_api_error (TokenNotFound _) = not_found"
| "security_api_error (JwtSecretTooShort _) = internal"
| "security_api_error _ = unprocessable"

fun storage_api_error :: "storage_error \<Rightarrow> api_error" where
  "storage_api_error NotFound = not_found"
| "storage_api_error Conflict = conflict"
| "storage_api_error ConstraintViolation = bad_request"
| "storage_api_error Configuration = bad_request"
| "storage_api_error Timeout = ApiError 504 ''timeout''"
| "storage_api_error Unavailable = unavailable"
| "storage_api_error _ = internal"

fun job_api_error :: "job_error \<Rightarrow> api_error" where
  "job_api_error (JobNotFound _) = not_found"
| "job_api_error (InvalidTransition _ _) = conflict"
| "job_api_error (NotDispatchable _ _) = conflict"
| "job_api_error (NotRetryable _ _) = conflict"
| "job_api_error (JobStorage e) = storage_api_error e"
| "job_api_error (JobEvent _) = internal"

definition map_err :: "('e \<Rightarrow> 'f) \<Rightarrow> 'e + 'a \<Rightarrow> 'f + 'a" where
  "map_err f r = (case r of Inl e \<Rightarrow> Inl (f e) | Inr x \<Rightarrow> Inr x)"

lemma map_err_simps [simp]: "map_err f (Inl e) = Inl (f e)" "map_err f (Inr x) = Inr x"
  by (simp_all add: map_err_def)

section \<open>Pagination\<close>

record pagination =
  pg_cursor :: "string option"
  pg_limit :: "nat option"

record 'r cursor_page =
  cp_items :: "'r list"
  cp_next_cursor :: "string option"

definition from_items :: "(uuid \<Rightarrow> string) \<Rightarrow> 'r list \<Rightarrow> nat \<Rightarrow> ('r \<Rightarrow> uuid) \<Rightarrow> 'r cursor_page" where
  "from_items show_uuid items limit id_of =
     \<lparr>cp_items = items,
      cp_next_cursor =
        (if limit \<le> length items then (if items = [] then None else Some (show_uuid (id_of (last items))))
         else None)\<rparr>"

text \<open>
  \<open>parse_uuid\<close> is \<open>Uuid::parse_str\<close>, \<open>b64\<close> the decoding of the two base64 alphabets followed by
  \<open>String::from_utf8\<close>.
\<close>

definition decode_cursor ::
  "(string \<Rightarrow> uuid option) \<Rightarrow> (string \<Rightarrow> string option) \<Rightarrow> string \<Rightarrow> api_error + uuid" where
  "decode_cursor parse_uuid b64 raw =
     (case parse_uuid raw of
        Some i \<Rightarrow> Inr i
      | None \<Rightarrow>
          rbind (ok_or bad_request (b64 raw)) (\<lambda>text. ok_or bad_request (parse_uuid (trim text))))"

definition decode_pagination ::
  "(string \<Rightarrow> uuid option) \<Rightarrow> (string \<Rightarrow> string option) \<Rightarrow> pagination
     \<Rightarrow> api_error + (uuid option \<times> nat)" where
  "decode_pagination parse_uuid b64 p =
     (let limit = clamp_nat 1 100 (case pg_limit p of None \<Rightarrow> 20 | Some n \<Rightarrow> n)
      in case pg_cursor p of
           None \<Rightarrow> Inr (None, limit)
         | Some raw \<Rightarrow>
             if raw = [] then Inr (None, limit)
             else rbind (decode_cursor parse_uuid b64 raw) (\<lambda>i. Inr (Some i, limit)))"

definition list_handler ::
  "(uuid \<Rightarrow> string) \<Rightarrow> (string \<Rightarrow> uuid option) \<Rightarrow> (string \<Rightarrow> string option) \<Rightarrow> ('r \<Rightarrow> uuid)
     \<Rightarrow> (uuid option \<Rightarrow> nat \<Rightarrow> api_error + 'r list) \<Rightarrow> pagination \<Rightarrow> api_error + 'r cursor_page" where
  "list_handler show_uuid parse_uuid b64 id_of list_rows p =
     rbind (decode_pagination parse_uuid b64 p) (\<lambda>(after, limit).
     rbind (list_rows after limit) (\<lambda>items. Inr (from_items show_uuid items limit id_of)))"

text \<open>\<open>GET /api/v1/jobs\<close>: the job service is absent when no database is configured.\<close>

definition api_list_jobs ::
  "(uuid \<Rightarrow> string) \<Rightarrow> (string \<Rightarrow> uuid option) \<Rightarrow> (string \<Rightarrow> string option) \<Rightarrow> principal \<Rightarrow> db option
     \<Rightarrow> job_status option \<Rightarrow> pagination \<Rightarrow> api_error + job cursor_page" where
  "api_list_jobs show_uuid parse_uuid b64 who jobs status p =
     rbind (map_err security_api_error (role_require (pr_role who) ReadPerm)) (\<lambda>_.
     rbind (ok_or unavailable jobs) (\<lambda>d.
     list_handler show_uuid parse_uuid b64 j_id
       (\<lambda>after limit. Inr (case status of
           Some st \<Rightarrow> list_jobs_by_status d st after limit
         | None \<Rightarrow> list_jobs d after limit)) p))"

text \<open>A client that follows \<open>next_cursor\<close> until there is none; the fuel bounds its requests.\<close>

fun follow_pages ::
  "(pagination \<Rightarrow> api_error + 'r cursor_page) \<Rightarrow> nat \<Rightarrow> nat \<Rightarrow> string option \<Rightarrow> 'r list option" where
  "follow_pages fetch limit 0 cursor = None"
| "follow_pages fetch limit (Suc n) cursor =
     (case fetch \<lparr>pg_cursor = cursor, pg_limit = Some limit\<rparr> of
        Inl _ \<Rightarrow> None
      | Inr page \<Rightarrow>
          (case cp_next_cursor page of
             None \<Rightarrow> Some (cp_items page)
           | Some c \<Rightarrow> map_option (append (cp_items page)) (follow_pages fetch limit n (Some c))))"

section \<open>Listings that can be walked\<close>

locale cursor_listing =
  fixes list_page :: "'s \<Rightarrow> uuid option \<Rightarrow> nat \<Rightarrow> 'r list"
    and key :: "'r \<Rightarrow> uuid"
    and rows :: "'s \<Rightarrow> 'r list"
    and ok :: "'s \<Rightarrow> bool"
  assumes rows_desc: "ok s \<Longrightarrow> sorted_wrt (>) (map key (rows s))"
    and page: "ok s \<Longrightarrow> list_page s c n = take (clamp_nat 1 100 n) (filter (\<lambda>r. after_cursor c (key r)) (rows s))"
begin

lemma rest_after:
  assumes "ok s" "rows s = xs @ ys" "xs \<noteq> []"
  shows "filter (\<lambda>r. after_cursor (Some (key (last xs))) (key r)) (rows s) = ys"
proof -
  have desc: "sorted_wrt (>) (map key (xs @ ys))" using rows_desc [OF assms(1)] assms(2) by simp
  have "key y < key (last xs)" if "y \<in> set ys" for y
    using desc that assms(3) by (auto simp: sorted_wrt_append)
  moreover have "\<not> key x < key (last xs)" if "x \<in> set xs" for x
  proof -
    have xs: "xs = butlast xs @ [last xs]" using assms(3) by simp
    have "sorted_wrt (>) (map key (butlast xs @ [last xs]))"
      using desc xs by (simp add: sorted_wrt_append)
    then have "\<forall>x \<in> set (butlast xs). key (last xs) < key x"
      by (simp add: sorted_wrt_append)
    moreover have "x \<in> set (butlast xs) \<or> x = last xs"
      using that xs by (metis Un_iff empty_iff empty_set insert_iff list.simps(15) set_append)
    ultimately show ?thesis by auto
  qed
  ultimately show ?thesis
    unfolding assms(2) filter_append
    by (simp add: after_cursor_def filter_empty_conv filter_id_conv)
qed

lemma rest_at:
  assumes "ok s" "rows s = xs @ ys"
    and "c = (if xs = [] then None else Some (key (last xs)))"
  shows "list_page s c n = take (clamp_nat 1 100 n) ys"
proof (cases "xs = []")
  case True
  then show ?thesis using assms page [OF assms(1), of c n] by (simp add: after_cursor_def)
next
  case False
  then have "c = Some (key (last xs))" using assms(3) by simp
  then show ?thesis unfolding page [OF assms(1)] by (simp only: rest_after [OF assms(1,2) False])
qed

lemma follow_from:
  assumes "ok s" "1 \<le> limit" "limit \<le> 100"
    and uuid_text: "\<And>i. parse_uuid (show_uuid i) = Some i" "\<And>i. show_uuid i \<noteq> []"
    and "rows s = xs @ ys" "length ys < fuel"
    and "c = (if xs = [] then None else Some (show_uuid (key (last xs))))"
  shows "follow_pages (list_handler show_uuid parse_uuid b64 key (\<lambda>a n. Inr (list_page s a n))) limit fuel c = Some ys"
  using assms(6-8)
proof (induction fuel arbitrary: xs ys c)
  case 0
  then show ?case by simp
next
  case (Suc fuel)
  let ?c = "if xs = [] then None else Some (key (last xs))"
  have lim: "clamp_nat 1 100 limit = limit" using assms(2,3) by (simp add: clamp_nat_def)
  have dec: "decode_pagination parse_uuid b64 \<lparr>pg_cursor = c, pg_limit = Some limit\<rparr> = Inr (?c, limit)"
    using Suc.prems(3) uuid_text by (simp add: decode_pagination_def lim [simplified] decode_cursor_def)
  have page: "list_page s ?c limit = take limit ys"
    using rest_at [OF assms(1) Suc.prems(1) refl, of limit] lim by (simp only:)
  have fetch: "list_handler show_uuid parse_uuid b64 key (\<lambda>a n. Inr (list_page s a n))
      \<lparr>pg_cursor = c, pg_limit = Some limit\<rparr> = Inr (from_items show_uuid (take limit ys) limit key)"
    by (simp add: list_handler_def dec page)
  show ?case
  proof (cases "limit \<le> length ys")
    case False
    then show ?thesis by (simp add: fetch from_items_def)
  next
    case True
    let ?p = "take limit ys"
    have ne: "?p \<noteq> []" using True assms(2) by (cases ys) auto
    have "follow_pages (list_handler show_uuid parse_uuid b64 key (\<lambda>a n. Inr (list_page s a n)))
        limit fuel (Some (show_uuid (key (last ?p)))) = Some (drop limit ys)"
      by (rule Suc.IH [of "xs @ ?p"])
        (use Suc.prems(1,2) ne True assms(2) in \<open>auto simp: last_append\<close>)
    then show ?thesis using True ne by (simp add: fetch from_items_def)
  qed
qed

end

lemma desc_rows:
  assumes "tbl_ok t" "\<And>k r. tbl_get t k = Some r \<Longrightarrow> key r = k"
  shows "sorted_wrt (>) (map key (rev (tbl_select P t)))"
  using sorted_tbl_select_key [of t key P] assms by (simp add: sorted_wrt_rev rev_map [symmetric])

lemma filter_rev_select: "filter Q (rev (tbl_select P t)) = rev (tbl_select (\<lambda>r. P r \<and> Q r) t)"
  by (simp add: tbl_select_def rev_filter conj_commute)

definition job_rows :: "db \<times> job_status option \<Rightarrow> job list" where
  "job_rows = (\<lambda>(d, st). rev (tbl_select (\<lambda>j. case st of None \<Rightarrow> True | Some x \<Rightarrow> j_status j = x) (db_jobs d)))"

definition job_page :: "db \<times> job_status option \<Rightarrow> uuid option \<Rightarrow> nat \<Rightarrow> job list" where
  "job_page = (\<lambda>(d, st) after limit.
     case st of Some x \<Rightarrow> list_jobs_by_status d x after limit | None \<Rightarrow> list_jobs d after limit)"

interpretation job_pages: cursor_listing job_page j_id job_rows "\<lambda>(d, st). job_store_ok d"
proof unfold_locales
  fix s :: "db \<times> job_status option"
  assume "case s of (d, st) \<Rightarrow> job_store_ok d"
  then show "sorted_wrt (>) (map j_id (job_rows s))"
    by (auto simp: job_rows_def job_store_ok_def get_job_def split: prod.splits intro!: desc_rows)
next
  fix s :: "db \<times> job_status option" and c n
  show "job_page s c n = take (clamp_nat 1 100 n) (filter (\<lambda>r. after_cursor c (j_id r)) (job_rows s))"
    by (auto simp: job_rows_def job_page_def filter_rev_select list_jobs_def list_jobs_by_status_def
        clamp_limit_def split: prod.splits option.splits)
qed

definition audit_page :: "audit_log \<Rightarrow> uuid option \<Rightarrow> nat \<Rightarrow> audit_entry list" where
  "audit_page l after limit = (case audit_list after limit l of Inr es \<Rightarrow> es | Inl _ \<Rightarrow> [])"

definition audit_ok :: "audit_log \<Rightarrow> bool" where
  "audit_ok l \<longleftrightarrow> al_fault l = None \<and> tbl_keyed au_id (al_rows l)"

interpretation audit_pages: cursor_listing audit_page au_id "\<lambda>l. rev (map snd (al_rows l))" audit_ok
proof unfold_locales
  fix l assume "audit_ok l"
  then have "tbl_ok (al_rows l)" "\<And>k r. tbl_get (al_rows l) k = Some r \<Longrightarrow> au_id r = k"
    by (auto simp: audit_ok_def tbl_keyed_def tbl_get_iff)
  from desc_rows [OF this, where P = "\<lambda>_. True"] show "sorted_wrt (>) (map au_id (rev (map snd (al_rows l))))"
    by (simp add: tbl_select_def)
next
  fix l c n assume "audit_ok l"
  then show "audit_page l c n
      = take (clamp_nat 1 100 n) (filter (\<lambda>r. after_cursor c (au_id r)) (rev (map snd (al_rows l))))"
    by (simp add: audit_page_def audit_list_def audit_ok_def clamp_limit_def tbl_select_def rev_filter)
qed

section \<open>Properties\<close>

text \<open>
  C32: A client that lists the jobs page by page and follows \<open>next_cursor\<close> sees every job with the
  requested status exactly once, newest first, whatever the page size, and needs at most one
  request more than there are jobs.
\<close>

theorem job_listing_complete:
  assumes "job_store_ok d" "1 \<le> limit" "limit \<le> 100"
    and "\<forall>i. parse_uuid (show_uuid i) = Some i \<and> show_uuid i \<noteq> []"
    and "length (db_jobs d) < fuel"
  shows "follow_pages (api_list_jobs show_uuid parse_uuid b64 who (Some d) status) limit fuel None
    = Some (rev (tbl_select (\<lambda>j. case status of None \<Rightarrow> True | Some st \<Rightarrow> j_status j = st) (db_jobs d)))"
proof -
  have "length (job_rows (d, status)) \<le> length (db_jobs d)"
    by (simp add: job_rows_def tbl_select_def)
  then have "follow_pages (list_handler show_uuid parse_uuid b64 j_id
      (\<lambda>a n. Inr (job_page (d, status) a n))) limit fuel None = Some (job_rows (d, status))"
    using job_pages.follow_from [of "(d, status)" limit parse_uuid show_uuid "[]" "job_rows (d, status)" fuel None b64]
      assms by simp
  moreover have "api_list_jobs show_uuid parse_uuid b64 who (Some d) status
      = list_handler show_uuid parse_uuid b64 j_id (\<lambda>a n. Inr (job_page (d, status) a n))"
    by (rule ext) (simp add: api_list_jobs_def role_require_def job_page_def)
  ultimately show ?thesis by (simp add: job_rows_def)
qed

definition unary_uuid :: "uuid \<Rightarrow> string" where
  "unary_uuid i = replicate (Suc i) (CHR ''x'')"

definition read_unary :: "string \<Rightarrow> uuid option" where
  "read_unary s = Some (length s - 1)"

definition sample_jobs :: db where
  "sample_jobs = empty_db\<lparr>db_jobs := tbl_put 7 (fresh_job 0 7 ''x'' None None) (tbl_put 5 (fresh_job 0 5 ''x'' None None) [])\<rparr>"

theorem job_listing_complete_witness:
  "map_option (map j_id)
     (follow_pages (api_list_jobs unary_uuid read_unary (\<lambda>_. None) \<lparr>pr_subject = ''s'', pr_role = Viewer, pr_auth_method = Jwt\<rparr>
        (Some sample_jobs) None) 1 3 None) = Some [7, 5]"
proof -
  have ids: "j_id (fresh_job 0 i ''x'' None None) = i" for i by (simp add: fresh_job_def)
  have e: "job_store_ok empty_db"
    by (simp add: job_store_ok_def empty_db_def get_job_def tbl_ok_def)
  have "job_store_ok sample_jobs"
    using job_store_ok_put [OF job_store_ok_put [OF e fresh_job_wf] fresh_job_wf,
        of 0 5 "''x''" None None 0 7 "''x''" None None]
    unfolding sample_jobs_def ids by (simp add: empty_db_def)
  then show ?thesis
    using job_listing_complete [of sample_jobs 1 read_unary unary_uuid 3 "\<lambda>_. None"
        "\<lparr>pr_subject = ''s'', pr_role = Viewer, pr_auth_method = Jwt\<rparr>" None]
    by (simp add: read_unary_def unary_uuid_def sample_jobs_def tbl_select_def fresh_job_def)
qed

end
