(* ===== verification/AuthApi.thy ===== *)
theory AuthApi
  imports Api
begin

text \<open>
  Authentication and authorisation of the HTTP API: JWT verification
  (\<open>crates/core-security/src/jwt.rs\<close>), the middleware (\<open>crates/core-api/src/middleware.rs\<close>) and the
  admin-only token handlers (\<open>tokens.rs\<close>), composed as \<open>routes.rs\<close> composes them. The operations take
  the token store as a record of operations, so the theorems hold for both implementations.

  A fresh UUID, the clock and the random secret are arguments. The decoding of a JWT is a
  parameter (\<open>jsonwebtoken\<close>). An audit row that cannot be written does not stop a request, as in
  the code.
\<close>

record 's app_state =
  ap_tokens :: 's
  ap_audit :: audit_log

record request =
  rq_authorization :: "string option"
  rq_path :: string
  rq_ip :: "string option"

section \<open>JWT\<close>

record claims =
  cl_sub :: string
  cl_role :: role
  cl_iss :: string
  cl_iat :: int
  cl_exp :: int
  cl_jti :: string

definition is_ascii :: "char \<Rightarrow> bool" where
  "is_ascii c \<longleftrightarrow> (of_char c :: nat) < 128"

definition MIN_SECRET_LEN :: nat where
  "MIN_SECRET_LEN = 32"

definition jwt_new :: "string \<Rightarrow> security_error + unit" where
  "jwt_new secret =
     (if length secret < MIN_SECRET_LEN then Inl (JwtSecretTooShort (length secret))
      else if \<exists>b \<in> set secret. \<not> is_ascii b then Inl JwtEncode
      else Inr ())"

definition jwt_verify :: "(string \<Rightarrow> claims option) \<Rightarrow> string \<Rightarrow> security_error + claims" where
  "jwt_verify decode token =
     (if \<exists>b \<in> set token. \<not> is_ascii b then Inl JwtInvalid else ok_or JwtInvalid (decode token))"

section \<open>Audit entries\<close>

definition new_entry ::
  "uuid \<Rightarrow> time \<Rightarrow> string \<Rightarrow> string \<Rightarrow> string \<Rightarrow> string option \<Rightarrow> string \<Rightarrow> audit_entry" where
  "new_entry i now actor action resource_type resource_id outcome =
     \<lparr>au_id = i, au_timestamp = now, au_actor = actor, au_action = action,
      au_resource_type = resource_type, au_resource_id = resource_id, au_outcome = outcome,
      au_ip = None, au_metadata = JNull\<rparr>"

text \<open>\<open>audit\<close>: a failing append is logged and otherwise ignored.\<close>

definition audit :: "audit_entry \<Rightarrow> 's app_state \<Rightarrow> 's app_state" where
  "audit e s = s\<lparr>ap_audit := snd (audit_append e (ap_audit s))\<rparr>"

section \<open>Authentication\<close>

definition extract_bearer :: "request \<Rightarrow> api_error + string" where
  "extract_bearer rq =
     rbind (ok_or unauthorized (rq_authorization rq)) (\<lambda>header.
     rbind (ok_or unauthorized
         (case strip_prefix ''Bearer '' header of
            Some t \<Rightarrow> Some t
          | None \<Rightarrow> strip_prefix ''bearer '' header)) (\<lambda>t.
     (let token = trim t in if token = [] then Inl unauthorized else Inr token)))"

definition authenticate_jwt :: "(string \<Rightarrow> claims option) \<Rightarrow> string \<Rightarrow> api_error + principal" where
  "authenticate_jwt decode token =
     rbind (map_err security_api_error (jwt_verify decode token)) (\<lambda>c.
       Inr \<lparr>pr_subject = cl_sub c, pr_role = cl_role c, pr_auth_method = Jwt\<rparr>)"

definition check_api_token ::
  "crypto \<Rightarrow> 's token_ops \<Rightarrow> time \<Rightarrow> string \<Rightarrow> 's \<Rightarrow> api_error + (presented_token \<times> api_token_record)" where
  "check_api_token cr ops now token s =
     rbind (map_err security_api_error (parse_presented_token cr token)) (\<lambda>presented.
     rbind (map_err security_api_error (to_get ops (pt_id presented) s)) (\<lambda>found.
     rbind (ok_or unauthorized found) (\<lambda>record.
     rbind (map_err security_api_error (ensure_usable record now)) (\<lambda>_.
     rbind (map_err security_api_error (verify_secret cr (pt_secret presented) (tk_secret_hash record))) (\<lambda>verified.
     rbind (rguard verified unauthorized) (\<lambda>_. Inr (presented, record)))))))"

definition authenticate_api_token ::
  "crypto \<Rightarrow> 's token_ops \<Rightarrow> time \<Rightarrow> string \<Rightarrow> ('s, api_error, principal) op" where
  "authenticate_api_token cr ops now token s =
     (case check_api_token cr ops now token s of
        Inl e \<Rightarrow> (Inl e, s)
      | Inr (presented, record) \<Rightarrow>
          (Inr \<lparr>pr_subject = ''token:'' @ tk_name record, pr_role = tk_role record, pr_auth_method = ApiToken\<rparr>,
           snd (to_touch ops (pt_id presented) now s)))"

definition resolve_principal ::
  "(string \<Rightarrow> claims option) \<Rightarrow> crypto \<Rightarrow> 's token_ops \<Rightarrow> time \<Rightarrow> api_error + string
     \<Rightarrow> ('s, api_error, principal) op" where
  "resolve_principal decode cr ops now credential s =
     (case credential of
        Inl e \<Rightarrow> (Inl e, s)
      | Inr token \<Rightarrow>
          if starts_with ''osint_'' token then authenticate_api_token cr ops now token s
          else (authenticate_jwt decode token, s))"

fun error_status :: "api_error \<Rightarrow> nat" where
  "error_status (ApiError status _) = status"

fun error_code :: "api_error \<Rightarrow> string" where
  "error_code (ApiError _ code) = code"

definition authenticate ::
  "(string \<Rightarrow> claims option) \<Rightarrow> crypto \<Rightarrow> 's token_ops \<Rightarrow> time \<Rightarrow> uuid \<Rightarrow> request
     \<Rightarrow> ('s app_state, api_error, principal) op" where
  "authenticate decode cr ops now audit_id rq s =
     (case resolve_principal decode cr ops now (extract_bearer rq) (ap_tokens s) of
        (Inr p, tokens) \<Rightarrow> (Inr p, s\<lparr>ap_tokens := tokens\<rparr>)
      | (Inl e, tokens) \<Rightarrow>
          (Inl e, audit ((new_entry audit_id now ''anonymous'' ''auth.failed'' ''auth'' None ''denied'')
             \<lparr>au_ip := rq_ip rq,
              au_metadata := JObject [(''path'', JString (rq_path rq)), (''reason'', JString (error_code e)),
                (''status'', JNumber (of_nat (error_status e)))]\<rparr>)
             (s\<lparr>ap_tokens := tokens\<rparr>)))"

section \<open>Authorisation\<close>

datatype rbac_check = RbacAllowed | RbacDenied string role permission | NotAuthenticated

definition check_role :: "principal option \<Rightarrow> permission \<Rightarrow> rbac_check" where
  "check_role who p =
     (case who of
        None \<Rightarrow> NotAuthenticated
      | Some q \<Rightarrow> if allows (pr_role q) p then RbacAllowed else RbacDenied (pr_subject q) (pr_role q) p)"

definition enforce :: "time \<Rightarrow> uuid \<Rightarrow> request \<Rightarrow> rbac_check \<Rightarrow> ('s app_state, api_error, unit) op" where
  "enforce now audit_id rq checked s =
     (case checked of
        RbacAllowed \<Rightarrow> (Inr (), s)
      | NotAuthenticated \<Rightarrow> (Inl unauthorized, s)
      | RbacDenied subject r p \<Rightarrow>
          (Inl (security_api_error (Forbidden (role_as_str r) (permission_as_str p))),
           audit ((new_entry audit_id now subject ''authz.denied'' ''auth'' None ''denied'')
             \<lparr>au_ip := rq_ip rq,
              au_metadata := JObject [(''path'', JString (rq_path rq)), (''required_permission'', JString (permission_as_str p)),
                (''role'', JString (role_as_str r))]\<rparr>) s))"

text \<open>
  A protected route: \<open>authenticate\<close>, then \<open>require_write\<close> or \<open>require_admin\<close>, then the handler.
  The ids are those of the audit rows the two layers may write.
\<close>

definition protected_route ::
  "(string \<Rightarrow> claims option) \<Rightarrow> crypto \<Rightarrow> 's token_ops \<Rightarrow> time \<Rightarrow> uuid \<Rightarrow> permission \<Rightarrow> request
     \<Rightarrow> (principal \<Rightarrow> ('s app_state, api_error, 'a) op) \<Rightarrow> ('s app_state, api_error, 'a) op" where
  "protected_route decode cr ops now audit_id perm rq handler =
     op_bind (authenticate decode cr ops now audit_id rq) (\<lambda>p.
     op_bind (enforce now audit_id rq (check_role (Some p) perm)) (\<lambda>_. handler p))"

section \<open>The token handlers\<close>

definition MAX_EXPIRES_IN_DAYS :: int where
  "MAX_EXPIRES_IN_DAYS = 365"

record issue_token_body =
  it_name :: string
  it_role :: role
  it_expires_in_days :: "int option"

definition is_control :: "char \<Rightarrow> bool" where
  "is_control c \<longleftrightarrow> (let n = of_char c :: nat in n < 32 \<or> (127 \<le> n \<and> n \<le> 159))"

definition expires_at :: "time \<Rightarrow> int option \<Rightarrow> api_error + time option" where
  "expires_at now days =
     (case days of
        None \<Rightarrow> Inr None
      | Some d \<Rightarrow>
          if 1 \<le> d \<and> d \<le> MAX_EXPIRES_IN_DAYS then Inr (Some (now + d * 86400000))
          else Inl bad_request)"

definition issue ::
  "crypto \<Rightarrow> 's token_ops \<Rightarrow> time \<Rightarrow> uuid \<Rightarrow> 8 word list \<Rightarrow> principal \<Rightarrow> string \<Rightarrow> issue_token_body
     \<Rightarrow> ('s app_state, api_error, api_token_record \<times> string) op" where
  "issue cr ops now fresh_id secret_bytes who name body s =
     (if name = [] \<or> 64 < length name then (Inl bad_request, s)
      else if \<exists>c \<in> set name. is_control c then (Inl bad_request, s)
      else case expires_at now (it_expires_in_days body) of
        Inl e \<Rightarrow> (Inl e, s)
      | Inr expiry \<Rightarrow>
          (case issue_api_token cr now fresh_id secret_bytes name (it_role body) (Some (pr_subject who)) expiry of
             Inl e \<Rightarrow> (Inl (security_api_error e), s)
           | Inr (record, plaintext) \<Rightarrow>
               (case to_insert ops record (ap_tokens s) of
                  (Inl e, tokens) \<Rightarrow> (Inl (security_api_error e), s\<lparr>ap_tokens := tokens\<rparr>)
                | (Inr _, tokens) \<Rightarrow> (Inr (record, plaintext), s\<lparr>ap_tokens := tokens\<rparr>))))"

definition token_audit ::
  "uuid \<Rightarrow> time \<Rightarrow> principal \<Rightarrow> string option \<Rightarrow> string \<Rightarrow> string option \<Rightarrow> string \<Rightarrow> json
     \<Rightarrow> 's app_state \<Rightarrow> 's app_state" where
  "token_audit audit_id now who ip action resource_id outcome metadata =
     audit ((new_entry audit_id now (pr_subject who) action ''api_token'' resource_id outcome)
       \<lparr>au_ip := ip, au_metadata := metadata\<rparr>)"

definition issue_token ::
  "crypto \<Rightarrow> 's token_ops \<Rightarrow> time \<Rightarrow> uuid \<Rightarrow> uuid \<Rightarrow> 8 word list \<Rightarrow> string option \<Rightarrow> issue_token_body \<Rightarrow> principal
     \<Rightarrow> ('s app_state, api_error, api_token_record \<times> string) op" where
  "issue_token cr ops now audit_id fresh_id secret_bytes ip body who s =
     (case role_require (pr_role who) AdminPerm of
        Inl e \<Rightarrow> (Inl (security_api_error e), s)
      | Inr _ \<Rightarrow>
          (let name = trim (it_name body);
               about = [(''name'', JString name), (''role'', JString (role_as_str (it_role body)))]
           in case issue cr ops now fresh_id secret_bytes who name body s of
                (Inr (record, plaintext), s') \<Rightarrow>
                  (Inr (record, plaintext),
                   token_audit audit_id now who ip ''token.issue'' (Some (cr_show_uuid cr (tk_id record))) ''success''
                     (JObject about) s')
              | (Inl e, s') \<Rightarrow>
                  (Inl e, token_audit audit_id now who ip ''token.issue'' None ''rejected''
                     (JObject ((''error'', JString (error_code e)) # about
                       @ [(''status_code'', JNumber (of_nat (error_status e)))])) s')))"

record token_summary =
  ts_id :: uuid
  ts_name :: string
  ts_role :: role
  ts_created_by :: "string option"
  ts_created_at :: time
  ts_expires_at :: "time option"
  ts_last_used_at :: "time option"
  ts_revoked_at :: "time option"
  ts_active :: bool

definition summarise :: "time \<Rightarrow> api_token_record \<Rightarrow> token_summary" where
  "summarise now r =
     \<lparr>ts_id = tk_id r, ts_name = tk_name r, ts_role = tk_role r, ts_created_by = tk_created_by r,
      ts_created_at = tk_created_at r, ts_expires_at = tk_expires_at r,
      ts_last_used_at = tk_last_used_at r, ts_revoked_at = tk_revoked_at r,
      ts_active = (ensure_usable r now = Inr ())\<rparr>"

definition list_tokens ::
  "'s token_ops \<Rightarrow> time \<Rightarrow> uuid \<Rightarrow> string option \<Rightarrow> principal \<Rightarrow> ('s app_state, api_error, token_summary list) op" where
  "list_tokens ops now audit_id ip who s =
     (case role_require (pr_role who) AdminPerm of
        Inl e \<Rightarrow> (Inl (security_api_error e), s)
      | Inr _ \<Rightarrow>
          (case to_list ops (ap_tokens s) of
             Inl e \<Rightarrow> (Inl (security_api_error e), s)
           | Inr records \<Rightarrow>
               (let items = map (summarise now) records
                in (Inr items, token_audit audit_id now who ip ''token.list'' None ''success''
                     (JObject [(''count'', JNumber (of_nat (length items)))]) s))))"

definition revoke_token ::
  "crypto \<Rightarrow> 's token_ops \<Rightarrow> time \<Rightarrow> uuid \<Rightarrow> string option \<Rightarrow> uuid \<Rightarrow> principal \<Rightarrow> ('s app_state, api_error, unit) op" where
  "revoke_token cr ops now audit_id ip i who s =
     (case role_require (pr_role who) AdminPerm of
        Inl e \<Rightarrow> (Inl (security_api_error e), s)
      | Inr _ \<Rightarrow>
          (case to_revoke ops i now (ap_tokens s) of
             (Inl e, tokens) \<Rightarrow> (Inl (security_api_error e), s\<lparr>ap_tokens := tokens\<rparr>)
           | (Inr found, tokens) \<Rightarrow>
               (if found then Inr () else Inl not_found,
                token_audit audit_id now who ip ''token.revoke'' (Some (cr_show_uuid cr i))
                  (if found then ''success'' else ''not_found'') (JObject []) (s\<lparr>ap_tokens := tokens\<rparr>))))"

section \<open>Runs of the API\<close>

text \<open>What may happen to a token store, with any outcome of each call.\<close>

inductive token_step :: "'s token_ops \<Rightarrow> ('s \<Rightarrow> token_map) \<Rightarrow> 's \<Rightarrow> 's \<Rightarrow> bool"
  for ops :: "'s token_ops" and abs :: "'s \<Rightarrow> token_map" where
  inserted: "abs s (tk_id r) = None \<Longrightarrow> to_insert ops r s = (a, s') \<Longrightarrow> token_step ops abs s s'"
| revoked: "to_revoke ops i t s = (b, s') \<Longrightarrow> token_step ops abs s s'"
| touched: "to_touch ops i t s = (a, s') \<Longrightarrow> token_step ops abs s s'"

text \<open>The requests that reach the token store.\<close>

inductive api_step ::
  "(string \<Rightarrow> claims option) \<Rightarrow> crypto \<Rightarrow> 's token_ops \<Rightarrow> ('s \<Rightarrow> token_map) \<Rightarrow> 's app_state \<Rightarrow> 's app_state \<Rightarrow> bool"
  for decode :: "string \<Rightarrow> claims option" and cr :: crypto and ops :: "'s token_ops" and abs :: "'s \<Rightarrow> token_map" where
  read_request: "authenticate decode cr ops now audit_id rq s = (a, s') \<Longrightarrow> api_step decode cr ops abs s s'"
| issue_request: "abs (ap_tokens s) fresh_id = None \<Longrightarrow>
     protected_route decode cr ops now audit_id AdminPerm rq
       (issue_token cr ops now audit_id fresh_id bytes (rq_ip rq) body) s = (b, s') \<Longrightarrow>
     api_step decode cr ops abs s s'"
| list_request: "protected_route decode cr ops now audit_id AdminPerm rq
       (list_tokens ops now audit_id (rq_ip rq)) s = (c, s') \<Longrightarrow>
     api_step decode cr ops abs s s'"
| revoke_request: "protected_route decode cr ops now audit_id AdminPerm rq
       (revoke_token cr ops now audit_id (rq_ip rq) i) s = (d, s') \<Longrightarrow>
     api_step decode cr ops abs s s'"

lemma audit_tokens [simp]: "ap_tokens (audit e s) = ap_tokens s"
  by (simp add: audit_def)

lemma token_audit_tokens [simp]: "ap_tokens (token_audit i now who ip ac rid oc md s) = ap_tokens s"
  by (simp add: token_audit_def)

lemma enforce_tokens [simp]: "ap_tokens (snd (enforce now i rq c s)) = ap_tokens s"
  by (cases c) (simp_all add: enforce_def)

lemma parsed_token_prefix: "parse_presented_token cr token = Inr p \<Longrightarrow> starts_with ''osint_'' token"
  by (auto simp: parse_presented_token_def strip_prefix_def TOKEN_PREFIX_def rbind_Inr_iff split: if_splits)

lemma issue_state:
  "issue cr ops now fresh_id bytes who name body s = (b, s') \<Longrightarrow>
     ap_tokens s' = ap_tokens s \<or>
     (\<exists>r a. tk_id r = fresh_id \<and> to_insert ops r (ap_tokens s) = (a, ap_tokens s'))"
  by (fastforce simp: issue_def issue_api_token_def Let_def rbind_Inr_iff
      split: sum.splits if_splits prod.splits)

lemma op_bind_state:
  "op_bind m k s = (b, s') \<Longrightarrow>
     (\<exists>e. m s = (Inl e, s')) \<or> (\<exists>x s1. m s = (Inr x, s1) \<and> k x s1 = (b, s'))"
  by (auto simp: op_bind_def split: prod.splits sum.splits)

lemma protected_route_cases:
  assumes "protected_route decode cr ops now i perm rq h s = (b, s')"
  shows "\<exists>a s1. authenticate decode cr ops now i rq s = (a, s1)
    \<and> (ap_tokens s' = ap_tokens s1 \<or> (\<exists>p s2 b. ap_tokens s2 = ap_tokens s1 \<and> h p s2 = (b, s')))"
proof -
  from op_bind_state [OF assms [unfolded protected_route_def]]
  consider e where "authenticate decode cr ops now i rq s = (Inl e, s')"
    | p s1 where "authenticate decode cr ops now i rq s = (Inr p, s1)"
      "op_bind (enforce now i rq (check_role (Some p) perm)) (\<lambda>_. h p) s1 = (b, s')"
    by blast
  then show ?thesis
  proof cases
    case 1
    then show ?thesis by blast
  next
    case (2 p s1)
    from op_bind_state [OF this(2)] enforce_tokens [of now i rq "check_role (Some p) perm" s1] 2(1)
    show ?thesis by (metis snd_conv)
  qed
qed

context api_token_store
begin

lemma authenticate_tokens:
  assumes "authenticate decode cr ops now i rq s = (a, s')"
  shows "ap_tokens s' = ap_tokens s \<or> token_step ops abs (ap_tokens s) (ap_tokens s')"
proof -
  have touch: "token_step ops abs x (snd (to_touch ops j t x))" for x j t
    by (cases "to_touch ops j t x") (auto intro: touched)
  show ?thesis
    using assms touch
    by (auto simp: authenticate_def resolve_principal_def authenticate_api_token_def
        split: sum.splits if_splits prod.splits)
qed

lemma issue_tokens:
  assumes "issue_token cr ops now i fresh_id bytes ip body who s = (b, s')" "abs (ap_tokens s) fresh_id = None"
  shows "ap_tokens s' = ap_tokens s \<or> token_step ops abs (ap_tokens s) (ap_tokens s')"
proof -
  obtain c s1 where c: "issue cr ops now fresh_id bytes who (trim (it_name body)) body s = (c, s1)"
    by (cases "issue cr ops now fresh_id bytes who (trim (it_name body)) body s")
  then have "ap_tokens s1 = ap_tokens s \<or> token_step ops abs (ap_tokens s) (ap_tokens s1)"
    using issue_state [OF c] assms(2) by (auto intro: inserted)
  moreover have "ap_tokens s' = ap_tokens s1 \<or> ap_tokens s' = ap_tokens s"
    using assms(1) c by (auto simp: issue_token_def Let_def split: sum.splits)
  ultimately show ?thesis by auto
qed

lemma revoke_tokens:
  assumes "revoke_token cr ops now i ip j who s = (b, s')"
  shows "ap_tokens s' = ap_tokens s \<or> token_step ops abs (ap_tokens s) (ap_tokens s')"
  using assms by (auto simp: revoke_token_def split: sum.splits if_splits prod.splits intro: revoked)

lemma list_tokens_tokens:
  "list_tokens ops now i ip who s = (b, s') \<Longrightarrow> ap_tokens s' = ap_tokens s"
  by (auto simp: list_tokens_def Let_def split: sum.splits)

lemma step_keeps_revoked:
  assumes "token_step ops abs s s'" "good s" "abs s i = Some r" "tk_revoked_at r = Some t"
  shows "good s' \<and> (\<exists>r'. abs s' i = Some r' \<and> tk_revoked_at r' = Some t)"
  using assms
proof (induction rule: token_step.induct)
  case (inserted s q a s')
  then show ?case using insert_effect [OF inserted(3,1,2)] by (auto split: sum.splits)
next
  case (revoked j u s b s')
  then show ?case using revoke_effect [OF revoked(2,1)] by (auto simp: revoke_at_def split: sum.splits)
next
  case (touched j u s a s')
  then show ?case using touch_effect [OF touched(2,1)] by (auto simp: touch_at_def split: sum.splits)
qed

lemma authenticate_fresh:
  assumes "authenticate decode cr ops now i rq s = (a, s')" "good (ap_tokens s)" "abs (ap_tokens s) j = None"
  shows "abs (ap_tokens s') j = None"
proof -
  have "abs (snd (to_touch ops k t x)) j = None" if "good x" "abs x j = None" for x k t
    using touch_effect [of x k t] that by (cases "to_touch ops k t x") (auto split: sum.splits)
  then show ?thesis
    using assms
    by (auto simp: authenticate_def resolve_principal_def authenticate_api_token_def
        split: sum.splits if_splits prod.splits)
qed

lemma api_step_tokens:
  assumes "api_step decode cr ops abs s s'" "good (ap_tokens s)"
  shows "(token_step ops abs)\<^sup>*\<^sup>* (ap_tokens s) (ap_tokens s')"
  using assms
proof (induction rule: api_step.induct)
  case (read_request now i rq s a s')
  then show ?case using authenticate_tokens [OF read_request(1)] by auto
next
  case (issue_request s fresh_id now i rq bytes body b s')
  from protected_route_cases [OF issue_request(2)] obtain a s1 where
    auth: "authenticate decode cr ops now i rq s = (a, s1)"
    and rest: "ap_tokens s' = ap_tokens s1 \<or> (\<exists>p s2 b. ap_tokens s2 = ap_tokens s1 \<and>
      issue_token cr ops now i fresh_id bytes (rq_ip rq) body p s2 = (b, s'))" by blast
  have "(token_step ops abs)\<^sup>*\<^sup>* (ap_tokens s) (ap_tokens s1)" using authenticate_tokens [OF auth] by auto
  moreover have "(token_step ops abs)\<^sup>*\<^sup>* (ap_tokens s1) (ap_tokens s')"
    using rest issue_tokens authenticate_fresh [OF auth issue_request(3,1)] by (metis r_into_rtranclp rtranclp.rtrancl_refl)
  ultimately show ?case by (rule rtranclp_trans)
next
  case (list_request now i rq s c s')
  from protected_route_cases [OF list_request(1)] obtain a s1 where
    auth: "authenticate decode cr ops now i rq s = (a, s1)" and "ap_tokens s' = ap_tokens s1"
    using list_tokens_tokens by metis
  then show ?case using authenticate_tokens [OF auth] by auto
next
  case (revoke_request now i rq j s d s')
  from protected_route_cases [OF revoke_request(1)] obtain a s1 where
    auth: "authenticate decode cr ops now i rq s = (a, s1)"
    and rest: "ap_tokens s' = ap_tokens s1 \<or> (\<exists>p s2 b. ap_tokens s2 = ap_tokens s1 \<and>
      revoke_token cr ops now i (rq_ip rq) j p s2 = (b, s'))" by blast
  have "(token_step ops abs)\<^sup>*\<^sup>* (ap_tokens s) (ap_tokens s1)" using authenticate_tokens [OF auth] by auto
  moreover have "(token_step ops abs)\<^sup>*\<^sup>* (ap_tokens s1) (ap_tokens s')"
    using rest revoke_tokens by (metis r_into_rtranclp rtranclp.rtrancl_refl)
  ultimately show ?case by (rule rtranclp_trans)
qed

lemma steps_keep_revoked:
  assumes "(token_step ops abs)\<^sup>*\<^sup>* s s'" "good s" "abs s i = Some r" "tk_revoked_at r = Some t"
  shows "good s' \<and> (\<exists>r'. abs s' i = Some r' \<and> tk_revoked_at r' = Some t)"
  using assms by (induction rule: rtranclp_induct) (blast dest: step_keeps_revoked)+

lemma api_run_keeps_revoked:
  assumes "(api_step decode cr ops abs)\<^sup>*\<^sup>* s s'" "good (ap_tokens s)"
    and "abs (ap_tokens s) i = Some r" "tk_revoked_at r = Some t"
  shows "good (ap_tokens s') \<and> (\<exists>r'. abs (ap_tokens s') i = Some r' \<and> tk_revoked_at r' = Some t)"
  using assms
  by (induction rule: rtranclp_induct) (blast dest: steps_keep_revoked api_step_tokens)+

lemma revoked_refused:
  assumes "good s" "abs s i = Some r" "tk_revoked_at r = Some t"
    and "parse_presented_token cr token = Inr p" "pt_id p = i"
  shows "check_api_token cr ops now token s \<in> {Inl unauthorized} \<union> (\<lambda>e. Inl (security_api_error e)) ` {e. to_get ops i s = Inl e}"
proof (cases "to_get ops i s")
  case (Inl e)
  then show ?thesis using assms(4,5) by (auto simp: check_api_token_def)
next
  case (Inr x)
  with get_answer [OF assms(1) Inr] assms(2) have "x = Some r" by simp
  with Inr show ?thesis
    using assms(3-5) by (auto simp: check_api_token_def ensure_usable_def)
qed

end

section \<open>Properties\<close>

lemma auth_by_check:
  assumes "extract_bearer rq = Inr token" "parse_presented_token cr token = Inr p"
    and "check_api_token cr ops now token (ap_tokens s) = Inl e"
  shows "fst (authenticate decode cr ops now i rq s) = Inl e"
  using assms parsed_token_prefix [OF assms(2)]
  by (simp add: authenticate_def resolve_principal_def authenticate_api_token_def)

lemma revoke_token_done:
  assumes "revoke_token cr postgres_store t aid ip i who s = (Inr (), s1)" "pg_good (ap_tokens s)"
  shows "pg_good (ap_tokens s1) \<and> (\<exists>r t0. pg_abs (ap_tokens s1) i = Some r \<and> tk_revoked_at r = Some t0)"
proof -
  from assms(1) obtain tokens where r: "to_revoke postgres_store i t (ap_tokens s) = (Inr True, tokens)"
    and s1: "ap_tokens s1 = tokens"
    by (auto simp: revoke_token_def split: sum.splits prod.splits if_splits)
  have "ps_fault (ap_tokens s) = None"
    using r by (auto simp: postgres_store_def pg_revoke_def split: if_splits)
  then have "pg_abs (ap_tokens s) i \<noteq> None" using postgres.revoke_up [OF assms(2), of i t] r by simp
  then show ?thesis using postgres.revoke_effect [OF assms(2) r] s1 by (auto simp: revoke_at_def)
qed

text \<open>
  C31: Revocation is final. Once an administrator's revocation of a token has been answered with
  success, no sequence of later requests, however they end, makes the token usable again: every
  request that presents it is refused, with 401 while the database answers, and with 422 when it
  does not; the recorded time of the revocation never changes.
\<close>

theorem revoked_token_refused_forever:
  assumes "pg_good (ap_tokens s)" "revoke_token cr postgres_store t aid ip i who s = (Inr (), s1)"
    and "(api_step decode cr postgres_store pg_abs)\<^sup>*\<^sup>* s1 s2"
    and "extract_bearer rq = Inr token" "parse_presented_token cr token = Inr p" "pt_id p = i"
  shows "fst (authenticate decode cr postgres_store now aid2 rq s2)
      = Inl (if ps_fault (ap_tokens s2) = None then unauthorized else unprocessable)
    \<and> (\<exists>r1 r2 t0. pg_abs (ap_tokens s1) i = Some r1 \<and> pg_abs (ap_tokens s2) i = Some r2
         \<and> tk_revoked_at r1 = Some t0 \<and> tk_revoked_at r2 = Some t0)"
proof -
  obtain r1 t0 where r1: "pg_good (ap_tokens s1)" "pg_abs (ap_tokens s1) i = Some r1" "tk_revoked_at r1 = Some t0"
    using revoke_token_done [OF assms(2,1)] by blast
  obtain r2 where r2: "pg_good (ap_tokens s2)" "pg_abs (ap_tokens s2) i = Some r2" "tk_revoked_at r2 = Some t0"
    using postgres.api_run_keeps_revoked [OF assms(3) r1] by blast
  have down: "to_get postgres_store i (ap_tokens s2) = Inl e \<longleftrightarrow> ps_fault (ap_tokens s2) \<noteq> None \<and> e = AuditFailure" for e
    using postgres.get_up [OF r2(1), of i] by (auto simp: postgres_store_def pg_get_def split: if_splits)
  have "check_api_token cr postgres_store now token (ap_tokens s2)
      = Inl (if ps_fault (ap_tokens s2) = None then unauthorized else unprocessable)"
  proof (cases "ps_fault (ap_tokens s2) = None")
    case True
    then show ?thesis
      using postgres.revoked_refused [OF r2 assms(5,6), of now] down by auto
  next
    case False
    then show ?thesis using assms(5,6) down [of AuditFailure] by (auto simp: check_api_token_def)
  qed
  from auth_by_check [OF assms(4,5) this] r1(2,3) r2(2,3) show ?thesis by blast
qed

text \<open>
  A request that is refused never reaches its handler, and leaves exactly one audit row while
  the log can be written: \<open>auth.failed\<close> by \<open>anonymous\<close> when no principal could be established,
  \<open>authz.denied\<close> by the principal when its role does not have the permission, answered with 403.
  Otherwise the answer is the handler's.
\<close>

theorem protected_route_effect:
  assumes "al_fault (ap_audit s) = None" "tbl_get (al_rows (ap_audit s)) aid = None"
  shows "(case authenticate decode cr ops now aid rq s of
      (Inl e, s1) \<Rightarrow> protected_route decode cr ops now aid perm rq h s = (Inl e, s1)
        \<and> (\<exists>row. au_actor row = ''anonymous'' \<and> au_action row = ''auth.failed'' \<and> au_ip row = rq_ip rq
            \<and> al_rows (ap_audit s1) = tbl_put aid row (al_rows (ap_audit s)))
    | (Inr p, s1) \<Rightarrow>
        (if allows (pr_role p) perm then protected_route decode cr ops now aid perm rq h s = h p s1
         else (\<exists>s2 row. protected_route decode cr ops now aid perm rq h s = (Inl forbidden, s2)
            \<and> ap_tokens s2 = ap_tokens s1 \<and> au_actor row = pr_subject p \<and> au_action row = ''authz.denied''
            \<and> al_rows (ap_audit s2) = tbl_put aid row (al_rows (ap_audit s)))))"
proof (cases "authenticate decode cr ops now aid rq s")
  case (Pair a s1)
  have audit: "ap_audit s1 = (case a of Inr _ \<Rightarrow> ap_audit s | Inl e \<Rightarrow> ap_audit s1)"
    using Pair by (cases a) (auto simp: authenticate_def split: sum.splits prod.splits)
  show ?thesis
  proof (cases a)
    case (Inl e)
    then have "\<exists>row. au_actor row = ''anonymous'' \<and> au_action row = ''auth.failed'' \<and> au_ip row = rq_ip rq
            \<and> al_rows (ap_audit s1) = tbl_put aid row (al_rows (ap_audit s))"
      using Pair assms
      by (auto simp: authenticate_def audit_def audit_append_def new_entry_def
          split: sum.splits prod.splits intro!: exI)
    with Inl Pair show ?thesis by (simp add: protected_route_def op_bind_def)
  next
    case (Inr p)
    then have same: "ap_audit s1 = ap_audit s" using audit by simp
    show ?thesis
    proof (cases "allows (pr_role p) perm")
      case True
      with Inr Pair show ?thesis
        by (simp add: protected_route_def op_bind_def enforce_def check_role_def)
    next
      case False
      with Inr Pair same assms show ?thesis
        by (auto simp: protected_route_def op_bind_def enforce_def check_role_def audit_def
            audit_append_def new_entry_def intro!: exI)
    qed
  qed
qed

lemma split_once_first: "c \<notin> set a \<Longrightarrow> split_once c (a @ c # b) = Some (a, b)"
  by (induction a) auto

lemma hex_digit_not_ws: "n < 16 \<Longrightarrow> \<not> is_ws (hex_digit n)"
proof -
  assume "n < 16"
  then have "hex_digit n \<in> set ''0123456789abcdef''" unfolding hex_digit_def by (intro nth_mem) simp
  then show ?thesis by (auto simp: is_ws_def)
qed

lemma hex_encode_last:
  "bytes \<noteq> [] \<Longrightarrow> hex_encode bytes \<noteq> [] \<and> \<not> is_ws (last (hex_encode bytes))"
  by (cases bytes rule: rev_cases) (auto simp: hex_encode_def hex_digit_not_ws)

lemma plaintext_parses:
  assumes "bytes \<noteq> []" "cr_parse_uuid cr (cr_show_uuid cr i) = Some i" "CHR ''.'' \<notin> set (cr_show_uuid cr i)"
  shows "parse_presented_token cr (TOKEN_PREFIX @ cr_show_uuid cr i @ ''.'' @ hex_encode bytes)
    = Inr \<lparr>pt_id = i, pt_secret = hex_encode bytes\<rparr>"
  using assms hex_encode_last [OF assms(1)]
  by (simp add: parse_presented_token_def strip_prefix_def starts_with_def split_once_first)

lemma bearer_extracted:
  assumes "s \<noteq> []" "\<not> is_ws (hd s)" "\<not> is_ws (last s)"
  shows "extract_bearer \<lparr>rq_authorization = Some (''Bearer '' @ s), rq_path = path, rq_ip = ip\<rparr> = Inr s"
  using assms by (simp add: extract_bearer_def strip_prefix_def starts_with_def trim_id)

text \<open>
  A token that was just issued works. When an administrator issues a token with an acceptable
  name and lifetime and the store answers, the plaintext in the answer, presented as a bearer
  token before its expiry, authenticates as \<open>token:<name>\<close> with the role that was asked for; this
  needs of \<open>argon2\<close> that a hash verifies its own secret and of \<open>uuid\<close> that the text of an id is read
  back and holds no dot.
\<close>

theorem issued_token_authenticates:
  assumes "pg_good (ap_tokens s)" "ps_fault (ap_tokens s) = None" "pg_abs (ap_tokens s) fresh_id = None"
    and "pr_role who = Admin" "name = trim (it_name body)" "name \<noteq> []" "length name \<le> 64"
    and "\<forall>c \<in> set name. \<not> is_control c"
    and "expires_at now (it_expires_in_days body) = Inr expiry" "\<forall>e. expiry = Some e \<longrightarrow> later < e"
    and "bytes \<noteq> []" "cr_hash cr (hex_encode bytes) = Some h" "cr_verify cr (hex_encode bytes) h = Some True"
    and "cr_parse_uuid cr (cr_show_uuid cr fresh_id) = Some fresh_id" "CHR ''.'' \<notin> set (cr_show_uuid cr fresh_id)"
  shows "\<exists>record plaintext s1.
      issue_token cr postgres_store now aid fresh_id bytes ip body who s = (Inr (record, plaintext), s1)
      \<and> fst (authenticate decode cr postgres_store later later_aid
          \<lparr>rq_authorization = Some (''Bearer '' @ plaintext), rq_path = path, rq_ip = peer\<rparr> s1)
        = Inr \<lparr>pr_subject = ''token:'' @ name, pr_role = it_role body, pr_auth_method = ApiToken\<rparr>"
proof -
  let ?r = "\<lparr>tk_id = fresh_id, tk_name = name, tk_role = it_role body, tk_secret_hash = h,
      tk_created_by = Some (pr_subject who), tk_created_at = now, tk_expires_at = expiry,
      tk_last_used_at = None, tk_revoked_at = None\<rparr>"
  let ?p = "TOKEN_PREFIX @ cr_show_uuid cr fresh_id @ ''.'' @ hex_encode bytes"
  obtain a tokens where ins: "to_insert postgres_store ?r (ap_tokens s) = (a, tokens)"
    by (cases "to_insert postgres_store ?r (ap_tokens s)")
  have "a = Inr ()" using postgres.insert_up [OF assms(1,2), of ?r] assms(3) ins by simp
  with postgres.insert_effect [OF assms(1) _ ins] assms(2,3)
  have t: "pg_good tokens" "ps_fault tokens = None" "pg_abs tokens fresh_id = Some ?r" by auto
  have "issue cr postgres_store now fresh_id bytes who name body s = (Inr (?r, ?p), s\<lparr>ap_tokens := tokens\<rparr>)"
    using assms(6-9,12) ins \<open>a = Inr ()\<close>
    by (auto simp: issue_def issue_api_token_def hash_secret_def)
  then obtain s1 where issued: "issue_token cr postgres_store now aid fresh_id bytes ip body who s = (Inr (?r, ?p), s1)"
    and s1: "ap_tokens s1 = tokens"
    using assms(4,5) by (auto simp: issue_token_def role_require_def Let_def)
  have "check_api_token cr postgres_store later ?p tokens = Inr (\<lparr>pt_id = fresh_id, pt_secret = hex_encode bytes\<rparr>, ?r)"
    using plaintext_parses [OF assms(11,14,15)] postgres.get_up [OF t(1,2), of fresh_id] t(3) assms(10,13)
    by (auto simp: check_api_token_def ensure_usable_def verify_secret_def split: option.splits)
  moreover have "extract_bearer \<lparr>rq_authorization = Some (''Bearer '' @ ?p), rq_path = path, rq_ip = peer\<rparr> = Inr ?p"
    using hex_encode_last [OF assms(11)] by (intro bearer_extracted) (auto simp: TOKEN_PREFIX_def is_ws_def)
  ultimately have "fst (authenticate decode cr postgres_store later later_aid
          \<lparr>rq_authorization = Some (''Bearer '' @ ?p), rq_path = path, rq_ip = peer\<rparr> s1)
        = Inr \<lparr>pr_subject = ''token:'' @ name, pr_role = it_role body, pr_auth_method = ApiToken\<rparr>"
    by (simp add: authenticate_def resolve_principal_def authenticate_api_token_def s1 TOKEN_PREFIX_def starts_with_def)
  with issued show ?thesis by blast
qed

section \<open>Witnesses\<close>

definition sample_crypto :: crypto where
  "sample_crypto = \<lparr>cr_show_uuid = unary_uuid, cr_parse_uuid = read_unary, cr_hash = Some,
     cr_verify = (\<lambda>s h. Some (s = h))\<rparr>"

definition sample_admin :: principal where
  "sample_admin = \<lparr>pr_subject = ''root'', pr_role = Admin, pr_auth_method = Jwt\<rparr>"

definition sample_state :: "pg_tokens app_state" where
  "sample_state = \<lparr>ap_tokens = \<lparr>ps_rows = tbl_put 3 (encode_token sample_token) [], ps_fault = None\<rparr>,
     ap_audit = \<lparr>al_rows = [], al_fault = None\<rparr>\<rparr>"

definition bearer :: "string \<Rightarrow> request" where
  "bearer token = \<lparr>rq_authorization = Some (''Bearer '' @ token), rq_path = ''/api/v1/jobs'', rq_ip = None\<rparr>"

lemma sample_good: "pg_good (ap_tokens sample_state)"
  using pg_good_put [OF empty_stores(2), of 3 sample_token] by (simp add: sample_state_def empty_pg_def)

theorem revoked_token_refused_forever_witness:
  "\<exists>s1. revoke_token sample_crypto postgres_store 50 8 None 3 sample_admin sample_state = (Inr (), s1)
    \<and> fst (authenticate (\<lambda>_. None) sample_crypto postgres_store 60 9 (bearer ''osint_xxxx.s'') s1) = Inl unauthorized"
proof -
  let ?s1 = "snd (revoke_token sample_crypto postgres_store 50 8 None 3 sample_admin sample_state)"
  have revoke: "revoke_token sample_crypto postgres_store 50 8 None 3 sample_admin sample_state = (Inr (), ?s1)"
    by (simp add: revoke_token_def sample_admin_def role_require_def postgres_store_def pg_revoke_def sample_state_def
        tbl_get_def)
  have up: "ps_fault (ap_tokens ?s1) = None"
    by (simp add: revoke_token_def sample_admin_def role_require_def postgres_store_def pg_revoke_def sample_state_def
        tbl_get_def)
  have bearer: "extract_bearer (bearer ''osint_xxxx.s'') = Inr ''osint_xxxx.s''"
    by (simp add: bearer_def bearer_extracted is_ws_def del: append.simps)
  have "parse_presented_token sample_crypto ''osint_xxxx.s'' = Inr \<lparr>pt_id = 3, pt_secret = ''s''\<rparr>"
    by (simp add: parse_presented_token_def TOKEN_PREFIX_def strip_prefix_def starts_with_def sample_crypto_def
        read_unary_def)
  from revoked_token_refused_forever [OF sample_good revoke rtranclp.rtrancl_refl bearer this, of "\<lambda>_. None" 60 9]
  have "fst (authenticate (\<lambda>_. None) sample_crypto postgres_store 60 9 (bearer ''osint_xxxx.s'') ?s1) = Inl unauthorized"
    using up by simp
  with revoke show ?thesis by blast
qed

theorem protected_route_effect_witness:
  "\<exists>s1 row. protected_route (\<lambda>_. None) sample_crypto postgres_store 5 9 AdminPerm
       \<lparr>rq_authorization = None, rq_path = ''/api/v1/tokens'', rq_ip = None\<rparr>
       (list_tokens postgres_store 5 9 None) sample_state = (Inl unauthorized, s1)
     \<and> au_action row = ''auth.failed'' \<and> al_rows (ap_audit s1) = [(9, row)]"
proof -
  let ?rq = "\<lparr>rq_authorization = None, rq_path = ''/api/v1/tokens'', rq_ip = None\<rparr>"
  have up: "al_fault (ap_audit sample_state) = None" "tbl_get (al_rows (ap_audit sample_state)) 9 = None"
    by (simp_all add: sample_state_def)
  have "fst (authenticate (\<lambda>_. None) sample_crypto postgres_store 5 9 ?rq sample_state) = Inl unauthorized"
    by (simp add: authenticate_def resolve_principal_def extract_bearer_def)
  then obtain s1 where "authenticate (\<lambda>_. None) sample_crypto postgres_store 5 9 ?rq sample_state = (Inl unauthorized, s1)"
    by (metis prod.collapse)
  with protected_route_effect [OF up, where decode = "\<lambda>_. None" and cr = sample_crypto and ops = postgres_store
      and now = 5 and rq = ?rq and perm = AdminPerm and h = "list_tokens postgres_store 5 9 None"]
  show ?thesis by (auto simp: sample_state_def)
qed

theorem issued_token_authenticates_witness:
  "\<exists>record plaintext s1.
     issue_token sample_crypto postgres_store 5 9 7 [255] None
       \<lparr>it_name = '' ci '', it_role = Viewer, it_expires_in_days = Some 1\<rparr> sample_admin sample_state
       = (Inr (record, plaintext), s1)
     \<and> fst (authenticate (\<lambda>_. None) sample_crypto postgres_store 6 10 (bearer plaintext) s1)
       = Inr \<lparr>pr_subject = ''token:ci'', pr_role = Viewer, pr_auth_method = ApiToken\<rparr>"
proof -
  have name: "trim '' ci '' = ''ci''" by code_simp
  have expiry: "expires_at 5 (Some 1) = Inr (Some 86400005)" by (simp add: expires_at_def MAX_EXPIRES_IN_DAYS_def)
  have control: "\<forall>c \<in> set ''ci''. \<not> is_control c" by (simp add: is_control_def)
  have fresh: "ps_fault (ap_tokens sample_state) = None" "pg_abs (ap_tokens sample_state) 7 = None"
    by (simp_all add: sample_state_def pg_abs_def tbl_get_def)
  have crypto: "cr_hash sample_crypto x = Some x" "cr_verify sample_crypto x x = Some True"
    "cr_parse_uuid sample_crypto (cr_show_uuid sample_crypto i) = Some i" "CHR ''.'' \<notin> set (cr_show_uuid sample_crypto i)" for x i
    by (simp_all add: sample_crypto_def read_unary_def unary_uuid_def)
  let ?body = "\<lparr>it_name = '' ci '', it_role = Viewer, it_expires_in_days = Some 1\<rparr>"
  show ?thesis
    using issued_token_authenticates [where s = sample_state and fresh_id = 7 and who = sample_admin and name = "''ci''"
        and body = ?body and now = 5 and expiry = "Some 86400005" and later = 6 and bytes = "[255]"
        and cr = sample_crypto and h = "hex_encode [255]" and aid = 9 and ip = None and later_aid = 10
        and decode = "\<lambda>_. None" and path = "''/api/v1/jobs''" and peer = None, OF sample_good fresh]
      expiry control crypto
    by (simp add: sample_admin_def bearer_def name)
qed

end
