(* ===== verification/IpText.thy ===== *)
theory IpText
  imports Prelude
begin

text \<open>
  IP addresses and their text form, as \<open>std::net\<close> has them: the words behind \<open>Ipv4Addr\<close> and
  \<open>Ipv6Addr\<close>, the parser behind \<open>str::parse::<IpAddr>\<close> (decimal octets without leading zeros,
  hexadecimal groups with at most one omission and an optional embedded IPv4 tail), and the
  dotted form. The round trip shows that the text of every IPv4 address is read back.
\<close>

unbundle bit_operations_syntax

section \<open>Addresses\<close>

type_synonym ipv4_addr = "32 word"
type_synonym ipv6_addr = "128 word"

datatype ip_addr = V4 ipv4_addr | V6 ipv6_addr

definition ipv4 :: "nat \<Rightarrow> nat \<Rightarrow> nat \<Rightarrow> nat \<Rightarrow> ipv4_addr" where
  "ipv4 a b c d = of_nat (((a * 256 + b) * 256 + c) * 256 + d)"

definition octet :: "ipv4_addr \<Rightarrow> nat \<Rightarrow> nat" where
  "octet ip i = unat (drop_bit (24 - 8 * i) ip) mod 256"

definition ipv6 :: "nat list \<Rightarrow> ipv6_addr" where
  "ipv6 segs = of_nat (fold (\<lambda>s acc. acc * 65536 + s) segs 0)"

definition segment :: "ipv6_addr \<Rightarrow> nat \<Rightarrow> 16 word" where
  "segment ip i = ucast (drop_bit (112 - 16 * i) ip)"

section \<open>The parser\<close>

definition digit_val :: "nat \<Rightarrow> char \<Rightarrow> nat option" where
  "digit_val radix c =
     (let n = of_char c :: nat;
          v = (if 48 \<le> n \<and> n \<le> 57 then n - 48
               else if 97 \<le> n \<and> n \<le> 122 then n - 87
               else if 65 \<le> n \<and> n \<le> 90 then n - 55 else radix)
      in if v < radix then Some v else None)"

fun read_digits :: "nat \<Rightarrow> nat \<Rightarrow> nat \<Rightarrow> nat \<Rightarrow> nat \<Rightarrow> string \<Rightarrow> (nat \<times> nat \<times> string) option" where
  "read_digits radix bound most acc count [] = Some (acc, count, [])"
| "read_digits radix bound most acc count (c # cs) =
     (case digit_val radix c of
        None \<Rightarrow> Some (acc, count, c # cs)
      | Some d \<Rightarrow>
          if bound < acc * radix + d \<or> most < count + 1 then None
          else read_digits radix bound most (acc * radix + d) (count + 1) cs)"

definition read_number :: "nat \<Rightarrow> nat \<Rightarrow> nat \<Rightarrow> bool \<Rightarrow> string \<Rightarrow> (nat \<times> string) option" where
  "read_number radix bound most zero_prefix s =
     (case read_digits radix bound most 0 0 s of
        None \<Rightarrow> None
      | Some (v, count, rest) \<Rightarrow>
          if count = 0 \<or> (\<not> zero_prefix \<and> starts_with ''0'' s \<and> 1 < count) then None
          else Some (v, rest))"

fun read_given_char :: "char \<Rightarrow> string \<Rightarrow> string option" where
  "read_given_char c [] = None"
| "read_given_char c (x # xs) = (if x = c then Some xs else None)"

definition read_sep :: "char \<Rightarrow> bool \<Rightarrow> (string \<Rightarrow> 'a option) \<Rightarrow> string \<Rightarrow> 'a option" where
  "read_sep c first inner s = (if first then inner s else Option.bind (read_given_char c s) inner)"

definition read_octet :: "bool \<Rightarrow> string \<Rightarrow> (nat \<times> string) option" where
  "read_octet first = read_sep (CHR ''.'') first (read_number 10 255 3 False)"

definition read_ipv4_addr :: "string \<Rightarrow> (ipv4_addr \<times> string) option" where
  "read_ipv4_addr s =
     Option.bind (read_octet True s) (\<lambda>(a, s1).
     Option.bind (read_octet False s1) (\<lambda>(b, s2).
     Option.bind (read_octet False s2) (\<lambda>(c, s3).
     Option.bind (read_octet False s3) (\<lambda>(d, s4).
     Some (ipv4 a b c d, s4)))))"

fun read_groups :: "nat \<Rightarrow> bool \<Rightarrow> string \<Rightarrow> nat list \<times> bool \<times> string" where
  "read_groups 0 first s = ([], False, s)"
| "read_groups (Suc r) first s =
     (case (if 0 < r then read_sep (CHR '':'') first read_ipv4_addr s else None) of
        Some (ip, rest) \<Rightarrow> ([unat ip div 65536, unat ip mod 65536], True, rest)
      | None \<Rightarrow>
          (case read_sep (CHR '':'') first (read_number 16 65535 4 True) s of
             None \<Rightarrow> ([], False, s)
           | Some (g, rest) \<Rightarrow>
               (let (gs, embedded, rest') = read_groups r False rest in (g # gs, embedded, rest'))))"

definition read_ipv6_addr :: "string \<Rightarrow> (ipv6_addr \<times> string) option" where
  "read_ipv6_addr s =
     (let (head, embedded, s1) = read_groups 8 True s in
      if length head = 8 then Some (ipv6 head, s1)
      else if embedded then None
      else Option.bind (read_given_char (CHR '':'') s1) (\<lambda>s2.
           Option.bind (read_given_char (CHR '':'') s2) (\<lambda>s3.
             (let (tail, _, s4) = read_groups (8 - (length head + 1)) True s3
              in Some (ipv6 (head @ replicate (8 - length head - length tail) 0 @ tail), s4)))))"

definition parse_ip :: "string \<Rightarrow> ip_addr option" where
  "parse_ip s =
     (case read_ipv4_addr s of
        Some (ip, rest) \<Rightarrow> if rest = [] then Some (V4 ip) else None
      | None \<Rightarrow>
          (case read_ipv6_addr s of
             Some (ip, rest) \<Rightarrow> if rest = [] then Some (V6 ip) else None
           | None \<Rightarrow> None))"

lemma read_groups_numeral:
  "read_groups (numeral k) first s =
     (case (if 0 < pred_numeral k then read_sep (CHR '':'') first read_ipv4_addr s else None) of
        Some (ip, rest) \<Rightarrow> ([unat ip div 65536, unat ip mod 65536], True, rest)
      | None \<Rightarrow>
          (case read_sep (CHR '':'') first (read_number 16 65535 4 True) s of
             None \<Rightarrow> ([], False, s)
           | Some (g, rest) \<Rightarrow>
               (let (gs, embedded, rest') = read_groups (pred_numeral k) False rest in (g # gs, embedded, rest'))))"
  by (simp add: numeral_eq_Suc)

lemmas parse_simps = parse_ip_def read_ipv4_addr_def read_octet_def read_sep_def read_number_def
  digit_val_def read_ipv6_addr_def starts_with_def read_groups_numeral

section \<open>The dotted form\<close>

definition digit_char :: "nat \<Rightarrow> char" where
  "digit_char d = char_of (48 + d)"

definition show_octet :: "nat \<Rightarrow> string" where
  "show_octet n =
     (if n < 10 then [digit_char n]
      else if n < 100 then [digit_char (n div 10), digit_char (n mod 10)]
      else [digit_char (n div 100), digit_char (n div 10 mod 10), digit_char (n mod 10)])"

definition show_ipv4 :: "nat \<Rightarrow> nat \<Rightarrow> nat \<Rightarrow> nat \<Rightarrow> string" where
  "show_ipv4 a b c d =
     show_octet a @ ''.'' @ show_octet b @ ''.'' @ show_octet c @ ''.'' @ show_octet d"

lemma digit_val_digit_char [simp]: "d < 10 \<Longrightarrow> digit_val 10 (digit_char d) = Some d"
  by (simp add: digit_val_def digit_char_def)

lemma digit_char_0: "digit_char 0 = CHR ''0''"
  by code_simp

lemma digit_char_zero [simp]: "d < 10 \<Longrightarrow> digit_char d = CHR ''0'' \<longleftrightarrow> d = 0"
proof
  assume "d < 10" "digit_char d = CHR ''0''"
  then show "d = 0" using digit_val_digit_char [of d] by (simp add: digit_val_def)
qed (simp add: digit_char_0)

definition no_digit :: "string \<Rightarrow> bool" where
  "no_digit s \<longleftrightarrow> (case s of [] \<Rightarrow> True | c # _ \<Rightarrow> digit_val 10 c = None)"

lemma read_digits_stop: "no_digit s \<Longrightarrow> read_digits 10 bound most acc count s = Some (acc, count, s)"
  by (cases s) (simp_all add: no_digit_def)

lemma read_show_octet:
  assumes "n < 256" "no_digit rest"
  shows "read_number 10 255 3 False (show_octet n @ rest) = Some (n, rest)"
proof -
  consider "n < 10" | "10 \<le> n" "n < 100" | "100 \<le> n" by linarith
  then show ?thesis
  proof cases
    case 1
    then show ?thesis
      using assms by (simp add: show_octet_def read_number_def read_digits_stop)
  next
    case 2
    then have "n div 10 < 10" "n div 10 \<noteq> 0" "n div 10 \<le> 255" "n div 10 * 10 + n mod 10 = n" by auto
    with 2 show ?thesis
      using assms by (simp add: show_octet_def read_number_def read_digits_stop starts_with_def) presburger
  next
    case 3
    with assms have "n div 100 < 10" "n div 100 \<noteq> 0" "n div 10 * 10 + n mod 10 = n" "n div 10 < 26"
      by auto
    moreover have "n div 100 * 10 + n div 10 mod 10 = n div 10"
      using div_mult_mod_eq [of "n div 10" 10] by (simp flip: div_mult2_eq)
    ultimately show ?thesis using 3
      using assms by (simp add: show_octet_def read_number_def read_digits_stop starts_with_def)
  qed
qed

lemma read_ipv4_show:
  assumes "a < 256" "b < 256" "c < 256" "d < 256"
  shows "read_ipv4_addr (show_ipv4 a b c d) = Some (ipv4 a b c d, [])"
proof -
  have "no_digit (CHR ''.'' # s)" for s by (simp add: no_digit_def digit_val_def)
  then show ?thesis
    using assms read_show_octet [of a] read_show_octet [of b] read_show_octet [of c]
      read_show_octet [of d "[]"]
    by (simp add: read_ipv4_addr_def show_ipv4_def read_octet_def read_sep_def no_digit_def)
qed

lemma parse_show_ipv4:
  "a < 256 \<Longrightarrow> b < 256 \<Longrightarrow> c < 256 \<Longrightarrow> d < 256 \<Longrightarrow>
     parse_ip (show_ipv4 a b c d) = Some (V4 (ipv4 a b c d))"
  by (simp add: parse_ip_def read_ipv4_show)

end
