(* ===== verification/IpClass.thy ===== *)
theory IpClass
  imports IpText
begin

text \<open>
  The two deny tiers of the SSRF protection, \<open>crates/core-security/src/ssrf.rs\<close>: which tier an
  address belongs to. Addresses are words of their real width; the predicates of
  \<open>std::net::Ipv4Addr\<close> and \<open>Ipv6Addr\<close> that the code calls are written out.

  The reference the code is compared with is a table of CIDR blocks.
\<close>

unbundle bit_operations_syntax

section \<open>Predicates of the standard library\<close>

definition v4_is_loopback :: "ipv4_addr \<Rightarrow> bool" where
  "v4_is_loopback ip \<longleftrightarrow> octet ip 0 = 127"

definition v4_is_unspecified :: "ipv4_addr \<Rightarrow> bool" where
  "v4_is_unspecified ip \<longleftrightarrow> ip = 0"

definition v4_is_broadcast :: "ipv4_addr \<Rightarrow> bool" where
  "v4_is_broadcast ip \<longleftrightarrow> ip = ipv4 255 255 255 255"

definition v4_is_link_local :: "ipv4_addr \<Rightarrow> bool" where
  "v4_is_link_local ip \<longleftrightarrow> octet ip 0 = 169 \<and> octet ip 1 = 254"

definition v6_is_multicast :: "ipv6_addr \<Rightarrow> bool" where
  "v6_is_multicast ip \<longleftrightarrow> segment ip 0 AND 0xff00 = 0xff00"

definition to_ipv4_mapped :: "ipv6_addr \<Rightarrow> ipv4_addr option" where
  "to_ipv4_mapped ip =
     (if (\<forall>i < 5. segment ip i = 0) \<and> segment ip 5 = 0xffff then Some (ucast ip) else None)"

definition to_ipv4 :: "ipv6_addr \<Rightarrow> ipv4_addr option" where
  "to_ipv4 ip =
     (if (\<forall>i < 5. segment ip i = 0) \<and> (segment ip 5 = 0 \<or> segment ip 5 = 0xffff)
      then Some (ucast ip) else None)"

section \<open>Classification\<close>

datatype ip_class = HardDeny | SoftDeny | Public

definition classify_v4 :: "ipv4_addr \<Rightarrow> ip_class" where
  "classify_v4 ip =
     (if ip = ipv4 169 254 169 254 then HardDeny
      else if ip = ipv4 100 100 100 200 then HardDeny
      else if ip = ipv4 169 254 169 253 \<or> ip = ipv4 168 63 129 16 then HardDeny
      else if v4_is_loopback ip \<or> v4_is_unspecified ip \<or> v4_is_broadcast ip then SoftDeny
      else if v4_is_link_local ip then SoftDeny
      else if octet ip 0 = 10
        \<or> (octet ip 0 = 172 \<and> 16 \<le> octet ip 1 \<and> octet ip 1 < 32)
        \<or> (octet ip 0 = 192 \<and> octet ip 1 = 168) then SoftDeny
      else if octet ip 0 = 100 \<and> 64 \<le> octet ip 1 \<and> octet ip 1 < 128 then SoftDeny
      else if octet ip 0 = 0
        \<or> octet ip 0 = 127
        \<or> (octet ip 0 = 192 \<and> octet ip 1 = 0 \<and> octet ip 2 = 2)
        \<or> (octet ip 0 = 198 \<and> octet ip 1 = 51 \<and> octet ip 2 = 100)
        \<or> (octet ip 0 = 203 \<and> octet ip 1 = 0 \<and> octet ip 2 = 113)
        \<or> 224 \<le> octet ip 0 then SoftDeny
      else Public)"

definition classify_v6 :: "ipv6_addr \<Rightarrow> ip_class" where
  "classify_v6 ip =
     (case to_ipv4_mapped ip of
        Some v4 \<Rightarrow> classify_v4 v4
      | None \<Rightarrow>
          if ip = ipv6 [0xfd00, 0xec2, 0, 0, 0, 0, 0, 0x254] then HardDeny
          else if ip = 1 \<or> ip = 0 then SoftDeny
          else if segment ip 0 AND 0xffc0 = 0xfe80 then SoftDeny
          else if segment ip 0 AND 0xfe00 = 0xfc00 then SoftDeny
          else if v6_is_multicast ip then SoftDeny
          else if segment ip 0 = 0 \<and> segment ip 1 = 0 \<and> segment ip 2 = 0 \<and> segment ip 3 = 0
              \<and> segment ip 4 = 0 \<and> segment ip 5 = 0
            then (case to_ipv4 ip of Some v4 \<Rightarrow> classify_v4 v4 | None \<Rightarrow> Public)
          else Public)"

fun classify_ip :: "ip_addr \<Rightarrow> ip_class" where
  "classify_ip (V4 v4) = classify_v4 v4"
| "classify_ip (V6 v6) = classify_v6 v6"

definition HARD_DENY_HOSTS :: "string list" where
  "HARD_DENY_HOSTS = [''metadata.google.internal'', ''metadata.google.com'', ''metadata.goog'']"

definition classify_host :: "string \<Rightarrow> ip_class option" where
  "classify_host host0 =
     (let host = norm_host host0 in
      if host \<in> set HARD_DENY_HOSTS then Some HardDeny
      else map_option classify_ip (parse_ip host))"

section \<open>The reference: a table of address blocks\<close>

definition in_block :: "ipv4_addr \<Rightarrow> ipv4_addr \<times> nat \<Rightarrow> bool" where
  "in_block ip = (\<lambda>(net, len). drop_bit (32 - len) ip = drop_bit (32 - len) net)"

definition metadata_v4 :: "ipv4_addr list" where
  "metadata_v4 = [ipv4 169 254 169 254, ipv4 169 254 169 253, ipv4 168 63 129 16, ipv4 100 100 100 200]"

definition soft_blocks :: "(ipv4_addr \<times> nat) list" where
  "soft_blocks =
     [(ipv4 0 0 0 0, 8), (ipv4 10 0 0 0, 8), (ipv4 100 64 0 0, 10), (ipv4 127 0 0 0, 8),
      (ipv4 169 254 0 0, 16), (ipv4 172 16 0 0, 12), (ipv4 192 0 2 0, 24), (ipv4 192 168 0 0, 16),
      (ipv4 198 51 100 0, 24), (ipv4 203 0 113 0, 24), (ipv4 224 0 0 0, 3)]"

definition in_block6 :: "ipv6_addr \<Rightarrow> ipv6_addr \<times> nat \<Rightarrow> bool" where
  "in_block6 ip = (\<lambda>(net, len). drop_bit (128 - len) ip = drop_bit (128 - len) net)"

lemma in_block_iff:
  "in_block ip (net, len) \<longleftrightarrow> unat ip div 2 ^ (32 - len) = unat net div 2 ^ (32 - len)"
  by (simp add: in_block_def word_unat_eq_iff unat_drop_bit_eq) (simp add: drop_bit_eq_div)

lemma unat_ipv4 [simp]:
  assumes "a < 256" "b < 256" "c < 256" "d < 256"
  shows "unat (ipv4 a b c d) = ((a * 256 + b) * 256 + c) * 256 + d"
proof -
  have "((a * 256 + b) * 256 + c) * 256 + d < 2 ^ 32" using assms by simp
  then show ?thesis unfolding ipv4_def by (subst unat_of_nat) (simp add: take_bit_nat_eq_self)
qed

lemma octet_nat:
  "octet ip 0 = unat ip div 2 ^ 24"
  "octet ip (Suc 0) = unat ip div 2 ^ 16 mod 256"
  "octet ip 2 = unat ip div 2 ^ 8 mod 256"
proof -
  have "unat ip < 2 ^ 32" using unsigned_less [of ip] by simp
  then show "octet ip 0 = unat ip div 2 ^ 24"
    by (simp add: octet_def unat_drop_bit_eq) (simp add: drop_bit_eq_div)
qed (simp_all add: octet_def unat_drop_bit_eq, simp_all add: drop_bit_eq_div)

text \<open>How the octets of an address determine its blocks.\<close>

lemma div_mod_iff:
  fixes m :: nat
  assumes "r < k"
  shows "m = q * k + r \<longleftrightarrow> m div k = q \<and> m mod k = r"
  using assms div_mult_mod_eq [of m k] by auto

lemma digit_arith:
  "x < 4 \<Longrightarrow> 4 * q + x = 401 \<longleftrightarrow> q = 100 \<and> x = 1" "x < 16 \<Longrightarrow> 16 * q + x = 2753 \<longleftrightarrow> q = 172 \<and> x = 1"
  for q x :: nat
  by presburger+

lemma range_arith:
  fixes m :: nat
  shows "m div 64 = 401 \<longleftrightarrow> m div 256 = 100 \<and> 64 \<le> m mod 256 \<and> m mod 256 < 128"
    and "m div 16 = 2753 \<longleftrightarrow> m div 256 = 172 \<and> 16 \<le> m mod 256 \<and> m mod 256 < 32"
proof -
  define q r where "q = m div 256" "r = m mod 256"
  then have m: "m = 256 * q + r" "r < 256" by simp_all
  have "m div 64 = 4 * q + r div 64" "m div 16 = 16 * q + r div 16" unfolding m by linarith+
  moreover have "r div 64 < 4" "r div 16 < 16" using m(2) by linarith+
  ultimately have "m div 64 = 401 \<longleftrightarrow> q = 100 \<and> r div 64 = 1" "m div 16 = 2753 \<longleftrightarrow> q = 172 \<and> r div 16 = 1"
    using digit_arith(1) [of "r div 64" q] digit_arith(2) [of "r div 16" q] by simp_all
  moreover have "r div 64 = 1 \<longleftrightarrow> 64 \<le> r \<and> r < 128" by (intro iffI conjI; (elim conjE)?; linarith)
  moreover have "r div 16 = 1 \<longleftrightarrow> 16 \<le> r \<and> r < 32" by (intro iffI conjI; (elim conjE)?; linarith)
  ultimately show "m div 64 = 401 \<longleftrightarrow> m div 256 = 100 \<and> 64 \<le> m mod 256 \<and> m mod 256 < 128"
    "m div 16 = 2753 \<longleftrightarrow> m div 256 = 172 \<and> 16 \<le> m mod 256 \<and> m mod 256 < 32"
    unfolding q_r_def by auto
qed

lemma top_arith: "m < 256 \<Longrightarrow> m div 32 = 7 \<longleftrightarrow> 224 \<le> m" for m :: nat
  by linarith

lemma in_range_block:
  "in_block ip (ipv4 100 64 0 0, 10) \<longleftrightarrow> octet ip 0 = 100 \<and> 64 \<le> octet ip (Suc 0) \<and> octet ip (Suc 0) < 128"
  "in_block ip (ipv4 172 16 0 0, 12) \<longleftrightarrow> octet ip 0 = 172 \<and> 16 \<le> octet ip (Suc 0) \<and> octet ip (Suc 0) < 32"
  "in_block ip (ipv4 224 0 0 0, 3) \<longleftrightarrow> 224 \<le> octet ip 0"
proof -
  show "in_block ip (ipv4 100 64 0 0, 10) \<longleftrightarrow> octet ip 0 = 100 \<and> 64 \<le> octet ip (Suc 0) \<and> octet ip (Suc 0) < 128"
    using range_arith(1) [of "unat ip div 2 ^ 16"]
    by (simp add: in_block_iff octet_nat flip: div_mult2_eq)
  show "in_block ip (ipv4 172 16 0 0, 12) \<longleftrightarrow> octet ip 0 = 172 \<and> 16 \<le> octet ip (Suc 0) \<and> octet ip (Suc 0) < 32"
    using range_arith(2) [of "unat ip div 2 ^ 16"]
    by (simp add: in_block_iff octet_nat flip: div_mult2_eq)
  have "unat ip < 2 ^ 32" using unsigned_less [of ip] by simp
  then have "unat ip div 2 ^ 24 < 256" by (simp add: less_mult_imp_div_less)
  then show "in_block ip (ipv4 224 0 0 0, 3) \<longleftrightarrow> 224 \<le> octet ip 0"
    using top_arith [of "unat ip div 2 ^ 24"]
    by (simp add: in_block_iff octet_nat flip: div_mult2_eq)
qed

lemma in_octet_block:
  "a < 256 \<Longrightarrow> in_block ip (ipv4 a 0 0 0, 8) \<longleftrightarrow> octet ip 0 = a"
  "a < 256 \<Longrightarrow> b < 256 \<Longrightarrow> in_block ip (ipv4 a b 0 0, 16) \<longleftrightarrow> octet ip 0 = a \<and> octet ip (Suc 0) = b"
  "a < 256 \<Longrightarrow> b < 256 \<Longrightarrow> c < 256 \<Longrightarrow>
     in_block ip (ipv4 a b c 0, 24) \<longleftrightarrow> octet ip 0 = a \<and> octet ip (Suc 0) = b \<and> octet ip 2 = c"
proof -
  show "a < 256 \<Longrightarrow> in_block ip (ipv4 a 0 0 0, 8) \<longleftrightarrow> octet ip 0 = a"
    by (simp add: in_block_iff octet_nat)
  show "a < 256 \<Longrightarrow> b < 256 \<Longrightarrow> in_block ip (ipv4 a b 0 0, 16) \<longleftrightarrow> octet ip 0 = a \<and> octet ip (Suc 0) = b"
    using div_mod_iff [of b 256 "unat ip div 2 ^ 16" a]
    by (simp add: in_block_iff octet_nat algebra_simps flip: div_mult2_eq)
  show "a < 256 \<Longrightarrow> b < 256 \<Longrightarrow> c < 256 \<Longrightarrow>
      in_block ip (ipv4 a b c 0, 24) \<longleftrightarrow> octet ip 0 = a \<and> octet ip (Suc 0) = b \<and> octet ip 2 = c"
    using div_mod_iff [of c 256 "unat ip div 2 ^ 8" "a * 256 + b"]
      div_mod_iff [of b 256 "unat ip div 2 ^ 16" a]
    by (simp add: in_block_iff octet_nat algebra_simps flip: div_mult2_eq)
qed

lemmas block_octets = in_octet_block in_range_block

lemma broadcast_octet: "octet (ipv4 255 255 255 255) 0 = 255"
  by (simp add: octet_nat)

lemma zero_octet: "octet 0 0 = 0"
  by (simp add: octet_nat)

text \<open>The code's chain of conditions is the table.\<close>

lemma classify_v4_blocks:
  "classify_v4 ip =
     (if ip \<in> set metadata_v4 then HardDeny
      else if \<exists>b \<in> set soft_blocks. in_block ip b then SoftDeny
      else Public)"
proof (cases "ip \<in> set metadata_v4")
  case True
  then show ?thesis by (auto simp: classify_v4_def metadata_v4_def)
next
  case False
  have "(\<exists>b \<in> set soft_blocks. in_block ip b) \<longleftrightarrow>
     octet ip 0 = 0 \<or> octet ip 0 = 10 \<or> (octet ip 0 = 100 \<and> 64 \<le> octet ip 1 \<and> octet ip 1 < 128)
     \<or> octet ip 0 = 127 \<or> (octet ip 0 = 169 \<and> octet ip 1 = 254)
     \<or> (octet ip 0 = 172 \<and> 16 \<le> octet ip 1 \<and> octet ip 1 < 32)
     \<or> (octet ip 0 = 192 \<and> octet ip 1 = 0 \<and> octet ip 2 = 2) \<or> (octet ip 0 = 192 \<and> octet ip 1 = 168)
     \<or> (octet ip 0 = 198 \<and> octet ip 1 = 51 \<and> octet ip 2 = 100)
     \<or> (octet ip 0 = 203 \<and> octet ip 1 = 0 \<and> octet ip 2 = 113) \<or> 224 \<le> octet ip 0"
    by (simp add: soft_blocks_def block_octets)
  moreover have "v4_is_unspecified ip \<Longrightarrow> octet ip 0 = 0" "v4_is_broadcast ip \<Longrightarrow> 224 \<le> octet ip 0"
    by (simp_all add: v4_is_unspecified_def v4_is_broadcast_def broadcast_octet zero_octet)
  ultimately show ?thesis using False
    unfolding classify_v4_def v4_is_loopback_def v4_is_link_local_def
    by (auto simp: metadata_v4_def)
qed

section \<open>IPv6 blocks\<close>

lemma unat_segment: "unat (segment ip i) = unat ip div 2 ^ (112 - 16 * i) mod 65536"
proof -
  have "unat (segment ip i) = take_bit 16 (unat (drop_bit (112 - 16 * i) ip))"
    unfolding segment_def by (subst unsigned_ucast_eq) (simp add: unsigned_take_bit_eq)
  then show ?thesis by (simp add: unat_drop_bit_eq take_bit_eq_mod) (simp add: drop_bit_eq_div)
qed

lemma digits_zero:
  fixes x :: nat
  assumes "x < 65536 ^ 5"
  shows "x = 0 \<longleftrightarrow> x div 65536 div 65536 div 65536 div 65536 mod 65536 = 0
    \<and> x div 65536 div 65536 div 65536 mod 65536 = 0 \<and> x div 65536 div 65536 mod 65536 = 0
    \<and> x div 65536 mod 65536 = 0 \<and> x mod 65536 = 0"
proof -
  have z: "y = 0 \<longleftrightarrow> y div 65536 = 0 \<and> y mod 65536 = 0" for y :: nat
    using div_mult_mod_eq [of y 65536] by auto
  have "x div 65536 div 65536 div 65536 div 65536 div 65536 = 0"
    using assms by (simp flip: div_mult2_eq)
  then show ?thesis using z by metis
qed

lemma v4_prefix_segments:
  fixes ip :: ipv6_addr
  assumes "v < 65536"
  shows "(\<forall>i < 5. segment ip i = 0) \<and> segment ip 5 = of_nat v \<longleftrightarrow> drop_bit 32 ip = of_nat v"
proof -
  let ?n = "unat ip"
  let ?x = "?n div 2 ^ 48"
  have bound: "?n < 2 ^ 128" using unsigned_less [of ip] by simp
  have all5: "(\<forall>i < 5. P i) \<longleftrightarrow> P 0 \<and> P (Suc 0) \<and> P 2 \<and> P 3 \<and> P 4" for P :: "nat \<Rightarrow> bool"
    by (auto simp: numeral_eq_Suc less_Suc_eq)
  have "?x < 65536 ^ 5" using bound by (simp add: less_mult_imp_div_less)
  note x = digits_zero [OF this]
  have "(\<forall>i < 5. segment ip i = 0) \<longleftrightarrow> ?x = 0"
    unfolding x all5 by (auto simp: word_unat_eq_iff unat_segment simp flip: div_mult2_eq)
  moreover have "segment ip 5 = of_nat v \<longleftrightarrow> ?n div 2 ^ 32 mod 65536 = v"
    using assms by (simp add: word_unat_eq_iff unat_segment unat_of_nat take_bit_nat_eq_self)
  moreover have "drop_bit 32 ip = of_nat v \<longleftrightarrow> ?n div 2 ^ 32 = v"
    using assms by (simp add: word_unat_eq_iff unat_of_nat take_bit_nat_eq_self unat_drop_bit_eq)
      (simp add: drop_bit_eq_div)
  moreover have "?x = ?n div 2 ^ 32 div 65536" by (simp flip: div_mult2_eq)
  ultimately show ?thesis
    using div_mod_iff [OF assms, of "?n div 2 ^ 32" 0] by auto
qed

lemma mask_block:
  fixes w v :: "'a::len word"
  assumes "v AND mask n = 0"
  shows "w AND NOT (mask n) = v \<longleftrightarrow> drop_bit n w = drop_bit n v"
proof
  assume "w AND NOT (mask n) = v"
  then have "v = w AND NOT (mask n)" ..
  show "drop_bit n w = drop_bit n v"
    unfolding \<open>v = w AND NOT (mask n)\<close> by (rule bit_word_eqI) (auto simp: bit_simps dest: bit_imp_le_length)
next
  assume eq: "drop_bit n w = drop_bit n v"
  show "w AND NOT (mask n) = v"
  proof (rule bit_word_eqI)
    fix i
    assume "i < LENGTH('a)"
    have "\<not> bit (v AND mask n) i" unfolding assms by simp
    then have "\<not> (bit v i \<and> i < n)" using \<open>i < LENGTH('a)\<close> by (auto simp: bit_simps)
    moreover have "n \<le> i \<Longrightarrow> bit w i = bit v i"
      using arg_cong [OF eq, of "\<lambda>x. bit x (i - n)"] by (simp add: bit_simps)
    ultimately show "bit (w AND NOT (mask n)) i = bit v i"
      using \<open>i < LENGTH('a)\<close> by (auto simp: bit_simps)
  qed
qed

lemma in_block6_iff:
  "in_block6 ip (net, len) \<longleftrightarrow> unat ip div 2 ^ (128 - len) = unat net div 2 ^ (128 - len)"
  by (simp add: in_block6_def word_unat_eq_iff unat_drop_bit_eq) (simp add: drop_bit_eq_div)

lemma unat_top_segment: "unat (segment ip 0) = unat ip div 2 ^ 112"
proof -
  have "unat ip < 2 ^ 128" using unsigned_less [of ip] by simp
  then have "unat ip div 2 ^ 112 < 65536" by (simp add: less_mult_imp_div_less)
  then show ?thesis by (simp add: unat_segment)
qed

lemma top_block:
  assumes "len \<le> 16" "v < 65536"
  shows "drop_bit (16 - len) (segment ip 0) = drop_bit (16 - len) (of_nat v)
    \<longleftrightarrow> in_block6 ip (ipv6 [v, 0, 0, 0, 0, 0, 0, 0], len)"
proof -
  have "v * 2 ^ 112 < 2 ^ 128" using assms(2) by simp
  then have net: "unat (ipv6 [v, 0, 0, 0, 0, 0, 0, 0]) = v * 2 ^ 112"
    unfolding ipv6_def by (subst unat_of_nat) (simp add: take_bit_nat_eq_self)
  have "128 - len = 112 + (16 - len)" using assms(1) by simp
  then have "in_block6 ip (ipv6 [v, 0, 0, 0, 0, 0, 0, 0], len) \<longleftrightarrow>
      unat ip div 2 ^ 112 div 2 ^ (16 - len) = v div 2 ^ (16 - len)"
    unfolding in_block6_iff net by (simp only: power_add div_mult2_eq) simp
  also have "\<dots> \<longleftrightarrow> drop_bit (16 - len) (segment ip 0) = drop_bit (16 - len) (of_nat v)"
    using assms(2) unfolding word_unat_eq_iff unat_drop_bit_eq unat_top_segment
    by (simp add: unat_of_nat take_bit_nat_eq_self) (simp add: drop_bit_eq_div)
  finally show ?thesis ..
qed

lemma masks16: "(0xffc0 :: 16 word) = - 64" "(0xfe00 :: 16 word) = - 512" "(0xff00 :: 16 word) = - 256"
  by (simp_all add: word_eq_iff_unsigned)

lemma top_masks:
  "segment ip 0 AND 0xffc0 = 0xfe80 \<longleftrightarrow> in_block6 ip (ipv6 [0xfe80, 0, 0, 0, 0, 0, 0, 0], 10)"
  "segment ip 0 AND 0xfe00 = 0xfc00 \<longleftrightarrow> in_block6 ip (ipv6 [0xfc00, 0, 0, 0, 0, 0, 0, 0], 7)"
  "v6_is_multicast ip \<longleftrightarrow> in_block6 ip (ipv6 [0xff00, 0, 0, 0, 0, 0, 0, 0], 8)"
  using mask_block [of "0xfe80 :: 16 word" 6 "segment ip 0"] top_block [of 10 "0xfe80" ip]
    mask_block [of "0xfc00 :: 16 word" 9 "segment ip 0"] top_block [of 7 "0xfc00" ip]
    mask_block [of "0xff00 :: 16 word" 8 "segment ip 0"] top_block [of 8 "0xff00" ip]
  by (simp_all add: v6_is_multicast_def mask_numeral masks16)

lemma mapped_block:
  "to_ipv4_mapped ip = (if in_block6 ip (ipv6 [0, 0, 0, 0, 0, 0xffff, 0, 0], 96) then Some (ucast ip) else None)"
  "to_ipv4 ip = (if in_block6 ip (ipv6 [0, 0, 0, 0, 0, 0xffff, 0, 0], 96) \<or> in_block6 ip (0, 96)
     then Some (ucast ip) else None)"
  "(segment ip 0 = 0 \<and> segment ip 1 = 0 \<and> segment ip 2 = 0 \<and> segment ip 3 = 0
     \<and> segment ip 4 = 0 \<and> segment ip 5 = 0) \<longleftrightarrow> in_block6 ip (0, 96)"
proof -
  note s = v4_prefix_segments [of "0xffff" ip] v4_prefix_segments [of 0 ip]
  show "to_ipv4_mapped ip = (if in_block6 ip (ipv6 [0, 0, 0, 0, 0, 0xffff, 0, 0], 96) then Some (ucast ip) else None)"
    using s by (simp add: to_ipv4_mapped_def in_block6_def ipv6_def)
  show "to_ipv4 ip = (if in_block6 ip (ipv6 [0, 0, 0, 0, 0, 0xffff, 0, 0], 96) \<or> in_block6 ip (0, 96)
     then Some (ucast ip) else None)"
    using s by (auto simp: to_ipv4_def in_block6_def ipv6_def)
  have "(\<forall>i < 5. P i) \<longleftrightarrow> P 0 \<and> P 1 \<and> P 2 \<and> P 3 \<and> P 4" for P :: "nat \<Rightarrow> bool"
    by (auto simp: numeral_eq_Suc less_Suc_eq)
  with s(2) show "(segment ip 0 = 0 \<and> segment ip 1 = 0 \<and> segment ip 2 = 0 \<and> segment ip 3 = 0
     \<and> segment ip 4 = 0 \<and> segment ip 5 = 0) \<longleftrightarrow> in_block6 ip (0, 96)"
    by (simp add: in_block6_def)
qed

section \<open>The classification is the table\<close>

definition v4_in_v6 :: "(ipv6_addr \<times> nat) list" where
  "v4_in_v6 = [(ipv6 [0, 0, 0, 0, 0, 0xffff, 0, 0], 96), (0, 96)]"

definition soft_blocks6 :: "(ipv6_addr \<times> nat) list" where
  "soft_blocks6 =
     [(ipv6 [0xfe80, 0, 0, 0, 0, 0, 0, 0], 10), (ipv6 [0xfc00, 0, 0, 0, 0, 0, 0, 0], 7),
      (ipv6 [0xff00, 0, 0, 0, 0, 0, 0, 0], 8)]"

lemma low_addresses_soft: "classify_v4 0 = SoftDeny" "classify_v4 1 = SoftDeny"
  by (simp_all add: classify_v4_def ipv4_def v4_is_unspecified_def octet_def v4_is_loopback_def
      v4_is_broadcast_def v4_is_link_local_def drop_bit_eq_div)

lemma low_in_block: "in_block6 0 (0, 96)" "in_block6 1 (0, 96)"
  by (simp_all add: in_block6_def drop_bit_eq_div)

lemma imds6_block: "\<not> in_block6 (ipv6 [0xfd00, 0xec2, 0, 0, 0, 0, 0, 0x254]) (0, 96)"
  by (simp add: in_block6_def ipv6_def)

lemma top_not_low:
  assumes "in_block6 ip (0, 96)"
  shows "\<not> in_block6 ip (ipv6 [0xfe80, 0, 0, 0, 0, 0, 0, 0], 10)"
    "\<not> in_block6 ip (ipv6 [0xfc00, 0, 0, 0, 0, 0, 0, 0], 7)"
    "\<not> in_block6 ip (ipv6 [0xff00, 0, 0, 0, 0, 0, 0, 0], 8)"
  using assms mapped_block(3) [of ip] top_masks [of ip] by (auto simp: v6_is_multicast_def)

text \<open>
  C28: The two deny tiers are exactly the documented address blocks. An IPv4 address is hard-denied
  when it is a cloud metadata address, soft-denied when it lies in one of the private, loopback,
  link-local, shared, documentation, multicast or reserved blocks, and public otherwise. An IPv6
  address that embeds an IPv4 address (mapped or compatible) has the class of that address, so no
  rewriting of a denied IPv4 address as IPv6 changes its tier; the others are hard-denied for the
  IPv6 metadata address, soft-denied in the link-local, unique-local and multicast blocks.
\<close>

theorem classify_ip_blocks:
  "classify_ip (V4 ip4) =
     (if ip4 \<in> set metadata_v4 then HardDeny
      else if \<exists>b \<in> set soft_blocks. in_block ip4 b then SoftDeny else Public)
   \<and> classify_ip (V6 ip6) =
     (if \<exists>b \<in> set v4_in_v6. in_block6 ip6 b then classify_ip (V4 (ucast ip6))
      else if ip6 = ipv6 [0xfd00, 0xec2, 0, 0, 0, 0, 0, 0x254] then HardDeny
      else if \<exists>b \<in> set soft_blocks6. in_block6 ip6 b then SoftDeny else Public)"
proof (rule conjI)
  show "classify_ip (V4 ip4) =
     (if ip4 \<in> set metadata_v4 then HardDeny
      else if \<exists>b \<in> set soft_blocks. in_block ip4 b then SoftDeny else Public)"
    using classify_v4_blocks by simp
  show "classify_ip (V6 ip6) =
     (if \<exists>b \<in> set v4_in_v6. in_block6 ip6 b then classify_ip (V4 (ucast ip6))
      else if ip6 = ipv6 [0xfd00, 0xec2, 0, 0, 0, 0, 0, 0x254] then HardDeny
      else if \<exists>b \<in> set soft_blocks6. in_block6 ip6 b then SoftDeny else Public)"
  proof (cases "in_block6 ip6 (0, 96)")
    case True
    then have "ip6 \<noteq> ipv6 [0xfd00, 0xec2, 0, 0, 0, 0, 0, 0x254]" using imds6_block by blast
    with True show ?thesis
      unfolding classify_ip.simps classify_v6_def mapped_block top_masks
      by (auto simp: top_not_low v4_in_v6_def low_addresses_soft)
  next
    case False
    then have "ip6 \<noteq> 0" "ip6 \<noteq> 1" using low_in_block by blast+
    with False show ?thesis
      unfolding classify_ip.simps classify_v6_def mapped_block top_masks
      by (auto simp: v4_in_v6_def soft_blocks6_def)
  qed
qed

theorem classify_ip_blocks_witness:
  "classify_ip (V4 (ipv4 10 1 2 3)) = SoftDeny"
proof -
  have "ipv4 10 1 2 3 \<notin> set metadata_v4" by (simp add: metadata_v4_def ipv4_def)
  moreover have "in_block (ipv4 10 1 2 3) (ipv4 10 0 0 0, 8)" by (simp add: in_block_iff)
  then have "\<exists>b \<in> set soft_blocks. in_block (ipv4 10 1 2 3) b" by (auto simp: soft_blocks_def)
  ultimately show ?thesis using classify_ip_blocks [of "ipv4 10 1 2 3" 0] by simp
qed

end
