(* ===== verification/RateLimit.thy ===== *)
theory RateLimit
  imports Prelude
begin

text \<open>
  The two token buckets of the program: the per-domain limiter of the connector SDK
  (\<open>crates/connector-sdk/src/rate_limit.rs\<close>, with its configuration from \<open>policy.rs\<close>) and the global
  limiter of the HTTP API (\<open>crates/core-api/src/rate_limit.rs\<close>). Both refill by elapsed time up to a
  capacity and take one token per admission. Token counts are exact rationals (the code uses
  \<open>f64\<close>), times are milliseconds.

  The bound is proved once, for any family of buckets, in the locale \<open>token_buckets\<close>, and
  interpreted for both limiters.
\<close>

section \<open>Buckets\<close>

record bucket =
  bk_tokens :: rat
  bk_last :: time

definition refilled :: "rat \<Rightarrow> rat \<Rightarrow> time \<Rightarrow> bucket \<Rightarrow> rat" where
  "refilled per_second cap now b = min (bk_tokens b + of_nat (since now (bk_last b)) / 1000 * per_second) cap"

definition take_token :: "rat \<Rightarrow> rat \<Rightarrow> time \<Rightarrow> bucket \<Rightarrow> bool \<times> bucket" where
  "take_token per_second cap now b =
     (let tokens = refilled per_second cap now b
      in if 1 \<le> tokens then (True, \<lparr>bk_tokens = tokens - 1, bk_last = now\<rparr>)
         else (False, \<lparr>bk_tokens = tokens, bk_last = now\<rparr>))"

section \<open>The per-domain limiter\<close>

record rate_limit_config =
  rl_per_second :: rat
  rl_burst :: rat

definition default_rate_limit :: rate_limit_config where
  "default_rate_limit = \<lparr>rl_per_second = 1, rl_burst = 4\<rparr>"

type_synonym buckets = "string \<rightharpoonup> bucket"

definition burst_of :: "rate_limit_config \<Rightarrow> rat" where
  "burst_of c = max (rl_burst c) 1"

definition rate_of :: "rate_limit_config \<Rightarrow> rat" where
  "rate_of c = max (rl_per_second c) (1 / 1000)"

text \<open>\<open>Inl domain\<close> is \<open>ConnectorError::RateLimited\<close>.\<close>

definition acquire :: "rate_limit_config \<Rightarrow> time \<Rightarrow> string \<Rightarrow> buckets \<Rightarrow> (string + unit) \<times> buckets" where
  "acquire c now domain0 m =
     (let domain = norm_host domain0;
          b = (case m domain of Some b \<Rightarrow> b | None \<Rightarrow> \<lparr>bk_tokens = burst_of c, bk_last = now\<rparr>);
          (granted, b') = take_token (rate_of c) (burst_of c) now b
      in (if granted then Inr () else Inl domain, m(domain \<mapsto> b')))"

section \<open>The limiter of the HTTP API\<close>

record rate_limiter =
  lim_bucket :: bucket
  lim_per_second :: rat

definition new_rate_limiter :: "nat \<Rightarrow> time \<Rightarrow> rate_limiter" where
  "new_rate_limiter per_second now =
     (let r = of_nat (max per_second 1)
      in \<lparr>lim_bucket = \<lparr>bk_tokens = r, bk_last = now\<rparr>, lim_per_second = r\<rparr>)"

definition try_acquire :: "time \<Rightarrow> rate_limiter \<Rightarrow> bool \<times> rate_limiter" where
  "try_acquire now l =
     (let (granted, b) = take_token (lim_per_second l) (lim_per_second l) now (lim_bucket l)
      in (granted, l\<lparr>lim_bucket := b\<rparr>))"

section \<open>The bound\<close>

text \<open>What a bucket could give at a time, and how this credit changes.\<close>

lemma refilled_later:
  assumes "0 \<le> per_second" "bk_last b \<le> t" "t \<le> u"
  shows "refilled per_second cap u b \<le> refilled per_second cap t b + of_int (u - t) / 1000 * per_second"
proof -
  have "of_nat (since u (bk_last b)) = of_nat (since t (bk_last b)) + (of_int (u - t) :: rat)"
    using assms(2,3) by (simp add: since_def)
  then have "of_nat (since u (bk_last b)) / 1000 * per_second
      = of_nat (since t (bk_last b)) / 1000 * per_second + of_int (u - t) / 1000 * per_second"
    by (simp add: add_divide_distrib distrib_right del: of_int_diff)
  moreover have "0 \<le> of_int (u - t) / 1000 * per_second" using assms by simp
  ultimately show ?thesis unfolding refilled_def by linarith
qed

lemma take_token_credit:
  assumes "take_token per_second cap now b = (g, b')"
  shows "refilled per_second cap now b' = refilled per_second cap now b - (if g then 1 else 0)"
    "bk_last b' = now" "bk_tokens b' \<le> cap"
    and "0 \<le> bk_tokens b \<Longrightarrow> 0 \<le> per_second \<Longrightarrow> 0 \<le> cap \<Longrightarrow> 0 \<le> bk_tokens b'"
    and "g \<longleftrightarrow> 1 \<le> refilled per_second cap now b"
proof -
  have "refilled per_second cap now b \<le> cap" by (simp add: refilled_def)
  then have "refilled per_second cap now \<lparr>bk_tokens = refilled per_second cap now b - k, bk_last = now\<rparr>
      = refilled per_second cap now b - k" if "0 \<le> k" for k
    using that unfolding refilled_def [of _ _ _ "\<lparr>bk_tokens = _, bk_last = _\<rparr>"] by simp
  from this [of 0] this [of 1] assms \<open>refilled per_second cap now b \<le> cap\<close>
  show "refilled per_second cap now b' = refilled per_second cap now b - (if g then 1 else 0)"
    "bk_last b' = now" "bk_tokens b' \<le> cap"
    "0 \<le> bk_tokens b \<Longrightarrow> 0 \<le> per_second \<Longrightarrow> 0 \<le> cap \<Longrightarrow> 0 \<le> bk_tokens b'" "g \<longleftrightarrow> 1 \<le> refilled per_second cap now b"
    by (auto simp: take_token_def Let_def refilled_def split: if_splits)
qed

locale token_buckets =
  fixes attempt :: "time \<Rightarrow> 'k \<Rightarrow> 's \<Rightarrow> bool \<times> 's"
    and bucket_at :: "'s \<Rightarrow> 'k \<Rightarrow> bucket option"
    and rate cap :: "'s \<Rightarrow> rat"
    and same :: "'k \<Rightarrow> 'k \<Rightarrow> bool"
  assumes same_settings: "attempt t k s = (g, s') \<Longrightarrow> rate s' = rate s \<and> cap s' = cap s"
    and other: "attempt t k s = (g, s') \<Longrightarrow> \<not> same k j \<Longrightarrow> bucket_at s' j = bucket_at s j"
    and own: "attempt t k s = (g, s') \<Longrightarrow> same k j \<Longrightarrow>
      (\<exists>b'. bucket_at s' j = Some b' \<and>
        take_token (rate s) (cap s) t
          (case bucket_at s j of Some b \<Rightarrow> b | None \<Rightarrow> \<lparr>bk_tokens = cap s, bk_last = t\<rparr>) = (g, b'))"
begin

definition credit :: "'s \<Rightarrow> 'k \<Rightarrow> time \<Rightarrow> rat" where
  "credit s j t = (case bucket_at s j of Some b \<Rightarrow> refilled (rate s) (cap s) t b | None \<Rightarrow> cap s)"

definition settled :: "'s \<Rightarrow> 'k \<Rightarrow> time \<Rightarrow> bool" where
  "settled s j t \<longleftrightarrow> 0 \<le> rate s \<and> 0 \<le> cap s
     \<and> (\<forall>b. bucket_at s j = Some b \<longrightarrow> bk_last b \<le> t \<and> 0 \<le> bk_tokens b)"

fun run :: "(time \<times> 'k) list \<Rightarrow> 's \<Rightarrow> bool list \<times> 's" where
  "run [] s = ([], s)"
| "run ((t, k) # cs) s =
     (let (g, s1) = attempt t k s; (gs, s2) = run cs s1 in (g # gs, s2))"

fun granted :: "'k \<Rightarrow> (time \<times> 'k) list \<Rightarrow> bool list \<Rightarrow> nat" where
  "granted j ((t, k) # cs) (g # gs) = (if g \<and> same k j then 1 else 0) + granted j cs gs"
| "granted j _ _ = 0"

lemma credit_le: "credit s j t \<le> cap s"
  by (auto simp: credit_def refilled_def split: option.splits)

lemma credit_later:
  "settled s j t \<Longrightarrow> t \<le> u \<Longrightarrow> credit s j u \<le> credit s j t + of_int (u - t) / 1000 * rate s"
  using refilled_later [of "rate s"] by (auto simp: credit_def settled_def split: option.splits)

lemma credit_nonneg: "settled s j t \<Longrightarrow> 0 \<le> credit s j t"
  by (auto simp: credit_def settled_def refilled_def split: option.splits)

lemma credit_attempt:
  assumes "attempt t k s = (g, s')" "settled s j t"
  shows "credit s' j t = credit s j t - (if g \<and> same k j then 1 else 0)" "settled s' j t"
proof -
  have "credit s' j t = credit s j t - (if g \<and> same k j then 1 else 0) \<and> settled s' j t"
  proof (cases "same k j")
    case True
    from own [OF assms(1) this] obtain b' where b': "bucket_at s' j = Some b'"
      "take_token (rate s) (cap s) t (case bucket_at s j of Some b \<Rightarrow> b | None \<Rightarrow> \<lparr>bk_tokens = cap s, bk_last = t\<rparr>) = (g, b')"
      by blast
    have "refilled (rate s) (cap s) t (case bucket_at s j of Some b \<Rightarrow> b | None \<Rightarrow> \<lparr>bk_tokens = cap s, bk_last = t\<rparr>)
        = credit s j t"
      by (simp add: credit_def refilled_def split: option.splits)
    moreover have "0 \<le> bk_tokens b'"
      by (rule take_token_credit(4) [OF b'(2)]) (use assms(2) in \<open>auto simp: settled_def split: option.splits\<close>)
    ultimately show ?thesis
      using take_token_credit(1,2) [OF b'(2)] b'(1) same_settings [OF assms(1)] True assms(2)
      by (auto simp: credit_def settled_def)
  next
    case False
    with other [OF assms(1) this] same_settings [OF assms(1)] assms(2) show ?thesis
      by (auto simp: credit_def settled_def split: option.splits)
  qed
  then show "credit s' j t = credit s j t - (if g \<and> same k j then 1 else 0)" "settled s' j t" by auto
qed

lemma granted_le_credit:
  assumes "sorted (map fst cs)" "\<forall>c \<in> set cs. t0 \<le> fst c \<and> fst c \<le> t1" "settled s j t0" "t0 \<le> t1"
  shows "of_nat (granted j cs (fst (run cs s))) \<le> credit s j t0 + of_int (t1 - t0) / 1000 * rate s"
  using assms
proof (induction cs arbitrary: s t0)
  case Nil
  then have "0 \<le> rate s" "0 \<le> credit s j t0" by (auto simp: settled_def credit_nonneg)
  then show ?case using Nil(4) by simp
next
  case (Cons c cs)
  obtain t k where c: "c = (t, k)" by (cases c)
  obtain g s1 where g: "attempt t k s = (g, s1)" by (cases "attempt t k s")
  have t: "t0 \<le> t" "t \<le> t1" "\<forall>d \<in> set cs. t \<le> fst d \<and> fst d \<le> t1" "sorted (map fst cs)"
    using Cons.prems c by auto
  have st: "settled s j t" using Cons.prems(3) t(1) by (auto simp: settled_def)
  note s1 = credit_attempt [OF g st]
  have "of_nat (granted j cs (fst (run cs s1))) \<le> credit s1 j t + of_int (t1 - t) / 1000 * rate s1"
    using Cons.IH t s1(2) by blast
  moreover have "credit s j t \<le> credit s j t0 + of_int (t - t0) / 1000 * rate s"
    using credit_later [OF Cons.prems(3) t(1)] .
  moreover have "of_int (t1 - t) / 1000 * rate s + of_int (t - t0) / 1000 * rate s = of_int (t1 - t0) / 1000 * rate s"
    by (simp add: field_simps)
  ultimately have "of_nat (granted j cs (fst (run cs s1))) + (if g \<and> same k j then 1 else 0)
      \<le> credit s j t0 + of_int (t1 - t0) / 1000 * rate s"
    using s1(1) same_settings [OF g] by auto
  then show ?case using c g by (auto simp: Let_def split: prod.splits)
qed

lemma run_settled:
  assumes "sorted (map fst cs)" "\<forall>c \<in> set cs. t0 \<le> fst c \<and> fst c \<le> t1" "settled s j t0" "t0 \<le> t1"
  shows "settled (snd (run cs s)) j t1 \<and> rate (snd (run cs s)) = rate s \<and> cap (snd (run cs s)) = cap s"
  using assms
proof (induction cs arbitrary: s t0)
  case Nil
  then show ?case by (auto simp: settled_def)
next
  case (Cons c cs)
  obtain t k where c: "c = (t, k)" by (cases c)
  obtain g s1 where g: "attempt t k s = (g, s1)" by (cases "attempt t k s")
  have t: "t0 \<le> t" "t \<le> t1" "\<forall>d \<in> set cs. t \<le> fst d \<and> fst d \<le> t1" "sorted (map fst cs)"
    using Cons.prems c by auto
  have "settled s j t" using Cons.prems(3) t(1) by (auto simp: settled_def)
  from Cons.IH [OF t(4,3) credit_attempt(2) [OF g this] t(2)] same_settings [OF g]
  show ?case using c g by (auto simp: Let_def split: prod.splits)
qed

text \<open>The bound for a window of calls after any history.\<close>

lemma window_bound:
  assumes "sorted (map fst (before @ window))" "\<forall>c \<in> set window. t0 \<le> fst c \<and> fst c \<le> t1"
    and "\<forall>c \<in> set before. start \<le> fst c \<and> fst c \<le> t0" "settled s j start" "start \<le> t0" "t0 \<le> t1"
  shows "of_nat (granted j window (fst (run window (snd (run before s))))) \<le> cap s + of_int (t1 - t0) / 1000 * rate s"
proof -
  have "sorted (map fst before)" "sorted (map fst window)" using assms(1) by (simp_all add: sorted_append)
  note b = run_settled [OF this(1) assms(3-5)]
  from granted_le_credit [OF \<open>sorted (map fst window)\<close> assms(2) _ assms(6), of "snd (run before s)" j] b
    credit_le [of "snd (run before s)" j t0]
  show ?thesis by auto
qed

end

section \<open>Both limiters\<close>

type_synonym limiter_state = "rate_limit_config \<times> buckets"

definition domain_attempt :: "time \<Rightarrow> string \<Rightarrow> limiter_state \<Rightarrow> bool \<times> limiter_state" where
  "domain_attempt t k = (\<lambda>(c, m). let (r, m') = acquire c t k m in (r = Inr (), (c, m')))"

interpretation domains: token_buckets domain_attempt "\<lambda>(c, m). m" "\<lambda>(c, m). rate_of c" "\<lambda>(c, m). burst_of c"
  "\<lambda>k d. norm_host k = d"
  by unfold_locales (auto simp: domain_attempt_def acquire_def Let_def split: prod.splits if_splits)

definition api_attempt :: "time \<Rightarrow> unit \<Rightarrow> rate_limiter \<Rightarrow> bool \<times> rate_limiter" where
  "api_attempt t _ l = try_acquire t l"

interpretation api: token_buckets api_attempt "\<lambda>l _. Some (lim_bucket l)" lim_per_second lim_per_second "\<lambda>_ _. True"
  by unfold_locales (auto simp: api_attempt_def try_acquire_def Let_def split: prod.splits)

text \<open>Histories of calls, and what they were granted.\<close>

fun acquire_all ::
  "rate_limit_config \<Rightarrow> (time \<times> string) list \<Rightarrow> buckets \<Rightarrow> (string + unit) list \<times> buckets" where
  "acquire_all c [] m = ([], m)"
| "acquire_all c ((t, k) # cs) m =
     (let (r, m1) = acquire c t k m; (rs, m2) = acquire_all c cs m1 in (r # rs, m2))"

definition granted_to :: "string \<Rightarrow> (time \<times> string) list \<Rightarrow> (string + unit) list \<Rightarrow> nat" where
  "granted_to d calls rs = length (filter (\<lambda>((t, k), r). norm_host k = d \<and> r = Inr ()) (zip calls rs))"

lemma domains_run:
  "domains.run cs (c, m) = (map (\<lambda>r. r = Inr ()) (fst (acquire_all c cs m)), (c, snd (acquire_all c cs m)))"
  by (induction cs arbitrary: m) (auto simp: domain_attempt_def Let_def split: prod.splits)

lemma domains_granted:
  "domains.granted d cs (map (\<lambda>r. r = Inr ()) rs) = granted_to d cs rs"
  by (induction d cs "map (\<lambda>r. r = Inr ()) rs" arbitrary: rs rule: domains.granted.induct)
    (auto simp: granted_to_def)

lemma rates_positive: "0 < rate_of c" "1 \<le> burst_of c"
  by (simp_all add: rate_of_def burst_of_def less_max_iff_disj)

lemma domains_start: "domains.settled (c, Map.empty) d t"
  using rates_positive [of c] by (simp add: domains.settled_def)

section \<open>Properties\<close>

text \<open>
  The per-domain limiter holds its rate. After any history, the requests granted to a domain
  in a window of time are at most the burst plus the rate times the length of the window, however
  calls for other domains and other spellings of the domain (case, trailing dot, spaces) are mixed
  in. A domain is never locked out: a call at least one token's refill time after the last call
  of the history is granted.
\<close>

theorem domain_rate_bound:
  assumes "sorted (map fst (before @ window))" "\<forall>c \<in> set window. t0 \<le> fst c \<and> fst c \<le> t1"
    and "\<forall>c \<in> set before. fst c \<le> t0" "t0 \<le> t1"
  shows "of_nat (granted_to d window (fst (acquire_all c window (snd (acquire_all c before Map.empty)))))
      \<le> burst_of c + of_int (t1 - t0) / 1000 * rate_of c
    \<and> (1000 \<le> of_int (t - t0) * rate_of c \<longrightarrow> fst (acquire c t d (snd (acquire_all c before Map.empty))) = Inr ())"
proof -
  obtain start where start: "start \<le> t0" "\<forall>x \<in> set before. start \<le> fst x \<and> fst x \<le> t0"
  proof (cases before)
    case Nil
    then show ?thesis using that [of t0] by simp
  next
    case (Cons x xs)
    then have "\<forall>y \<in> set before. fst x \<le> fst y" using assms(1) by auto
    then show ?thesis using that [of "fst x"] assms(3) Cons by auto
  qed
  from domains.window_bound [OF assms(1,2) start(2) domains_start [of c d] start(1) assms(4)]
  have bound: "of_nat (granted_to d window (fst (acquire_all c window (snd (acquire_all c before Map.empty)))))
      \<le> burst_of c + of_int (t1 - t0) / 1000 * rate_of c"
    by (simp add: domains_run domains_granted)
  let ?m = "snd (acquire_all c before Map.empty)"
  have "sorted (map fst before)" using assms(1) by (simp add: sorted_append)
  from domains.run_settled [OF this start(2) domains_start [of c "norm_host d"] start(1)]
  have b: "\<forall>b. ?m (norm_host d) = Some b \<longrightarrow> bk_last b \<le> t0 \<and> 0 \<le> bk_tokens b"
    by (simp add: domains_run domains.settled_def)
  have "1 \<le> refilled (rate_of c) (burst_of c) t b"
    if "1000 \<le> of_int (t - t0) * rate_of c" "bk_last b \<le> t0" "0 \<le> bk_tokens b" for b
  proof -
    have "of_int (t - t0) \<le> (of_nat (since t (bk_last b)) :: rat)"
      using that(2) unfolding since_def by linarith
    then have "1000 \<le> of_nat (since t (bk_last b)) * rate_of c"
      using that(1) rates_positive(1) [of c] mult_right_mono order_trans less_imp_le by metis
    then show ?thesis using that(3) rates_positive(2) [of c] by (simp add: refilled_def)
  qed
  then have "1000 \<le> of_int (t - t0) * rate_of c \<longrightarrow> fst (acquire c t d ?m) = Inr ()"
    using b rates_positive [of c]
    by (auto simp: acquire_def Let_def take_token_def refilled_def split: option.splits prod.splits)
  with bound show ?thesis by blast
qed

theorem domain_rate_bound_witness:
  "fst (acquire_all \<lparr>rl_per_second = 1, rl_burst = 1\<rparr> [(0, ''a''), (10, ''A.'')] Map.empty) = [Inr (), Inl ''a'']
   \<and> granted_to ''a'' [(0, ''a''), (10, ''A.'')] [Inr (), Inl ''a''] = 1
   \<and> fst (acquire \<lparr>rl_per_second = 1, rl_burst = 1\<rparr> 1010 ''a''
       (snd (acquire_all \<lparr>rl_per_second = 1, rl_burst = 1\<rparr> [(0, ''a''), (10, ''A.'')] Map.empty))) = Inr ()"
proof -
  let ?c = "\<lparr>rl_per_second = 1, rl_burst = 1\<rparr>"
  have a: "norm_host ''a'' = ''a''" "norm_host ''A.'' = ''a''" by code_simp+
  have rs: "fst (acquire_all ?c [(0, ''a''), (10, ''A.'')] Map.empty) = [Inr (), Inl ''a'']"
    by (simp add: acquire_def a burst_of_def rate_of_def take_token_def refilled_def since_def Let_def)
  have "granted_to ''a'' [(0, ''a''), (10, ''A.'')] [Inr (), Inl ''a''] = 1"
    by (simp add: granted_to_def a)
  with rs domain_rate_bound [of "[(0, ''a''), (10, ''A.'')]" "[]" 10 10 "''a''" ?c 1010] show ?thesis
    by (simp add: rate_of_def)
qed

fun try_acquire_all :: "time list \<Rightarrow> rate_limiter \<Rightarrow> bool list \<times> rate_limiter" where
  "try_acquire_all [] l = ([], l)"
| "try_acquire_all (t # ts) l =
     (let (g, l1) = try_acquire t l; (gs, l2) = try_acquire_all ts l1 in (g # gs, l2))"

lemma api_run: "api.run (map (\<lambda>t. (t, ())) ts) l = try_acquire_all ts l"
  by (induction ts arbitrary: l) (auto simp: api_attempt_def Let_def split: prod.splits)

lemma length_try_acquire_all: "length (fst (try_acquire_all ts l)) = length ts"
  by (induction ts arbitrary: l) (simp_all add: Let_def case_prod_beta)

lemma api_granted: "length ts = length gs \<Longrightarrow> api.granted () (map (\<lambda>t. (t, ())) ts) gs = length (filter id gs)"
  by (induction ts gs rule: list_induct2) auto

text \<open>
  The API admits at most its configured number of requests at once, plus that number per
  second, over any window of a history that starts with a new limiter.
\<close>

theorem api_rate_bound:
  assumes "sorted (start # before @ window)" "\<forall>t \<in> set window. t0 \<le> t \<and> t \<le> t1"
    and "\<forall>t \<in> set before. t \<le> t0" "start \<le> t0" "t0 \<le> t1"
  shows "of_nat (length (filter id (fst (try_acquire_all window
      (snd (try_acquire_all before (new_rate_limiter n start)))))))
    \<le> of_nat (max n 1) * (1 + of_int (t1 - t0) / 1000 :: rat)"
proof -
  let ?u = "map (\<lambda>t. (t, ())) :: time list \<Rightarrow> _"
  have "api.settled (new_rate_limiter n start) () start"
    by (auto simp: api.settled_def new_rate_limiter_def Let_def)
  from api.window_bound [OF _ _ _ this assms(4,5), of "?u before" "?u window"] assms
  have "of_nat (api.granted () (?u window) (fst (try_acquire_all window (snd (try_acquire_all before (new_rate_limiter n start))))))
      \<le> lim_per_second (new_rate_limiter n start) + of_int (t1 - t0) / 1000 * lim_per_second (new_rate_limiter n start)"
    by (simp add: api_run comp_def)
  moreover have "lim_per_second (new_rate_limiter n start) = of_nat (max n 1)"
    by (simp add: new_rate_limiter_def Let_def)
  ultimately show ?thesis
    by (simp add: api_granted length_try_acquire_all distrib_left mult.commute)
qed

theorem api_rate_bound_witness:
  "fst (try_acquire_all [0, 0, 0] (new_rate_limiter 2 0)) = [True, True, False]
   \<and> length (filter id [True, True, False]) \<le> 2"
  using api_rate_bound [of 0 "[]" "[0, 0, 0]" 0 0 2]
  by (simp add: try_acquire_def new_rate_limiter_def take_token_def refilled_def Let_def)

end
