(* ===== verification/Ssrf.thy ===== *)
theory Ssrf
  imports AuthApi IpClass RateLimit
begin

text \<open>
  The connector SDK's network guard: the errors (\<open>crates/connector-sdk/src/error.rs\<close>), the policy of a
  source (\<open>policy.rs\<close>), the network rules that let an operator open a private target
  (\<open>network_rule.rs\<close>) and the check of one URL (\<open>ssrf.rs\<close>).

  The crates \<open>ipnet\<close> and \<open>url\<close> and the textual forms of addresses and ids are the fields of the record
  \<open>net_lib\<close>; a parsed URL is its text, scheme, host and port. The resolver's answer is an argument
  of the check. Error messages are left out; the values an error carries are kept where the
  program can see them.
\<close>

section \<open>Errors\<close>

datatype connector_error =
    UnsupportedScheme string string
  | MissingHost string
  | InvalidUrl string
  | HardDenied string
  | SoftDenied string ip_addr uuid
  | DomainDenied string
  | DomainNotAllowed string
  | InvalidNetworkRule string
  | NetworkRuleForbidden string
  | MissingRuleReason
  | MissingApprover
  | DnsError string
  | DnsEmpty string
  | TooManyRedirects nat
  | ResponseTooLarge nat
  | FetchTimeout string
  | FetchError string
  | ParseError
  | DomainRateLimited string
  | RetryExhausted nat
  | ConnectorStorage
  | ConnectorAudit
  | ConnectorPolicy

fun is_retryable :: "connector_error \<Rightarrow> bool" where
  "is_retryable (FetchTimeout _) = True"
| "is_retryable (DomainRateLimited _) = True"
| "is_retryable _ = False"

section \<open>The policy of a source\<close>

record source_policy =
  sp_domain_allowlist :: "string list"
  sp_domain_denylist :: "string list"
  sp_max_redirects :: nat
  sp_max_response_bytes :: nat
  sp_connect_timeout :: duration
  sp_request_timeout :: duration
  sp_rate_limit :: rate_limit_config

definition default_policy :: source_policy where
  "default_policy =
     \<lparr>sp_domain_allowlist = [], sp_domain_denylist = [], sp_max_redirects = 5,
      sp_max_response_bytes = 10 * 1024 * 1024, sp_connect_timeout = 5000,
      sp_request_timeout = 30000, sp_rate_limit = default_rate_limit\<rparr>"

definition domain_matches :: "string \<Rightarrow> string \<Rightarrow> bool" where
  "domain_matches host rule0 =
     (let rule = norm_host rule0
      in rule \<noteq> [] \<and> (host = rule \<or> ends_with (''.'' @ rule) host))"

definition host_allowed :: "source_policy \<Rightarrow> string \<Rightarrow> connector_error + unit" where
  "host_allowed p host0 =
     (let host = norm_host host0 in
      if \<exists>d \<in> set (sp_domain_denylist p). domain_matches host d then Inl (DomainDenied host)
      else if sp_domain_allowlist p = [] then Inr ()
      else if \<exists>d \<in> set (sp_domain_allowlist p). domain_matches host d then Inr ()
      else Inl (DomainNotAllowed host))"

section \<open>Network rules\<close>

definition is_expired :: "network_rule \<Rightarrow> time \<Rightarrow> bool" where
  "is_expired r now \<longleftrightarrow> (case nr_expires_at r of Some e \<Rightarrow> e \<le> now | None \<Rightarrow> False)"

record url =
  u_text :: string
  u_scheme :: string
  u_host :: "string option"
  u_port :: "nat option"

record 'n net_lib =
  nl_parse_net :: "string \<Rightarrow> 'n option"
  nl_net_addr :: "'n \<Rightarrow> ip_addr"
  nl_net_network :: "'n \<Rightarrow> ip_addr"
  nl_net_contains :: "'n \<Rightarrow> ip_addr \<Rightarrow> bool"
  nl_show_ip :: "ip_addr \<Rightarrow> string"
  nl_show_uuid :: "uuid \<Rightarrow> string"
  nl_parse_url :: "string \<Rightarrow> url option"
  nl_join :: "url \<Rightarrow> string \<Rightarrow> url option"

definition HARD :: "string list" where
  "HARD = [''169.254.169.254'', ''169.254.169.253'', ''168.63.129.16'', ''100.100.100.200'', ''fd00:ec2::254'']"

definition cidr_covers_hard_deny :: "'n net_lib \<Rightarrow> 'n \<Rightarrow> bool" where
  "cidr_covers_hard_deny lib net \<longleftrightarrow>
     (\<exists>raw \<in> set HARD. case parse_ip raw of Some ip \<Rightarrow> nl_net_contains lib net ip | None \<Rightarrow> False)"

definition validate_network_rule :: "'n net_lib \<Rightarrow> principal \<Rightarrow> network_rule \<Rightarrow> connector_error + unit" where
  "validate_network_rule lib who r =
     (let target = trim (nr_cidr_or_host r) in
      if \<not> role_includes (pr_role who) Operator then Inl (NetworkRuleForbidden (role_as_str (pr_role who)))
      else if trim (nr_reason r) = [] then Inl MissingRuleReason
      else if trim (nr_approved_by r) = [] then Inl MissingApprover
      else if CHR ''*'' \<in> set (nr_cidr_or_host r) \<or> CHR ''?'' \<in> set (nr_cidr_or_host r)
        then Inl (InvalidNetworkRule (nr_cidr_or_host r))
      else if target = [] then Inl (InvalidNetworkRule (nr_cidr_or_host r))
      else case nl_parse_net lib target of
        Some net \<Rightarrow>
          if classify_ip (nl_net_addr lib net) = HardDeny \<or> classify_ip (nl_net_network lib net) = HardDeny
              \<or> cidr_covers_hard_deny lib net
          then Inl (HardDenied target) else Inr ()
      | None \<Rightarrow>
          (case parse_ip target of
             Some ip \<Rightarrow> if classify_ip ip = HardDeny then Inl (HardDenied target) else Inr ()
           | None \<Rightarrow> if classify_host target = Some HardDeny then Inl (HardDenied target) else Inr ()))"

definition rule_matches :: "'n net_lib \<Rightarrow> string \<Rightarrow> ip_addr \<Rightarrow> nat \<Rightarrow> time \<Rightarrow> network_rule \<Rightarrow> bool" where
  "rule_matches lib host ip port now r =
     (if is_expired r now then False
      else if (case nr_ports r of Some ports \<Rightarrow> port \<notin> set ports | None \<Rightarrow> False) then False
      else let target = trim (nr_cidr_or_host r) in
        case nl_parse_net lib target of
          Some net \<Rightarrow> nl_net_contains lib net ip
        | None \<Rightarrow>
            (case parse_ip target of
               Some rule_ip \<Rightarrow> rule_ip = ip
             | None \<Rightarrow> host = to_ascii_lowercase (trim_end_dots target)))"

definition matching_rule ::
  "'n net_lib \<Rightarrow> network_rule list \<Rightarrow> string \<Rightarrow> ip_addr \<Rightarrow> nat \<Rightarrow> time \<Rightarrow> network_rule option" where
  "matching_rule lib rules host0 ip port now =
     (if classify_ip ip = HardDeny then None
      else find (rule_matches lib (norm_host host0) ip port now) rules)"

section \<open>The check of a URL\<close>

record ssrf_guard =
  sg_source_id :: uuid
  sg_policy :: source_policy
  sg_rules :: "network_rule list"

record ssrf_decision =
  sd_host :: string
  sd_port :: nat
  sd_ips :: "ip_addr list"
  sd_allowlisted :: "network_rule option"

fun check_ips ::
  "'n net_lib \<Rightarrow> ssrf_guard \<Rightarrow> string \<Rightarrow> nat \<Rightarrow> time \<Rightarrow> ip_addr list \<Rightarrow> network_rule option
     \<Rightarrow> connector_error + network_rule option" where
  "check_ips lib g host port now [] allowlisted = Inr allowlisted"
| "check_ips lib g host port now (ip # ips) allowlisted =
     (case classify_ip ip of
        HardDeny \<Rightarrow> Inl (HardDenied host)
      | Public \<Rightarrow> check_ips lib g host port now ips allowlisted
      | SoftDeny \<Rightarrow>
          (case matching_rule lib (sg_rules g) host ip port now of
             Some r \<Rightarrow> check_ips lib g host port now ips (Some r)
           | None \<Rightarrow> Inl (SoftDenied host ip (sg_source_id g))))"

definition url_port :: "url \<Rightarrow> nat" where
  "url_port u = (case u_port u of Some p \<Rightarrow> p | None \<Rightarrow> if u_scheme u = ''https'' then 443 else 80)"

definition allowlist_entry ::
  "'n net_lib \<Rightarrow> ssrf_guard \<Rightarrow> uuid \<Rightarrow> time \<Rightarrow> string \<Rightarrow> nat \<Rightarrow> ip_addr list \<Rightarrow> network_rule \<Rightarrow> audit_entry" where
  "allowlist_entry lib g audit_id now host port ips r =
     (new_entry audit_id now (nr_approved_by r) ''connector.ssrf.allowlist'' ''source''
        (Some (nl_show_uuid lib (sg_source_id g))) ''allowed'')
     \<lparr>au_metadata := JObject
        [(''cidr_or_host'', JString (nr_cidr_or_host r)), (''host'', JString host),
         (''ips'', JArray (map (\<lambda>ip. JString (nl_show_ip lib ip)) ips)), (''port'', JNumber (of_nat port)),
         (''rule_id'', JString (nl_show_uuid lib (nr_id r))),
         (''source_id'', JString (nl_show_uuid lib (sg_source_id g)))]\<rparr>"

definition resolve_host ::
  "(string \<Rightarrow> connector_error + ip_addr list) \<Rightarrow> string \<Rightarrow> connector_error + ip_addr list" where
  "resolve_host resolve host = (case parse_ip host of Some ip \<Rightarrow> Inr [ip] | None \<Rightarrow> resolve host)"

definition ssrf_check ::
  "'n net_lib \<Rightarrow> ssrf_guard \<Rightarrow> (string \<Rightarrow> connector_error + ip_addr list) \<Rightarrow> uuid \<Rightarrow> time \<Rightarrow> url
     \<Rightarrow> (audit_log, connector_error, ssrf_decision) op" where
  "ssrf_check lib g resolve audit_id now u l =
     (if u_scheme u \<noteq> ''http'' \<and> u_scheme u \<noteq> ''https'' then (Inl (UnsupportedScheme (u_text u) (u_scheme u)), l)
      else case u_host u of
        None \<Rightarrow> (Inl (MissingHost (u_text u)), l)
      | Some host0 \<Rightarrow>
          (let host = norm_host host0; port = url_port u in
           case host_allowed (sg_policy g) host of
             Inl e \<Rightarrow> (Inl e, l)
           | Inr _ \<Rightarrow>
               if classify_host host = Some HardDeny then (Inl (HardDenied host), l)
               else case resolve_host resolve host of
                 Inl e \<Rightarrow> (Inl e, l)
               | Inr ips \<Rightarrow>
                   if ips = [] then (Inl (DnsEmpty host), l)
                   else case check_ips lib g host port now ips None of
                     Inl e \<Rightarrow> (Inl e, l)
                   | Inr allowlisted \<Rightarrow>
                       (let decision = \<lparr>sd_host = host, sd_port = port, sd_ips = ips, sd_allowlisted = allowlisted\<rparr>
                        in case allowlisted of
                             None \<Rightarrow> (Inr decision, l)
                           | Some r \<Rightarrow>
                               (case audit_append (allowlist_entry lib g audit_id now host port ips r) l of
                                  (Inl _, l') \<Rightarrow> (Inl ConnectorAudit, l')
                                | (Inr _, l') \<Rightarrow> (Inr decision, l')))))"

text \<open>\<open>pinned_addr\<close>: the first address of the decision, with its port.\<close>

definition pinned_addr :: "ssrf_decision \<Rightarrow> ip_addr \<times> nat" where
  "pinned_addr d = (hd (sd_ips d), sd_port d)"

section \<open>What the guard lets through\<close>

definition permitted :: "'n net_lib \<Rightarrow> network_rule list \<Rightarrow> string \<Rightarrow> nat \<Rightarrow> time \<Rightarrow> ip_addr \<Rightarrow> bool" where
  "permitted lib rules host port now ip \<longleftrightarrow>
     classify_ip ip = Public \<or>
     (classify_ip ip = SoftDeny \<and> (\<exists>r \<in> set rules. rule_matches lib host ip port now r))"

lemma matching_rule_iff:
  "(\<exists>r. matching_rule lib rules host ip port now = Some r) \<longleftrightarrow>
     classify_ip ip \<noteq> HardDeny \<and> (\<exists>r \<in> set rules. rule_matches lib (norm_host host) ip port now r)"
  by (auto simp: matching_rule_def find_None_iff simp flip: not_None_eq)

lemma matching_rule_in:
  "matching_rule lib rules host ip port now = Some r \<Longrightarrow>
     r \<in> set rules \<and> rule_matches lib (norm_host host) ip port now r \<and> classify_ip ip \<noteq> HardDeny"
  by (auto simp: matching_rule_def find_Some_iff split: if_splits)

lemma check_ips_Inr:
  "(\<exists>a. check_ips lib g host port now ips al = Inr a) \<longleftrightarrow>
     (\<forall>ip \<in> set ips. permitted lib (sg_rules g) (norm_host host) port now ip)"
proof (induction ips arbitrary: al)
  case (Cons ip ips)
  show ?case
  proof (cases "classify_ip ip")
    case SoftDeny
    then have "permitted lib (sg_rules g) (norm_host host) port now ip \<longleftrightarrow>
        (\<exists>r. matching_rule lib (sg_rules g) host ip port now = Some r)"
      by (auto simp: permitted_def matching_rule_iff)
    then show ?thesis using SoftDeny Cons.IH
      by (cases "matching_rule lib (sg_rules g) host ip port now") auto
  qed (use Cons.IH in \<open>auto simp: permitted_def\<close>)
qed simp

lemma check_ips_allowlisted:
  "check_ips lib g host port now ips al = Inr a \<Longrightarrow>
     (a = None \<longleftrightarrow> al = None \<and> (\<forall>ip \<in> set ips. classify_ip ip = Public))
     \<and> (\<forall>r. a = Some r \<longrightarrow> al = Some r \<or>
          (r \<in> set (sg_rules g) \<and> (\<exists>ip \<in> set ips. classify_ip ip = SoftDeny \<and> rule_matches lib (norm_host host) ip port now r)))"
proof (induction ips arbitrary: al)
  case (Cons ip ips)
  then show ?case
  proof (cases "classify_ip ip")
    case SoftDeny
    with Cons.prems obtain r where r: "matching_rule lib (sg_rules g) host ip port now = Some r"
      "check_ips lib g host port now ips (Some r) = Inr a"
      by (auto split: option.splits)
    with Cons.IH [OF r(2)] matching_rule_in [OF r(1)] SoftDeny show ?thesis by auto
  qed auto
qed simp

lemma check_ips_error:
  "check_ips lib g host port now ips al = Inl e \<Longrightarrow> e = HardDenied host \<or> (\<exists>ip \<in> set ips. e = SoftDenied host ip (sg_source_id g))"
  by (induction ips arbitrary: al) (auto split: ip_class.splits option.splits)

text \<open>The conditions of the check, in its order.\<close>

definition url_admissible :: "ssrf_guard \<Rightarrow> url \<Rightarrow> string \<Rightarrow> bool" where
  "url_admissible g u host \<longleftrightarrow>
     u_scheme u \<in> {''http'', ''https''} \<and> (\<exists>h. u_host u = Some h \<and> host = norm_host h)
     \<and> host_allowed (sg_policy g) host = Inr () \<and> classify_host host \<noteq> Some HardDeny"

lemma ssrf_check_Inr:
  "ssrf_check lib g resolve aid now u l = (Inr d, l') \<longleftrightarrow>
     (\<exists>a. url_admissible g u (sd_host d) \<and> resolve_host resolve (sd_host d) = Inr (sd_ips d) \<and> sd_ips d \<noteq> []
       \<and> sd_port d = url_port u \<and> sd_allowlisted d = a
       \<and> check_ips lib g (sd_host d) (url_port u) now (sd_ips d) None = Inr a
       \<and> (case a of None \<Rightarrow> l' = l
          | Some r \<Rightarrow> audit_append (allowlist_entry lib g aid now (sd_host d) (url_port u) (sd_ips d) r) l = (Inr (), l')))"
proof (cases "u_host u")
  case None
  then show ?thesis by (auto simp: ssrf_check_def url_admissible_def)
next
  case (Some h)
  show ?thesis
  proof (cases "url_admissible g u (norm_host h)")
    case False
    then show ?thesis using Some
      by (auto simp: ssrf_check_def url_admissible_def Let_def split: sum.splits if_splits)
  next
    case adm: True
    show ?thesis
    proof (cases "resolve_host resolve (norm_host h)")
      case (Inl e)
      then show ?thesis using Some adm
        by (auto simp: ssrf_check_def url_admissible_def Let_def)
    next
      case (Inr ips)
      show ?thesis
      proof (cases "check_ips lib g (norm_host h) (url_port u) now ips None")
        case (Inl e)
        then show ?thesis using Some adm Inr
          by (auto simp: ssrf_check_def url_admissible_def Let_def)
      next
        case a: (Inr a)
        then show ?thesis using Some adm Inr
          by (cases a; cases d)
            (auto simp: ssrf_check_def url_admissible_def Let_def split: sum.splits prod.splits)
      qed
    qed
  qed
qed

section \<open>Properties\<close>

definition metadata_addresses :: "ip_addr list" where
  "metadata_addresses = map V4 metadata_v4 @ [V6 (ipv6 [0xfd00, 0xec2, 0, 0, 0, 0, 0, 0x254])]"

lemma funpow5: "(f ^^ 5) x = f (f (f (f (f x))))"
  by (simp add: numeral_eq_Suc)

lemma hard_parsed: "map parse_ip HARD = map Some metadata_addresses"
  by (simp add: HARD_def metadata_addresses_def metadata_v4_def parse_simps ipv6_def funpow5)

lemma covers_metadata:
  "cidr_covers_hard_deny lib net \<longleftrightarrow> (\<exists>ip \<in> set metadata_addresses. nl_net_contains lib net ip)"
proof -
  have "cidr_covers_hard_deny lib net \<longleftrightarrow>
      (\<exists>x \<in> set (map parse_ip HARD). case x of Some ip \<Rightarrow> nl_net_contains lib net ip | None \<Rightarrow> False)"
    by (simp add: cidr_covers_hard_deny_def)
  then show ?thesis unfolding hard_parsed by auto
qed

text \<open>
  C35: The guard lets a URL through exactly when its scheme is http or https, its host is not denied
  by the policy or the metadata host names, the host resolves, and every address it resolves to
  is public or a private one that an unexpired rule of the source covers for this port. The
  decision then carries exactly those addresses. A decision that needed no rule leaves the audit
  log alone; one that did leaves exactly one row, in the name of the approver of a rule that
  covers one of the private addresses.
\<close>

theorem ssrf_check_exact:
  assumes "al_fault l = None" "tbl_get (al_rows l) aid = None"
  shows "((\<exists>d. fst (ssrf_check lib g resolve aid now u l) = Inr d) \<longleftrightarrow>
      (\<exists>host ips. url_admissible g u host \<and> resolve_host resolve host = Inr ips \<and> ips \<noteq> []
        \<and> (\<forall>ip \<in> set ips. permitted lib (sg_rules g) (norm_host host) (url_port u) now ip)))
    \<and> (\<forall>d l'. ssrf_check lib g resolve aid now u l = (Inr d, l') \<longrightarrow>
        resolve_host resolve (sd_host d) = Inr (sd_ips d)
        \<and> (\<forall>ip \<in> set (sd_ips d). permitted lib (sg_rules g) (norm_host (sd_host d)) (sd_port d) now ip)
        \<and> (if \<forall>ip \<in> set (sd_ips d). classify_ip ip = Public then l' = l
           else (\<exists>r row ip. r \<in> set (sg_rules g) \<and> ip \<in> set (sd_ips d) \<and> classify_ip ip = SoftDeny
              \<and> rule_matches lib (norm_host (sd_host d)) ip (sd_port d) now r
              \<and> au_actor row = nr_approved_by r \<and> au_action row = ''connector.ssrf.allowlist''
              \<and> al_rows l' = tbl_put aid row (al_rows l))))"
proof -
  have up: "\<exists>l'. audit_append (allowlist_entry lib g aid now h p ips r) l = (Inr (), l')" for h p ips r
    using assms by (simp add: audit_append_def allowlist_entry_def new_entry_def)
  have fst_iff: "(\<exists>d. fst (ssrf_check lib g resolve aid now u l) = Inr d)
      \<longleftrightarrow> (\<exists>d l'. ssrf_check lib g resolve aid now u l = (Inr d, l'))"
    by (metis fst_conv prod.collapse)
  have "(\<exists>d. fst (ssrf_check lib g resolve aid now u l) = Inr d) \<longleftrightarrow>
      (\<exists>host ips. url_admissible g u host \<and> resolve_host resolve host = Inr ips \<and> ips \<noteq> []
        \<and> (\<forall>ip \<in> set ips. permitted lib (sg_rules g) (norm_host host) (url_port u) now ip))"
    (is "_ \<longleftrightarrow> ?R")
  proof
    assume "\<exists>d. fst (ssrf_check lib g resolve aid now u l) = Inr d"
    then show ?R unfolding fst_iff ssrf_check_Inr using check_ips_Inr by metis
  next
    assume ?R
    then obtain host ips a where ok: "url_admissible g u host" "resolve_host resolve host = Inr ips" "ips \<noteq> []"
      "check_ips lib g host (url_port u) now ips None = Inr a"
      using check_ips_Inr by metis
    let ?d = "\<lparr>sd_host = host, sd_port = url_port u, sd_ips = ips, sd_allowlisted = a\<rparr>"
    obtain l' where "case a of None \<Rightarrow> l' = l | Some r \<Rightarrow> audit_append (allowlist_entry lib g aid now host (url_port u) ips r) l = (Inr (), l')"
      using up [of host "url_port u" ips] by (cases a) auto
    with ok have "ssrf_check lib g resolve aid now u l = (Inr ?d, l')"
      unfolding ssrf_check_Inr by (cases a) simp_all
    then show "\<exists>d. fst (ssrf_check lib g resolve aid now u l) = Inr d" by simp
  qed
  moreover have "resolve_host resolve (sd_host d) = Inr (sd_ips d)
        \<and> (\<forall>ip \<in> set (sd_ips d). permitted lib (sg_rules g) (norm_host (sd_host d)) (sd_port d) now ip)
        \<and> (if \<forall>ip \<in> set (sd_ips d). classify_ip ip = Public then l' = l
           else (\<exists>r row ip. r \<in> set (sg_rules g) \<and> ip \<in> set (sd_ips d) \<and> classify_ip ip = SoftDeny
              \<and> rule_matches lib (norm_host (sd_host d)) ip (sd_port d) now r
              \<and> au_actor row = nr_approved_by r \<and> au_action row = ''connector.ssrf.allowlist''
              \<and> al_rows l' = tbl_put aid row (al_rows l)))"
    if "ssrf_check lib g resolve aid now u l = (Inr d, l')" for d l'
  proof -
    from that [unfolded ssrf_check_Inr] obtain a where ok: "resolve_host resolve (sd_host d) = Inr (sd_ips d)"
      "sd_port d = url_port u" "check_ips lib g (sd_host d) (url_port u) now (sd_ips d) None = Inr a"
      "case a of None \<Rightarrow> l' = l
         | Some r \<Rightarrow> audit_append (allowlist_entry lib g aid now (sd_host d) (url_port u) (sd_ips d) r) l = (Inr (), l')"
      by blast
    have perm: "\<forall>ip \<in> set (sd_ips d). permitted lib (sg_rules g) (norm_host (sd_host d)) (sd_port d) now ip"
      using check_ips_Inr ok(2,3) by metis
    note al = check_ips_allowlisted [OF ok(3)]
    show ?thesis
    proof (cases a)
      case None
      with al ok(4) have "l' = l" "\<forall>ip \<in> set (sd_ips d). classify_ip ip = Public" by auto
      with ok(1) perm show ?thesis by simp
    next
      case (Some r)
      let ?e = "allowlist_entry lib g aid now (sd_host d) (url_port u) (sd_ips d) r"
      from ok(4) Some have "al_rows l' = tbl_put aid (?e\<lparr>au_metadata := stored_metadata (au_metadata ?e)\<rparr>) (al_rows l)"
        using assms by (auto simp: audit_append_def allowlist_entry_def new_entry_def)
      moreover have "au_actor (?e\<lparr>au_metadata := stored_metadata (au_metadata ?e)\<rparr>) = nr_approved_by r"
        "au_action (?e\<lparr>au_metadata := stored_metadata (au_metadata ?e)\<rparr>) = ''connector.ssrf.allowlist''"
        by (simp_all add: allowlist_entry_def new_entry_def)
      moreover have "\<not> (\<forall>ip \<in> set (sd_ips d). classify_ip ip = Public)" using al Some by auto
      moreover obtain ip where "r \<in> set (sg_rules g)" "ip \<in> set (sd_ips d)" "classify_ip ip = SoftDeny"
        "rule_matches lib (norm_host (sd_host d)) ip (sd_port d) now r"
        using al Some ok(2) by auto
      ultimately show ?thesis using ok(1) perm by metis
    qed
  qed
  ultimately show ?thesis by blast
qed

text \<open>
  The hard-deny tier cannot be opened. Whatever the policy and the rules of the source, no rule
  matches a hard-denied address and no URL is let through whose host is a metadata name or
  resolves, even among others, to a hard-denied address. A rule is only accepted from an operator
  or an administrator, with a reason and an approver, and none that names a metadata host or
  address, or whose block contains one of the metadata addresses, is accepted.
\<close>

theorem hard_deny_not_overridable:
  "(classify_ip ip = HardDeny \<longrightarrow> matching_rule lib rules host ip port now = None)
   \<and> (ssrf_check lib g resolve aid now u l = (Inr d, l') \<longrightarrow>
        classify_host (sd_host d) \<noteq> Some HardDeny \<and> (\<forall>x \<in> set (sd_ips d). classify_ip x \<noteq> HardDeny))
   \<and> (validate_network_rule lib who r = Inr () \<longrightarrow>
        pr_role who \<in> {Operator, Admin} \<and> trim (nr_reason r) \<noteq> [] \<and> trim (nr_approved_by r) \<noteq> []
        \<and> (\<forall>net. nl_parse_net lib (trim (nr_cidr_or_host r)) = Some net \<longrightarrow>
             (\<forall>x \<in> set metadata_addresses. \<not> nl_net_contains lib net x))
        \<and> (nl_parse_net lib (trim (nr_cidr_or_host r)) = None \<longrightarrow>
             classify_host (trim (nr_cidr_or_host r)) \<noteq> Some HardDeny
             \<or> (\<exists>x. parse_ip (trim (nr_cidr_or_host r)) = Some x \<and> classify_ip x \<noteq> HardDeny)))"
proof (intro conjI impI)
  show "matching_rule lib rules host ip port now = None" if "classify_ip ip = HardDeny"
    using that by (simp add: matching_rule_def)
  assume "ssrf_check lib g resolve aid now u l = (Inr d, l')"
  then obtain a where a: "url_admissible g u (sd_host d)" "check_ips lib g (sd_host d) (url_port u) now (sd_ips d) None = Inr a"
    unfolding ssrf_check_Inr by blast
  then show "classify_host (sd_host d) \<noteq> Some HardDeny" by (simp add: url_admissible_def)
  have "\<forall>x \<in> set (sd_ips d). permitted lib (sg_rules g) (norm_host (sd_host d)) (url_port u) now x"
    using check_ips_Inr a(2) by metis
  then show "\<forall>x \<in> set (sd_ips d). classify_ip x \<noteq> HardDeny" by (auto simp: permitted_def)
next
  assume v: "validate_network_rule lib who r = Inr ()"
  then have r: "role_includes (pr_role who) Operator" by (auto simp: validate_network_rule_def Let_def split: if_splits)
  then show "pr_role who \<in> {Operator, Admin}" by (cases "pr_role who") auto
  show "trim (nr_reason r) \<noteq> []" "trim (nr_approved_by r) \<noteq> []"
    using v by (auto simp: validate_network_rule_def Let_def split: if_splits)
  show "\<forall>net. nl_parse_net lib (trim (nr_cidr_or_host r)) = Some net \<longrightarrow>
             (\<forall>x \<in> set metadata_addresses. \<not> nl_net_contains lib net x)"
    using v covers_metadata by (fastforce simp: validate_network_rule_def Let_def split: if_splits)
  assume "nl_parse_net lib (trim (nr_cidr_or_host r)) = None"
  then show "classify_host (trim (nr_cidr_or_host r)) \<noteq> Some HardDeny
             \<or> (\<exists>x. parse_ip (trim (nr_cidr_or_host r)) = Some x \<and> classify_ip x \<noteq> HardDeny)"
    using v by (auto simp: validate_network_rule_def Let_def split: if_splits option.splits)
qed

section \<open>Witnesses\<close>

definition sample_lib :: "unit net_lib" where
  "sample_lib =
     \<lparr>nl_parse_net = (\<lambda>_. None), nl_net_addr = (\<lambda>_. V4 0), nl_net_network = (\<lambda>_. V4 0),
      nl_net_contains = (\<lambda>_ _. False), nl_show_ip = (\<lambda>_. ''ip''), nl_show_uuid = unary_uuid,
      nl_parse_url = (\<lambda>_. None), nl_join = (\<lambda>_ _. None)\<rparr>"

definition sample_rule :: network_rule where
  "sample_rule =
     \<lparr>nr_id = 4, nr_source_id = 2, nr_cidr_or_host = ''db'', nr_ports = None, nr_reason = ''r'',
      nr_approved_by = ''ops'', nr_expires_at = None, nr_created_at = 0, nr_updated_at = 0\<rparr>"

definition sample_guard :: ssrf_guard where
  "sample_guard = \<lparr>sg_source_id = 2, sg_policy = default_policy, sg_rules = [sample_rule]\<rparr>"

definition sample_url :: url where
  "sample_url = \<lparr>u_text = ''http://db/'', u_scheme = ''http'', u_host = Some ''db'', u_port = None\<rparr>"

lemma sample_texts: "norm_host ''db'' = ''db''" "trim ''db'' = ''db''" "trim ''r'' = ''r''" "trim ''ops'' = ''ops''"
  "to_ascii_lowercase (trim_end_dots ''db'') = ''db''"
  by code_simp+

lemma sample_host: "parse_ip ''db'' = None" "classify_host ''db'' = None"
proof -
  show "parse_ip ''db'' = None" by (simp add: parse_simps)
  then show "classify_host ''db'' = None"
    by (simp add: classify_host_def sample_texts HARD_DENY_HOSTS_def)
qed

lemma sample_private: "classify_ip (V4 (ipv4 10 0 0 5)) = SoftDeny"
proof -
  have "ipv4 10 0 0 5 \<notin> set metadata_v4" by (simp add: metadata_v4_def ipv4_def)
  moreover have "in_block (ipv4 10 0 0 5) (ipv4 10 0 0 0, 8)" by (simp add: in_block_iff)
  ultimately show ?thesis by (auto simp: classify_v4_blocks soft_blocks_def)
qed

theorem ssrf_check_exact_witness:
  "\<exists>d l'. ssrf_check sample_lib sample_guard (\<lambda>_. Inr [V4 (ipv4 10 0 0 5)]) 9 0 sample_url
      \<lparr>al_rows = [], al_fault = None\<rparr> = (Inr d, l') \<and> length (al_rows l') = 1"
proof -
  let ?check = "ssrf_check sample_lib sample_guard (\<lambda>_. Inr [V4 (ipv4 10 0 0 5)]) 9 0 sample_url
      \<lparr>al_rows = [], al_fault = None\<rparr>"
  have adm: "url_admissible sample_guard sample_url ''db''"
    by (simp add: url_admissible_def sample_guard_def sample_url_def sample_texts sample_host
        host_allowed_def default_policy_def)
  have res: "resolve_host (\<lambda>_. Inr [V4 (ipv4 10 0 0 5)]) ''db'' = Inr [V4 (ipv4 10 0 0 5)]"
    by (simp add: resolve_host_def sample_host)
  have perm: "permitted sample_lib (sg_rules sample_guard) (norm_host ''db'') (url_port sample_url) 0 (V4 (ipv4 10 0 0 5))"
    using sample_private
    by (simp add: permitted_def sample_guard_def sample_rule_def sample_texts rule_matches_def
        is_expired_def sample_lib_def sample_host)
  note exact = ssrf_check_exact [of "\<lparr>al_rows = [], al_fault = None\<rparr>" 9 sample_lib sample_guard
      "\<lambda>_. Inr [V4 (ipv4 10 0 0 5)]" 0 sample_url, simplified]
  from exact adm res perm obtain d l' where c: "?check = (Inr d, l')" by (fastforce simp: prod_eq_iff)
  then have "sd_host d = ''db''"
    unfolding ssrf_check_Inr by (auto simp: url_admissible_def sample_url_def sample_texts)
  with exact c res have ips: "sd_ips d = [V4 (ipv4 10 0 0 5)]" by simp
  with exact c sample_private obtain row where "al_rows l' = tbl_put 9 row []" by auto
  then have "length (al_rows l') = 1" by simp
  with c show ?thesis by blast
qed

theorem hard_deny_not_overridable_witness:
  "classify_ip (V4 (ipv4 169 254 169 254)) = HardDeny
   \<and> matching_rule sample_lib [sample_rule] ''db'' (V4 (ipv4 169 254 169 254)) 80 0 = None
   \<and> validate_network_rule sample_lib sample_admin sample_rule = Inr () \<and> pr_role sample_admin \<in> {Operator, Admin}"
proof -
  have "classify_ip (V4 (ipv4 169 254 169 254)) = HardDeny" by (simp add: classify_v4_def)
  moreover have "validate_network_rule sample_lib sample_admin sample_rule = Inr ()"
    by (simp add: validate_network_rule_def sample_admin_def sample_rule_def sample_texts sample_lib_def sample_host)
  ultimately show ?thesis
    using hard_deny_not_overridable [of "V4 (ipv4 169 254 169 254)" sample_lib "[sample_rule]" "''db''" 80 0
        sample_guard _ 9 _ _ _ _ sample_admin sample_rule] by blast
qed

end
