(* ===== verification/Fetch.thy ===== *)
theory Fetch
  imports Ssrf
begin

text \<open>
  The guarded HTTP fetcher, \<open>crates/connector-sdk/src/fetch.rs\<close>: every hop of a redirect chain runs the
  guard again and takes a rate-limit token, the connection is pinned to a checked address, and
  the body is bounded.

  What the network does at hop \<open>n\<close> is the record \<open>env n\<close>: the clock, the resolver's answer, and
  \<open>reqwest\<close>'s answer to a request. A request carries the host and address of \<open>ClientBuilder::resolve\<close>.
  Which address \<open>reqwest\<close> then connects to is the parameter \<open>dial\<close> of the theorems that need it.
\<close>

datatype http_method = GET | OtherMethod string

record http_request =
  hq_method :: http_method
  hq_url :: url
  hq_resolve :: "string \<times> (ip_addr \<times> nat)"
  hq_headers :: "(string \<times> string) list"
  hq_body :: "8 word list option"

text \<open>
  A response: header values that are not visible ASCII are \<open>None\<close>; a chunk that cannot be read
  is \<open>None\<close>.
\<close>

record http_response =
  hr_status :: nat
  hr_headers :: "(string \<times> string option) list"
  hr_content_length :: "nat option"
  hr_chunks :: "8 word list option list"

datatype send_result = SendTimeout | SendFailed | Answer http_response

record hop_env =
  he_now :: time
  he_instant :: time
  he_finished :: time
  he_audit_id :: uuid
  he_resolve :: "string \<Rightarrow> connector_error + ip_addr list"
  he_send :: "http_request \<Rightarrow> send_result"

record fetched_response =
  fr_url :: url
  fr_status :: nat
  fr_headers :: "(string \<times> string) list"
  fr_body :: "8 word list"
  fr_elapsed_ms :: nat

record guarded_fetcher =
  gf_guard :: ssrf_guard
  gf_limiter :: rate_limit_config

text \<open>The state of a fetcher: the audit log, the buckets, and what has been sent.\<close>

record fetch_state =
  fs_audit :: audit_log
  fs_buckets :: buckets
  fs_sent :: "http_request list"

text \<open>The \<open>BTreeMap\<close> of lower-case names; a repeated name keeps its last value.\<close>

definition collect_headers :: "http_response \<Rightarrow> (string \<times> string) list" where
  "collect_headers r =
     fold (\<lambda>(k, v) m. case v of Some x \<Rightarrow> object_insert (to_ascii_lowercase k) x m | None \<Rightarrow> m) (hr_headers r) []"

definition header :: "fetched_response \<Rightarrow> string \<Rightarrow> string option" where
  "header r name = map_of (fr_headers r) (to_ascii_lowercase name)"

definition headers_json :: "fetched_response \<Rightarrow> json" where
  "headers_json r = JObject (map (\<lambda>(k, v). (k, JString v)) (fr_headers r))"

definition is_not_modified :: "fetched_response \<Rightarrow> bool" where
  "is_not_modified r \<longleftrightarrow> fr_status r = 304"

definition location :: "http_response \<Rightarrow> string option" where
  "location r =
     (case find (\<lambda>(k, v). to_ascii_lowercase k = ''location'') (hr_headers r) of
        Some (k, v) \<Rightarrow> v
      | None \<Rightarrow> None)"

fun read_chunks :: "url \<Rightarrow> nat \<Rightarrow> 8 word list \<Rightarrow> 8 word list option list \<Rightarrow> connector_error + 8 word list" where
  "read_chunks u limit body [] = Inr body"
| "read_chunks u limit body (None # cs) = Inl (FetchError (u_text u))"
| "read_chunks u limit body (Some chunk # cs) =
     (if limit < length body + length chunk then Inl (ResponseTooLarge limit)
      else read_chunks u limit (body @ chunk) cs)"

definition read_body :: "url \<Rightarrow> http_response \<Rightarrow> nat \<Rightarrow> connector_error + 8 word list" where
  "read_body u r limit =
     (case hr_content_length r of
        Some len \<Rightarrow> if limit < len then Inl (ResponseTooLarge limit) else read_chunks u limit [] (hr_chunks r)
      | None \<Rightarrow> read_chunks u limit [] (hr_chunks r))"

definition is_redirection :: "nat \<Rightarrow> bool" where
  "is_redirection status \<longleftrightarrow> 300 \<le> status \<and> status < 400"

definition is_success :: "nat \<Rightarrow> bool" where
  "is_success status \<longleftrightarrow> 200 \<le> status \<and> status < 300"

section \<open>One hop\<close>

datatype hop_outcome =
    Finished "connector_error + fetched_response"
  | Redirected url http_method "8 word list option"

text \<open>What the loop body does with the answer to a request.\<close>

definition handle_answer ::
  "'n net_lib \<Rightarrow> source_policy \<Rightarrow> hop_env \<Rightarrow> time \<Rightarrow> nat \<Rightarrow> url \<Rightarrow> http_method \<Rightarrow> 8 word list option \<Rightarrow> send_result
     \<Rightarrow> hop_outcome" where
  "handle_answer lib p env started hops current method body answer =
     (case answer of
        SendTimeout \<Rightarrow> Finished (Inl (FetchTimeout (u_text current)))
      | SendFailed \<Rightarrow> Finished (Inl (FetchError (u_text current)))
      | Answer r \<Rightarrow>
          (let status = hr_status r;
               fetched = (\<lambda>b. \<lparr>fr_url = current, fr_status = status, fr_headers = collect_headers r, fr_body = b,
                               fr_elapsed_ms = since (he_finished env) started\<rparr>)
           in if status = 304 then Finished (Inr (fetched []))
              else if is_redirection status then
                (if sp_max_redirects p < hops + 1 then Finished (Inl (TooManyRedirects (sp_max_redirects p)))
                 else case location r of
                   None \<Rightarrow> Finished (Inl (FetchError (u_text current)))
                 | Some loc \<Rightarrow>
                     (case nl_join lib current loc of
                        None \<Rightarrow> Finished (Inl (InvalidUrl loc))
                      | Some next \<Rightarrow>
                          if status \<noteq> 307 \<and> status \<noteq> 308 then Redirected next GET None
                          else Redirected next method body))
              else if \<not> is_success status then Finished (Inl (FetchError (u_text current)))
              else Finished (case read_body current r (sp_max_response_bytes p) of
                     Inl e \<Rightarrow> Inl e
                   | Inr b \<Rightarrow> Inr (fetched b))))"

definition fetch_hop ::
  "'n net_lib \<Rightarrow> guarded_fetcher \<Rightarrow> (string \<times> string) list \<Rightarrow> hop_env \<Rightarrow> time \<Rightarrow> nat \<Rightarrow> url \<Rightarrow> http_method
     \<Rightarrow> 8 word list option \<Rightarrow> fetch_state \<Rightarrow> hop_outcome \<times> fetch_state" where
  "fetch_hop lib f headers env started hops current method body s =
     (case ssrf_check lib (gf_guard f) (he_resolve env) (he_audit_id env) (he_now env) current (fs_audit s) of
        (Inl e, l) \<Rightarrow> (Finished (Inl e), s\<lparr>fs_audit := l\<rparr>)
      | (Inr d, l) \<Rightarrow>
          (case acquire (gf_limiter f) (he_instant env) (sd_host d) (fs_buckets s) of
             (Inl domain, m) \<Rightarrow> (Finished (Inl (DomainRateLimited domain)), s\<lparr>fs_audit := l, fs_buckets := m\<rparr>)
           | (Inr _, m) \<Rightarrow>
               (let rq = \<lparr>hq_method = method, hq_url = current, hq_resolve = (sd_host d, pinned_addr d),
                          hq_headers = headers, hq_body = body\<rparr>
                in (handle_answer lib (sg_policy (gf_guard f)) env started hops current method body (he_send env rq),
                    s\<lparr>fs_audit := l, fs_buckets := m, fs_sent := fs_sent s @ [rq]\<rparr>))))"

section \<open>The redirect loop\<close>

text \<open>
  The limit on redirects is tested in \<open>handle_answer\<close>, before the next hop; the test is repeated in
  the recursion so that it is bounded by itself. The lemma \<open>redirected_within\<close> below shows that
  the repeated test never fails.
\<close>

function request_loop ::
  "'n net_lib \<Rightarrow> guarded_fetcher \<Rightarrow> (string \<times> string) list \<Rightarrow> (nat \<Rightarrow> hop_env) \<Rightarrow> time \<Rightarrow> nat \<Rightarrow> url \<Rightarrow> http_method
     \<Rightarrow> 8 word list option \<Rightarrow> (fetch_state, connector_error, fetched_response) op" where
  "request_loop lib f headers env started hops current method body s =
     (case fetch_hop lib f headers (env hops) started hops current method body s of
        (Finished r, s') \<Rightarrow> (r, s')
      | (Redirected next method' body', s') \<Rightarrow>
          if sp_max_redirects (sg_policy (gf_guard f)) < hops + 1
          then (Inl (TooManyRedirects (sp_max_redirects (sg_policy (gf_guard f)))), s')
          else request_loop lib f headers env started (hops + 1) next method' body' s')"
  by pat_completeness auto

termination
  by (relation "measure (\<lambda>(lib, f, headers, env, started, hops, current, method, body, s).
        Suc (sp_max_redirects (sg_policy (gf_guard f))) - hops)") auto

declare request_loop.simps [simp del]

definition fetch_request ::
  "'n net_lib \<Rightarrow> guarded_fetcher \<Rightarrow> (nat \<Rightarrow> hop_env) \<Rightarrow> http_method \<Rightarrow> string \<Rightarrow> (string \<times> string) list
     \<Rightarrow> 8 word list option \<Rightarrow> (fetch_state, connector_error, fetched_response) op" where
  "fetch_request lib f env method text headers body s =
     (case nl_parse_url lib text of
        None \<Rightarrow> (Inl (InvalidUrl text), s)
      | Some u \<Rightarrow> request_loop lib f headers env (he_instant (env 0)) 0 u method body s)"

definition fetch_get ::
  "'n net_lib \<Rightarrow> guarded_fetcher \<Rightarrow> (nat \<Rightarrow> hop_env) \<Rightarrow> string \<Rightarrow> (string \<times> string) list
     \<Rightarrow> (fetch_state, connector_error, fetched_response) op" where
  "fetch_get lib f env text headers = fetch_request lib f env GET text headers None"

section \<open>What every hop respects\<close>

lemma redirected_within:
  "fst (fetch_hop lib f headers env started hops u m b s) = Redirected u' m' b' \<Longrightarrow>
     hops + 1 \<le> sp_max_redirects (sg_policy (gf_guard f)) \<and> (m' = m \<and> b' = b \<or> m' = GET \<and> b' = None)"
  by (auto simp: fetch_hop_def handle_answer_def Let_def
      split: sum.splits prod.splits send_result.splits if_splits option.splits)

lemma read_chunks_bound: "read_chunks u limit acc cs = Inr b \<Longrightarrow> length acc \<le> limit \<Longrightarrow> length b \<le> limit"
  by (induction u limit acc cs rule: read_chunks.induct) (auto split: if_splits)

definition good_response :: "source_policy \<Rightarrow> fetched_response \<Rightarrow> bool" where
  "good_response p r \<longleftrightarrow> length (fr_body r) \<le> sp_max_response_bytes p
     \<and> (is_success (fr_status r) \<or> fr_status r = 304 \<and> fr_body r = [])"

lemma hop_response:
  "fst (fetch_hop lib f headers env started hops u m b s) = Finished (Inr r) \<Longrightarrow>
     good_response (sg_policy (gf_guard f)) r"
  by (auto simp: fetch_hop_def handle_answer_def Let_def good_response_def read_body_def
      split: sum.splits prod.splits send_result.splits if_splits option.splits dest: read_chunks_bound)

definition hop_checked :: "'n net_lib \<Rightarrow> ssrf_guard \<Rightarrow> hop_env \<Rightarrow> http_request \<Rightarrow> bool" where
  "hop_checked lib g env q \<longleftrightarrow>
     (\<exists>h ip. u_host (hq_url q) = Some h \<and> hq_resolve q = (norm_host h, (ip, url_port (hq_url q)))
       \<and> url_admissible g (hq_url q) (norm_host h)
       \<and> permitted lib (sg_rules g) (norm_host (norm_host h)) (url_port (hq_url q)) (he_now env) ip)"

lemma hop_sent:
  assumes "fetch_hop lib f headers env started hops u m b s = (out, s')"
  shows "fs_sent s' = fs_sent s \<or>
    (\<exists>q. fs_sent s' = fs_sent s @ [q] \<and> hq_method q = m \<and> hq_body q = b \<and> hq_url q = u \<and> hq_headers q = headers
       \<and> hop_checked lib (gf_guard f) env q)"
proof (cases "ssrf_check lib (gf_guard f) (he_resolve env) (he_audit_id env) (he_now env) u (fs_audit s)")
  case (Pair c l)
  show ?thesis
  proof (cases c)
    case (Inl e)
    then show ?thesis using assms Pair by (auto simp: fetch_hop_def)
  next
    case (Inr d)
    then have d: "ssrf_check lib (gf_guard f) (he_resolve env) (he_audit_id env) (he_now env) u (fs_audit s) = (Inr d, l)"
      using Pair by simp
    from d [unfolded ssrf_check_Inr] obtain a h where a: "url_admissible (gf_guard f) u (sd_host d)" "sd_ips d \<noteq> []"
      "sd_port d = url_port u" "check_ips lib (gf_guard f) (sd_host d) (url_port u) (he_now env) (sd_ips d) None = Inr a"
      "u_host u = Some h" "sd_host d = norm_host h"
      by (auto simp: url_admissible_def)
    have "\<forall>ip \<in> set (sd_ips d). permitted lib (sg_rules (gf_guard f)) (norm_host (sd_host d)) (url_port u) (he_now env) ip"
      using check_ips_Inr a(4) by metis
    then have perm: "permitted lib (sg_rules (gf_guard f)) (norm_host (sd_host d)) (url_port u) (he_now env) (hd (sd_ips d))"
      using a(2) by simp
    have "hop_checked lib (gf_guard f) env
        \<lparr>hq_method = m, hq_url = u, hq_resolve = (sd_host d, pinned_addr d), hq_headers = headers, hq_body = b\<rparr>"
      using a perm by (simp add: hop_checked_def pinned_addr_def)
    then show ?thesis
      using assms d by (auto simp: fetch_hop_def Let_def split: sum.splits prod.splits)
  qed
qed

text \<open>The whole loop, from any hop.\<close>

lemma loop_safe:
  assumes "request_loop lib f headers env started hops u m b s = (r, s')"
    and "hops \<le> sp_max_redirects (sg_policy (gf_guard f))"
  shows "\<exists>sent. fs_sent s' = fs_sent s @ sent
    \<and> hops + length sent \<le> Suc (sp_max_redirects (sg_policy (gf_guard f)))
    \<and> (\<forall>q \<in> set sent. (\<exists>n \<le> sp_max_redirects (sg_policy (gf_guard f)). hop_checked lib (gf_guard f) (env n) q)
         \<and> (hq_method q = m \<and> hq_body q = b \<or> hq_method q = GET \<and> hq_body q = None))
    \<and> (\<forall>resp. r = Inr resp \<longrightarrow> good_response (sg_policy (gf_guard f)) resp)"
  using assms
proof (induction lib f headers env started hops u m b s arbitrary: r s' rule: request_loop.induct)
  case (1 lib f headers env started hops u m b s)
  let ?max = "sp_max_redirects (sg_policy (gf_guard f))"
  obtain out s1 where hop: "fetch_hop lib f headers (env hops) started hops u m b s = (out, s1)"
    by (cases "fetch_hop lib f headers (env hops) started hops u m b s")
  from hop_sent [OF hop] obtain first where first: "fs_sent s1 = fs_sent s @ first" "length first \<le> 1"
    "\<forall>q \<in> set first. hop_checked lib (gf_guard f) (env hops) q \<and> hq_method q = m \<and> hq_body q = b"
    by fastforce
  have here: "\<forall>q \<in> set first. \<exists>n \<le> ?max. hop_checked lib (gf_guard f) (env n) q"
    using first(3) "1.prems"(2) by blast
  show ?case
  proof (cases out)
    case (Finished x)
    with "1.prems" hop have r: "r = x" "s' = s1" by (simp_all add: request_loop.simps [of lib])
    have "\<forall>resp. r = Inr resp \<longrightarrow> good_response (sg_policy (gf_guard f)) resp"
      using hop_response [of lib f headers "env hops" started hops u m b s] hop Finished r(1) by simp
    then show ?thesis using first here r "1.prems"(2) by (intro exI [of _ first]) auto
  next
    case (Redirected u' m' b')
    with redirected_within [of lib f headers "env hops" started hops u m b s] hop
    have onward: "hops + 1 \<le> ?max" "m' = m \<and> b' = b \<or> m' = GET \<and> b' = None" by auto
    have loop: "request_loop lib f headers env started (hops + 1) u' m' b' s1 = (r, s')"
      using "1.prems"(1) hop Redirected onward(1) by (simp add: request_loop.simps [of lib _ _ _ _ hops])
    have "\<not> ?max < hops + 1" using onward(1) by simp
    from "1.IH" [OF hop [symmetric] Redirected this loop onward(1)] obtain sent where
      sent: "fs_sent s' = fs_sent s1 @ sent" "hops + 1 + length sent \<le> Suc ?max"
      "\<forall>q \<in> set sent. (\<exists>n \<le> ?max. hop_checked lib (gf_guard f) (env n) q)
         \<and> (hq_method q = m' \<and> hq_body q = b' \<or> hq_method q = GET \<and> hq_body q = None)"
      "\<forall>resp. r = Inr resp \<longrightarrow> good_response (sg_policy (gf_guard f)) resp"
      by blast
    show ?thesis
      using first here sent onward "1.prems"(2) by (intro exI [of _ "first @ sent"]) auto
  qed
qed

lemma request_safe:
  assumes "fetch_request lib f env method text headers body s = (r, s')"
  obtains sent where "fs_sent s' = fs_sent s @ sent"
    "length sent \<le> Suc (sp_max_redirects (sg_policy (gf_guard f)))"
    "\<And>q. q \<in> set sent \<Longrightarrow> \<exists>n. hop_checked lib (gf_guard f) (env n) q"
    "\<And>q. q \<in> set sent \<Longrightarrow> hq_method q = method \<and> hq_body q = body \<or> hq_method q = GET \<and> hq_body q = None"
    "\<And>resp. r = Inr resp \<Longrightarrow> good_response (sg_policy (gf_guard f)) resp"
proof (cases "nl_parse_url lib text")
  case None
  then show ?thesis using assms that [of "[]"] by (auto simp: fetch_request_def)
next
  case (Some u)
  with assms have "request_loop lib f headers env (he_instant (env 0)) 0 u method body s = (r, s')"
    by (simp add: fetch_request_def)
  from loop_safe [OF this] show ?thesis using that by (metis add_0 le0)
qed

section \<open>Properties\<close>

text \<open>
  C34: A fetch ends after at most \<open>max_redirects + 1\<close> requests, and every one of them, on every hop of
  the redirect chain, was checked by the guard just before: its scheme is http or https, its host
  is allowed by the policy and is no metadata name, and the address the connection is pinned to is
  public, or private and covered by an unexpired rule, never a hard-denied one. Each request has
  the method and body of the call, or is a GET without a body. A response has at most
  \<open>max_response_bytes\<close> bytes, and its status is a success or, with an empty body, 304.
\<close>

theorem fetch_every_hop_checked:
  assumes "fetch_request lib f env method text headers body s = (r, s')"
  shows "\<exists>sent. fs_sent s' = fs_sent s @ sent
    \<and> length sent \<le> Suc (sp_max_redirects (sg_policy (gf_guard f)))
    \<and> (\<forall>q \<in> set sent. (\<exists>h ip n. u_host (hq_url q) = Some h \<and> hq_resolve q = (norm_host h, (ip, url_port (hq_url q)))
          \<and> url_admissible (gf_guard f) (hq_url q) (norm_host h) \<and> classify_ip ip \<noteq> HardDeny
          \<and> permitted lib (sg_rules (gf_guard f)) (norm_host (norm_host h)) (url_port (hq_url q)) (he_now (env n)) ip)
        \<and> (hq_method q = method \<and> hq_body q = body \<or> hq_method q = GET \<and> hq_body q = None))
    \<and> (\<forall>resp. r = Inr resp \<longrightarrow> length (fr_body resp) \<le> sp_max_response_bytes (sg_policy (gf_guard f))
        \<and> (is_success (fr_status resp) \<or> fr_status resp = 304 \<and> fr_body resp = []))"
proof -
  obtain sent where sent: "fs_sent s' = fs_sent s @ sent" "length sent \<le> Suc (sp_max_redirects (sg_policy (gf_guard f)))"
    "\<And>q. q \<in> set sent \<Longrightarrow> \<exists>n. hop_checked lib (gf_guard f) (env n) q"
    "\<And>q. q \<in> set sent \<Longrightarrow> hq_method q = method \<and> hq_body q = body \<or> hq_method q = GET \<and> hq_body q = None"
    "\<And>resp. r = Inr resp \<Longrightarrow> good_response (sg_policy (gf_guard f)) resp"
    using request_safe [OF assms] by metis
  have "\<exists>h ip n. u_host (hq_url q) = Some h \<and> hq_resolve q = (norm_host h, (ip, url_port (hq_url q)))
      \<and> url_admissible (gf_guard f) (hq_url q) (norm_host h) \<and> classify_ip ip \<noteq> HardDeny
      \<and> permitted lib (sg_rules (gf_guard f)) (norm_host (norm_host h)) (url_port (hq_url q)) (he_now (env n)) ip"
    if "q \<in> set sent" for q
    using sent(3) [OF that] unfolding hop_checked_def permitted_def by fastforce
  with sent show ?thesis by (intro exI [of _ sent]) (auto simp: good_response_def)
qed


section \<open>Witnesses\<close>

definition sample_web :: "unit net_lib" where
  "sample_web = sample_lib\<lparr>nl_parse_url := (\<lambda>t. Some \<lparr>u_text = t, u_scheme = ''http'', u_host = Some t, u_port = None\<rparr>)\<rparr>"

definition sample_fetcher :: guarded_fetcher where
  "sample_fetcher = \<lparr>gf_guard = sample_guard, gf_limiter = default_rate_limit\<rparr>"

definition sample_env :: "nat \<Rightarrow> hop_env" where
  "sample_env n =
     \<lparr>he_now = 0, he_instant = 0, he_finished = 0, he_audit_id = 9, he_resolve = (\<lambda>_. Inr [V4 (ipv4 8 8 8 8)]),
      he_send = (\<lambda>_. Answer \<lparr>hr_status = 200, hr_headers = [], hr_content_length = None, hr_chunks = [Some [1]]\<rparr>)\<rparr>"

definition sample_start :: fetch_state where
  "sample_start = \<lparr>fs_audit = \<lparr>al_rows = [], al_fault = None\<rparr>, fs_buckets = Map.empty, fs_sent = []\<rparr>"

definition sample_request :: "string \<Rightarrow> http_request" where
  "sample_request t =
     \<lparr>hq_method = GET, hq_url = \<lparr>u_text = t, u_scheme = ''http'', u_host = Some t, u_port = None\<rparr>,
      hq_resolve = (''a'', (V4 (ipv4 8 8 8 8), 80)), hq_headers = [], hq_body = None\<rparr>"

lemma sample_public: "classify_ip (V4 (ipv4 8 8 8 8)) = Public"
proof -
  have "ipv4 8 8 8 8 \<notin> set metadata_v4" by (simp add: metadata_v4_def ipv4_def)
  moreover have "octet (ipv4 8 8 8 8) 0 = 8" by (simp add: octet_nat)
  ultimately show ?thesis by (auto simp: classify_v4_blocks soft_blocks_def block_octets)
qed

lemma sample_names: "norm_host ''a'' = ''a''" "norm_host ''a.'' = ''a''"
  by code_simp+

lemma sample_name_host: "parse_ip ''a'' = None" "classify_host ''a'' = None"
proof -
  show "parse_ip ''a'' = None" by (simp add: parse_simps)
  then show "classify_host ''a'' = None" by (simp add: classify_host_def sample_names HARD_DENY_HOSTS_def)
qed

lemma sample_fetch:
  assumes "norm_host t = ''a''"
  shows "\<exists>resp s'. fetch_request sample_web sample_fetcher sample_env GET t [] None sample_start = (Inr resp, s')
    \<and> fr_body resp = [1] \<and> fs_sent s' = [sample_request t]"
  using assms sample_public
  by (simp add: fetch_request_def sample_web_def request_loop.simps fetch_hop_def ssrf_check_def sample_names
      sample_name_host sample_fetcher_def sample_guard_def default_policy_def host_allowed_def resolve_host_def
      sample_env_def acquire_def take_token_def refilled_def burst_of_def default_rate_limit_def sample_start_def
      handle_answer_def is_redirection_def is_success_def read_body_def pinned_addr_def sample_request_def
      url_port_def sample_lib_def Let_def)

theorem fetch_every_hop_checked_witness:
  "\<exists>resp s'. fetch_request sample_web sample_fetcher sample_env GET ''a'' [] None sample_start = (Inr resp, s')
    \<and> fr_body resp = [1] \<and> length (fs_sent s') \<le> 6"
proof -
  obtain resp s' where r: "fetch_request sample_web sample_fetcher sample_env GET ''a'' [] None sample_start = (Inr resp, s')"
    "fr_body resp = [1]" using sample_fetch [OF sample_names(1)] by blast
  from fetch_every_hop_checked [OF this(1)] r show ?thesis
    by (auto simp: sample_fetcher_def sample_guard_def default_policy_def sample_start_def)
qed

text \<open>
  A client that answers for a host it was not told about with a fresh lookup, here the metadata
  address: the guard saw \<open>8.8.8.8\<close>, the connection goes elsewhere.
\<close>

definition forgetful_dial :: "string \<times> (ip_addr \<times> nat) \<Rightarrow> url \<Rightarrow> ip_addr \<times> nat" where
  "forgetful_dial = (\<lambda>(h, a) u. if u_host u = Some h then a else (V4 (ipv4 169 254 169 254), 80))"


end
