(* ===== verification/Collector.thy ===== *)
theory Collector
  imports Connectors Backoff Jobs Fetch "HOL-Library.Sorting_Algorithms"
begin

text \<open>
  What a tick of the collector decides before anything runs: the connector kinds
  (\<open>crates/collector/src/registry.rs\<close>), the schedule (\<open>schedule.rs\<close>), the back-pressure gate on the downstream lag
  (\<open>backpressure.rs\<close>), and, from \<open>runner.rs\<close>, the plan for each connector and the fair selection
  of the due ones. The text of an error message is an ASCII rendering; what is compared with a
  stored message is the same rendering.
\<close>

section \<open>Errors and kinds\<close>

datatype collector_error =
    CollectorStorage storage_error
  | CollectorConnector connector_error
  | CollectorEvent string
  | CollectorJob job_error
  | SourceMissing uuid
  | InvalidSchedule string string
  | CollectorConfiguration string

datatype known_connector_kind = RssOrAtom | StaticWeb | RestApi

definition classify_connector_type :: "string \<Rightarrow> known_connector_kind option" where
  "classify_connector_type ty =
     (let t = to_ascii_lowercase (trim ty)
      in if t = ''rss'' \<or> t = ''atom'' then Some RssOrAtom
         else if t = ''static_web'' \<or> t = ''static-web'' \<or> t = ''web'' then Some StaticWeb
         else if t = ''rest_api'' \<or> t = ''rest-api'' \<or> t = ''rest'' then Some RestApi
         else None)"

definition is_import_only_type :: "string \<Rightarrow> bool" where
  "is_import_only_type ty \<longleftrightarrow>
     (let t = to_ascii_lowercase (trim ty)
      in t = ''manual_upload'' \<or> t = ''manual'' \<or> t = ''json_import'' \<or> t = ''csv_import'' \<or> t = ''stix_import'')"

section \<open>Schedules\<close>

definition is_unscheduled :: "string option \<Rightarrow> bool" where
  "is_unscheduled schedule \<longleftrightarrow> (case schedule of Some s \<Rightarrow> trim s | None \<Rightarrow> []) = []"

text \<open>The message of the cron parser is left out of the error.\<close>

definition parse_cron :: "'c cron_lib \<Rightarrow> string \<Rightarrow> collector_error + 'c" where
  "parse_cron lib schedule = ok_or (InvalidSchedule (trim schedule) []) (cl_parse lib (trim schedule))"

definition is_due :: "'c cron_lib \<Rightarrow> string \<Rightarrow> time option \<Rightarrow> time \<Rightarrow> collector_error + bool" where
  "is_due lib schedule last_run now =
     rbind (parse_cron lib schedule) (\<lambda>cron.
       case last_run of
         None \<Rightarrow> Inr True
       | Some prev \<Rightarrow>
           if now \<le> prev then Inr False
           else case cl_next lib cron prev of
                  Some nxt \<Rightarrow> Inr (nxt \<le> now)
                | None \<Rightarrow> Inr False)"

section \<open>The plan for one connector\<close>

datatype tick_plan =
    SkipImport
  | SkipUnscheduled
  | SkipUnknownType
  | SkipInvalidSchedule collector_error
  | PlanNotDue
  | PlanBackingOff time
  | PlanRun

text \<open>\<open>None\<close> is the panic of the date arithmetic.\<close>

definition plan_tick ::
  "'c cron_lib \<Rightarrow> time \<Rightarrow> connector \<Rightarrow> time \<Rightarrow> backoff_config \<Rightarrow> tick_plan option" where
  "plan_tick lib max_utc c now cfg =
     (if is_import_only_type (cn_type c) then Some SkipImport
      else if classify_connector_type (cn_type c) = None then Some SkipUnknownType
      else if is_unscheduled (cn_schedule c) then Some SkipUnscheduled
      else case is_due lib (case cn_schedule c of Some s \<Rightarrow> s | None \<Rightarrow> []) (cn_last_run c) now of
             Inr True \<Rightarrow>
               Option.bind (is_backing_off max_utc c now cfg) (\<lambda>backing_off.
                 if backing_off
                 then map_option (\<lambda>t. PlanBackingOff (case t of Some u \<Rightarrow> u | None \<Rightarrow> now))
                        (next_attempt_at lib max_utc c now cfg)
                 else Some PlanRun)
           | Inr False \<Rightarrow> Some PlanNotDue
           | Inl e \<Rightarrow> Some (SkipInvalidSchedule e))"

section \<open>Fair dispatch\<close>

definition compare_int :: "int \<Rightarrow> int \<Rightarrow> comp" where
  "compare_int a b = (if a < b then Less else if a = b then Equiv else Greater)"

definition then_with :: "comp \<Rightarrow> comp \<Rightarrow> comp" where
  "then_with a b = (if a = Equiv then b else a)"

definition fair_order :: "connector \<Rightarrow> connector \<Rightarrow> comp" where
  "fair_order a b =
     then_with (then_with (compare_int (cn_error_count a) (cn_error_count b))
       (case (cn_last_success a, cn_last_success b) of
          (Some x, Some y) \<Rightarrow> compare_int y x
        | (Some _, None) \<Rightarrow> Less
        | (None, Some _) \<Rightarrow> Greater
        | (None, None) \<Rightarrow> Equiv))
       (compare_int (int (cn_id a)) (int (cn_id b)))"

lift_definition fair_comparator :: "connector comparator" is fair_order
proof
  show "fair_order x x = Equiv" for x
    by (auto simp: fair_order_def then_with_def compare_int_def split: option.split)
  show "fair_order x z = Equiv" if "fair_order x y = Equiv" "fair_order y z = Equiv" for x y z
    using that by (auto simp: fair_order_def then_with_def compare_int_def split: option.splits if_splits)
  show "fair_order y x = Greater \<longleftrightarrow> fair_order x y = Less" for x y
    by (auto simp: fair_order_def then_with_def compare_int_def split: option.splits if_splits)
  show "fair_order x z = Less" if "fair_order x y = Less" "fair_order y z = Less" for x y z
    using that by (auto simp: fair_order_def then_with_def compare_int_def split: option.splits if_splits)
qed

text \<open>\<open>due.sort_by(fair_order)\<close>, then the loop with its counter of retries.\<close>

fun split_retries :: "nat \<Rightarrow> nat \<Rightarrow> connector list \<Rightarrow> connector list \<times> connector list" where
  "split_retries cap used [] = ([], [])"
| "split_retries cap used (c # due) =
     (if 0 < cn_error_count c then
        (if cap \<le> used then (let (run, deferred) = split_retries cap used due in (run, c # deferred))
         else (let (run, deferred) = split_retries cap (used + 1) due in (c # run, deferred)))
      else (let (run, deferred) = split_retries cap used due in (c # run, deferred)))"

definition take_fair_dispatch :: "connector list \<Rightarrow> nat \<Rightarrow> connector list \<times> connector list" where
  "take_fair_dispatch due max_retry_per_tick =
     split_retries (max max_retry_per_tick 1) 0 (Sorting_Algorithms.sort fair_comparator due)"

abbreviation failing :: "connector \<Rightarrow> bool" where
  "failing c \<equiv> 0 < cn_error_count c"

lemma split_retries_failing:
  "\<forall>c \<in> set due. failing c \<Longrightarrow> split_retries cap used due = (take (cap - used) due, drop (cap - used) due)"
proof (induction due arbitrary: used)
  case (Cons c due)
  have "cap - used = Suc (cap - Suc used)" if "\<not> cap \<le> used" using that by simp
  with Cons.IH [of used] Cons.IH [of "used + 1"] Cons.prems show ?case by auto
qed simp

lemma split_retries_append:
  "\<forall>c \<in> set hs. \<not> failing c \<Longrightarrow> \<forall>c \<in> set fs. failing c \<Longrightarrow>
   split_retries cap 0 (hs @ fs) = (take (length hs + cap) (hs @ fs), drop (length hs + cap) (hs @ fs))"
  by (induction hs) (auto simp: split_retries_failing)

lemma fair_order_errors: "fair_order a b \<noteq> Greater \<Longrightarrow> cn_error_count a \<le> cn_error_count b"
  by (auto simp: fair_order_def then_with_def compare_int_def split: if_splits)

lemma fair_sorted_Cons:
  "Sorting_Algorithms.sorted fair_comparator (c # xs) \<longleftrightarrow>
     Sorting_Algorithms.sorted fair_comparator xs \<and> (\<forall>x \<in> set xs. fair_order c x \<noteq> Greater)"
  using sorted_append_iff [of fair_comparator "[c]" xs] by (simp add: fair_comparator.rep_eq)

lemma fair_sorted_split:
  assumes "Sorting_Algorithms.sorted fair_comparator xs"
  shows "xs = filter (\<lambda>c. \<not> failing c) xs @ filter failing xs"
  using assms
proof (induction xs rule: list.induct)
  case (Cons c xs)
  have *: "\<forall>x \<in> set xs. fair_order c x \<noteq> Greater" "Sorting_Algorithms.sorted fair_comparator xs"
    using Cons.prems by (auto simp: fair_sorted_Cons)
  show ?case
  proof (cases "failing c")
    case True
    with * have "\<forall>x \<in> set xs. failing x" by (fastforce dest: fair_order_errors)
    then have "filter (\<lambda>c. \<not> failing c) xs = []" "filter failing xs = xs"
      by (simp_all add: filter_empty_conv filter_id_conv)
    with True show ?thesis by simp
  next
    case False
    with Cons.IH * show ?thesis by simp
  qed
qed simp

lemma fair_selection:
  assumes "take_fair_dispatch due n = (run, deferred)"
  shows "mset run + mset deferred = mset due"
    and "length (filter failing run) = min (length (filter failing due)) (max n 1)"
    and "\<forall>c \<in> set deferred. failing c"
    and "\<forall>c \<in> set run. \<forall>w \<in> set deferred. fair_order c w \<noteq> Greater"
    and "sorted_wrt (\<lambda>a b. fair_order a b \<noteq> Greater) run"
proof -
  let ?s = "Sorting_Algorithms.sort fair_comparator due"
  let ?h = "filter (\<lambda>c. \<not> failing c) ?s" and ?f = "filter failing ?s"
  let ?m = "length ?h + max n 1"
  have s: "?s = ?h @ ?f" by (rule fair_sorted_split) simp
  have "split_retries (max n 1) 0 (?h @ ?f) = (take ?m (?h @ ?f), drop ?m (?h @ ?f))"
    by (rule split_retries_append) auto
  then have rd: "run = take ?m ?s" "deferred = drop ?m ?s"
    using assms unfolding take_fair_dispatch_def s [symmetric] by auto
  then have app: "run @ deferred = ?s" by simp
  then show "mset run + mset deferred = mset due" by (metis mset_append mset_sort)
  have fs: "length ?f = length (filter failing due)"
    by (metis mset_filter mset_sort size_mset)
  have cut: "take (length hs + k) xs = hs @ take k fs" "drop (length hs + k) xs = drop k fs"
    if "xs = hs @ fs" for xs hs fs :: "connector list" and k
    using that by simp_all
  have "run = ?h @ take (max n 1) ?f" "deferred = drop (max n 1) ?f"
    unfolding rd using cut [OF s] by auto
  moreover have "filter failing (take (max n 1) ?f) = take (max n 1) ?f"
    by (auto simp: filter_id_conv dest: in_set_takeD)
  ultimately show "length (filter failing run) = min (length (filter failing due)) (max n 1)"
    and "\<forall>c \<in> set deferred. failing c"
    using fs by (auto dest: in_set_dropD)
  have sorted: "Sorting_Algorithms.sorted fair_comparator (run @ deferred)"
    unfolding app by simp
  then show "\<forall>c \<in> set run. \<forall>w \<in> set deferred. fair_order c w \<noteq> Greater"
    by (simp add: sorted_append_iff fair_comparator.rep_eq)
  have "Sorting_Algorithms.sorted fair_comparator xs \<Longrightarrow> sorted_wrt (\<lambda>a b. fair_order a b \<noteq> Greater) xs" for xs
    by (induction xs rule: list.induct) (simp_all add: fair_sorted_Cons del: sorted.simps)
  then show "sorted_wrt (\<lambda>a b. fair_order a b \<noteq> Greater) run"
    using sorted by (simp add: sorted_append_iff)
qed

text \<open>
  the fair selection. The due connectors, sorted, are cut in two: all healthy ones and the
  first few failing ones run, the other failing ones wait. So nothing is lost or doubled, at most the
  configured number of failing connectors (and at least one) runs, a healthy connector never waits, and
  none that waits is before one that runs.
\<close>

theorem fair_dispatch_correct:
  assumes "take_fair_dispatch due n = (run, deferred)"
  shows "mset run + mset deferred = mset due \<and>
    length (filter failing run) = min (length (filter failing due)) (max n 1) \<and>
    (\<forall>c \<in> set deferred. failing c) \<and>
    (\<forall>c \<in> set run. \<forall>w \<in> set deferred. fair_order c w \<noteq> Greater) \<and>
    sorted_wrt (\<lambda>a b. fair_order a b \<noteq> Greater) run"
  using fair_selection [OF assms] by simp

definition sample_due :: "connector list" where
  "sample_due = [sample_connector 3 ''rss'', (sample_connector 1 ''web'')\<lparr>cn_error_count := 2\<rparr>,
     (sample_connector 2 ''rss'')\<lparr>cn_error_count := 1\<rparr>]"

theorem fair_dispatch_correct_witness:
  "map cn_id (fst (take_fair_dispatch sample_due 0)) = [3, 2] \<and>
   map cn_id (snd (take_fair_dispatch sample_due 0)) = [1] \<and>
   length (filter failing (fst (take_fair_dispatch sample_due 0))) = 1"
proof -
  have run: "take_fair_dispatch sample_due 0 =
    ([sample_connector 3 ''rss'', (sample_connector 2 ''rss'')\<lparr>cn_error_count := 1\<rparr>],
     [(sample_connector 1 ''web'')\<lparr>cn_error_count := 2\<rparr>])"
    by (simp add: take_fair_dispatch_def sample_due_def fair_comparator.rep_eq fair_order_def then_with_def compare_int_def
        sample_connector_def)
  have "length (filter failing sample_due) = 2"
    by (simp add: sample_due_def sample_connector_def)
  then have "length (filter failing (fst (take_fair_dispatch sample_due 0))) = 1"
    using fair_dispatch_correct [OF run] by (simp add: run)
  then show ?thesis
    unfolding run by (simp add: sample_connector_def)
qed

end
