(* ===== verification/Secret.thy ===== *)
theory Secret
  imports Auth "HOL-Library.Sublist"
begin

text \<open>
  References to secrets, \<open>crates/core-config/src/secret.rs\<close>: a configuration holds \<open>env:VAR\<close>, \<open>file:PATH\<close> or
  \<open>store:LOCATOR\<close>, never the secret. The environment and the file system are arguments of
  \<open>resolve\<close>.
\<close>

datatype secret_kind = SecretEnv string | SecretFile string | SecretStore string

record secret_ref =
  sr_raw :: string
  sr_kind :: secret_kind

datatype secret_error =
    SecretEmpty
  | InlineSecret
  | EmptyEnvName
  | InvalidEnvName string
  | EmptyFilePath
  | EmptyStoreLocator
  | UnknownScheme
  | EnvNotSet string
  | FileRead string
  | EmptyFile string
  | StoreUnresolved string

fun contains_str :: "string \<Rightarrow> string \<Rightarrow> bool" where
  "contains_str p [] = starts_with p []"
| "contains_str p (c # s) = (starts_with p (c # s) \<or> contains_str p s)"

definition looks_like_inline_secret :: "string \<Rightarrow> bool" where
  "looks_like_inline_secret value \<longleftrightarrow>
     (let lower = to_ascii_lowercase value
      in contains_str ''://'' lower \<or> contains_str ''password='' lower \<or> contains_str ''token='' lower
         \<or> (24 \<le> length value \<and> CHR '':'' \<notin> set value \<and> CHR ''/'' \<notin> set value))"

definition secret_parse :: "string \<Rightarrow> secret_error + secret_ref" where
  "secret_parse text =
     (let value = trim text
      in if value = [] then Inl SecretEmpty
         else if looks_like_inline_secret value then Inl InlineSecret
         else case strip_prefix ''env:'' value of
           Some rest \<Rightarrow>
             (let name = trim rest
              in if name = [] then Inl EmptyEnvName
                 else if \<exists>c \<in> set name. is_ws c then Inl (InvalidEnvName name)
                 else Inr \<lparr>sr_raw = ''env:'' @ name, sr_kind = SecretEnv name\<rparr>)
         | None \<Rightarrow>
             (case strip_prefix ''file:'' value of
                Some rest \<Rightarrow>
                  (let path = trim rest
                   in if path = [] then Inl EmptyFilePath
                      else Inr \<lparr>sr_raw = ''file:'' @ path, sr_kind = SecretFile path\<rparr>)
              | None \<Rightarrow>
                  (case strip_prefix ''store:'' value of
                     Some rest \<Rightarrow>
                       (let locator = trim rest
                        in if locator = [] then Inl EmptyStoreLocator
                           else Inr \<lparr>sr_raw = ''store:'' @ locator, sr_kind = SecretStore locator\<rparr>)
                   | None \<Rightarrow> Inl UnknownScheme)))"

definition read_secret_file :: "(string \<rightharpoonup> string) \<Rightarrow> string \<Rightarrow> secret_error + string" where
  "read_secret_file files path =
     rbind (ok_or (FileRead path) (files path)) (\<lambda>contents.
       let trimmed = rev (dropWhile (\<lambda>c. of_char c \<in> {10, 13, 32, 9 :: nat}) (rev contents))
       in if trimmed = [] then Inl (EmptyFile path) else Inr trimmed)"

definition secret_resolve :: "(string \<rightharpoonup> string) \<Rightarrow> (string \<rightharpoonup> string) \<Rightarrow> secret_ref \<Rightarrow> secret_error + string" where
  "secret_resolve env files r =
     (case sr_kind r of
        SecretEnv name \<Rightarrow> ok_or (EnvNotSet name) (env name)
      | SecretFile path \<Rightarrow> read_secret_file files path
      | SecretStore locator \<Rightarrow> Inl (StoreUnresolved locator))"

section \<open>Writing a reference down and reading it back\<close>

lemma contains_str_iff: "contains_str p s \<longleftrightarrow> sublist p s"
proof -
  have "starts_with p t \<longleftrightarrow> prefix p t" for t
    by (auto simp: starts_with_def prefix_def) (metis append_take_drop_id)
  then show ?thesis by (induction s) (auto simp: sublist_Cons_right)
qed

lemma trim_sublist: "sublist (trim s) s"
proof -
  have "sublist (dropWhile is_ws t) t" for t
    by (metis sublist_append_leftI takeWhile_dropWhile_id)
  from this [of "rev (trim_start s)"] this [of s] show ?thesis
    unfolding trim_def trim_end_def trim_start_def
    by (metis rev_rev_ident sublist_order.order_trans sublist_rev)
qed

lemma dropWhile_hd: "dropWhile P s \<noteq> [] \<Longrightarrow> \<not> P (hd (dropWhile P s))"
  by (rule hd_dropWhile) (metis dropWhile_eq_Nil_conv)

lemma trim_ends: "trim s \<noteq> [] \<Longrightarrow> \<not> is_ws (last (trim s))"
  using dropWhile_hd [of is_ws "rev (trim_start s)"] by (simp add: trim_def trim_end_def last_rev)

text \<open>A pattern without a colon cannot reach over the colon that ends the scheme.\<close>

lemma pattern_after_scheme:
  assumes "sublist p (scheme @ n)" "suffix [c] scheme" "c \<notin> set p" "\<not> sublist p scheme"
  shows "sublist p n"
proof -
  obtain pre where pre: "scheme = pre @ [c]" using assms(2) by (auto simp: suffix_def)
  have "xs = []" if "suffix xs scheme" "set xs \<subseteq> set p" for xs
    using that assms(3) by (cases xs rule: rev_cases) (auto simp: pre suffix_def)
  with assms(1,4) show ?thesis
    by (auto simp: sublist_append) (metis Un_iff append_Nil prefix_imp_sublist set_append subsetI)
qed

definition schemes :: "string list" where
  "schemes = [''env:'', ''file:'', ''store:'']"

lemma raw_inline:
  assumes "scheme \<in> set schemes" "\<not> looks_like_inline_secret (scheme @ rest)"
  shows "looks_like_inline_secret (scheme @ trim rest) \<longleftrightarrow>
    contains_str ''://'' (to_ascii_lowercase (scheme @ trim rest))"
proof -
  have low: "to_ascii_lowercase (scheme @ x) = scheme @ map lower_char x" for x
    using assms(1) by (auto simp: schemes_def to_ascii_lowercase_def lower_char_def)
  have colon: "CHR '':'' \<in> set scheme" "suffix '':'' scheme"
    using assms(1) by (auto simp: schemes_def suffix_to_prefix)
  have "\<not> sublist p (scheme @ map lower_char (trim rest))"
    if p: "p = ''password='' \<or> p = ''token=''" for p
  proof
    assume "sublist p (scheme @ map lower_char (trim rest))"
    moreover have "\<not> sublist p scheme"
      using p assms(1) by (auto simp: schemes_def contains_str_iff [symmetric] starts_with_def)
    moreover have "CHR '':'' \<notin> set p" using p by auto
    ultimately have "sublist p (map lower_char (trim rest))"
      using colon(2) by (blast intro: pattern_after_scheme)
    then have "sublist p (map lower_char rest)"
      using map_mono_sublist [OF trim_sublist] sublist_order.order_trans by blast
    then have "sublist p (scheme @ map lower_char rest)" by (simp add: sublist_append)
    with assms(2) p show False by (auto simp: looks_like_inline_secret_def low contains_str_iff)
  qed
  then show ?thesis
    using colon(1) by (auto simp: looks_like_inline_secret_def low contains_str_iff)
qed

lemma raw_trim:
  assumes "scheme \<in> set schemes" "trim rest \<noteq> []"
  shows "trim (scheme @ trim rest) = scheme @ trim rest"
  using assms trim_ends [OF assms(2)] by (intro trim_id) (auto simp: schemes_def is_ws_def)

lemma trim_trim [simp]: "trim (trim s) = trim s"
proof (cases "trim s = []")
  case False
  have "\<not> is_ws (hd (trim s))"
  proof -
    let ?t = "trim_start s"
    have t: "?t \<noteq> []" using False by (auto simp: trim_def trim_end_def)
    have "hd (trim s) = hd ?t"
      using False by (metis append_Nil2 dropWhile_append1 hd_append2 rev_append rev_rev_ident takeWhile_dropWhile_id trim_def trim_end_def hd_append rev_is_Nil_conv)
    with t show ?thesis using dropWhile_hd [of is_ws s] by (simp add: trim_start_def)
  qed
  with False trim_ends show ?thesis by (intro trim_id)
next
  case True
  then show ?thesis by (simp only: True) (simp add: trim_def trim_start_def trim_end_def)
qed

definition reference :: "string \<Rightarrow> string \<Rightarrow> secret_ref" where
  "reference scheme n = \<lparr>sr_raw = scheme @ n, sr_kind =
     (if scheme = ''env:'' then SecretEnv n else if scheme = ''file:'' then SecretFile n else SecretStore n)\<rparr>"

lemma parse_form:
  assumes "secret_parse t = Inr r"
  obtains scheme rest where "scheme \<in> set schemes" "trim t = scheme @ rest" "trim rest \<noteq> []"
    "\<not> looks_like_inline_secret (scheme @ rest)" "r = reference scheme (trim rest)"
    "scheme = ''env:'' \<longrightarrow> (\<forall>c \<in> set (trim rest). \<not> is_ws c)"
proof -
  have strip: "strip_prefix p s = Some x \<longleftrightarrow> s = p @ x" for p s x
    by (auto simp: strip_prefix_def starts_with_def) (metis append_take_drop_id)
  let ?v = "trim t"
  have v: "?v \<noteq> []" "\<not> looks_like_inline_secret ?v"
    using assms by (auto simp: secret_parse_def Let_def split: if_splits)
  show ?thesis
  proof (cases "strip_prefix ''env:'' ?v")
    case (Some x)
    with assms v have "trim x \<noteq> []" "\<not> (\<exists>c \<in> set (trim x). is_ws c)" "r = reference ''env:'' (trim x)"
      by (simp_all add: secret_parse_def Let_def reference_def split: if_splits)
    with Some v show ?thesis by (intro that [of "''env:''" x]) (simp_all add: schemes_def strip)
  next
    case env: None
    show ?thesis
    proof (cases "strip_prefix ''file:'' ?v")
      case (Some x)
      with assms v env have "trim x \<noteq> []" "r = reference ''file:'' (trim x)"
        by (simp_all add: secret_parse_def Let_def reference_def split: if_splits)
      with Some v show ?thesis by (intro that [of "''file:''" x]) (simp_all add: schemes_def strip)
    next
      case nofile: None
      with assms v env obtain x where x: "strip_prefix ''store:'' ?v = Some x"
        by (auto simp: secret_parse_def Let_def split: option.splits)
      with assms v env nofile have "trim x \<noteq> []" "r = reference ''store:'' (trim x)"
        by (simp_all add: secret_parse_def Let_def reference_def split: if_splits)
      with x v show ?thesis by (intro that [of "''store:''" x]) (simp_all add: schemes_def strip)
    qed
  qed
qed

lemma parse_of_form:
  assumes sch: "scheme \<in> set schemes"
    and n: "n \<noteq> []" "trim n = n" "trim (scheme @ n) = scheme @ n" "\<not> looks_like_inline_secret (scheme @ n)"
      "scheme = ''env:'' \<longrightarrow> (\<forall>c \<in> set n. \<not> is_ws c)"
  shows "secret_parse (scheme @ n) = Inr (reference scheme n)"
proof -
  have "strip_prefix ''env:'' (scheme @ n) = (if scheme = ''env:'' then Some n else None)"
    "strip_prefix ''file:'' (scheme @ n) = (if scheme = ''file:'' then Some n else None)"
    "strip_prefix ''store:'' (scheme @ n) = (if scheme = ''store:'' then Some n else None)"
    "scheme = ''env:'' \<or> scheme = ''file:'' \<or> scheme = ''store:''"
    using sch by (auto simp: schemes_def strip_prefix_def starts_with_def)
  with n show ?thesis
    unfolding secret_parse_def n(3) Let_def by (elim disjE) (simp_all add: reference_def)
qed

lemma secret_ref_round_trip_parts:
  assumes "secret_parse t = Inr r"
  shows "secret_parse (sr_raw r) =
    (if contains_str ''://'' (to_ascii_lowercase (sr_raw r)) then Inl InlineSecret else Inr r)"
    and "trim (sr_raw r) = sr_raw r"
proof -
  from assms obtain scheme rest where *: "scheme \<in> set schemes" "trim t = scheme @ rest" "trim rest \<noteq> []"
    "\<not> looks_like_inline_secret (scheme @ rest)" "r = reference scheme (trim rest)"
    "scheme = ''env:'' \<longrightarrow> (\<forall>c \<in> set (trim rest). \<not> is_ws c)"
    by (rule parse_form)
  note tr = raw_trim [OF *(1,3)] and inl = raw_inline [OF *(1,4)]
  show "trim (sr_raw r) = sr_raw r" using tr by (simp add: *(5) reference_def)
  show "secret_parse (sr_raw r) =
    (if contains_str ''://'' (to_ascii_lowercase (sr_raw r)) then Inl InlineSecret else Inr r)"
  proof (cases "contains_str ''://'' (to_ascii_lowercase (sr_raw r))")
    case True
    with inl tr *(3) show ?thesis by (simp add: *(5) reference_def secret_parse_def)
  next
    case False
    with inl have "\<not> looks_like_inline_secret (scheme @ trim rest)" by (simp add: *(5) reference_def)
    from parse_of_form [OF *(1,3) trim_trim tr this *(6)] False show ?thesis by (simp add: *(5) reference_def)
  qed
qed

text \<open>
  a reference that was accepted is written in a normal form, and reading that form gives the
  same reference, unless removing the blanks after the scheme has put \<open>://\<close> together: then the form is refused as an
  inline secret. The secret itself is never part of the form.
\<close>

theorem secret_ref_round_trip:
  assumes "secret_parse t = Inr r"
  shows "secret_parse (sr_raw r) =
      (if contains_str ''://'' (to_ascii_lowercase (sr_raw r)) then Inl InlineSecret else Inr r) \<and>
    trim (sr_raw r) = sr_raw r"
  using secret_ref_round_trip_parts [OF assms] by simp

theorem secret_ref_round_trip_witness:
  "secret_parse '' env: TOKEN '' = Inr \<lparr>sr_raw = ''env:TOKEN'', sr_kind = SecretEnv ''TOKEN''\<rparr> \<and>
   secret_parse ''env:TOKEN'' = Inr \<lparr>sr_raw = ''env:TOKEN'', sr_kind = SecretEnv ''TOKEN''\<rparr> \<and>
   secret_parse ''file: //srv/key'' = Inr \<lparr>sr_raw = ''file://srv/key'', sr_kind = SecretFile ''//srv/key''\<rparr> \<and>
   secret_parse ''file://srv/key'' = Inl InlineSecret"
proof -
  have parsed: "secret_parse '' env: TOKEN '' = Inr \<lparr>sr_raw = ''env:TOKEN'', sr_kind = SecretEnv ''TOKEN''\<rparr>"
    "secret_parse ''file: //srv/key'' = Inr \<lparr>sr_raw = ''file://srv/key'', sr_kind = SecretFile ''//srv/key''\<rparr>"
    by code_simp+
  have "contains_str ''://'' (to_ascii_lowercase ''env:TOKEN'') = False"
    "contains_str ''://'' (to_ascii_lowercase ''file://srv/key'') = True"
    by code_simp+
  with secret_ref_round_trip [OF parsed(1)] secret_ref_round_trip [OF parsed(2)] parsed show ?thesis
    by simp
qed

end
