(* ===== verification/Collect.thy ===== *)
theory Collect
  imports Collector Secret
begin

text \<open>
  The connectors that fetch: \<open>connector-rss\<close>, \<open>connector-static-web\<close> and \<open>connector-rest-api\<close>, on the
  types of \<open>connector-sdk\<close> (\<open>connector.rs\<close>, \<open>checkpoint.rs\<close>, \<open>evidence.rs\<close>). Each \<open>collect\<close> runs the guarded fetcher, decides
  whether there is new content, and returns the evidence and the next checkpoint.

  The record \<open>collect_lib\<close> holds the third-party code: SHA-256, the deserialisers that \<open>serde\<close>
  derives, the query editing of the \<open>url\<close> crate, and \<open>serde_json\<close>'s reader, writer and pointers.
  The locale \<open>source_connector\<close> states what the collector relies on, and is interpreted
  on the three connectors.
\<close>

section \<open>Checkpoints and evidence\<close>

record connector_checkpoint =
  cp_last_retrieved_at :: "time option"
  cp_etag :: "string option"
  cp_last_modified :: "string option"
  cp_content_sha256 :: "string option"

definition default_checkpoint :: connector_checkpoint where
  "default_checkpoint = \<lparr>cp_last_retrieved_at = None, cp_etag = None, cp_last_modified = None, cp_content_sha256 = None\<rparr>"

record collect_context =
  cx_source :: source
  cx_connector :: connector
  cx_collection_ids :: "uuid list"
  cx_checkpoint :: connector_checkpoint
  cx_now :: time

record new_raw_evidence =
  ne_source_id :: uuid
  ne_connector_id :: uuid
  ne_collection_ids :: "uuid list"
  ne_external_id :: "string option"
  ne_source_url :: string
  ne_retrieved_at :: time
  ne_content_type :: "string option"
  ne_mime_type :: "string option"
  ne_http_status :: "int option"
  ne_http_headers :: json
  ne_metadata :: json
  ne_collector_version :: string
  ne_body :: "8 word list"

record collect_result =
  cr_fetched :: bool
  cr_evidence :: "new_raw_evidence option"
  cr_checkpoint :: connector_checkpoint

record auth_config =
  au_header :: string
  au_prefix :: string

record pagination_config =
  pg_max_pages :: nat
  pg_next_url_pointer :: "string option"
  pg_page_param :: "string option"
  pg_page_start :: nat

record rest_api_config =
  rc_base_url :: "string option"
  rc_path :: "string option"
  rc_url :: "string option"
  rc_method :: "string option"
  rc_headers :: "(string \<times> string) list"
  rc_query :: "(string \<times> string) list"
  rc_body :: "json option"
  rc_auth :: "auth_config option"
  rc_pagination :: pagination_config

record 'n collect_lib =
  co_net :: "'n net_lib"
  co_version :: string
  co_sha256_hex :: "8 word list \<Rightarrow> string"
  co_show_date :: "time \<Rightarrow> string"
  co_show_time :: "time \<Rightarrow> string"
  co_checkpoint_of :: "json \<Rightarrow> connector_checkpoint option"
  co_static_web_url :: "json \<Rightarrow> string option option"
  co_rest_config :: "json \<Rightarrow> rest_api_config option"
  co_set_path :: "url \<Rightarrow> string \<Rightarrow> url"
  co_query_pairs :: "url \<Rightarrow> (string \<times> string) list"
  co_append_query :: "url \<Rightarrow> (string \<times> string) list \<Rightarrow> url"
  co_set_query :: "url \<Rightarrow> (string \<times> string) list \<Rightarrow> url"
  co_json_of_bytes :: "8 word list \<Rightarrow> json option"
  co_bytes_of_json :: "json \<Rightarrow> 8 word list"
  co_utf8_lossy :: "8 word list \<Rightarrow> string"
  co_pointer :: "json \<Rightarrow> string \<Rightarrow> json option"

definition from_value :: "'n collect_lib \<Rightarrow> json \<Rightarrow> connector_checkpoint" where
  "from_value lib v = (case co_checkpoint_of lib v of Some c \<Rightarrow> c | None \<Rightarrow> default_checkpoint)"

definition json_opt :: "string option \<Rightarrow> json" where
  "json_opt x = (case x of Some s \<Rightarrow> JString s | None \<Rightarrow> JNull)"

definition to_value :: "'n collect_lib \<Rightarrow> connector_checkpoint \<Rightarrow> json" where
  "to_value lib c = JObject
     [(''content_sha256'', json_opt (cp_content_sha256 c)), (''etag'', json_opt (cp_etag c)),
      (''last_modified'', json_opt (cp_last_modified c)),
      (''last_retrieved_at'', json_opt (map_option (co_show_time lib) (cp_last_retrieved_at c)))]"

definition storage_path :: "'n collect_lib \<Rightarrow> uuid \<Rightarrow> time \<Rightarrow> uuid \<Rightarrow> string" where
  "storage_path lib source_id retrieved_at i =
     ''raw/'' @ nl_show_uuid (co_net lib) source_id @ ''/'' @ co_show_date lib retrieved_at @ ''/'' @ nl_show_uuid (co_net lib) i"

section \<open>What the connectors share\<close>

text \<open>The conditional headers, and the checkpoint after a response.\<close>

definition conditional_headers :: "connector_checkpoint \<Rightarrow> (string \<times> string) list" where
  "conditional_headers c =
     (case cp_etag c of Some v \<Rightarrow> [(''If-None-Match'', v)] | None \<Rightarrow> []) @
     (case cp_last_modified c of Some v \<Rightarrow> [(''If-Modified-Since'', v)] | None \<Rightarrow> [])"

definition advance_checkpoint :: "time \<Rightarrow> fetched_response option \<Rightarrow> connector_checkpoint \<Rightarrow> connector_checkpoint" where
  "advance_checkpoint now fetched c =
     (let c = c\<lparr>cp_last_retrieved_at := Some now\<rparr>
      in case fetched of
           None \<Rightarrow> c
         | Some r \<Rightarrow>
             (let c = (case header r ''etag'' of Some v \<Rightarrow> c\<lparr>cp_etag := Some v\<rparr> | None \<Rightarrow> c)
              in case header r ''last-modified'' of Some v \<Rightarrow> c\<lparr>cp_last_modified := Some v\<rparr> | None \<Rightarrow> c))"

definition content_type_of :: "fetched_response \<Rightarrow> string option" where
  "content_type_of r = map_option (\<lambda>v. trim (takeWhile (\<lambda>c. c \<noteq> CHR '';'') v)) (header r ''content-type'')"

definition unchanged :: "connector_checkpoint \<Rightarrow> collect_result" where
  "unchanged c = \<lparr>cr_fetched = False, cr_evidence = None, cr_checkpoint = c\<rparr>"

definition evidence_of_fetch ::
  "'n collect_lib \<Rightarrow> collect_context \<Rightarrow> string \<Rightarrow> (string \<times> json) list \<Rightarrow> string \<Rightarrow> string option \<Rightarrow> string option
     \<Rightarrow> fetched_response \<Rightarrow> 8 word list \<Rightarrow> new_raw_evidence" where
  "evidence_of_fetch lib cx ty extra external_id content_type mime_type r body =
     \<lparr>ne_source_id = so_id (cx_source cx), ne_connector_id = cn_id (cx_connector cx),
      ne_collection_ids = cx_collection_ids cx, ne_external_id = Some external_id,
      ne_source_url = u_text (fr_url r), ne_retrieved_at = cx_now cx, ne_content_type = content_type,
      ne_mime_type = mime_type, ne_http_status = Some (int (fr_status r)), ne_http_headers = headers_json r,
      ne_metadata = JObject ([(''connector_type'', JString ty), (''elapsed_ms'', JNumber (of_nat (fr_elapsed_ms r)))] @ extra),
      ne_collector_version = co_version lib, ne_body = body\<rparr>"

type_synonym ('n, 'a) collect_op = "(fetch_state, connector_error, 'a) op"

section \<open>RSS and Atom\<close>

definition rss_collect ::
  "'n collect_lib \<Rightarrow> guarded_fetcher \<Rightarrow> (nat \<Rightarrow> hop_env) \<Rightarrow> collect_context \<Rightarrow> ('n, collect_result) collect_op" where
  "rss_collect lib f env cx =
     (case so_base_url (cx_source cx) of
        None \<Rightarrow> op_fail ConnectorPolicy
      | Some u \<Rightarrow>
          op_bind (fetch_get (co_net lib) f env u (conditional_headers (cx_checkpoint cx))) (\<lambda>r.
          let checkpoint = advance_checkpoint (cx_now cx) (Some r) (cx_checkpoint cx)
          in if is_not_modified r then op_return (unchanged checkpoint)
             else
               let ct = content_type_of r
               in op_return \<lparr>cr_fetched = True,
                    cr_evidence = Some (evidence_of_fetch lib cx ''rss'' [] u ct ct r (fr_body r)),
                    cr_checkpoint = checkpoint\<rparr>))"

section \<open>Static web pages\<close>

definition non_blank :: "string option \<Rightarrow> string option" where
  "non_blank x = (case x of Some s \<Rightarrow> if trim s = [] then None else Some s | None \<Rightarrow> None)"

definition page_url :: "'n collect_lib \<Rightarrow> source \<Rightarrow> connector \<Rightarrow> connector_error + string" where
  "page_url lib s c =
     (case non_blank (case co_static_web_url lib (cn_configuration c) of Some u \<Rightarrow> u | None \<Rightarrow> None) of
        Some u \<Rightarrow> Inr u
      | None \<Rightarrow> ok_or ConnectorPolicy (non_blank (so_base_url s)))"

definition web_collect ::
  "'n collect_lib \<Rightarrow> guarded_fetcher \<Rightarrow> (nat \<Rightarrow> hop_env) \<Rightarrow> collect_context \<Rightarrow> ('n, collect_result) collect_op" where
  "web_collect lib f env cx =
     (case page_url lib (cx_source cx) (cx_connector cx) of
        Inl e \<Rightarrow> op_fail e
      | Inr u \<Rightarrow>
          op_bind (fetch_get (co_net lib) f env u (conditional_headers (cx_checkpoint cx))) (\<lambda>r.
          let checkpoint = advance_checkpoint (cx_now cx) (Some r) (cx_checkpoint cx)
          in if is_not_modified r then op_return (unchanged checkpoint)
             else
               let digest = co_sha256_hex lib (fr_body r);
                   checkpoint' = checkpoint\<lparr>cp_content_sha256 := Some digest\<rparr>
               in if cp_content_sha256 (cx_checkpoint cx) = Some digest then op_return (unchanged checkpoint')
                  else
                    let ct = (case content_type_of r of Some t \<Rightarrow> Some t | None \<Rightarrow> Some ''text/html'')
                    in op_return \<lparr>cr_fetched = True,
                         cr_evidence = Some (evidence_of_fetch lib cx ''static_web'' [] u ct ct r (fr_body r)),
                         cr_checkpoint = checkpoint'\<rparr>))"

section \<open>REST APIs\<close>

definition FORBIDDEN_HEADER_NAMES :: "string list" where
  "FORBIDDEN_HEADER_NAMES = [''authorization'', ''proxy-authorization'', ''x-api-key'', ''api-key'', ''x-auth-token'']"

definition FORBIDDEN_VALUE_MARKERS :: "string list" where
  "FORBIDDEN_VALUE_MARKERS = [''bearer '', ''token '', ''basic '', ''password'', ''secret'', ''api_key'', ''apikey'']"

definition rest_parse_config :: "'n collect_lib \<Rightarrow> connector \<Rightarrow> connector_error + rest_api_config" where
  "rest_parse_config lib c = ok_or ConnectorPolicy (co_rest_config lib (cn_configuration c))"

definition header_ok :: "string \<times> string \<Rightarrow> bool" where
  "header_ok h \<longleftrightarrow> to_ascii_lowercase (fst h) \<notin> set FORBIDDEN_HEADER_NAMES \<and>
     \<not> (\<exists>m \<in> set FORBIDDEN_VALUE_MARKERS. contains_str m (to_ascii_lowercase (snd h)))"

definition reject_inline_secrets :: "(string \<times> string) list \<Rightarrow> connector_error + unit" where
  "reject_inline_secrets headers = rguard (\<forall>h \<in> set headers. header_ok h) ConnectorPolicy"

definition upper_char :: "char \<Rightarrow> char" where
  "upper_char c = (let n = of_char c :: nat in if 97 \<le> n \<and> n \<le> 122 then char_of (n - 32) else c)"

definition rest_parse_method :: "string option \<Rightarrow> connector_error + http_method" where
  "rest_parse_method raw =
     (case non_blank raw of
        None \<Rightarrow> Inr GET
      | Some r \<Rightarrow>
          (let m = map upper_char (trim r)
           in if m = ''GET'' then Inr GET
              else if m \<in> {''POST'', ''PUT'', ''PATCH'', ''HEAD''} then Inr (OtherMethod m)
              else Inl ConnectorPolicy))"

definition join_url :: "'n collect_lib \<Rightarrow> string \<Rightarrow> string option \<Rightarrow> connector_error + url" where
  "join_url lib base path =
     rbind (ok_or (InvalidUrl base) (nl_parse_url (co_net lib) base)) (\<lambda>u.
       case path of
         None \<Rightarrow> Inr u
       | Some p \<Rightarrow>
           if p = [] then Inr u
           else if starts_with ''http://'' p \<or> starts_with ''https://'' p
             then ok_or (InvalidUrl p) (nl_parse_url (co_net lib) p)
           else if starts_with ''/'' p then Inr (co_set_path lib u p)
           else ok_or (InvalidUrl p) (nl_join (co_net lib) u p))"

definition start_url :: "'n collect_lib \<Rightarrow> source \<Rightarrow> rest_api_config \<Rightarrow> connector_error + url" where
  "start_url lib s cfg =
     (case non_blank (rc_url cfg) of
        Some u \<Rightarrow> ok_or (InvalidUrl u) (nl_parse_url (co_net lib) u)
      | None \<Rightarrow>
          rbind (ok_or ConnectorPolicy
                   (case non_blank (rc_base_url cfg) of Some b \<Rightarrow> Some b | None \<Rightarrow> so_base_url s)) (\<lambda>base.
          rbind (join_url lib base (rc_path cfg)) (\<lambda>u.
          Inr (co_append_query lib u (rc_query cfg)))))"

fun show_nat :: "nat \<Rightarrow> string" where
  "show_nat n = (if n < 10 then [digit_char n] else show_nat (n div 10) @ [digit_char (n mod 10)])"

definition apply_page_param :: "'n collect_lib \<Rightarrow> url \<Rightarrow> string \<Rightarrow> nat \<Rightarrow> url" where
  "apply_page_param lib u param page =
     co_set_query lib u (filter (\<lambda>(k, v). k \<noteq> param) (co_query_pairs lib u) @ [(param, show_nat page)])"

definition next_url_from_pointer :: "'n collect_lib \<Rightarrow> 8 word list \<Rightarrow> string \<Rightarrow> url \<Rightarrow> url option" where
  "next_url_from_pointer lib body pointer current =
     Option.bind (co_json_of_bytes lib body) (\<lambda>v.
     Option.bind (co_pointer lib v pointer) (\<lambda>next.
       case next of
         JString raw \<Rightarrow>
           if trim raw = [] then None
           else (case nl_join (co_net lib) current raw of
                   Some u \<Rightarrow> Some u
                 | None \<Rightarrow> nl_parse_url (co_net lib) raw)
       | _ \<Rightarrow> None))"

definition resolve_auth_header ::
  "(string \<rightharpoonup> string) \<Rightarrow> (string \<rightharpoonup> string) \<Rightarrow> connector \<Rightarrow> rest_api_config \<Rightarrow> connector_error + (string \<times> string) option" where
  "resolve_auth_header env files c cfg =
     (case rc_auth cfg of
        None \<Rightarrow> if cn_credential_reference c \<noteq> None then Inl ConnectorPolicy else Inr None
      | Some auth \<Rightarrow>
          (case cn_credential_reference c of
             None \<Rightarrow> Inl ConnectorPolicy
           | Some rf \<Rightarrow>
               (case secret_parse rf of
                  Inl _ \<Rightarrow> Inl ConnectorPolicy
                | Inr r \<Rightarrow>
                    (case secret_resolve env files r of
                       Inl _ \<Rightarrow> Inl ConnectorPolicy
                     | Inr secret \<Rightarrow> Inr (Some (au_header auth, au_prefix auth @ secret))))))"

text \<open>The state of the loop over the pages. \<open>u32\<close> sums wrap, as in a release build.\<close>

record rest_pages =
  ps_bodies :: "8 word list list"
  ps_seen :: "string list"
  ps_current :: url
  ps_last :: "fetched_response option"
  ps_first_not_modified :: bool

definition page_headers :: "nat \<Rightarrow> (string \<times> string) list \<Rightarrow> (string \<times> string) list" where
  "page_headers page_idx headers =
     (if page_idx = 0 then headers
      else filter (\<lambda>(k, v). to_ascii_lowercase k \<noteq> ''if-none-match'' \<and> to_ascii_lowercase k \<noteq> ''if-modified-since'') headers)"

definition next_page :: "'n collect_lib \<Rightarrow> pagination_config \<Rightarrow> nat \<Rightarrow> nat \<Rightarrow> fetched_response \<Rightarrow> url option" where
  "next_page lib p max_pages page_idx r =
     (case pg_next_url_pointer p of
        Some pointer \<Rightarrow> next_url_from_pointer lib (fr_body r) pointer (fr_url r)
      | None \<Rightarrow>
          (case pg_page_param p of
             Some param \<Rightarrow>
               if page_idx + 1 < max_pages
               then Some (apply_page_param lib (fr_url r) param ((pg_page_start p + page_idx + 1) mod 2 ^ 32))
               else None
           | None \<Rightarrow> None))"

fun rest_loop ::
  "'n collect_lib \<Rightarrow> guarded_fetcher \<Rightarrow> (nat \<Rightarrow> nat \<Rightarrow> hop_env) \<Rightarrow> pagination_config \<Rightarrow> http_method \<Rightarrow> (string \<times> string) list
     \<Rightarrow> 8 word list option \<Rightarrow> nat \<Rightarrow> nat \<Rightarrow> rest_pages \<Rightarrow> ('n, rest_pages) collect_op" where
  "rest_loop lib f envs p method headers body max_pages 0 a s = (Inr a, s)"
| "rest_loop lib f envs p method headers body max_pages (Suc n) a s =
     (let page_idx = max_pages - Suc n; current = u_text (ps_current a)
      in if current \<in> set (ps_seen a) then (Inr a, s)
         else
           case fetch_request (co_net lib) f (envs page_idx) method current (page_headers page_idx headers) body s of
             (Inl e, s') \<Rightarrow> (Inl e, s')
           | (Inr r, s') \<Rightarrow>
               (let a = a\<lparr>ps_seen := ps_seen a @ [current], ps_last := Some r\<rparr>
                in if is_not_modified r \<and> page_idx = 0 then (Inr (a\<lparr>ps_first_not_modified := True\<rparr>), s')
                   else
                     let a = a\<lparr>ps_bodies := ps_bodies a @ [fr_body r]\<rparr>
                     in case next_page lib p max_pages page_idx r of
                          None \<Rightarrow> (Inr a, s')
                        | Some u \<Rightarrow> rest_loop lib f envs p method headers body max_pages n (a\<lparr>ps_current := u\<rparr>) s'))"

definition rest_body :: "'n collect_lib \<Rightarrow> 8 word list list \<Rightarrow> 8 word list" where
  "rest_body lib bodies =
     (case bodies of
        [] \<Rightarrow> [0x6e, 0x75, 0x6c, 0x6c]
      | [b] \<Rightarrow> b
      | _ \<Rightarrow> co_bytes_of_json lib (JArray (map (\<lambda>raw.
               case co_json_of_bytes lib raw of
                 Some v \<Rightarrow> v
               | None \<Rightarrow> JObject [(''_raw'', JString (co_utf8_lossy lib raw))]) bodies)))"

text \<open>Everything before the first request: the start URL, the method, the headers and the body.\<close>

record rest_request =
  rr_config :: rest_api_config
  rr_method :: http_method
  rr_start :: url
  rr_headers :: "(string \<times> string) list"
  rr_body :: "8 word list option"

definition rest_prepare ::
  "'n collect_lib \<Rightarrow> (string \<rightharpoonup> string) \<Rightarrow> (string \<rightharpoonup> string) \<Rightarrow> collect_context \<Rightarrow> connector_error + rest_request" where
  "rest_prepare lib env_vars files cx =
     rbind (rest_parse_config lib (cx_connector cx)) (\<lambda>cfg.
     rbind (reject_inline_secrets (rc_headers cfg)) (\<lambda>_.
     rbind (rest_parse_method (rc_method cfg)) (\<lambda>method.
     rbind (resolve_auth_header env_vars files (cx_connector cx) cfg) (\<lambda>auth.
     rbind (start_url lib (cx_source cx) cfg) (\<lambda>start.
     Inr \<lparr>rr_config = cfg, rr_method = method,
          rr_start = (case pg_page_param (rc_pagination cfg) of
             Some param \<Rightarrow> apply_page_param lib start param (pg_page_start (rc_pagination cfg))
           | None \<Rightarrow> start),
          rr_headers = rc_headers cfg @ (case auth of Some h \<Rightarrow> [h] | None \<Rightarrow> []) @ conditional_headers (cx_checkpoint cx),
          rr_body = (if method = GET \<or> method = OtherMethod ''HEAD'' then None
                     else map_option (co_bytes_of_json lib) (rc_body cfg))\<rparr>)))))"

definition rest_finish ::
  "'n collect_lib \<Rightarrow> collect_context \<Rightarrow> rest_api_config \<Rightarrow> rest_pages \<Rightarrow> connector_error + collect_result" where
  "rest_finish lib cx cfg a =
     (let checkpoint = advance_checkpoint (cx_now cx) (ps_last a) (cx_checkpoint cx)
      in if ps_first_not_modified a then Inr (unchanged checkpoint)
         else
           let body = rest_body lib (ps_bodies a); digest = co_sha256_hex lib body;
               checkpoint' = checkpoint\<lparr>cp_content_sha256 := Some digest\<rparr>
           in if cp_content_sha256 (cx_checkpoint cx) = Some digest then Inr (unchanged checkpoint')
              else
                rbind (ok_or (FetchError (u_text (ps_current a))) (ps_last a)) (\<lambda>r.
                rbind (start_url lib (cx_source cx) cfg) (\<lambda>external.
                Inr \<lparr>cr_fetched = True,
                     cr_evidence = Some (evidence_of_fetch lib cx ''rest_api''
                       [(''page_count'', JNumber (of_nat (length (ps_bodies a))))] (u_text external)
                       (case content_type_of r of Some t \<Rightarrow> Some t | None \<Rightarrow> Some ''application/json'')
                       (Some ''application/json'') r body),
                     cr_checkpoint = checkpoint'\<rparr>)))"

definition rest_max_pages :: "rest_api_config \<Rightarrow> nat" where
  "rest_max_pages cfg = clamp_nat 1 20 (pg_max_pages (rc_pagination cfg))"

definition rest_collect ::
  "'n collect_lib \<Rightarrow> (string \<rightharpoonup> string) \<Rightarrow> (string \<rightharpoonup> string) \<Rightarrow> guarded_fetcher \<Rightarrow> (nat \<Rightarrow> nat \<Rightarrow> hop_env) \<Rightarrow> collect_context
     \<Rightarrow> ('n, collect_result) collect_op" where
  "rest_collect lib env_vars files f envs cx =
     (case rest_prepare lib env_vars files cx of
        Inl e \<Rightarrow> op_fail e
      | Inr q \<Rightarrow>
          op_bind (rest_loop lib f envs (rc_pagination (rr_config q)) (rr_method q) (rr_headers q) (rr_body q)
              (rest_max_pages (rr_config q)) (rest_max_pages (rr_config q))
              \<lparr>ps_bodies = [], ps_seen = [], ps_current = rr_start q, ps_last = None, ps_first_not_modified = False\<rparr>)
            (\<lambda>a. case rest_finish lib cx (rr_config q) a of Inl e \<Rightarrow> op_fail e | Inr r \<Rightarrow> op_return r))"

declare show_nat.simps [simp del]

section \<open>The contract of a connector\<close>

text \<open>
  What the collector relies on: a result either says that nothing is new and carries no evidence,
  or carries evidence that belongs to the source, connector, collections and time it was asked for; and the checkpoint
  is never older than the fetch.
\<close>

locale source_connector =
  fixes collect :: "collect_context \<Rightarrow> fetch_state \<Rightarrow> (connector_error + collect_result) \<times> fetch_state"
  assumes evidence_iff_fetched: "collect cx s = (Inr r, s') \<Longrightarrow> cr_fetched r \<longleftrightarrow> cr_evidence r \<noteq> None"
    and evidence_context: "collect cx s = (Inr r, s') \<Longrightarrow> cr_evidence r = Some e \<Longrightarrow>
      ne_source_id e = so_id (cx_source cx) \<and> ne_connector_id e = cn_id (cx_connector cx) \<and>
      ne_collection_ids e = cx_collection_ids cx \<and> ne_retrieved_at e = cx_now cx"
    and checkpoint_time: "collect cx s = (Inr r, s') \<Longrightarrow> cp_last_retrieved_at (cr_checkpoint r) = Some (cx_now cx)"
begin

lemma collect_cases:
  assumes "collect cx s = (Inr r, s')"
  obtains (unchanged) "\<not> cr_fetched r" "cr_evidence r = None"
  | (changed) e where "cr_fetched r" "cr_evidence r = Some e" "ne_source_id e = so_id (cx_source cx)"
      "ne_connector_id e = cn_id (cx_connector cx)" "ne_collection_ids e = cx_collection_ids cx"
      "ne_retrieved_at e = cx_now cx"
proof (cases "cr_evidence r")
  case None
  with evidence_iff_fetched [OF assms] show ?thesis by (intro that(1)) auto
next
  case (Some e)
  with evidence_iff_fetched [OF assms] evidence_context [OF assms Some] show ?thesis by (intro that(2)) auto
qed

end

lemma advance_checkpoint_time [simp]: "cp_last_retrieved_at (advance_checkpoint now r c) = Some now"
  by (simp add: advance_checkpoint_def Let_def split: option.split)

lemma evidence_of_fetch_sel [simp]:
  "ne_source_id (evidence_of_fetch lib cx ty extra x ct mt r b) = so_id (cx_source cx)"
  "ne_connector_id (evidence_of_fetch lib cx ty extra x ct mt r b) = cn_id (cx_connector cx)"
  "ne_collection_ids (evidence_of_fetch lib cx ty extra x ct mt r b) = cx_collection_ids cx"
  "ne_retrieved_at (evidence_of_fetch lib cx ty extra x ct mt r b) = cx_now cx"
  "ne_body (evidence_of_fetch lib cx ty extra x ct mt r b) = b"
  by (simp_all add: evidence_of_fetch_def)

lemma unchanged_sel [simp]:
  "\<not> cr_fetched (unchanged c)" "cr_evidence (unchanged c) = None" "cr_checkpoint (unchanged c) = c"
  by (simp_all add: unchanged_def)

lemmas collect_split = option.splits sum.splits prod.splits if_splits

interpretation rss: source_connector "rss_collect lib f env" for lib :: "'n collect_lib" and f env
  by unfold_locales (auto simp: rss_collect_def op_bind_def Let_def split: collect_split)

interpretation web: source_connector "web_collect lib f env" for lib :: "'n collect_lib" and f env
  by unfold_locales (auto simp: web_collect_def op_bind_def Let_def split: collect_split)

lemma rest_finish_cases:
  assumes "rest_finish lib cx cfg a = Inr r"
  shows "(cr_fetched r \<longleftrightarrow> cr_evidence r \<noteq> None) \<and> cp_last_retrieved_at (cr_checkpoint r) = Some (cx_now cx) \<and>
    (\<forall>e. cr_evidence r = Some e \<longrightarrow> ne_source_id e = so_id (cx_source cx) \<and> ne_connector_id e = cn_id (cx_connector cx) \<and>
      ne_collection_ids e = cx_collection_ids cx \<and> ne_retrieved_at e = cx_now cx)"
  using assms by (auto simp: rest_finish_def Let_def rbind_Inr_iff split: if_splits)

lemma rest_collect_finish:
  "rest_collect lib ev files f envs cx s = (Inr r, s') \<Longrightarrow> \<exists>cfg a. rest_finish lib cx cfg a = Inr r"
  by (auto simp: rest_collect_def op_bind_def split: sum.splits prod.splits)

interpretation rest: source_connector "rest_collect lib ev files f envs" for lib :: "'n collect_lib" and ev files f envs
  using rest_finish_cases by unfold_locales (blast dest: rest_collect_finish)+

section \<open>What a REST collection sends\<close>

lemma loop_headers:
  "request_loop lib f headers env started hops u m b s = (r, s') \<Longrightarrow>
   \<exists>sent. fs_sent s' = fs_sent s @ sent \<and> (\<forall>q \<in> set sent. hq_headers q = headers)"
proof (induction lib f headers env started hops u m b s arbitrary: r s' rule: request_loop.induct)
  case (1 lib f headers env started hops u m b s)
  obtain out s1 where hop: "fetch_hop lib f headers (env hops) started hops u m b s = (out, s1)"
    by (cases "fetch_hop lib f headers (env hops) started hops u m b s")
  from hop_sent [OF hop] obtain first where first: "fs_sent s1 = fs_sent s @ first"
    "\<forall>q \<in> set first. hq_headers q = headers"
    by fastforce
  show ?case
  proof (cases out)
    case (Finished x)
    with "1.prems" first show ?thesis by (auto simp: request_loop.simps [of lib f] hop)
  next
    case (Redirected u' m' b')
    show ?thesis
    proof (cases "sp_max_redirects (sg_policy (gf_guard f)) < hops + 1")
      case True
      with "1.prems" first Redirected show ?thesis by (auto simp: request_loop.simps [of lib f] hop)
    next
      case False
      with "1.prems" Redirected have "request_loop lib f headers env started (hops + 1) u' m' b' s1 = (r, s')"
        by (simp add: request_loop.simps [of lib f headers env started hops] hop)
      from "1.IH" [OF hop [symmetric] Redirected False this] first show ?thesis by auto
    qed
  qed
qed

lemma fetch_request_headers:
  assumes "fetch_request lib f env method text headers body s = (r, s')" "fs_sent s' = fs_sent s @ sent" "q \<in> set sent"
  shows "hq_headers q = headers"
proof (cases "nl_parse_url lib text")
  case None
  with assms show ?thesis by (simp add: fetch_request_def)
next
  case (Some u)
  with assms(1) have "request_loop lib f headers env (he_instant (env 0)) 0 u method body s = (r, s')"
    by (simp add: fetch_request_def)
  from loop_headers [OF this] assms(2,3) show ?thesis by auto
qed

text \<open>The requests of a run of the page loop.\<close>

definition page_requests ::
  "'n net_lib \<Rightarrow> guarded_fetcher \<Rightarrow> (nat \<Rightarrow> nat \<Rightarrow> hop_env) \<Rightarrow> (string \<times> string) list \<Rightarrow> nat \<Rightarrow> http_request list \<Rightarrow> bool" where
  "page_requests lib f envs headers n sent \<longleftrightarrow>
     length sent \<le> n * Suc (sp_max_redirects (sg_policy (gf_guard f))) \<and>
     (\<forall>q \<in> set sent. \<exists>i k. hop_checked lib (gf_guard f) (envs i k) q \<and> hq_headers q = page_headers i headers)"

lemma rest_loop_safe:
  assumes "rest_loop lib f envs p method headers body max_pages n a s = (r, s')"
  shows "\<exists>sent. fs_sent s' = fs_sent s @ sent \<and> page_requests (co_net lib) f envs headers n sent"
  using assms
proof (induction n arbitrary: a s)
  case 0
  then show ?case by (simp add: page_requests_def)
next
  case (Suc n)
  let ?i = "max_pages - Suc n" and ?t = "u_text (ps_current a)"
  show ?case
  proof (cases "?t \<in> set (ps_seen a)")
    case True
    with Suc.prems show ?thesis by (auto simp: page_requests_def Let_def)
  next
    case new: False
    obtain x s1 where fetch: "fetch_request (co_net lib) f (envs ?i) method ?t (page_headers ?i headers) body s = (x, s1)"
      by fastforce
    from request_safe [OF fetch] obtain sent where sent: "fs_sent s1 = fs_sent s @ sent"
      "length sent \<le> Suc (sp_max_redirects (sg_policy (gf_guard f)))"
      "\<And>q. q \<in> set sent \<Longrightarrow> \<exists>k. hop_checked (co_net lib) (gf_guard f) (envs ?i k) q" by metis
    have here: "\<forall>q \<in> set sent. \<exists>i k. hop_checked (co_net lib) (gf_guard f) (envs i k) q \<and> hq_headers q = page_headers i headers"
      using sent(3) fetch_request_headers [OF fetch sent(1)] by blast
    with sent(2) have one: "page_requests (co_net lib) f envs headers (Suc n) sent"
      by (auto simp: page_requests_def)
    show ?thesis
    proof (cases "\<exists>a'. rest_loop lib f envs p method headers body max_pages n a' s1 = (r, s')")
      case True
      then obtain rest where "fs_sent s' = fs_sent s1 @ rest" "page_requests (co_net lib) f envs headers n rest"
        using Suc.IH by blast
      with sent here show ?thesis by (intro exI [of _ "sent @ rest"]) (auto simp: page_requests_def)
    next
      case False
      with Suc.prems new fetch have "s' = s1"
        by (auto simp: Let_def split: sum.splits if_splits option.splits)
      with sent(1) one show ?thesis by blast
    qed
  qed
qed

text \<open>
  a REST collection sends at most twenty pages of requests, each of them within the redirect
  limit and checked by the guard at its own hop. No header written in the configuration is an
  authorisation header or looks like a credential; the resolved credential and the configured headers go
  out with every request, whatever host a redirect or a next page leads to; the conditional headers only with the first page.
\<close>

theorem rest_collect_bounded:
  assumes "rest_collect lib ev files f envs cx s = (r, s')"
  shows "s' = s \<or> (\<exists>sent q. fs_sent s' = fs_sent s @ sent \<and> rest_prepare lib ev files cx = Inr q \<and>
    length sent \<le> 20 * Suc (sp_max_redirects (sg_policy (gf_guard f))) \<and>
    (\<forall>h \<in> set (rc_headers (rr_config q)). header_ok h) \<and>
    (\<forall>m \<in> set sent. \<exists>i k. hop_checked (co_net lib) (gf_guard f) (envs i k) m \<and>
       hq_headers m = page_headers i (rr_headers q)))"
proof (cases "rest_prepare lib ev files cx")
  case (Inl e)
  with assms show ?thesis by (simp add: rest_collect_def)
next
  case (Inr q)
  let ?n = "rest_max_pages (rr_config q)"
  let ?a = "\<lparr>ps_bodies = [], ps_seen = [], ps_current = rr_start q, ps_last = None, ps_first_not_modified = False\<rparr>"
  obtain x s1 where loop: "rest_loop lib f envs (rc_pagination (rr_config q)) (rr_method q) (rr_headers q) (rr_body q) ?n ?n ?a s = (x, s1)"
    by fastforce
  then have s1: "s' = s1" using assms Inr
    by (auto simp: rest_collect_def op_bind_def split: sum.splits)
  from rest_loop_safe [OF loop] obtain sent where sent: "fs_sent s' = fs_sent s @ sent"
    "page_requests (co_net lib) f envs (rr_headers q) ?n sent" unfolding s1 by blast
  have "?n \<le> 20" by (simp add: rest_max_pages_def clamp_nat_def)
  then have "?n * Suc (sp_max_redirects (sg_policy (gf_guard f))) \<le> 20 * Suc (sp_max_redirects (sg_policy (gf_guard f)))"
    by (rule mult_le_mono1)
  moreover have "\<forall>h \<in> set (rc_headers (rr_config q)). header_ok h"
    using Inr by (auto simp: rest_prepare_def rbind_Inr_iff reject_inline_secrets_def rguard_def split: if_splits)
  ultimately show ?thesis
    using sent Inr unfolding page_requests_def by (intro disjI2 exI [of _ sent] exI [of _ q]) auto
qed

definition sample_rest_config :: rest_api_config where
  "sample_rest_config = \<lparr>rc_base_url = None, rc_path = None, rc_url = Some ''a'', rc_method = None, rc_headers = [],
     rc_query = [], rc_body = None, rc_auth = None,
     rc_pagination = \<lparr>pg_max_pages = 1, pg_next_url_pointer = None, pg_page_param = None, pg_page_start = 1\<rparr>\<rparr>"

definition sample_collect_lib :: "unit collect_lib" where
  "sample_collect_lib = \<lparr>co_net = sample_web, co_version = ''1'', co_sha256_hex = (\<lambda>b. replicate (length b) CHR ''h''),
     co_show_date = (\<lambda>_. ''d''), co_show_time = (\<lambda>_. ''t''), co_checkpoint_of = (\<lambda>_. None),
     co_static_web_url = (\<lambda>_. None), co_rest_config = (\<lambda>_. Some sample_rest_config), co_set_path = (\<lambda>u _. u),
     co_query_pairs = (\<lambda>_. []), co_append_query = (\<lambda>u _. u), co_set_query = (\<lambda>u _. u),
     co_json_of_bytes = (\<lambda>_. None), co_bytes_of_json = (\<lambda>_. []), co_utf8_lossy = (\<lambda>_. []), co_pointer = (\<lambda>_ _. None)\<rparr>"

definition sample_context :: collect_context where
  "sample_context = \<lparr>cx_source = sample_source, cx_connector = sample_connector 7 ''rest'', cx_collection_ids = [],
     cx_checkpoint = default_checkpoint, cx_now = 50\<rparr>"

theorem rest_collect_bounded_witness:
  "(\<exists>q. rest_prepare sample_collect_lib Map.empty Map.empty sample_context = Inr q) \<and>
   length (fs_sent (snd (rest_collect sample_collect_lib Map.empty Map.empty sample_fetcher (\<lambda>_. sample_env)
      sample_context sample_start))) \<le> 120"
proof -
  have "trim ''a'' = ''a''" by code_simp
  then have "\<exists>q. rest_prepare sample_collect_lib Map.empty Map.empty sample_context = Inr q"
    by (simp add: rest_prepare_def rest_parse_config_def sample_collect_lib_def sample_context_def sample_connector_def
        reject_inline_secrets_def sample_rest_config_def rest_parse_method_def non_blank_def
        resolve_auth_header_def start_url_def sample_web_def rguard_def ok_or_def)
  moreover obtain r s' where run: "rest_collect sample_collect_lib Map.empty Map.empty sample_fetcher (\<lambda>_. sample_env)
      sample_context sample_start = (r, s')" by fastforce
  have "length (fs_sent s') \<le> 120"
    using rest_collect_bounded [OF run]
    by (auto simp: sample_start_def sample_fetcher_def sample_guard_def default_policy_def)
  ultimately show ?thesis using run by simp
qed

end
