(* ===== verification/Backpressure.thy ===== *)
theory Backpressure
  imports Prelude
begin

text \<open>
  The back-pressure gate of the collector, \<open>crates/collector/src/backpressure.rs\<close>: the lag of the normalizer's consumer
  group decides whether a tick dispatches normally, one by one, or not at all. The probe is asked
  at most once per interval, and a probe that fails or times out lets the tick run (fail-open).
  The answer of the probe at an evaluation is an argument: \<open>None\<close> when no probe was built,
  otherwise an error (a timeout included) or the lag. The field \<open>ga_probes\<close> counts the queries.
\<close>

datatype backpressure_state = BpNormal | BpThrottle | BpPause

fun metric_value :: "backpressure_state \<Rightarrow> nat" where
  "metric_value BpNormal = 0"
| "metric_value BpThrottle = 1"
| "metric_value BpPause = 2"

fun dispatch_cap :: "backpressure_state \<Rightarrow> nat \<Rightarrow> nat" where
  "dispatch_cap BpPause global_limit = 0"
| "dispatch_cap BpThrottle global_limit = 1"
| "dispatch_cap BpNormal global_limit = max global_limit 1"

definition from_lag :: "nat \<Rightarrow> nat \<Rightarrow> nat \<Rightarrow> backpressure_state" where
  "from_lag lag throttle_lag pause_lag =
     (if pause_lag \<le> lag then BpPause else if throttle_lag \<le> lag then BpThrottle else BpNormal)"

record backpressure_decision =
  bd_state :: backpressure_state
  bd_lag :: "nat option"

record backpressure_config =
  cb_enabled :: bool
  cb_throttle_lag :: nat
  cb_pause_lag :: nat
  cb_lag_check_interval_secs :: nat

record probe_cache =
  pc_checked_at :: "time option"
  pc_lag :: "nat option"
  pc_state :: backpressure_state
  pc_probe_ok :: bool
  pc_logged :: "(backpressure_state \<times> bool) option"

definition default_cache :: probe_cache where
  "default_cache = \<lparr>pc_checked_at = None, pc_lag = None, pc_state = BpNormal, pc_probe_ok = True, pc_logged = None\<rparr>"

record gate =
  ga_cache :: probe_cache
  ga_state_gauge :: nat
  ga_lag_gauge :: "nat option"
  ga_probe_failures :: nat
  ga_probes :: nat
  ga_log :: "(backpressure_state \<times> bool) list"

definition new_gate :: gate where
  "new_gate = \<lparr>ga_cache = default_cache, ga_state_gauge = 0, ga_lag_gauge = None, ga_probe_failures = 0,
     ga_probes = 0, ga_log = []\<rparr>"

definition publish_gauges :: "backpressure_state \<Rightarrow> nat option \<Rightarrow> gate \<Rightarrow> gate" where
  "publish_gauges st lag g =
     (let g = g\<lparr>ga_state_gauge := metric_value st\<rparr>
      in case lag of Some l \<Rightarrow> g\<lparr>ga_lag_gauge := Some l\<rparr> | None \<Rightarrow> g)"

definition should_log_change :: "(backpressure_state \<times> bool) option \<Rightarrow> backpressure_state \<Rightarrow> bool \<Rightarrow> bool" where
  "should_log_change prev st probe_ok =
     (case prev of
        None \<Rightarrow> \<not> probe_ok \<or> st \<noteq> BpNormal
      | Some (old_state, old_ok) \<Rightarrow> old_state \<noteq> st \<or> old_ok \<noteq> probe_ok)"

definition store_and_log :: "time \<Rightarrow> nat option \<Rightarrow> backpressure_state \<Rightarrow> bool \<Rightarrow> gate \<Rightarrow> gate" where
  "store_and_log now lag st probe_ok g =
     (let cache = (ga_cache g)\<lparr>pc_checked_at := Some now, pc_lag := lag, pc_state := st, pc_probe_ok := probe_ok\<rparr>
      in if should_log_change (pc_logged (ga_cache g)) st probe_ok
         then g\<lparr>ga_cache := cache\<lparr>pc_logged := Some (st, probe_ok)\<rparr>, ga_log := ga_log g @ [(st, probe_ok)]\<rparr>
         else g\<lparr>ga_cache := cache\<rparr>)"

definition finish_ok :: "backpressure_config \<Rightarrow> time \<Rightarrow> nat \<Rightarrow> gate \<Rightarrow> backpressure_decision \<times> gate" where
  "finish_ok cfg now lag g =
     (let st = from_lag lag (cb_throttle_lag cfg) (cb_pause_lag cfg);
          g = publish_gauges st (Some lag) (g\<lparr>ga_lag_gauge := Some lag\<rparr>)
      in (\<lparr>bd_state = st, bd_lag = Some lag\<rparr>, store_and_log now (Some lag) st True g))"

definition finish_fail_open :: "time \<Rightarrow> gate \<Rightarrow> backpressure_decision \<times> gate" where
  "finish_fail_open now g =
     (let g = g\<lparr>ga_probe_failures := ga_probe_failures g + 1\<rparr>;
          cached_lag = pc_lag (ga_cache g);
          g = publish_gauges BpNormal cached_lag g
      in (\<lparr>bd_state = BpNormal, bd_lag = cached_lag\<rparr>, store_and_log now cached_lag BpNormal False g))"

definition check_interval :: "backpressure_config \<Rightarrow> duration" where
  "check_interval cfg = max (cb_lag_check_interval_secs cfg) 1 * 1000"

type_synonym probe_answer = "(string + nat) option"

definition gate_evaluate ::
  "backpressure_config \<Rightarrow> probe_answer \<Rightarrow> time \<Rightarrow> gate \<Rightarrow> backpressure_decision \<times> gate" where
  "gate_evaluate cfg probe now g =
     (if \<not> cb_enabled cfg then (\<lparr>bd_state = BpNormal, bd_lag = None\<rparr>, g\<lparr>ga_state_gauge := 0\<rparr>)
      else
        let cache = ga_cache g
        in if (case pc_checked_at cache of Some t \<Rightarrow> since now t < check_interval cfg | None \<Rightarrow> False)
           then (\<lparr>bd_state = pc_state cache, bd_lag = pc_lag cache\<rparr>, publish_gauges (pc_state cache) (pc_lag cache) g)
           else case probe of
                  None \<Rightarrow> finish_fail_open now g
                | Some (Inl err) \<Rightarrow> finish_fail_open now (g\<lparr>ga_probes := ga_probes g + 1\<rparr>)
                | Some (Inr lag) \<Rightarrow> finish_ok cfg now lag (g\<lparr>ga_probes := ga_probes g + 1\<rparr>))"

section \<open>Runs of the gate\<close>

type_synonym gate_event = "time \<times> probe_answer"

fun gate_run :: "backpressure_config \<Rightarrow> gate_event list \<Rightarrow> gate \<Rightarrow> backpressure_decision list \<times> gate" where
  "gate_run cfg [] g = ([], g)"
| "gate_run cfg ((now, probe) # evs) g =
     (let (d, g) = gate_evaluate cfg probe now g; (ds, g) = gate_run cfg evs g in (d # ds, g))"

text \<open>What an answer of the probe stands for.\<close>

definition observed :: "backpressure_config \<Rightarrow> probe_answer \<Rightarrow> backpressure_state" where
  "observed cfg probe =
     (case probe of Some (Inr lag) \<Rightarrow> from_lag lag (cb_throttle_lag cfg) (cb_pause_lag cfg) | _ \<Rightarrow> BpNormal)"

text \<open>The state is what the answer at an earlier time less than one interval ago stands for.\<close>

definition fresh_answer :: "backpressure_config \<Rightarrow> gate_event list \<Rightarrow> time \<Rightarrow> backpressure_state \<Rightarrow> bool" where
  "fresh_answer cfg hist now st \<longleftrightarrow>
     (\<exists>(t, probe) \<in> set hist. t \<le> now \<and> since now t < check_interval cfg \<and> st = observed cfg probe)"

text \<open>Consecutive log lines differ.\<close>

definition log_ok :: "gate \<Rightarrow> bool" where
  "log_ok g \<longleftrightarrow> distinct_adj (ga_log g) \<and>
     pc_logged (ga_cache g) = (if ga_log g = [] then None else Some (last (ga_log g)))"

text \<open>The invariant of a run that began at \<open>t0\<close>: the cache holds the answer of a past event, and the queries are spread.\<close>

definition gate_ok :: "backpressure_config \<Rightarrow> time \<Rightarrow> gate_event list \<Rightarrow> gate \<Rightarrow> bool" where
  "gate_ok cfg t0 hist g \<longleftrightarrow> log_ok g \<and>
     (case pc_checked_at (ga_cache g) of
        None \<Rightarrow> ga_probes g = 0
      | Some t \<Rightarrow> t0 \<le> t \<and> (\<exists>probe. (t, probe) \<in> set hist \<and> pc_state (ga_cache g) = observed cfg probe) \<and>
          ga_probes g * check_interval cfg \<le> since t t0 + check_interval cfg)"

lemma publish_gauges_frame [simp]:
  "ga_cache (publish_gauges st lag g) = ga_cache g" "ga_probes (publish_gauges st lag g) = ga_probes g"
  "ga_log (publish_gauges st lag g) = ga_log g"
  by (simp_all add: publish_gauges_def Let_def split: option.split)

lemma store_and_log_effect:
  "pc_checked_at (ga_cache (store_and_log now lag st ok g)) = Some now"
  "pc_state (ga_cache (store_and_log now lag st ok g)) = st"
  "ga_probes (store_and_log now lag st ok g) = ga_probes g"
  by (simp_all add: store_and_log_def Let_def)

lemma store_and_log_ok: "log_ok g \<Longrightarrow> log_ok (store_and_log now lag st ok g)"
  by (auto simp: log_ok_def store_and_log_def should_log_change_def Let_def distinct_adj_append_iff
      split: option.splits if_splits)

lemma log_ok_cong: "ga_cache g = ga_cache h \<Longrightarrow> ga_log g = ga_log h \<Longrightarrow> log_ok g = log_ok h"
  by (simp add: log_ok_def)

lemma check_interval_pos: "0 < check_interval cfg"
  by (simp add: check_interval_def)

text \<open>The two ways an enabled gate answers: from the cache, or from the probe.\<close>

definition cached :: "backpressure_config \<Rightarrow> time \<Rightarrow> gate \<Rightarrow> bool" where
  "cached cfg now g \<longleftrightarrow>
     (case pc_checked_at (ga_cache g) of Some t \<Rightarrow> since now t < check_interval cfg | None \<Rightarrow> False)"

lemma gate_cached:
  assumes "cb_enabled cfg" "cached cfg now g" "gate_evaluate cfg probe now g = (d, g')"
  shows "bd_state d = pc_state (ga_cache g) \<and> ga_cache g' = ga_cache g \<and> ga_log g' = ga_log g \<and>
    ga_probes g' = ga_probes g"
  using assms by (auto simp: gate_evaluate_def cached_def Let_def)

lemma gate_asked:
  assumes "cb_enabled cfg" "\<not> cached cfg now g" "gate_evaluate cfg probe now g = (d, g')"
  shows "bd_state d = observed cfg probe \<and>
    (\<exists>h lag ok. g' = store_and_log now lag (observed cfg probe) ok h \<and>
       ga_cache h = ga_cache g \<and> ga_log h = ga_log g \<and> ga_probes h \<le> ga_probes g + 1)"
proof (cases probe)
  case None
  with assms show ?thesis
    by (auto simp: gate_evaluate_def cached_def finish_fail_open_def observed_def Let_def
        intro!: exI [where x = "publish_gauges BpNormal (pc_lag (ga_cache g)) _"])
next
  case (Some a)
  with assms show ?thesis
    by (cases a) (fastforce simp: gate_evaluate_def cached_def finish_fail_open_def finish_ok_def observed_def Let_def)+
qed

lemma gate_ok_step:
  assumes en: "cb_enabled cfg" and ok: "gate_ok cfg t0 hist g" and t0: "t0 \<le> now"
    and past: "\<forall>e \<in> set hist. fst e \<le> now"
    and run: "gate_evaluate cfg probe now g = (d, g')"
  shows "gate_ok cfg t0 (hist @ [(now, probe)]) g' \<and> fresh_answer cfg (hist @ [(now, probe)]) now (bd_state d)"
proof (cases "cached cfg now g")
  case True
  note same = gate_cached [OF en True run]
  from True obtain t where t: "pc_checked_at (ga_cache g) = Some t" "since now t < check_interval cfg"
    by (auto simp: cached_def split: option.splits)
  with ok obtain p where "(t, p) \<in> set hist" "pc_state (ga_cache g) = observed cfg p"
    by (auto simp: gate_ok_def)
  with past t same have "fresh_answer cfg (hist @ [(now, probe)]) now (bd_state d)"
    by (force simp: fresh_answer_def)
  moreover have "gate_ok cfg t0 (hist @ [(now, probe)]) g'"
    using ok same log_ok_cong [of g g'] by (auto simp: gate_ok_def split: option.splits)
  ultimately show ?thesis by simp
next
  case False
  from gate_asked [OF en False run] obtain h lag k where d: "bd_state d = observed cfg probe"
    and g': "g' = store_and_log now lag (observed cfg probe) k h"
    and h: "ga_cache h = ga_cache g" "ga_log h = ga_log g" "ga_probes h \<le> ga_probes g + 1"
    by blast
  have "ga_probes h * check_interval cfg \<le> since now t0 + check_interval cfg"
  proof (cases "pc_checked_at (ga_cache g)")
    case None
    with ok have "ga_probes g = 0" by (simp add: gate_ok_def)
    with h have "ga_probes h * check_interval cfg \<le> 1 * check_interval cfg" by (intro mult_le_mono) auto
    also have "\<dots> \<le> since now t0 + check_interval cfg" by simp
    finally show ?thesis .
  next
    case (Some t)
    with ok past have t: "t0 \<le> t" "t \<le> now" "ga_probes g * check_interval cfg \<le> since t t0 + check_interval cfg"
      by (auto simp: gate_ok_def)
    have "check_interval cfg \<le> since now t" using False Some by (simp add: cached_def)
    moreover have "since now t0 = since now t + since t t0" using t by (simp add: since_def)
    moreover have "ga_probes h * check_interval cfg \<le> (ga_probes g + 1) * check_interval cfg"
      using h(3) by (intro mult_le_mono) auto
    ultimately show ?thesis using t(3) by (simp add: algebra_simps)
  qed
  moreover have "log_ok g'"
    unfolding g' using ok h log_ok_cong [of g h] by (intro store_and_log_ok) (simp add: gate_ok_def)
  ultimately have "gate_ok cfg t0 (hist @ [(now, probe)]) g'"
    using t0 by (auto simp: gate_ok_def g' store_and_log_effect)
  moreover have "fresh_answer cfg (hist @ [(now, probe)]) now (bd_state d)"
    unfolding d fresh_answer_def using check_interval_pos by auto
  ultimately show ?thesis by simp
qed

lemma gate_run_ok:
  assumes "cb_enabled cfg" "gate_ok cfg t0 hist g"
    and "sorted (map fst (hist @ evs))" "\<forall>e \<in> set (hist @ evs). t0 \<le> fst e"
    and "gate_run cfg evs g = (ds, g')"
  shows "gate_ok cfg t0 (hist @ evs) g' \<and> length ds = length evs \<and>
    (\<forall>i < length evs. fresh_answer cfg (hist @ evs) (fst (evs ! i)) (bd_state (ds ! i)))"
  using assms(2-)
proof (induction evs arbitrary: g hist ds)
  case Nil
  then show ?case by auto
next
  case (Cons e evs)
  obtain now probe where e: "e = (now, probe)" by fastforce
  obtain d h ds' where run: "gate_evaluate cfg probe now g = (d, h)" "gate_run cfg evs h = (ds', g')" "ds = d # ds'"
    using Cons.prems(4) by (auto simp: e Let_def split: prod.splits)
  have "\<forall>x \<in> set hist. fst x \<le> now"
    using Cons.prems(2) by (auto simp: e sorted_append)
  from gate_ok_step [OF assms(1) Cons.prems(1) _ this run(1)] Cons.prems(3)
  have step: "gate_ok cfg t0 (hist @ [e]) h" "fresh_answer cfg (hist @ [e]) now (bd_state d)"
    by (auto simp: e)
  from Cons.IH [OF step(1) _ _ run(2)] Cons.prems(2,3)
  have "gate_ok cfg t0 (hist @ e # evs) g' \<and> length ds' = length evs \<and>
    (\<forall>i < length evs. fresh_answer cfg (hist @ e # evs) (fst (evs ! i)) (bd_state (ds' ! i)))"
    by simp
  moreover have "fresh_answer cfg (hist @ e # evs) now (bd_state d)"
    using step(2) by (force simp: fresh_answer_def)
  ultimately show ?case by (auto simp: run(3) e nth_Cons split: nat.splits)
qed

lemma backpressure_gate_correct_parts:
  assumes "sorted (map fst evs)" "evs \<noteq> []" "gate_run cfg evs new_gate = (ds, g)"
  shows "cb_enabled cfg \<Longrightarrow> length ds = length evs \<and>
      (\<forall>i < length evs. fresh_answer cfg evs (fst (evs ! i)) (bd_state (ds ! i))) \<and>
      ga_probes g * check_interval cfg \<le> since (fst (last evs)) (fst (hd evs)) + check_interval cfg \<and>
      distinct_adj (ga_log g)"
    and "\<not> cb_enabled cfg \<Longrightarrow> ga_probes g = 0 \<and> (\<forall>d \<in> set ds. bd_state d = BpNormal)"
proof -
  assume en: "cb_enabled cfg"
  let ?t0 = "fst (hd evs)"
  have start: "gate_ok cfg ?t0 [] new_gate"
    by (simp add: gate_ok_def log_ok_def new_gate_def default_cache_def)
  have first: "\<forall>e \<in> set evs. ?t0 \<le> fst e"
    using assms(1,2) by (cases evs) auto
  have final: "\<forall>e \<in> set evs. fst e \<le> fst (last evs)"
    using assms(1,2) by (cases evs rule: rev_cases) (auto simp: sorted_append)
  from gate_run_ok [OF en start _ _ assms(3)] assms(1) first
  have *: "gate_ok cfg ?t0 evs g" "length ds = length evs"
    "\<forall>i < length evs. fresh_answer cfg evs (fst (evs ! i)) (bd_state (ds ! i))" by auto
  have "ga_probes g * check_interval cfg \<le> since (fst (last evs)) ?t0 + check_interval cfg"
  proof (cases "pc_checked_at (ga_cache g)")
    case (Some t)
    with *(1) final have "t \<le> fst (last evs)" "ga_probes g * check_interval cfg \<le> since t ?t0 + check_interval cfg"
      by (auto simp: gate_ok_def)
    moreover from this(1) have "since t ?t0 \<le> since (fst (last evs)) ?t0" by (simp add: since_def)
    ultimately show ?thesis by linarith
  qed (use *(1) in \<open>simp add: gate_ok_def\<close>)
  with * show "length ds = length evs \<and>
      (\<forall>i < length evs. fresh_answer cfg evs (fst (evs ! i)) (bd_state (ds ! i))) \<and>
      ga_probes g * check_interval cfg \<le> since (fst (last evs)) (fst (hd evs)) + check_interval cfg \<and>
      distinct_adj (ga_log g)"
    by (simp add: gate_ok_def log_ok_def)
next
  assume off: "\<not> cb_enabled cfg"
  have "gate_run cfg evs h = (ds, g) \<Longrightarrow> ga_probes g = ga_probes h \<and> (\<forall>d \<in> set ds. bd_state d = BpNormal)" for h ds
    using off by (induction evs arbitrary: h ds) (auto simp: gate_evaluate_def Let_def split: prod.splits)
  from this [OF assms(3)] show "ga_probes g = 0 \<and> (\<forall>d \<in> set ds. bd_state d = BpNormal)"
    by (simp add: new_gate_def)
qed

text \<open>
  the gate over any sequence of ticks. Every decision is what an answer of the probe less than
  one interval old stands for, a failed probe standing for normal operation; the broker is asked at most once per
  interval; and two consecutive log lines never say the same. A disabled gate never asks and
  never slows anything down.
\<close>

theorem backpressure_gate_correct:
  assumes "sorted (map fst evs)" "evs \<noteq> []" "gate_run cfg evs new_gate = (ds, g)"
  shows "if cb_enabled cfg
    then length ds = length evs \<and>
      (\<forall>i < length evs. fresh_answer cfg evs (fst (evs ! i)) (bd_state (ds ! i))) \<and>
      ga_probes g * check_interval cfg \<le> since (fst (last evs)) (fst (hd evs)) + check_interval cfg \<and>
      distinct_adj (ga_log g)
    else ga_probes g = 0 \<and> (\<forall>d \<in> set ds. bd_state d = BpNormal)"
  using backpressure_gate_correct_parts [OF assms] by simp

definition sample_backpressure :: backpressure_config where
  "sample_backpressure = \<lparr>cb_enabled = True, cb_throttle_lag = 100, cb_pause_lag = 1000, cb_lag_check_interval_secs = 30\<rparr>"

text \<open>A pause that is cached, and a probe that fails after it.\<close>

definition sample_ticks :: "gate_event list" where
  "sample_ticks = [(0, Some (Inr 5000)), (5000, Some (Inr 0)), (40000, Some (Inl ''timeout''))]"

theorem backpressure_gate_correct_witness:
  "map bd_state (fst (gate_run sample_backpressure sample_ticks new_gate)) = [BpPause, BpPause, BpNormal] \<and>
   ga_probes (snd (gate_run sample_backpressure sample_ticks new_gate)) * 30000 \<le> 70000 \<and>
   distinct_adj (ga_log (snd (gate_run sample_backpressure sample_ticks new_gate)))"
proof -
  let ?r = "gate_run sample_backpressure sample_ticks new_gate"
  have "map bd_state (fst ?r) = [BpPause, BpPause, BpNormal]"
    by (simp add: sample_ticks_def gate_evaluate_def sample_backpressure_def new_gate_def default_cache_def
        check_interval_def since_def finish_ok_def finish_fail_open_def from_lag_def store_and_log_def
        publish_gauges_def should_log_change_def Let_def)
  moreover have "ga_probes (snd ?r) * 30000 \<le> 70000 \<and> distinct_adj (ga_log (snd ?r))"
    using backpressure_gate_correct [of sample_ticks sample_backpressure "fst ?r" "snd ?r"]
    by (simp add: sample_backpressure_def check_interval_def sample_ticks_def since_def)
  ultimately show ?thesis by simp
qed

end
