(* ===== verification/CollectorRun.thy ===== *)
theory CollectorRun
  imports Collect Backpressure
begin

text \<open>
  One collection, \<open>crates/collector/src/runner.rs\<close>: from the job and the source to the stored evidence, the checkpoint, the
  run state of the connector and the published event, with every early return; and the sequential part
  of a tick, which plans every connector and selects what is dispatched. The evidence sink
  (\<open>connector-sdk/src/evidence.rs\<close>) and the checkpoint store (\<open>checkpoint.rs\<close>) are the operations it composes.

  The record \<open>run_env\<close> holds what the outside does during one collection: the clocks, the network, a fresh
  identifier, whether the object store and the broker accept a call. \<open>rl_message\<close> renders an error, as \<open>Display\<close> does.
  The concurrency of a tick (the \<open>JoinSet\<close>, the drain at shutdown) is not part of this theory.
\<close>

datatype collect_outcome =
    Collected uuid
  | Unchanged
  | SkippedUnknownType string
  | SkippedImportType string
  | SkippedUnscheduled
  | SkippedInvalidSchedule
  | NotDue
  | BackingOff
  | RetryDeferred
  | BackpressureSkipped

datatype raw_event =
    RawCollected uuid uuid uuid string
  | RawFailed uuid uuid string

record 'n runner_lib =
  rl_collect :: "'n collect_lib"
  rl_message :: "collector_error \<Rightarrow> string"
  rl_policy_of :: "json \<Rightarrow> source_policy option"
  rl_rate_limit_of :: "json \<Rightarrow> rate_limit_config option"

record run_env =
  re_now :: time
  re_failed_at :: time
  re_job_now :: time
  re_hops :: "nat \<Rightarrow> nat \<Rightarrow> hop_env"
  re_env_vars :: "string \<rightharpoonup> string"
  re_files :: "string \<rightharpoonup> string"
  re_evidence_id :: uuid
  re_put_ok :: bool
  re_delete_ok :: bool
  re_publish_ok :: "raw_event \<Rightarrow> bool"

record collector =
  ck_jobs :: job_service
  ck_objects :: "string \<rightharpoonup> 8 word list"
  ck_audit :: audit_log
  ck_sent :: "http_request list"
  ck_events :: "raw_event list"
  ck_collected :: nat
  ck_raw_bytes :: nat
  ck_connector_errors :: nat
  ck_failed_jobs :: nat

abbreviation ck_db :: "collector \<Rightarrow> db" where
  "ck_db w \<equiv> js_store (ck_jobs w)"

definition ck_set_db :: "db \<Rightarrow> collector \<Rightarrow> collector" where
  "ck_set_db d w = w\<lparr>ck_jobs := (ck_jobs w)\<lparr>js_store := d\<rparr>\<rparr>"

type_synonym 'a runner_op = "(collector, collector_error, 'a) op"

section \<open>Writing the run state\<close>

definition store_run_state :: "uuid \<Rightarrow> run_state_update \<Rightarrow> bool runner_op" where
  "store_run_state i u w =
     (case update_connector_run_state i u (ck_db w) of
        Inl e \<Rightarrow> (Inl (CollectorStorage e), w)
      | Inr (marked, d) \<Rightarrow> (Inr marked, ck_set_db d w))"

definition mark_success :: "'n runner_lib \<Rightarrow> connector \<Rightarrow> time \<Rightarrow> raw_evidence option \<Rightarrow> unit runner_op" where
  "mark_success lib c now evidence =
     (let checkpoint = (case evidence of
            Some ev \<Rightarrow> CpMerge (JObject [(''last_raw_evidence_id'',
                         JString (nl_show_uuid (co_net (rl_collect lib)) (rv_id ev)))])
          | None \<Rightarrow> CpUnchanged)
      in op_bind (store_run_state (cn_id c) \<lparr>ru_status = Some ''idle'', ru_last_run = Some now,
              ru_last_success = Some now, ru_error_count = Some 0, ru_checkpoint = checkpoint\<rparr>)
           (\<lambda>marked. op_return ()))"

definition i32_succ :: "int \<Rightarrow> int" where
  "i32_succ n = min (n + 1) (2 ^ 31 - 1)"

definition mark_failure :: "time \<Rightarrow> connector \<Rightarrow> string \<Rightarrow> unit runner_op" where
  "mark_failure failed_at c message w =
     (let current_count = (case get_connector (ck_db w) (cn_id c) of
            Some current \<Rightarrow> cn_error_count current
          | None \<Rightarrow> cn_error_count c)
      in op_bind (store_run_state (cn_id c) (no_update\<lparr>ru_status := Some ''error'', ru_last_run := Some failed_at,
              ru_error_count := Some (i32_succ current_count),
              ru_checkpoint := CpMerge (JObject [(''last_error'', JString message)])\<rparr>))
           (\<lambda>marked. op_return ()) w)"

text \<open>A failure to mark the failure is only logged.\<close>

definition ignore_error :: "'a runner_op \<Rightarrow> collector \<Rightarrow> collector" where
  "ignore_error m w = snd (m w)"

definition resolve_source :: "'n runner_lib \<Rightarrow> run_env \<Rightarrow> connector \<Rightarrow> source runner_op" where
  "resolve_source lib env c w =
     (case get_source (ck_db w) (cn_source_id c) of
        Some s \<Rightarrow> (Inr s, w)
      | None \<Rightarrow>
          (let err = SourceMissing (cn_source_id c)
           in (Inl err, ignore_error (mark_failure (re_failed_at env) c (rl_message lib err)) w)))"

section \<open>The sink and the checkpoint store\<close>

definition evidence_record :: "'n collect_lib \<Rightarrow> uuid \<Rightarrow> new_raw_evidence \<Rightarrow> raw_evidence" where
  "evidence_record lib i e =
     \<lparr>rv_id = i, rv_source_id = ne_source_id e, rv_connector_id = ne_connector_id e,
      rv_external_id = ne_external_id e, rv_source_url = ne_source_url e, rv_retrieved_at = ne_retrieved_at e,
      rv_content_type = ne_content_type e, rv_mime_type = ne_mime_type e,
      rv_content_length = Some (min (int (length (ne_body e))) (2 ^ 63 - 1)),
      rv_sha256 = co_sha256_hex lib (ne_body e),
      rv_storage_path = storage_path lib (ne_source_id e) (ne_retrieved_at e) i,
      rv_http_status = ne_http_status e, rv_http_headers = ne_http_headers e, rv_metadata = ne_metadata e,
      rv_collector_version = ne_collector_version e\<rparr>"

definition persist :: "'n collect_lib \<Rightarrow> run_env \<Rightarrow> new_raw_evidence \<Rightarrow> raw_evidence runner_op" where
  "persist lib env e w =
     (let r = evidence_record lib (re_evidence_id env) e
      in if \<not> re_put_ok env then (Inl (CollectorConnector ConnectorStorage), w)
         else
           let w = w\<lparr>ck_objects := (ck_objects w)(rv_storage_path r \<mapsto> ne_body e)\<rparr>
           in case insert_raw_evidence r (ne_collection_ids e) (ck_db w) of
                Inr d \<Rightarrow> (Inr r, ck_set_db d w)
              | Inl err \<Rightarrow>
                  (Inl (CollectorConnector ConnectorStorage),
                   if re_delete_ok env then w\<lparr>ck_objects := (ck_objects w)(rv_storage_path r := None)\<rparr> else w))"

definition save_checkpoint :: "'n collect_lib \<Rightarrow> connector \<Rightarrow> connector_checkpoint \<Rightarrow> unit runner_op" where
  "save_checkpoint lib c checkpoint w =
     (case update_connector_run_state (cn_id c) (no_update\<lparr>ru_checkpoint := CpMerge (to_value lib checkpoint)\<rparr>) (ck_db w) of
        Inl _ \<Rightarrow> (Inl (CollectorConnector ConnectorStorage), w)
      | Inr (marked, d) \<Rightarrow>
          if marked then (Inr (), ck_set_db d w) else (Inl (CollectorConnector ConnectorStorage), ck_set_db d w))"

section \<open>One collection\<close>

definition publish_raw :: "run_env \<Rightarrow> raw_event \<Rightarrow> unit runner_op" where
  "publish_raw env ev w =
     (if re_publish_ok env ev then (Inr (), w\<lparr>ck_events := ck_events w @ [ev]\<rparr>) else (Inl (CollectorEvent []), w))"

definition finish_collect ::
  "'n runner_lib \<Rightarrow> run_env \<Rightarrow> source \<Rightarrow> connector \<Rightarrow> connector \<Rightarrow> time \<Rightarrow> collect_result \<Rightarrow> collect_outcome runner_op" where
  "finish_collect lib env s c running now collected =
     (if \<not> cr_fetched collected then op_bind (mark_success lib running now None) (\<lambda>_. op_return Unchanged)
      else case cr_evidence collected of
        None \<Rightarrow> op_fail (CollectorConfiguration [])
      | Some e \<Rightarrow>
          op_bind (persist (rl_collect lib) env e) (\<lambda>stored.
          op_bind (mark_success lib running now (Some stored)) (\<lambda>_.
          op_bind (\<lambda>w. (Inr (), w\<lparr>ck_collected := ck_collected w + 1, ck_raw_bytes := ck_raw_bytes w + length (ne_body e)\<rparr>))
            (\<lambda>_.
          op_bind (publish_raw env (RawCollected (rv_id stored) (rv_source_id stored) (rv_connector_id stored) (rv_sha256 stored)))
            (\<lambda>_. op_return (Collected (rv_id stored)))))))"

definition kind_collect ::
  "'n runner_lib \<Rightarrow> run_env \<Rightarrow> known_connector_kind \<Rightarrow> guarded_fetcher \<Rightarrow> collect_context
     \<Rightarrow> (fetch_state, connector_error, collect_result) op" where
  "kind_collect lib env kind f cx =
     (case kind of
        RssOrAtom \<Rightarrow> rss_collect (rl_collect lib) f (re_hops env 0) cx
      | StaticWeb \<Rightarrow> web_collect (rl_collect lib) f (re_hops env 0) cx
      | RestApi \<Rightarrow> rest_collect (rl_collect lib) (re_env_vars env) (re_files env) f (re_hops env) cx)"

text \<open>The fetcher is built for this collection: its buckets start empty.\<close>

definition run_fetch ::
  "(fetch_state, connector_error, collect_result) op \<Rightarrow> collect_result runner_op" where
  "run_fetch m w =
     (case m \<lparr>fs_audit = ck_audit w, fs_buckets = Map.empty, fs_sent = []\<rparr> of
        (r, s) \<Rightarrow>
          (case r of Inl e \<Rightarrow> Inl (CollectorConnector e) | Inr x \<Rightarrow> Inr x,
           w\<lparr>ck_audit := fs_audit s, ck_sent := ck_sent w @ fs_sent s\<rparr>))"

definition policy_from_source :: "'n runner_lib \<Rightarrow> source \<Rightarrow> source_policy" where
  "policy_from_source lib s = (case rl_policy_of lib (so_collection_policy s) of Some p \<Rightarrow> p | None \<Rightarrow> default_policy)"

definition rate_limit_from_connector :: "'n runner_lib \<Rightarrow> connector \<Rightarrow> source_policy \<Rightarrow> rate_limit_config" where
  "rate_limit_from_connector lib c p =
     (case rl_rate_limit_of lib (cn_rate_limit c) of Some r \<Rightarrow> r | None \<Rightarrow> sp_rate_limit p)"

definition collection_ids_of :: "db \<Rightarrow> source \<Rightarrow> connector \<Rightarrow> uuid list" where
  "collection_ids_of d s c =
     remdups_adj (sort_key (\<lambda>i. i) (list_collections_by_source d (so_id s) 100 @ list_collections_by_connector d (cn_id c) 100))"

text \<open>The fetcher and the context of one collection.\<close>

definition collect_fetcher :: "'n runner_lib \<Rightarrow> db \<Rightarrow> source \<Rightarrow> connector \<Rightarrow> guarded_fetcher" where
  "collect_fetcher lib d s c =
     (let policy = policy_from_source lib s
      in \<lparr>gf_guard = \<lparr>sg_source_id = so_id s, sg_policy = policy, sg_rules = list_network_rules d (so_id s)\<rparr>,
          gf_limiter = rate_limit_from_connector lib c policy\<rparr>)"

definition collect_context_of :: "'n runner_lib \<Rightarrow> run_env \<Rightarrow> db \<Rightarrow> source \<Rightarrow> connector \<Rightarrow> connector \<Rightarrow> collect_context" where
  "collect_context_of lib env d s c running =
     \<lparr>cx_source = s, cx_connector = running, cx_collection_ids = collection_ids_of d s c,
      cx_checkpoint = from_value (rl_collect lib) (cn_checkpoint c), cx_now = re_now env\<rparr>"

definition collect_known ::
  "'n runner_lib \<Rightarrow> run_env \<Rightarrow> known_connector_kind \<Rightarrow> source \<Rightarrow> connector \<Rightarrow> collect_outcome runner_op" where
  "collect_known lib env kind s c =
     (let now = re_now env; running = c\<lparr>cn_status := ''running'', cn_last_run := Some now\<rparr>
      in op_bind (store_run_state (cn_id c) (no_update\<lparr>ru_status := Some ''running'', ru_last_run := Some now\<rparr>)) (\<lambda>marked.
         if \<not> marked then op_fail (CollectorStorage NotFound)
         else (\<lambda>w.
           op_bind (run_fetch (kind_collect lib env kind (collect_fetcher lib (ck_db w) s c)
                                 (collect_context_of lib env (ck_db w) s c running))) (\<lambda>collected.
           op_bind (save_checkpoint (rl_collect lib) running (cr_checkpoint collected)) (\<lambda>_.
           finish_collect lib env s c running now collected)) w)))"

text \<open>A transition that the job machine refuses is only logged.\<close>

definition end_job :: "time \<Rightarrow> uuid \<Rightarrow> job_status \<Rightarrow> string option \<Rightarrow> collector \<Rightarrow> collector" where
  "end_job now job_id to err w = w\<lparr>ck_jobs := snd (job_transition now job_id to err (ck_jobs w))\<rparr>"

definition execute_collect ::
  "'n runner_lib \<Rightarrow> run_env \<Rightarrow> known_connector_kind \<Rightarrow> connector \<Rightarrow> uuid \<Rightarrow> collect_outcome runner_op" where
  "execute_collect lib env kind c job_id w =
     (case resolve_source lib env c w of
        (Inl err, w) \<Rightarrow> (Inl err, end_job (re_job_now env) job_id Failed (Some (rl_message lib err)) w)
      | (Inr s, w) \<Rightarrow>
          (case collect_known lib env kind s c w of
             (Inr outcome, w) \<Rightarrow> (Inr outcome, end_job (re_job_now env) job_id Completed None w)
           | (Inl err, w) \<Rightarrow>
               (let message = rl_message lib err;
                    w = end_job (re_job_now env) job_id Failed (Some message) w;
                    w = ignore_error (mark_failure (re_failed_at env) c message) w;
                    w = w\<lparr>ck_connector_errors := ck_connector_errors w + 1, ck_failed_jobs := ck_failed_jobs w + 1\<rparr>;
                    w = ignore_error (publish_raw env (RawFailed (cn_id c) (so_id s) message)) w
                in (Inl err, w))))"

definition run_known ::
  "'n runner_lib \<Rightarrow> run_env \<Rightarrow> uuid \<Rightarrow> known_connector_kind \<Rightarrow> connector \<Rightarrow> collect_outcome runner_op" where
  "run_known lib env job_id kind c w =
     (case create_job (re_job_now env) job_id ''collect'' (Some (cn_id c)) None (ck_jobs w) of
        (Inl e, js) \<Rightarrow> (Inl (CollectorJob e), w\<lparr>ck_jobs := js\<rparr>)
      | (Inr j, js) \<Rightarrow>
          execute_collect lib env kind c job_id
            (w\<lparr>ck_jobs := snd (job_transition (re_job_now env) job_id Running None js)\<rparr>))"

definition run_connector ::
  "'n runner_lib \<Rightarrow> run_env \<Rightarrow> uuid \<Rightarrow> connector \<Rightarrow> collect_outcome runner_op" where
  "run_connector lib env job_id c =
     (if is_import_only_type (cn_type c) then op_return (SkippedUnknownType (cn_type c))
      else case classify_connector_type (cn_type c) of
             Some kind \<Rightarrow> run_known lib env job_id kind c
           | None \<Rightarrow> op_return (SkippedUnknownType (cn_type c)))"

section \<open>What a collection touches\<close>

text \<open>
  The frame of a collection for connector \<open>i\<close>: its own row keeps the operator's fields, no other connector changes,
  sources and jobs are as before, raw evidence is only added.
\<close>

definition touched :: "uuid \<Rightarrow> db \<Rightarrow> db \<Rightarrow> bool" where
  "touched i d d' \<longleftrightarrow> connectors_ok d' \<and> db_jobs d' = db_jobs d \<and> db_sources d' = db_sources d \<and>
     (\<forall>k. k \<noteq> i \<longrightarrow> get_connector d' k = get_connector d k) \<and>
     (\<forall>k r. get_raw_evidence d k = Some r \<longrightarrow> get_raw_evidence d' k = Some r) \<and>
     rel_option same_operator_fields (get_connector d i) (get_connector d' i)"

lemma same_operator_fields_refl [simp]: "same_operator_fields c c"
  by (simp add: same_operator_fields_def)

lemma same_operator_fields_trans:
  "same_operator_fields a b \<Longrightarrow> same_operator_fields b c \<Longrightarrow> same_operator_fields a c"
  by (simp add: same_operator_fields_def)

lemma touched_refl [simp]: "connectors_ok d \<Longrightarrow> touched i d d"
  by (cases "get_connector d i") (auto simp: touched_def)

lemma touched_trans: "touched i a b \<Longrightarrow> touched i b c \<Longrightarrow> touched i a c"
  by (auto simp: touched_def option_rel_Some1 intro: same_operator_fields_trans elim!: option.rel_cases)

text \<open>Replacing the row of a connector.\<close>

abbreviation set_row :: "uuid \<Rightarrow> connector \<Rightarrow> db \<Rightarrow> db" where
  "set_row i c d \<equiv> d\<lparr>db_connectors := tbl_put i c (db_connectors d)\<rparr>"

abbreviation updated :: "run_state_update \<Rightarrow> connector \<Rightarrow> connector" where
  "updated \<equiv> sql_run_state jsonb_concat"

lemma update_row:
  "get_connector d i = Some c \<Longrightarrow> validate_run_state u = Inr () \<Longrightarrow>
   update_connector_run_state i u d = Inr (True, set_row i (updated u c) d)"
  by (simp add: update_connector_run_state_def sql_update_run_state_def)

lemma touched_row:
  assumes "connectors_ok d" "get_connector d i = Some c"
  shows "touched i d (set_row i (updated u c) d)"
proof -
  have c: "cn_id c = i" "cn_source_id c \<in> set (db_source_keys d)" "tbl_keyed cn_id (db_connectors d)"
    using assms by (auto simp: connectors_ok_def get_connector_def dest: tbl_keyedD)
  have "tbl_keyed cn_id (tbl_put i (updated u c) (db_connectors d))"
    using tbl_keyed_put [OF c(3), of "updated u c"] c(1) by simp
  with assms c show ?thesis
    by (auto simp: touched_def connectors_ok_def get_connector_def get_raw_evidence_def)
qed

lemma ck_set_db_sel [simp]:
  "js_store (ck_jobs (ck_set_db d w)) = d" "js_published (ck_jobs (ck_set_db d w)) = js_published (ck_jobs w)"
  "ck_objects (ck_set_db d w) = ck_objects w" "ck_events (ck_set_db d w) = ck_events w"
  by (simp_all add: ck_set_db_def)

lemma store_run_state_run:
  "get_connector (ck_db w) i = Some c \<Longrightarrow> validate_run_state u = Inr () \<Longrightarrow>
   store_run_state i u w = (Inr True, ck_set_db (set_row i (updated u c) (ck_db w)) w)"
  by (simp add: store_run_state_def update_row)

lemma object_updates_valid [simp]:
  "validate_run_state (no_update\<lparr>ru_status := a, ru_last_run := b\<rparr>) = Inr ()"
  "validate_run_state (no_update\<lparr>ru_checkpoint := CpMerge (JObject kvs)\<rparr>) = Inr ()"
  "validate_run_state (no_update\<lparr>ru_status := a, ru_last_run := b, ru_error_count := e, ru_checkpoint := CpMerge (JObject kvs)\<rparr>) = Inr ()"
  "validate_run_state \<lparr>ru_status = a, ru_last_run = b, ru_last_success = e, ru_error_count = f, ru_checkpoint = CpMerge (JObject kvs)\<rparr> = Inr ()"
  "validate_run_state \<lparr>ru_status = a, ru_last_run = b, ru_last_success = e, ru_error_count = f, ru_checkpoint = CpUnchanged\<rparr> = Inr ()"
  by (simp_all add: validate_run_state_def no_update_def rguard_def)

section \<open>Operations that stay inside the frame\<close>

text \<open>Before a failure is marked, the count of failures is the old one, or it was reset.\<close>

definition counted :: "uuid \<Rightarrow> db \<Rightarrow> db \<Rightarrow> bool" where
  "counted i d d' \<longleftrightarrow> (\<forall>row. get_connector d i = Some row \<longrightarrow>
     (\<exists>row'. get_connector d' i = Some row' \<and> (cn_error_count row' = cn_error_count row \<or> cn_error_count row' = 0)))"

lemma counted_refl [simp]: "counted i d d"
  by (simp add: counted_def)

lemma counted_trans: "counted i a b \<Longrightarrow> counted i b c \<Longrightarrow> counted i a c"
  unfolding counted_def by metis

definition framed :: "uuid \<Rightarrow> 'a runner_op \<Rightarrow> bool" where
  "framed i m \<longleftrightarrow> (\<forall>w r w'. connectors_ok (ck_db w) \<longrightarrow> get_connector (ck_db w) i \<noteq> None \<longrightarrow> m w = (r, w') \<longrightarrow>
     touched i (ck_db w) (ck_db w') \<and> counted i (ck_db w) (ck_db w') \<and>
     js_published (ck_jobs w') = js_published (ck_jobs w))"

lemma framedD:
  assumes "framed i m" "connectors_ok (ck_db w)" "get_connector (ck_db w) i \<noteq> None" "m w = (r, w')"
  shows "touched i (ck_db w) (ck_db w')" "js_published (ck_jobs w') = js_published (ck_jobs w)"
    "connectors_ok (ck_db w')" "get_connector (ck_db w') i \<noteq> None" "counted i (ck_db w) (ck_db w')"
proof -
  from assms show t: "touched i (ck_db w) (ck_db w')" and "counted i (ck_db w) (ck_db w')" and "js_published (ck_jobs w') = js_published (ck_jobs w)"
    unfolding framed_def by blast+
  from t show "connectors_ok (ck_db w')" by (simp add: touched_def)
  from t assms(3) show "get_connector (ck_db w') i \<noteq> None"
    unfolding touched_def by (cases "get_connector (ck_db w) i"; cases "get_connector (ck_db w') i") simp_all
qed

lemma framed_return [simp, intro]: "framed i (op_return x)" "framed i (op_fail e)"
  by (auto simp: framed_def)

lemma framed_bind [intro]:
  assumes m: "framed i m" and k: "\<And>x. framed i (k x)"
  shows "framed i (op_bind m k)"
  unfolding framed_def
proof (intro allI impI)
  fix w r w'
  assume w: "connectors_ok (ck_db w)" "get_connector (ck_db w) i \<noteq> None" and run: "op_bind m k w = (r, w')"
  obtain x v where mx: "m w = (x, v)" by fastforce
  note first = framedD [OF m w mx]
  show "touched i (ck_db w) (ck_db w') \<and> counted i (ck_db w) (ck_db w') \<and>
      js_published (ck_jobs w') = js_published (ck_jobs w)"
  proof (cases x)
    case (Inl e)
    with run mx first show ?thesis by (auto simp: op_bind_def)
  next
    case (Inr y)
    with run mx have "k y v = (r, w')" by (simp add: op_bind_def)
    from framedD [OF k first(3,4) this] first show ?thesis by (auto intro: touched_trans counted_trans)
  qed
qed

lemma framed_same_db: "(\<And>w r w'. m w = (r, w') \<Longrightarrow> ck_jobs w' = ck_jobs w) \<Longrightarrow> framed i m"
  by (auto simp: framed_def)

lemma counted_row:
  "get_connector d i = Some c \<Longrightarrow> ru_error_count u = None \<or> ru_error_count u = Some 0 \<Longrightarrow>
   counted i d (set_row i (updated u c) d)"
  by (auto simp: counted_def get_connector_def sql_run_state_def coalesce_def)

lemma framed_store_run_state:
  "validate_run_state u = Inr () \<Longrightarrow> ru_error_count u = None \<or> ru_error_count u = Some 0 \<Longrightarrow> framed i (store_run_state i u)"
  by (auto simp: framed_def store_run_state_run touched_row counted_row)

lemma no_update_count [simp]:
  "ru_error_count (no_update\<lparr>ru_status := a, ru_last_run := b\<rparr>) = None"
  "ru_error_count (no_update\<lparr>ru_checkpoint := e\<rparr>) = None"
  by (simp_all add: no_update_def)

lemma framed_mark_success: "framed i (mark_success lib c now ev)" if "cn_id c = i"
  using that by (cases ev) (auto simp: mark_success_def Let_def intro!: framed_bind framed_store_run_state)

lemma to_value_object: "\<exists>kvs. to_value lib c = JObject kvs"
  by (simp add: to_value_def)

lemma framed_save_checkpoint: "framed i (save_checkpoint lib c cp)" if "cn_id c = i"
proof -
  obtain kvs where "to_value lib cp = JObject kvs" using to_value_object by blast
  with that show ?thesis
    by (auto simp: framed_def save_checkpoint_def update_row touched_row counted_row)
qed

lemma insert_raw_evidence_touched:
  assumes "connectors_ok d" "insert_raw_evidence r ids d = Inr d'"
  shows "touched i d d' \<and> get_raw_evidence d' (rv_id r) = Some r"
proof -
  have d': "d' = d\<lparr>db_raw_evidence := tbl_put (rv_id r) r (db_raw_evidence d),
      db_raw_evidence_collections := fold (\<lambda>c. add_link (c, rv_id r)) ids (db_raw_evidence_collections d)\<rparr>"
    and new: "rv_id r \<notin> fst ` set (db_raw_evidence d)"
    using assms(2) by (auto simp: insert_raw_evidence_def split: if_splits)
  then have "get_raw_evidence d (rv_id r) = None"
    by (auto simp: get_raw_evidence_def tbl_get_def map_of_eq_None_iff)
  with assms(1) show ?thesis
    by (cases "get_connector d i")
      (auto simp: d' touched_def connectors_ok_def get_connector_def get_raw_evidence_def)
qed

lemma insert_raw_evidence_connectors:
  "insert_raw_evidence r ids d = Inr d' \<Longrightarrow> get_connector d' i = get_connector d i"
  by (auto simp: insert_raw_evidence_def get_connector_def split: if_splits)

lemma framed_persist: "framed i (persist lib env e)"
  by (auto simp: framed_def persist_def Let_def insert_raw_evidence_touched counted_def
      insert_raw_evidence_connectors split: sum.splits if_splits)

lemma framed_run_fetch: "framed i (run_fetch m)"
  by (rule framed_same_db) (auto simp: run_fetch_def split: prod.splits)

lemma framed_publish_raw: "framed i (publish_raw env ev)"
  by (rule framed_same_db) (auto simp: publish_raw_def split: if_splits)

lemma framed_count: "framed i (\<lambda>w. (Inr (), w\<lparr>ck_collected := f w, ck_raw_bytes := g w\<rparr>))"
  by (rule framed_same_db) auto

lemma framed_finish_collect: "framed i (finish_collect lib env s c running now collected)" if "cn_id running = i"
  using that
  by (auto simp: finish_collect_def framed_mark_success framed_persist framed_count framed_publish_raw
      intro!: framed_bind split: option.split)

lemma framed_state: "(\<And>w. framed i (m w)) \<Longrightarrow> framed i (\<lambda>w. m w w)"
  unfolding framed_def by blast

lemma framed_collect_known:
  assumes i: "cn_id c = i"
  shows "framed i (collect_known lib env kind s c)"
proof -
  let ?running = "c\<lparr>cn_status := ''running'', cn_last_run := Some (re_now env)\<rparr>"
  have run: "framed i (op_bind (run_fetch m) (\<lambda>collected.
      op_bind (save_checkpoint l ?running (cr_checkpoint collected)) (\<lambda>_. finish_collect lib env s c ?running now collected)))"
    for m l now
    using i by (intro framed_bind framed_run_fetch framed_save_checkpoint framed_finish_collect) simp_all
  have "framed i (if \<not> marked then op_fail e else (\<lambda>w. op_bind (run_fetch (m w)) (\<lambda>collected.
      op_bind (save_checkpoint l ?running (cr_checkpoint collected)) (\<lambda>_. finish_collect lib env s c ?running now collected)) w))"
    for marked e m l now
    by (cases marked) (simp_all add: framed_return framed_state [OF run])
  note rest = this
  show ?thesis
    unfolding collect_known_def Let_def i
    by (rule framed_bind, rule framed_store_run_state, simp, simp, rule rest)
qed

section \<open>How a collection ends\<close>

definition idle_row :: "time \<Rightarrow> connector \<Rightarrow> bool" where
  "idle_row now c \<longleftrightarrow> cn_status c = ''idle'' \<and> cn_error_count c = 0 \<and> cn_last_run c = Some now \<and> cn_last_success c = Some now"

lemma mark_success_post:
  assumes "cn_id c = i" "get_connector (ck_db w) i = Some row" "mark_success lib c now ev w = (r, w')"
  shows "r = Inr () \<and> (\<exists>row'. w' = ck_set_db (set_row i row' (ck_db w)) w \<and> idle_row now row')"
proof -
  have *: "mark_success lib c now ev w = (Inr (), ck_set_db (set_row i (updated u row) (ck_db w)) w)"
    if "u = \<lparr>ru_status = Some ''idle'', ru_last_run = Some now, ru_last_success = Some now, ru_error_count = Some 0,
      ru_checkpoint = (case ev of Some e \<Rightarrow> CpMerge (JObject [(''last_raw_evidence_id'',
        JString (nl_show_uuid (co_net (rl_collect lib)) (rv_id e)))]) | None \<Rightarrow> CpUnchanged)\<rparr>" for u
    using assms(1,2) that by (cases ev) (simp_all add: mark_success_def op_bind_def store_run_state_run)
  from * [OF refl] assms(3) show ?thesis
    by (auto simp: idle_row_def sql_run_state_def coalesce_def)
qed

lemma mark_failure_post:
  assumes "cn_id c = i" "get_connector (ck_db w) i = Some row"
  shows "\<exists>row'. ignore_error (mark_failure t c message) w = ck_set_db (set_row i row' (ck_db w)) w \<and>
    (\<exists>u. row' = updated u row) \<and> cn_status row' = ''error'' \<and> cn_last_run row' = Some t \<and>
    cn_error_count row' = i32_succ (cn_error_count row)"
proof -
  let ?u = "no_update\<lparr>ru_status := Some ''error'', ru_last_run := Some t,
    ru_error_count := Some (i32_succ (cn_error_count row)), ru_checkpoint := CpMerge (JObject [(''last_error'', JString message)])\<rparr>"
  have "ignore_error (mark_failure t c message) w = ck_set_db (set_row i (updated ?u row) (ck_db w)) w"
    using assms by (simp add: ignore_error_def mark_failure_def op_bind_def store_run_state_run)
  moreover have "cn_status (updated ?u row) = ''error'' \<and> cn_last_run (updated ?u row) = Some t \<and>
    cn_error_count (updated ?u row) = i32_succ (cn_error_count row)"
    by (simp add: sql_run_state_def coalesce_def no_update_def)
  ultimately show ?thesis by blast
qed

text \<open>What the store, the object store and the broker hold after a successful collection.\<close>

definition collection_stored :: "'n runner_lib \<Rightarrow> run_env \<Rightarrow> source \<Rightarrow> connector \<Rightarrow> collector \<Rightarrow> uuid \<Rightarrow> collector \<Rightarrow> bool" where
  "collection_stored lib env s c w i w' \<longleftrightarrow>
     (\<exists>r body. i = re_evidence_id env \<and> get_raw_evidence (ck_db w) i = None \<and> get_raw_evidence (ck_db w') i = Some r \<and>
        rv_source_id r = so_id s \<and> rv_connector_id r = cn_id c \<and> rv_retrieved_at r = re_now env \<and>
        rv_sha256 r = co_sha256_hex (rl_collect lib) body \<and>
        ck_objects w' = (ck_objects w)(rv_storage_path r \<mapsto> body) \<and>
        ck_events w' = ck_events w @ [RawCollected i (so_id s) (cn_id c) (rv_sha256 r)])"

definition collection_end :: "'n runner_lib \<Rightarrow> run_env \<Rightarrow> source \<Rightarrow> connector \<Rightarrow> collector \<Rightarrow> collect_outcome \<Rightarrow> collector \<Rightarrow> bool" where
  "collection_end lib env s c w out w' \<longleftrightarrow>
     (case out of
        Collected i \<Rightarrow> collection_stored lib env s c w i w'
      | Unchanged \<Rightarrow> ck_objects w' = ck_objects w \<and> ck_events w' = ck_events w \<and> db_raw_evidence (ck_db w') = db_raw_evidence (ck_db w)
      | _ \<Rightarrow> False)"

lemma finish_collect_post:
  assumes run: "finish_collect lib env s c running now collected w = (Inr out, w')"
    and i: "cn_id running = i" "cn_id c = i" and w: "connectors_ok (ck_db w)" "get_connector (ck_db w) i \<noteq> None"
    and ev: "\<And>e. cr_evidence collected = Some e \<Longrightarrow> ne_source_id e = so_id s \<and> ne_connector_id e = i \<and> ne_retrieved_at e = re_now env"
  shows "(\<exists>row. get_connector (ck_db w') i = Some row \<and> idle_row now row) \<and> collection_end lib env s c w out w'"
proof (cases "cr_fetched collected")
  case False
  from w(2) obtain row where row: "get_connector (ck_db w) i = Some row" by blast
  obtain r v where m: "mark_success lib running now None w = (r, v)" by fastforce
  from mark_success_post [OF i(1) row m] run m False show ?thesis
    by (auto simp: finish_collect_def op_bind_def collection_end_def get_connector_def)
next
  case True
  with run obtain e where e: "cr_evidence collected = Some e"
    by (auto simp: finish_collect_def split: option.splits)
  obtain x v where p: "persist (rl_collect lib) env e w = (x, v)" by fastforce
  with run True e obtain stored where x: "x = Inr stored"
    by (cases x) (auto simp: finish_collect_def op_bind_def)
  let ?r = "evidence_record (rl_collect lib) (re_evidence_id env) e"
  from p x obtain d where d: "insert_raw_evidence ?r (ne_collection_ids e) (ck_db w) = Inr d" "stored = ?r"
    "v = ck_set_db d (w\<lparr>ck_objects := (ck_objects w)(rv_storage_path ?r \<mapsto> ne_body e)\<rparr>)"
    by (auto simp: persist_def Let_def split: if_splits sum.splits)
  have new: "get_raw_evidence (ck_db w) (re_evidence_id env) = None"
    using d(1) by (auto simp: insert_raw_evidence_def evidence_record_def get_raw_evidence_def tbl_get_def
        map_of_eq_None_iff split: if_splits)
  have "get_connector (ck_db v) i = get_connector (ck_db w) i"
    using insert_raw_evidence_connectors [OF d(1)] by (simp add: d(3))
  with w(2) obtain row where row: "get_connector (ck_db v) i = Some row" by force
  obtain y u where ms: "mark_success lib running now (Some stored) v = (y, u)" by fastforce
  from mark_success_post [OF i(1) row ms] obtain row' where u: "y = Inr ()"
    "u = ck_set_db (set_row i row' (ck_db v)) v" "idle_row now row'" by blast
  let ?ev = "RawCollected (rv_id stored) (rv_source_id stored) (rv_connector_id stored) (rv_sha256 stored)"
  from run True e p x ms u(1) have pub: "re_publish_ok env ?ev" "out = Collected (rv_id stored)"
    "w' = u\<lparr>ck_collected := ck_collected u + 1, ck_raw_bytes := ck_raw_bytes u + length (ne_body e), ck_events := ck_events u @ [?ev]\<rparr>"
    by (auto simp: finish_collect_def op_bind_def publish_raw_def split: if_splits)
  have stored: "get_raw_evidence (ck_db w') (re_evidence_id env) = Some ?r"
    using insert_raw_evidence_touched [OF w(1) d(1)]
    by (simp add: pub(3) u(2) d(3) get_raw_evidence_def evidence_record_def)
  have row': "get_connector (ck_db w') i = Some row'"
    by (simp add: pub(3) u(2) get_connector_def)
  have "ck_objects w' = (ck_objects w)(rv_storage_path ?r \<mapsto> ne_body e)"
    "ck_events w' = ck_events w @ [?ev]"
    by (simp_all add: pub(3) u(2) d(3))
  with stored new ev [OF e] have "collection_stored lib env s c w (rv_id stored) w'"
    unfolding collection_stored_def d(2)
    by (intro exI [of _ ?r] exI [of _ "ne_body e"]) (simp add: evidence_record_def i(2))
  with row' u(3) show ?thesis by (auto simp: collection_end_def pub(2))
qed

lemma kind_collect_contract:
  assumes "kind_collect lib env kind f cx s = (Inr r, s')" "cr_evidence r = Some e"
  shows "ne_source_id e = so_id (cx_source cx) \<and> ne_connector_id e = cn_id (cx_connector cx) \<and> ne_retrieved_at e = cx_now cx"
proof (cases kind)
  case RssOrAtom
  with assms(1) have "rss_collect (rl_collect lib) f (re_hops env 0) cx s = (Inr r, s')"
    by (simp add: kind_collect_def)
  from rss.evidence_context [OF this assms(2)] show ?thesis by simp
next
  case StaticWeb
  with assms(1) have "web_collect (rl_collect lib) f (re_hops env 0) cx s = (Inr r, s')"
    by (simp add: kind_collect_def)
  from web.evidence_context [OF this assms(2)] show ?thesis by simp
next
  case RestApi
  with assms(1) have "rest_collect (rl_collect lib) (re_env_vars env) (re_files env) f (re_hops env) cx s = (Inr r, s')"
    by (simp add: kind_collect_def)
  from rest.evidence_context [OF this assms(2)] show ?thesis by simp
qed

text \<open>Steps that leave evidence, objects and events alone.\<close>

definition quiet :: "collector \<Rightarrow> collector \<Rightarrow> bool" where
  "quiet w w' \<longleftrightarrow> ck_objects w' = ck_objects w \<and> ck_events w' = ck_events w \<and>
     db_raw_evidence (ck_db w') = db_raw_evidence (ck_db w)"

lemma quiet_trans: "quiet a b \<Longrightarrow> quiet b c \<Longrightarrow> quiet a c"
  by (simp add: quiet_def)

lemma quiet_run_state: "store_run_state i u w = (r, w') \<Longrightarrow> quiet w w'"
  by (auto simp: quiet_def store_run_state_def update_connector_run_state_def sql_update_run_state_def rbind_def
      split: sum.splits option.splits prod.splits)

lemma quiet_save_checkpoint: "save_checkpoint lib c cp w = (r, w') \<Longrightarrow> quiet w w'"
  by (auto simp: quiet_def save_checkpoint_def update_connector_run_state_def sql_update_run_state_def rbind_def
      split: sum.splits option.splits prod.splits if_splits)

lemma quiet_run_fetch: "run_fetch m w = (r, w') \<Longrightarrow> quiet w w'"
  by (auto simp: quiet_def run_fetch_def split: prod.splits)

lemma op_bind_Inr:
  "op_bind m k w = (Inr y, w') \<Longrightarrow> \<exists>x v. m w = (Inr x, v) \<and> k x v = (Inr y, w')"
  by (auto simp: op_bind_def split: prod.splits sum.splits)

lemma collect_known_post:
  assumes run: "collect_known lib env kind s c w = (Inr out, w')"
    and i: "cn_id c = i" and w: "connectors_ok (ck_db w)" "get_connector (ck_db w) i \<noteq> None"
  shows "(\<exists>row. get_connector (ck_db w') i = Some row \<and> idle_row (re_now env) row) \<and> collection_end lib env s c w out w'"
proof -
  let ?running = "c\<lparr>cn_status := ''running'', cn_last_run := Some (re_now env)\<rparr>"
  let ?u = "no_update\<lparr>ru_status := Some ''running'', ru_last_run := Some (re_now env)\<rparr>"
  from op_bind_Inr [OF run [unfolded collect_known_def Let_def]] obtain marked w1 where
    a: "store_run_state (cn_id c) ?u w = (Inr marked, w1)" and rest1: "(if \<not> marked then op_fail (CollectorStorage NotFound)
      else (\<lambda>w. (op_bind (run_fetch (kind_collect lib env kind (collect_fetcher lib (ck_db w) s c)
          (collect_context_of lib env (ck_db w) s c ?running))) (\<lambda>collected.
        op_bind (save_checkpoint (rl_collect lib) ?running (cr_checkpoint collected)) (\<lambda>_.
        finish_collect lib env s c ?running (re_now env) collected))) w)) w1 = (Inr out, w')"
    by blast
  have "marked" using rest1 by (cases marked) simp_all
  with rest1 obtain f cx where cx: "cx_source cx = s" "cx_connector cx = ?running" "cx_now cx = re_now env"
    and rest2: "op_bind (run_fetch (kind_collect lib env kind f cx)) (\<lambda>collected.
        op_bind (save_checkpoint (rl_collect lib) ?running (cr_checkpoint collected)) (\<lambda>_.
        finish_collect lib env s c ?running (re_now env) collected)) w1 = (Inr out, w')"
    by (force simp: collect_context_of_def)
  from op_bind_Inr [OF rest2] obtain collected w2 where
    b: "run_fetch (kind_collect lib env kind f cx) w1 = (Inr collected, w2)" and
    rest3: "op_bind (save_checkpoint (rl_collect lib) ?running (cr_checkpoint collected)) (\<lambda>_.
        finish_collect lib env s c ?running (re_now env) collected) w2 = (Inr out, w')" by blast
  from op_bind_Inr [OF rest3] obtain x w3 where
    d: "save_checkpoint (rl_collect lib) ?running (cr_checkpoint collected) w2 = (Inr x, w3)" and
    fin: "finish_collect lib env s c ?running (re_now env) collected w3 = (Inr out, w')" by blast
  note f1 = framedD [OF framed_store_run_state [of ?u i] w a [unfolded i], simplified]
  note f2 = framedD [OF framed_run_fetch [of i] f1(3) f1(4) [unfolded not_None_eq [symmetric]] b]
  note f3 = framedD [OF framed_save_checkpoint [of ?running i] f2(3,4) d, simplified i, simplified]
  have "quiet w w3"
    using quiet_run_state [OF a] quiet_run_fetch [OF b] quiet_save_checkpoint [OF d] quiet_trans by blast
  moreover have "ne_source_id e = so_id s \<and> ne_connector_id e = i \<and> ne_retrieved_at e = re_now env"
    if "cr_evidence collected = Some e" for e
  proof -
    from b obtain st st' where "kind_collect lib env kind f cx st = (Inr collected, st')"
      by (auto simp: run_fetch_def split: prod.splits sum.splits)
    from kind_collect_contract [OF this that] cx i show ?thesis by simp
  qed
  ultimately show ?thesis
    using finish_collect_post [OF fin _ i f3(3)] f3(4) i
    by (auto simp: quiet_def collection_end_def collection_stored_def get_raw_evidence_def split: collect_outcome.splits)
qed

lemma end_job_run:
  assumes "job_store_ok (ck_db w)" "get_job (ck_db w) j = Some jb" "j_status jb = Running" "to = Completed \<or> to = Failed"
  shows "\<exists>jb'. end_job now j to err w = ck_set_db ((ck_db w)\<lparr>db_jobs := tbl_put j jb' (db_jobs (ck_db w))\<rparr>) w \<and>
    j_status jb' = to \<and> j_error jb' = (if to = Failed then err else None)"
proof -
  have id: "j_id jb = j" using assms(1,2) by (auto dest: job_store_okD)
  obtain jb' where jb': "apply_transition now jb to err = Inr jb'" "j_status jb' = to"
    "j_error jb' = (if to = Failed then err else None)" "j_id jb' = j"
    using assms(3,4) id by (auto simp: apply_transition_def)
  have "end_job now j to err w = ck_set_db ((ck_db w)\<lparr>db_jobs := tbl_put j jb' (db_jobs (ck_db w))\<rparr>) w"
    using assms(2) jb' by (simp add: end_job_def job_transition_cases js_put_job_def put_job_def ck_set_db_def)
  with jb' show ?thesis by blast
qed

lemma get_connector_jobs [simp]: "get_connector (d\<lparr>db_jobs := t\<rparr>) k = get_connector d k"
  by (simp add: get_connector_def)

lemma connectors_ok_jobs [simp]: "connectors_ok (d\<lparr>db_jobs := t\<rparr>) = connectors_ok d"
  by (simp add: connectors_ok_def get_connector_def)

lemma get_job_row [simp]: "get_job (set_row i c d) k = get_job d k"
  by (simp add: get_job_def)

text \<open>The frame of a finished collection, with its job.\<close>

definition collection_frame :: "uuid \<Rightarrow> uuid \<Rightarrow> db \<Rightarrow> db \<Rightarrow> bool" where
  "collection_frame i j d d' \<longleftrightarrow> connectors_ok d' \<and> (\<forall>k. k \<noteq> i \<longrightarrow> get_connector d' k = get_connector d k) \<and>
     (\<forall>k. k \<noteq> j \<longrightarrow> get_job d' k = get_job d k) \<and>
     rel_option same_operator_fields (get_connector d i) (get_connector d' i)"

lemma touched_frame:
  "touched i d d' \<Longrightarrow> collection_frame i j d (d'\<lparr>db_jobs := tbl_put j jb (db_jobs d')\<rparr>)"
  by (auto simp: touched_def collection_frame_def get_job_def)

lemma collection_frame_row:
  assumes "collection_frame i j d d'" "get_connector d' i = Some row"
  shows "collection_frame i j d (set_row i (updated u row) d')"
proof -
  have "connectors_ok d'" using assms(1) by (simp add: collection_frame_def)
  note t = touched_row [OF this assms(2), of u]
  have new: "get_connector (set_row i (updated u row) d') i = Some (updated u row)"
    by (simp add: get_connector_def)
  from t new assms(2) have "same_operator_fields row (updated u row)" by (simp add: touched_def)
  with assms t new show ?thesis
    unfolding collection_frame_def touched_def
    by (cases "get_connector d i") (auto simp: get_job_def intro: same_operator_fields_trans)
qed

text \<open>A failed collection: the row and the job afterwards.\<close>

definition failed_end :: "'n runner_lib \<Rightarrow> run_env \<Rightarrow> uuid \<Rightarrow> uuid \<Rightarrow> connector \<Rightarrow> collector_error \<Rightarrow> db \<Rightarrow> bool" where
  "failed_end lib env i j row e d \<longleftrightarrow>
     (\<exists>row' jb. get_connector d i = Some row' \<and> get_job d j = Some jb \<and>
        cn_status row' = ''error'' \<and> cn_last_run row' = Some (re_failed_at env) \<and>
        (cn_error_count row' = i32_succ (cn_error_count row) \<or> cn_error_count row' = 1) \<and>
        j_status jb = Failed \<and> j_error jb = Some (rl_message lib e))"

lemma fail_run:
  assumes "touched i (ck_db w) (ck_db v)" "counted i (ck_db w) (ck_db v)" "job_store_ok (ck_db v)"
    and "get_job (ck_db v) j = Some jb" "j_status jb = Running" "cn_id c = i" "get_connector (ck_db w) i = Some row"
  shows "let w1 = ignore_error (mark_failure (re_failed_at env) c (rl_message lib e))
           (end_job now j Failed (Some (rl_message lib e)) v)
         in failed_end lib env i j row e (ck_db w1) \<and> collection_frame i j (ck_db w) (ck_db w1)"
proof -
  from end_job_run [OF assms(3-5), of Failed now "Some (rl_message lib e)"] obtain jb' where
    j: "end_job now j Failed (Some (rl_message lib e)) v = ck_set_db ((ck_db v)\<lparr>db_jobs := tbl_put j jb' (db_jobs (ck_db v))\<rparr>) v"
    "j_status jb' = Failed" "j_error jb' = Some (rl_message lib e)" by auto
  let ?v = "end_job now j Failed (Some (rl_message lib e)) v"
  from assms(2,7) obtain mid where mid: "get_connector (ck_db v) i = Some mid"
    "cn_error_count mid = cn_error_count row \<or> cn_error_count mid = 0" by (auto simp: counted_def)
  then have "get_connector (ck_db ?v) i = Some mid" by (simp add: j(1))
  from mark_failure_post [OF assms(6) this, of "re_failed_at env" "rl_message lib e"] obtain row' u where
    m: "ignore_error (mark_failure (re_failed_at env) c (rl_message lib e)) ?v = ck_set_db (set_row i row' (ck_db ?v)) ?v"
    "row' = updated u mid" "cn_status row' = ''error''" "cn_last_run row' = Some (re_failed_at env)"
    "cn_error_count row' = i32_succ (cn_error_count mid)" by blast
  have "collection_frame i j (ck_db w) (ck_db ?v)" unfolding j(1) using touched_frame [OF assms(1)] by simp
  from collection_frame_row [OF this \<open>get_connector (ck_db ?v) i = Some mid\<close>, of u]
  have "collection_frame i j (ck_db w) (set_row i row' (ck_db ?v))" by (simp add: m(2))
  moreover have "failed_end lib env i j row e (set_row i row' (ck_db ?v))"
    using m(3-5) mid(2) j(2,3)
    by (auto simp: failed_end_def get_connector_def get_job_def j(1) i32_succ_def)
  ultimately show ?thesis by (simp add: m(1))
qed

lemma execute_collect_run:
  assumes ok: "connectors_ok (ck_db w)" "job_store_ok (ck_db w)"
    and row: "get_connector (ck_db w) (cn_id c) = Some row"
    and job: "get_job (ck_db w) j = Some jb" "j_status jb = Running"
    and run: "execute_collect lib env kind c j w = (r, w')"
  shows "collection_frame (cn_id c) j (ck_db w) (ck_db w') \<and>
    (case r of
       Inr out \<Rightarrow> (\<exists>s row' jb'. get_source (ck_db w) (cn_source_id c) = Some s \<and>
          get_connector (ck_db w') (cn_id c) = Some row' \<and> idle_row (re_now env) row' \<and>
          get_job (ck_db w') j = Some jb' \<and> j_status jb' = Completed \<and>
          collection_end lib env s c w out w')
     | Inl e \<Rightarrow> failed_end lib env (cn_id c) j row e (ck_db w'))"
proof (cases "get_source (ck_db w) (cn_source_id c)")
  case None
  let ?e = "SourceMissing (cn_source_id c)"
  from mark_failure_post [OF refl row, of "re_failed_at env" "rl_message lib ?e"] obtain row' u where
    m: "ignore_error (mark_failure (re_failed_at env) c (rl_message lib ?e)) w = ck_set_db (set_row (cn_id c) row' (ck_db w)) w"
    "row' = updated u row" "cn_status row' = ''error''" "cn_last_run row' = Some (re_failed_at env)"
    "cn_error_count row' = i32_succ (cn_error_count row)" by blast
  let ?v = "ck_set_db (set_row (cn_id c) row' (ck_db w)) w"
  have js: "job_store_ok (ck_db ?v)" "get_job (ck_db ?v) j = Some jb"
    using ok(2) job by (simp_all add: job_store_ok_def get_job_def)
  from end_job_run [OF this job(2), of Failed "re_job_now env" "Some (rl_message lib ?e)"] obtain jb' where
    e: "end_job (re_job_now env) j Failed (Some (rl_message lib ?e)) ?v =
      ck_set_db ((ck_db ?v)\<lparr>db_jobs := tbl_put j jb' (db_jobs (ck_db ?v))\<rparr>) ?v"
    "j_status jb' = Failed" "j_error jb' = Some (rl_message lib ?e)" by auto
  from run None have "r = Inl ?e" "w' = end_job (re_job_now env) j Failed (Some (rl_message lib ?e)) ?v"
    by (auto simp: execute_collect_def resolve_source_def Let_def m(1))
  then have rw: "r = Inl ?e" "w' = ck_set_db ((ck_db ?v)\<lparr>db_jobs := tbl_put j jb' (db_jobs (ck_db ?v))\<rparr>) ?v"
    by (simp_all only: e(1))
  have "touched (cn_id c) (ck_db w) (ck_db ?v)" using touched_row [OF ok(1) row, of u] by (simp add: m(2))
  from touched_frame [OF this, of j jb'] m(3-5) e(2,3) show ?thesis
    by (auto simp: rw failed_end_def get_connector_def get_job_def)
next
  case (Some s)
  obtain x v where known: "collect_known lib env kind s c w = (x, v)" by fastforce
  note f = framedD [OF framed_collect_known [OF refl] ok(1) _ known, unfolded row, simplified]
  have jobs: "db_jobs (ck_db v) = db_jobs (ck_db w)" using f(1) by (simp add: touched_def)
  then have jv: "job_store_ok (ck_db v)" "get_job (ck_db v) j = Some jb"
    using ok(2) job(1) by (simp_all add: job_store_ok_def get_job_def)
  show ?thesis
  proof (cases x)
    case (Inl e)
    let ?w1 = "ignore_error (mark_failure (re_failed_at env) c (rl_message lib e))
      (end_job (re_job_now env) j Failed (Some (rl_message lib e)) v)"
    have "r = Inl e" "ck_jobs w' = ck_jobs ?w1"
      using run Some known Inl
      by (auto simp: execute_collect_def resolve_source_def Let_def ignore_error_def publish_raw_def split: if_splits)
    with fail_run [OF f(1) f(5) jv job(2) refl row, of env lib e "re_job_now env"] show ?thesis
      by (simp add: Let_def)
  next
    case (Inr out)
    from end_job_run [OF jv job(2), of Completed "re_job_now env" None] obtain jb' where
      e: "end_job (re_job_now env) j Completed None v = ck_set_db ((ck_db v)\<lparr>db_jobs := tbl_put j jb' (db_jobs (ck_db v))\<rparr>) v"
      "j_status jb' = Completed" by auto
    from run Some known Inr have rw: "r = Inr out" "w' = ck_set_db ((ck_db v)\<lparr>db_jobs := tbl_put j jb' (db_jobs (ck_db v))\<rparr>) v"
      by (auto simp: execute_collect_def resolve_source_def e(1))
    have "get_connector (ck_db w) (cn_id c) \<noteq> None" by (simp add: row)
    from collect_known_post [OF known [unfolded Inr] refl ok(1) this]
    have "\<exists>row'. get_connector (ck_db w') (cn_id c) = Some row' \<and> idle_row (re_now env) row'"
      "collection_end lib env s c w out w'"
      by (auto simp: rw collection_end_def collection_stored_def get_raw_evidence_def split: collect_outcome.splits)
    moreover have "get_job (ck_db w') j = Some jb'" by (simp add: rw get_job_def)
    ultimately show ?thesis
      using touched_frame [OF f(1), of j jb'] e(2) Some by (auto simp: rw(1)) (simp add: rw(2))
  qed
qed


section \<open>What a failed write leaves behind\<close>

lemma web_collect_digest:
  assumes "web_collect lib f env cx s = (Inr r, s')" "cr_evidence r = Some e"
  shows "cp_content_sha256 (cr_checkpoint r) = Some (co_sha256_hex lib (ne_body e))"
  using assms
  by (auto simp: web_collect_def Let_def op_bind_def unchanged_def evidence_of_fetch_def split: sum.splits prod.splits if_splits)

lemma web_collect_known_digest:
  assumes "page_url lib (cx_source cx) (cx_connector cx) = Inr u"
    and "fetch_get (co_net lib) f env u (conditional_headers (cx_checkpoint cx)) s = (Inr r, s')"
    and "cp_content_sha256 (cx_checkpoint cx) = Some (co_sha256_hex lib (fr_body r))"
  shows "\<exists>cp. web_collect lib f env cx s = (Inr (unchanged cp), s')"
  using assms by (auto simp: web_collect_def op_bind_def Let_def)

lemma run_fetch_db:
  assumes "run_fetch m w = (r, v)" "ck_audit w' = ck_audit w" "ck_sent w' = ck_sent w" "ck_objects w' = ck_objects w"
    "ck_events w' = ck_events w"
  shows "\<exists>v'. run_fetch m w' = (r, v') \<and> ck_jobs v' = ck_jobs w' \<and> ck_objects v' = ck_objects w \<and> ck_events v' = ck_events w"
  using assms by (auto simp: run_fetch_def split: prod.splits)

lemma collect_inputs_row [simp]:
  "collect_fetcher lib (set_row i x d) s c = collect_fetcher lib d s c"
  "collect_context_of lib env (set_row i x d) s c = collect_context_of lib env d s c"
  by (auto simp: collect_fetcher_def collect_context_of_def collection_ids_of_def list_network_rules_def
      list_collections_by_source_def list_collections_by_connector_def)

lemma save_checkpoint_run:
  assumes "get_connector (ck_db w) (cn_id c) = Some row"
  shows "save_checkpoint lib c cp w = (Inr (), ck_set_db (set_row (cn_id c)
     (updated (no_update\<lparr>ru_checkpoint := CpMerge (to_value lib cp)\<rparr>) row) (ck_db w)) w)"
proof -
  obtain kvs where "to_value lib cp = JObject kvs" using to_value_object by blast
  with assms show ?thesis by (simp add: save_checkpoint_def update_row)
qed

lemma failed_persist:
  assumes row: "get_connector (ck_db w) (cn_id c) = Some row"
    and fetch: "run_fetch (kind_collect lib env kind (collect_fetcher lib (ck_db w) s c) (collect_context_of lib env (ck_db w) s c
        (c\<lparr>cn_status := ''running'', cn_last_run := Some (re_now env)\<rparr>))) w = (Inr collected, v)"
    and evidence: "cr_fetched collected" "cr_evidence collected = Some e" and put: "\<not> re_put_ok env"
  shows "\<exists>w' row'. collect_known lib env kind s c w = (Inl (CollectorConnector ConnectorStorage), w') \<and> quiet w w' \<and>
     get_connector (ck_db w') (cn_id c) = Some row' \<and>
     cn_checkpoint row' = jsonb_concat (cn_checkpoint row) (to_value (rl_collect lib) (cr_checkpoint collected))"
proof -
  let ?u = "no_update\<lparr>ru_status := Some ''running'', ru_last_run := Some (re_now env)\<rparr>"
  let ?running = "c\<lparr>cn_status := ''running'', cn_last_run := Some (re_now env)\<rparr>"
  let ?w1 = "ck_set_db (set_row (cn_id c) (updated ?u row) (ck_db w)) w"
  have mark: "store_run_state (cn_id c) ?u w = (Inr True, ?w1)" using store_run_state_run [OF row] by simp
  have "ck_audit ?w1 = ck_audit w" "ck_sent ?w1 = ck_sent w" by (simp_all add: ck_set_db_def)
  from run_fetch_db [OF fetch this] obtain v' where
    v': "run_fetch (kind_collect lib env kind (collect_fetcher lib (ck_db w) s c) (collect_context_of lib env (ck_db w) s c ?running)) ?w1
      = (Inr collected, v')" "ck_jobs v' = ck_jobs ?w1" "ck_objects v' = ck_objects w" "ck_events v' = ck_events w" by auto
  let ?row1 = "updated ?u row"
  have "get_connector (ck_db v') (cn_id ?running) = Some ?row1" by (simp add: v'(2) get_connector_def)
  from save_checkpoint_run [OF this, of "rl_collect lib" "cr_checkpoint collected"] obtain w' where
    save: "save_checkpoint (rl_collect lib) ?running (cr_checkpoint collected) v' = (Inr (), w')"
    and w': "w' = ck_set_db (set_row (cn_id c) (updated (no_update\<lparr>ru_checkpoint :=
        CpMerge (to_value (rl_collect lib) (cr_checkpoint collected))\<rparr>) ?row1) (ck_db v')) v'" by simp
  have "collect_known lib env kind s c w = (Inl (CollectorConnector ConnectorStorage), w')"
    using mark v'(1) save evidence put
    by (simp add: collect_known_def Let_def op_bind_def finish_collect_def persist_def)
  moreover have "quiet w w'" by (simp add: quiet_def w' v'(2-4))
  moreover have "\<exists>row'. get_connector (ck_db w') (cn_id c) = Some row' \<and>
      cn_checkpoint row' = jsonb_concat (cn_checkpoint row) (to_value (rl_collect lib) (cr_checkpoint collected))"
    by (simp add: w' get_connector_def sql_run_state_def no_update_def)
  ultimately show ?thesis by blast
qed

section \<open>Concrete runs\<close>

definition sample_decode :: "json \<Rightarrow> connector_checkpoint option" where
  "sample_decode v = (case as_object v of
     Some kvs \<Rightarrow> Some (default_checkpoint\<lparr>cp_content_sha256 :=
        (case map_of kvs ''content_sha256'' of Some (JString d) \<Rightarrow> Some d | _ \<Rightarrow> None)\<rparr>)
   | None \<Rightarrow> None)"

definition sample_run_lib :: "unit runner_lib" where
  "sample_run_lib = \<lparr>rl_collect = sample_collect_lib\<lparr>co_checkpoint_of := sample_decode\<rparr>, rl_message = (\<lambda>_. ''failed''),
     rl_policy_of = (\<lambda>_. None), rl_rate_limit_of = (\<lambda>_. None)\<rparr>"

definition sample_run_env :: "bool \<Rightarrow> run_env" where
  "sample_run_env put = \<lparr>re_now = 50, re_failed_at = 51, re_job_now = 52, re_hops = (\<lambda>_. sample_env), re_env_vars = Map.empty,
     re_files = Map.empty, re_evidence_id = 33, re_put_ok = put, re_delete_ok = True, re_publish_ok = (\<lambda>_. True)\<rparr>"

definition sample_page :: source where
  "sample_page = sample_source\<lparr>so_base_url := Some ''a''\<rparr>"

definition sample_collect_job :: job where
  "sample_collect_job = \<lparr>j_id = 5, j_type = ''collect'', j_status = Running, j_correlation_id = Some 7,
     j_created_at = 0, j_started_at = Some 0, j_completed_at = None, j_retry_count = 0,
     j_error = None, j_parameters = None\<rparr>"

definition sample_collector :: collector where
  "sample_collector = \<lparr>ck_jobs = \<lparr>js_store = sample_collector_db\<lparr>db_sources := [(1, sample_page)],
        db_jobs := [(5, sample_collect_job)]\<rparr>, js_published = []\<rparr>, ck_objects = Map.empty,
     ck_audit = \<lparr>al_rows = [], al_fault = None\<rparr>, ck_sent = [], ck_events = [], ck_collected = 0, ck_raw_bytes = 0,
     ck_connector_errors = 0, ck_failed_jobs = 0\<rparr>"

lemma sample_collector_sel:
  "ck_audit sample_collector = fs_audit sample_start"
  "get_connector (ck_db sample_collector) 7 = Some (sample_connector 7 ''rss'')"
  "get_source (ck_db sample_collector) 1 = Some sample_page"
  "get_job (ck_db sample_collector) 5 = Some sample_collect_job"
  by (simp_all add: sample_collector_def sample_start_def sample_collector_db_def get_connector_def tbl_get_def get_source_def
      get_job_def)

lemma sample_collector_ok: "connectors_ok (ck_db sample_collector)" "job_store_ok (ck_db sample_collector)"
  using sample_collector_db_ok
  by (auto simp: sample_collector_def connectors_ok_def sample_collector_db_def get_connector_def job_store_ok_def get_job_def
      tbl_ok_def tbl_keyed_def tbl_get_def sample_collect_job_def empty_db_def job_wf_def)

lemma sample_policy: "policy_from_source sample_run_lib s = default_policy"
  "rate_limit_from_connector sample_run_lib c default_policy = default_rate_limit"
  by (simp_all add: policy_from_source_def rate_limit_from_connector_def sample_run_lib_def default_policy_def)

lemma sample_page_fetch:
  assumes "gf_guard f = \<lparr>sg_source_id = 1, sg_policy = default_policy, sg_rules = []\<rparr>" "gf_limiter f = default_rate_limit"
  shows "\<exists>resp s'. fetch_get sample_web f sample_env ''a'' [] sample_start = (Inr resp, s')
    \<and> fr_body resp = [1] \<and> \<not> is_not_modified resp"
  using assms sample_public
  by (simp add: fetch_get_def fetch_request_def sample_web_def request_loop.simps fetch_hop_def ssrf_check_def sample_names
      sample_name_host default_policy_def host_allowed_def resolve_host_def
      sample_env_def acquire_def take_token_def refilled_def burst_of_def default_rate_limit_def sample_start_def
      handle_answer_def is_redirection_def is_success_def is_not_modified_def read_body_def pinned_addr_def
      url_port_def sample_lib_def Let_def)

abbreviation sample_running :: connector where
  "sample_running \<equiv> sample_connector 7 ''rss''\<lparr>cn_status := ''running'', cn_last_run := Some 50\<rparr>"

lemma sample_web_collect:
  "\<exists>collected v. run_fetch (kind_collect sample_run_lib (sample_run_env put) StaticWeb
      (collect_fetcher sample_run_lib (ck_db sample_collector) sample_page (sample_connector 7 ''rss''))
      (collect_context_of sample_run_lib (sample_run_env put) (ck_db sample_collector) sample_page (sample_connector 7 ''rss'')
        sample_running)) sample_collector = (Inr collected, v) \<and>
     cr_fetched collected \<and> (\<exists>e. cr_evidence collected = Some e \<and> ne_body e = [1] \<and> ne_collection_ids e = []) \<and>
     cp_content_sha256 (cr_checkpoint collected) = Some ''h''"
proof -
  let ?f = "collect_fetcher sample_run_lib (ck_db sample_collector) sample_page (sample_connector 7 ''rss'')"
  have f: "gf_guard ?f = \<lparr>sg_source_id = 1, sg_policy = default_policy, sg_rules = []\<rparr>" "gf_limiter ?f = default_rate_limit"
    by (simp_all add: collect_fetcher_def sample_policy Let_def sample_page_def sample_source_def list_network_rules_def
        sample_collector_def sample_collector_db_def empty_db_def tbl_select_def)
  from sample_page_fetch [OF this] obtain resp s' where r: "fetch_get sample_web ?f sample_env ''a'' [] sample_start = (Inr resp, s')"
    "fr_body resp = [1]" "\<not> is_not_modified resp" by blast
  have t: "trim ''a'' = ''a''" by code_simp
  show ?thesis using r
    by (simp add: run_fetch_def kind_collect_def web_collect_def op_bind_def sample_run_lib_def sample_collect_lib_def
       sample_run_env_def collect_context_of_def page_url_def non_blank_def sample_page_def sample_source_def t Let_def
       from_value_def sample_decode_def sample_connector_def default_checkpoint_def conditional_headers_def
       evidence_of_fetch_def sample_start_def collection_ids_of_def list_collections_by_source_def list_collections_by_connector_def linked_ids_def sample_collector_def sample_collector_db_def empty_db_def)
qed

lemma sample_run:
  "\<exists>w'. execute_collect sample_run_lib (sample_run_env True) StaticWeb (sample_connector 7 ''rss'') 5 sample_collector
     = (Inr (Collected 33), w')"
proof -
  let ?c = "sample_connector 7 ''rss''" and ?w = sample_collector
  let ?lib = sample_run_lib and ?env = "sample_run_env True"
  let ?u = "no_update\<lparr>ru_status := Some ''running'', ru_last_run := Some 50\<rparr>"
  let ?w1 = "ck_set_db (set_row 7 (updated ?u ?c) (ck_db ?w)) ?w"
  obtain collected v e where fetch: "run_fetch (kind_collect ?lib ?env StaticWeb (collect_fetcher ?lib (ck_db ?w) sample_page ?c)
      (collect_context_of ?lib ?env (ck_db ?w) sample_page ?c sample_running)) ?w = (Inr collected, v)"
    and e: "cr_fetched collected" "cr_evidence collected = Some e" "ne_collection_ids e = []"
    using sample_web_collect [of True] by blast
  obtain s s' where st: "kind_collect ?lib ?env StaticWeb (collect_fetcher ?lib (ck_db ?w) sample_page ?c)
      (collect_context_of ?lib ?env (ck_db ?w) sample_page ?c sample_running) s = (Inr collected, s')"
    using fetch by (auto simp: run_fetch_def split: prod.splits sum.splits)
  have ids: "ne_source_id e = 1" "ne_connector_id e = 7"
    using kind_collect_contract [OF st e(2)]
    by (simp_all add: collect_context_of_def sample_page_def sample_source_def sample_connector_def)
  have id: "cn_id ?c = 7" "cn_id sample_running = 7" by (simp_all add: sample_connector_def)
  have mark: "store_run_state 7 ?u ?w = (Inr True, ?w1)" using store_run_state_run [OF sample_collector_sel(2)] by simp
  have "ck_audit ?w1 = ck_audit ?w" "ck_sent ?w1 = ck_sent ?w" by (simp_all add: ck_set_db_def)
  from run_fetch_db [OF fetch this] obtain v' where
    v': "run_fetch (kind_collect ?lib ?env StaticWeb (collect_fetcher ?lib (ck_db ?w) sample_page ?c)
      (collect_context_of ?lib ?env (ck_db ?w) sample_page ?c sample_running)) ?w1 = (Inr collected, v')" "ck_jobs v' = ck_jobs ?w1"
    by auto
  have "get_connector (ck_db v') (cn_id sample_running) = Some (updated ?u ?c)"
    by (simp add: v'(2) get_connector_def sample_connector_def)
  from save_checkpoint_run [OF this, of "rl_collect ?lib" "cr_checkpoint collected"] obtain w2 row2 where
    save: "save_checkpoint (rl_collect ?lib) sample_running (cr_checkpoint collected) v' = (Inr (), w2)"
    and w2: "w2 = ck_set_db (set_row 7 row2 (ck_db v')) v'" by (simp add: id)
  have db2: "ck_db w2 = sample_collector_db\<lparr>db_connectors := [(7, row2)], db_sources := [(1, sample_page)],
      db_jobs := [(5, sample_collect_job)]\<rparr>"
    by (simp add: w2 v'(2)) (simp add: sample_collector_def sample_collector_db_def)
  let ?r = "evidence_record (rl_collect ?lib) 33 e"
  have r: "rv_id ?r = 33" "rv_source_id ?r = 1" "rv_connector_id ?r = 7" by (simp_all add: evidence_record_def ids)
  obtain w3 where persist: "persist (rl_collect ?lib) ?env e w2 = (Inr ?r, w3)" "get_connector (ck_db w3) 7 = Some row2"
    using r e(3)
    by (simp add: persist_def Let_def insert_raw_evidence_def db2 sample_run_env_def sample_collector_db_def empty_db_def
        get_connector_def tbl_get_def)
  obtain x w4 where "mark_success ?lib sample_running 50 (Some ?r) w3 = (x, w4)" by fastforce
  with mark_success_post [OF id(2) persist(2) this] have success: "mark_success ?lib sample_running 50 (Some ?r) w3 = (Inr (), w4)"
    by simp
  have now: "re_now ?env = 50" "re_evidence_id ?env = 33" "re_publish_ok ?env ev" for ev by (simp_all add: sample_run_env_def)
  have "\<exists>w'. collect_known ?lib ?env StaticWeb sample_page ?c ?w = (Inr (Collected 33), w')"
    using mark v'(1) save persist(1) success e(1,2)
    by (simp add: collect_known_def Let_def op_bind_def finish_collect_def id now publish_raw_def r)
  then show ?thesis
    using sample_collector_sel(3)
    by (auto simp: execute_collect_def resolve_source_def sample_connector_def)
qed




end
