(* ===== verification/CollectorPlan.thy ===== *)
theory CollectorPlan
  imports CollectorRun
begin

text \<open>
  The sequential part of a tick of the collector, \<open>tick_connectors\<close> of \<open>crates/collector/src/runner.rs\<close> up to the dispatch: a plan
  for every connector, the errors recorded for unknown types and bad schedules, the fair selection, the back-pressure,
  and the summary line with its gate.
\<close>

section \<open>Counters and the summary line\<close>

record tick_counts =
  tc_import_skipped :: nat
  tc_unscheduled :: nat
  tc_unknown_type :: nat
  tc_invalid_schedule :: nat
  tc_collect_failed :: nat
  tc_recovered :: nat
  tc_backing_off :: nat
  tc_retry_deferred :: nat
  tc_backpressure_skipped :: nat

definition zero_counts :: tick_counts where
  "zero_counts = \<lparr>tc_import_skipped = 0, tc_unscheduled = 0, tc_unknown_type = 0, tc_invalid_schedule = 0,
     tc_collect_failed = 0, tc_recovered = 0, tc_backing_off = 0, tc_retry_deferred = 0, tc_backpressure_skipped = 0\<rparr>"

definition notable :: "tick_counts \<Rightarrow> bool" where
  "notable c \<longleftrightarrow> 0 < tc_import_skipped c + tc_unscheduled c + tc_unknown_type c + tc_invalid_schedule c +
     tc_collect_failed c + tc_recovered c + tc_backing_off c + tc_retry_deferred c + tc_backpressure_skipped c"

record summary_gate =
  gate_counts :: tick_counts
  gate_emitted :: "time option"

definition SUMMARY_INTERVAL :: nat where "SUMMARY_INTERVAL = 300 * 1000000"

datatype summary_line = SummaryWarn | SummaryInfo

definition emit_tick_summary_with ::
  "summary_gate \<Rightarrow> tick_counts \<Rightarrow> time \<Rightarrow> summary_line option \<times> summary_gate" where
  "emit_tick_summary_with g counts now =
     (if \<not> notable counts then (None, g)
      else
        let changed = gate_counts g \<noteq> counts;
            due = (case gate_emitted g of None \<Rightarrow> True | Some t \<Rightarrow> int SUMMARY_INTERVAL \<le> now - t)
        in if \<not> changed \<and> \<not> due then (None, g)
           else (Some (if 0 < tc_collect_failed counts + tc_invalid_schedule counts + tc_unknown_type counts
                       then SummaryWarn else SummaryInfo),
                 \<lparr>gate_counts = counts, gate_emitted = Some now\<rparr>))"

section \<open>The plan of a tick\<close>

text \<open>The texts of the code are Chinese; these are ASCII renderings. The same rendering is stored and compared.\<close>

definition unknown_type_message :: "string \<Rightarrow> string" where
  "unknown_type_message ty = ''unknown connector_type: '' @ ty"

definition ABORT_JOB_ERROR :: string where
  "ABORT_JOB_ERROR = ''aborted at shutdown''"

definition recorded_error :: "connector \<Rightarrow> string option" where
  "recorded_error c =
     (case as_object (cn_checkpoint c) of
        Some kvs \<Rightarrow> (case map_of kvs ''last_error'' of Some (JString m) \<Rightarrow> Some m | _ \<Rightarrow> None)
      | None \<Rightarrow> None)"

definition is_repeat_error :: "connector \<Rightarrow> string \<Rightarrow> bool" where
  "is_repeat_error c message \<longleftrightarrow> cn_status c = ''error'' \<and> recorded_error c = Some message"

definition persist_skip_error :: "time \<Rightarrow> connector \<Rightarrow> string \<Rightarrow> collector \<Rightarrow> collector" where
  "persist_skip_error failed_at c message w =
     (if is_repeat_error c message then w else ignore_error (mark_failure failed_at c message) w)"

record plan_state =
  pl_results :: "(uuid \<times> collect_outcome) list"
  pl_due :: "connector list"
  pl_counts :: tick_counts
  pl_world :: collector

record 'c tick_env =
  te_cron :: "'c cron_lib"
  te_max_utc :: time
  te_backoff :: backoff_config
  te_now :: time
  te_failed_at :: time
  te_max_retry :: nat

definition push_result :: "connector \<Rightarrow> collect_outcome \<Rightarrow> plan_state \<Rightarrow> plan_state" where
  "push_result c out p = p\<lparr>pl_results := pl_results p @ [(cn_id c, out)]\<rparr>"

definition plan_one :: "'n runner_lib \<Rightarrow> 'c tick_env \<Rightarrow> connector \<Rightarrow> tick_plan \<Rightarrow> plan_state \<Rightarrow> plan_state" where
  "plan_one lib te c plan p =
     (let n = pl_counts p; w = pl_world p
      in case plan of
           SkipImport \<Rightarrow> push_result c (SkippedImportType (cn_type c)) (p\<lparr>pl_counts := n\<lparr>tc_import_skipped := tc_import_skipped n + 1\<rparr>\<rparr>)
         | SkipUnscheduled \<Rightarrow> push_result c SkippedUnscheduled (p\<lparr>pl_counts := n\<lparr>tc_unscheduled := tc_unscheduled n + 1\<rparr>\<rparr>)
         | SkipUnknownType \<Rightarrow> push_result c (SkippedUnknownType (cn_type c))
             (p\<lparr>pl_counts := n\<lparr>tc_unknown_type := tc_unknown_type n + 1\<rparr>,
                pl_world := persist_skip_error (te_failed_at te) c (unknown_type_message (cn_type c)) w\<rparr>)
         | SkipInvalidSchedule e \<Rightarrow> push_result c SkippedInvalidSchedule
             (p\<lparr>pl_counts := n\<lparr>tc_invalid_schedule := tc_invalid_schedule n + 1\<rparr>,
                pl_world := persist_skip_error (te_failed_at te) c (rl_message lib e) w\<rparr>)
         | PlanNotDue \<Rightarrow> push_result c NotDue p
         | PlanBackingOff _ \<Rightarrow> push_result c BackingOff (p\<lparr>pl_counts := n\<lparr>tc_backing_off := tc_backing_off n + 1\<rparr>\<rparr>)
         | PlanRun \<Rightarrow> p\<lparr>pl_due := pl_due p @ [c]\<rparr>)"

fun plan_connectors :: "'n runner_lib \<Rightarrow> 'c tick_env \<Rightarrow> connector list \<Rightarrow> plan_state \<Rightarrow> plan_state option" where
  "plan_connectors lib te [] p = Some p"
| "plan_connectors lib te (c # cs) p =
     Option.bind (plan_tick (te_cron te) (te_max_utc te) c (te_now te) (te_backoff te))
       (\<lambda>plan. plan_connectors lib te cs (plan_one lib te c plan p))"

text \<open>The fair selection and the back-pressure: what is dispatched, and the results of the others.\<close>

definition select_dispatch :: "backpressure_state \<Rightarrow> nat \<Rightarrow> plan_state \<Rightarrow> connector list \<times> plan_state" where
  "select_dispatch pressure max_retry p =
     (let (dispatch, deferred) = take_fair_dispatch (pl_due p) max_retry;
          n = pl_counts p;
          p = p\<lparr>pl_counts := n\<lparr>tc_retry_deferred := tc_retry_deferred n + length deferred\<rparr>,
                pl_results := pl_results p @ map (\<lambda>c. (cn_id c, RetryDeferred)) deferred\<rparr>;
          n = pl_counts p
      in if pressure = BpPause
         then ([], p\<lparr>pl_counts := n\<lparr>tc_backpressure_skipped := tc_backpressure_skipped n + length dispatch\<rparr>,
                    pl_results := pl_results p @ map (\<lambda>c. (cn_id c, BackpressureSkipped)) dispatch\<rparr>)
         else (dispatch, p))"

definition tick_plan_phase ::
  "'n runner_lib \<Rightarrow> 'c tick_env \<Rightarrow> backpressure_state \<Rightarrow> connector list \<Rightarrow> collector \<Rightarrow> (connector list \<times> plan_state) option" where
  "tick_plan_phase lib te pressure cs w =
     map_option (select_dispatch pressure (te_max_retry te))
       (plan_connectors lib te cs \<lparr>pl_results = [], pl_due = [], pl_counts = zero_counts, pl_world = w\<rparr>)"

section \<open>The plan loses no connector\<close>

definition planned :: "'n runner_lib \<Rightarrow> 'c tick_env \<Rightarrow> connector list \<Rightarrow> plan_state \<Rightarrow> plan_state \<Rightarrow> bool" where
  "planned lib te cs p p' \<longleftrightarrow>
     mset (map fst (pl_results p')) + mset (map cn_id (pl_due p')) =
       mset (map fst (pl_results p)) + mset (map cn_id (pl_due p)) + mset (map cn_id cs) \<and>
     (\<forall>c \<in> set (pl_due p'). c \<in> set (pl_due p) \<or>
        plan_tick (te_cron te) (te_max_utc te) c (te_now te) (te_backoff te) = Some PlanRun)"

lemma planned_one:
  "plan_tick (te_cron te) (te_max_utc te) c (te_now te) (te_backoff te) = Some plan \<Longrightarrow> planned lib te [c] p (plan_one lib te c plan p)"
  by (cases plan) (auto simp: planned_def plan_one_def push_result_def Let_def)

lemma planned_connectors: "plan_connectors lib te cs p = Some p' \<Longrightarrow> planned lib te cs p p'"
proof (induction cs arbitrary: p)
  case Nil
  then show ?case by (simp add: planned_def)
next
  case (Cons c cs)
  then obtain plan where "plan_tick (te_cron te) (te_max_utc te) c (te_now te) (te_backoff te) = Some plan"
    "plan_connectors lib te cs (plan_one lib te c plan p) = Some p'" by (auto simp: bind_eq_Some_conv)
  with planned_one [OF this(1), of lib p] Cons.IH [OF this(2)] show ?case
    by (auto simp: planned_def)
qed

lemma plan_run_iff:
  "plan_tick lib mx c now cfg = Some PlanRun \<Longrightarrow>
     \<not> is_import_only_type (cn_type c) \<and> classify_connector_type (cn_type c) \<noteq> None \<and> \<not> is_unscheduled (cn_schedule c) \<and>
     is_due lib (case cn_schedule c of Some s \<Rightarrow> s | None \<Rightarrow> []) (cn_last_run c) now = Inr True \<and>
     is_backing_off mx c now cfg = Some False"
  by (auto simp: plan_tick_def bind_eq_Some_conv split: if_splits sum.splits bool.splits)

lemma tick_plan_complete_parts:
  assumes "tick_plan_phase lib te pressure cs w = Some (dispatch, p)"
  shows "mset (map fst (pl_results p)) + mset (map cn_id dispatch) = mset (map cn_id cs)"
    and "\<forall>c \<in> set dispatch. classify_connector_type (cn_type c) \<noteq> None \<and>
           is_due (te_cron te) (case cn_schedule c of Some s \<Rightarrow> s | None \<Rightarrow> []) (cn_last_run c) (te_now te) = Inr True \<and>
           is_backing_off (te_max_utc te) c (te_now te) (te_backoff te) = Some False"
    and "length (filter failing dispatch) \<le> max (te_max_retry te) 1"
    and "pressure = BpPause \<Longrightarrow> dispatch = []"
proof -
  let ?p0 = "\<lparr>pl_results = [], pl_due = [], pl_counts = zero_counts, pl_world = w\<rparr>"
  obtain q where q: "plan_connectors lib te cs ?p0 = Some q" and sel: "select_dispatch pressure (te_max_retry te) q = (dispatch, p)"
    using assms by (auto simp: tick_plan_phase_def)
  obtain run deferred where fair: "take_fair_dispatch (pl_due q) (te_max_retry te) = (run, deferred)" by fastforce
  note f = fair_selection [OF fair]
  have pl: "planned lib te cs ?p0 q" by (rule planned_connectors [OF q])
  have ids: "mset (map cn_id run) + mset (map cn_id deferred) = mset (map cn_id (pl_due q))"
    using arg_cong [OF f(1), of "image_mset cn_id"] by simp
  show "mset (map fst (pl_results p)) + mset (map cn_id dispatch) = mset (map cn_id cs)"
  proof -
    have "mset (map fst (pl_results p)) + mset (map cn_id dispatch) =
        mset (map fst (pl_results q)) + (mset (map cn_id run) + mset (map cn_id deferred))"
      using sel by (auto simp: select_dispatch_def fair Let_def image_mset.compositionality comp_def union_ac split: if_splits)
    with pl ids show ?thesis by (simp add: planned_def)
  qed
  have sub: "set dispatch \<subseteq> set (pl_due q)"
    using sel arg_cong [OF f(1), of set_mset] by (auto simp: select_dispatch_def fair Let_def split: if_splits)
  show "\<forall>c \<in> set dispatch. classify_connector_type (cn_type c) \<noteq> None \<and>
           is_due (te_cron te) (case cn_schedule c of Some s \<Rightarrow> s | None \<Rightarrow> []) (cn_last_run c) (te_now te) = Inr True \<and>
           is_backing_off (te_max_utc te) c (te_now te) (te_backoff te) = Some False"
  proof
    fix c assume "c \<in> set dispatch"
    with sub pl have "plan_tick (te_cron te) (te_max_utc te) c (te_now te) (te_backoff te) = Some PlanRun"
      by (auto simp: planned_def)
    from plan_run_iff [OF this] show "classify_connector_type (cn_type c) \<noteq> None \<and>
           is_due (te_cron te) (case cn_schedule c of Some s \<Rightarrow> s | None \<Rightarrow> []) (cn_last_run c) (te_now te) = Inr True \<and>
           is_backing_off (te_max_utc te) c (te_now te) (te_backoff te) = Some False" by blast
  qed
  show "length (filter failing dispatch) \<le> max (te_max_retry te) 1"
    using sel f(2) by (auto simp: select_dispatch_def fair Let_def split: if_splits)
  show "dispatch = []" if "pressure = BpPause"
    using sel that by (simp add: select_dispatch_def fair Let_def)
qed

text \<open>
  the sequential part of a tick. Every connector is either dispatched or has exactly one
  result; a dispatched one is of a known kind, due and not backing off; at most the configured number of
  failing connectors is dispatched, and under back-pressure none at all.
\<close>

theorem tick_plan_complete:
  assumes "tick_plan_phase lib te pressure cs w = Some (dispatch, p)"
  shows "mset (map fst (pl_results p)) + mset (map cn_id dispatch) = mset (map cn_id cs) \<and>
    (\<forall>c \<in> set dispatch. classify_connector_type (cn_type c) \<noteq> None \<and>
       is_due (te_cron te) (case cn_schedule c of Some s \<Rightarrow> s | None \<Rightarrow> []) (cn_last_run c) (te_now te) = Inr True \<and>
       is_backing_off (te_max_utc te) c (te_now te) (te_backoff te) = Some False) \<and>
    length (filter failing dispatch) \<le> max (te_max_retry te) 1 \<and>
    (pressure = BpPause \<longrightarrow> dispatch = [])"
  using tick_plan_complete_parts [OF assms] by blast

section \<open>A concrete plan\<close>

definition sample_tick_env :: "unit tick_env" where
  "sample_tick_env = \<lparr>te_cron = every_hour, te_max_utc = 1000000, te_backoff = default_backoff, te_now = 50, te_failed_at = 51,
     te_max_retry = 1\<rparr>"

lemma sample_classify: "classify_connector_type ''rss'' = Some RssOrAtom" "is_import_only_type ''rss'' = False"
  "is_unscheduled (Some ''*/15 * * * *'') = False"
  by code_simp+

theorem tick_plan_complete_witness:
  "\<exists>dispatch p. tick_plan_phase sample_run_lib sample_tick_env BpPause [sample_connector 7 ''rss''] sample_collector = Some (dispatch, p) \<and>
     dispatch = [] \<and> mset (map fst (pl_results p)) = {#7#}"
proof -
  have "plan_tick every_hour 1000000 (sample_connector 7 ''rss'') 50 default_backoff = Some PlanRun"
    using sample_classify by (simp add: plan_tick_def sample_connector_def is_due_def parse_cron_def every_hour_def
        is_backing_off_def ok_or_def)
  then obtain dispatch p where run: "tick_plan_phase sample_run_lib sample_tick_env BpPause [sample_connector 7 ''rss''] sample_collector
    = Some (dispatch, p)" by (cases "tick_plan_phase sample_run_lib sample_tick_env BpPause [sample_connector 7 ''rss''] sample_collector")
      (auto simp: tick_plan_phase_def sample_tick_env_def)
  from tick_plan_complete [OF run] run show ?thesis by (auto simp: sample_connector_def)
qed

end
