(* ===== verification/CollectorTick.thy ===== *)
theory CollectorTick
  imports CollectorPlan
begin

text \<open>
  The loop of a tick over the \<open>JoinSet\<close>, the second part of \<open>tick_connectors\<close> in \<open>crates/collector/src/runner.rs\<close>, as a step
  relation: a job is created and its collection spawned while the cap allows it, a collection ends and is joined, the shutdown
  token is cancelled, a task is lost (it panicked, or the drain timed out and it was aborted). A collection takes effect
  when it is joined; one that is lost may have done any part of its work, so its effect on the database is only
  bounded by the frame of a collection. What ends the tick is \<open>finish_tick\<close>.
\<close>

section \<open>The loop over the running collections\<close>

record tick_state =
  tk_world :: collector
  tk_queue :: "connector list"
  tk_running :: "(connector \<times> known_connector_kind \<times> uuid) list"
  tk_inflight :: "(uuid \<times> uuid) list"
  tk_results :: "(uuid \<times> collect_outcome) list"
  tk_counts :: tick_counts
  tk_draining :: bool

datatype tick_event = Spawned uuid uuid | Refused uuid | Joined uuid | Lost uuid | Cancelling

definition record_join :: "connector \<Rightarrow> collector_error + collect_outcome \<Rightarrow> tick_state \<Rightarrow> tick_state" where
  "record_join c joined s =
     (let n = tk_counts s; s = s\<lparr>tk_inflight := filter (\<lambda>p. fst p \<noteq> cn_id c) (tk_inflight s)\<rparr>
      in case joined of
           Inr outcome \<Rightarrow>
             s\<lparr>tk_counts := if cn_status c = ''error'' then n\<lparr>tc_recovered := tc_recovered n + 1\<rparr> else n,
               tk_results := tk_results s @ [(cn_id c, outcome)]\<rparr>
         | Inl _ \<Rightarrow> s\<lparr>tk_counts := n\<lparr>tc_collect_failed := tc_collect_failed n + 1\<rparr>\<rparr>)"

text \<open>A job is created and marked as running; a refused transition is only logged.\<close>

definition start_job :: "time \<Rightarrow> uuid \<Rightarrow> connector \<Rightarrow> collector \<Rightarrow> job_error + collector" where
  "start_job now j c w =
     (case create_job now j ''collect'' (Some (cn_id c)) None (ck_jobs w) of
        (Inl e, _) \<Rightarrow> Inl e
      | (Inr _, js) \<Rightarrow> Inr (w\<lparr>ck_jobs := snd (job_transition now j Running None js)\<rparr>))"

definition lost_task :: "uuid \<Rightarrow> uuid \<Rightarrow> db \<Rightarrow> db \<Rightarrow> bool" where
  "lost_task i j d d' \<longleftrightarrow> collection_frame i j d d' \<and> job_store_ok d' \<and>
     (\<exists>jb. get_job d' j = Some jb \<and> j_status jb \<in> {Running, Completed, Failed})"

inductive tick_step :: "'n runner_lib \<Rightarrow> nat \<Rightarrow> tick_state \<Rightarrow> tick_event \<Rightarrow> tick_state \<Rightarrow> bool"
  for lib :: "'n runner_lib" and cap :: nat where
  spawn: "\<not> tk_draining s \<Longrightarrow> length (tk_running s) < cap \<Longrightarrow> tk_queue s = c # q \<Longrightarrow>
    classify_connector_type (cn_type c) = Some kind \<Longrightarrow> get_job (ck_db (tk_world s)) j = None \<Longrightarrow>
    start_job now j c (tk_world s) = Inr w \<Longrightarrow>
    tick_step lib cap s (Spawned (cn_id c) j) (s\<lparr>tk_world := w, tk_queue := q, tk_running := tk_running s @ [(c, kind, j)],
      tk_inflight := filter (\<lambda>p. fst p \<noteq> cn_id c) (tk_inflight s) @ [(cn_id c, j)]\<rparr>)"
| refused: "\<not> tk_draining s \<Longrightarrow> length (tk_running s) < cap \<Longrightarrow> tk_queue s = c # q \<Longrightarrow>
    tick_step lib cap s (Refused (cn_id c)) (s\<lparr>tk_queue := q\<rparr>)"
| join: "tk_running s = xs @ (c, kind, j) # ys \<Longrightarrow> execute_collect lib env kind c j (tk_world s) = (r, w) \<Longrightarrow>
    tick_step lib cap s (Joined (cn_id c)) (record_join c r (s\<lparr>tk_world := w, tk_running := xs @ ys\<rparr>))"
| lost: "tk_running s = xs @ (c, kind, j) # ys \<Longrightarrow> lost_task (cn_id c) j (ck_db (tk_world s)) (ck_db w) \<Longrightarrow>
    tick_step lib cap s (Lost (cn_id c)) (s\<lparr>tk_world := w, tk_running := xs @ ys\<rparr>)"
| cancel: "\<not> tk_draining s \<Longrightarrow> tick_step lib cap s Cancelling (s\<lparr>tk_draining := True\<rparr>)"

inductive tick_run :: "'n runner_lib \<Rightarrow> nat \<Rightarrow> tick_state \<Rightarrow> tick_event list \<Rightarrow> tick_state \<Rightarrow> bool"
  for lib :: "'n runner_lib" and cap :: nat and s0 :: tick_state where
  start: "tick_run lib cap s0 [] s0"
| more: "tick_run lib cap s0 evs s \<Longrightarrow> tick_step lib cap s ev s' \<Longrightarrow> tick_run lib cap s0 (evs @ [ev]) s'"

definition tick_over :: "tick_state \<Rightarrow> bool" where
  "tick_over s \<longleftrightarrow> tk_running s = [] \<and> (tk_queue s = [] \<or> tk_draining s)"

definition finish_one_aborted :: "time \<Rightarrow> uuid \<times> uuid \<Rightarrow> collector \<Rightarrow> collector" where
  "finish_one_aborted now p w =
     (let w = end_job now (snd p) Cancelled (Some ABORT_JOB_ERROR) w
      in ignore_error (store_run_state (fst p) (no_update\<lparr>ru_status := Some ''idle'',
           ru_checkpoint := CpMerge (JObject [(''last_error'', JString ABORT_JOB_ERROR)])\<rparr>)) w)"

definition finish_aborted :: "time \<Rightarrow> (uuid \<times> uuid) list \<Rightarrow> collector \<Rightarrow> collector" where
  "finish_aborted now inflight w = fold (finish_one_aborted now) inflight w"

definition finish_tick :: "time \<Rightarrow> tick_state \<Rightarrow> collector" where
  "finish_tick now s = (if tk_draining s then finish_aborted now (tk_inflight s) (tk_world s) else tk_world s)"

definition start_tick :: "connector list \<Rightarrow> plan_state \<Rightarrow> bool \<Rightarrow> tick_state" where
  "start_tick dispatch p cancelled =
     \<lparr>tk_world = pl_world p, tk_queue = dispatch, tk_running = [], tk_inflight = [], tk_results = pl_results p,
      tk_counts = pl_counts p, tk_draining = cancelled\<rparr>"

section \<open>What every tick keeps\<close>

definition job_over :: "db \<Rightarrow> uuid \<Rightarrow> bool" where
  "job_over d j \<longleftrightarrow> (\<exists>jb. get_job d j = Some jb \<and> j_status jb \<in> {Completed, Failed, Cancelled})"

definition row_rested :: "db \<Rightarrow> uuid \<Rightarrow> bool" where
  "row_rested d i \<longleftrightarrow> (\<exists>row. get_connector d i = Some row \<and> cn_status row \<in> {''idle'', ''error''})"

lemma frameD:
  assumes "collection_frame i j d d'"
  shows "connectors_ok d'" "k \<noteq> i \<Longrightarrow> get_connector d' k = get_connector d k" "k' \<noteq> j \<Longrightarrow> get_job d' k' = get_job d k'"
    "get_connector d k \<noteq> None \<Longrightarrow> get_connector d' k \<noteq> None"
proof -
  show "connectors_ok d'" "k \<noteq> i \<Longrightarrow> get_connector d' k = get_connector d k" "k' \<noteq> j \<Longrightarrow> get_job d' k' = get_job d k'"
    using assms by (auto simp: collection_frame_def)
  show "get_connector d k \<noteq> None \<Longrightarrow> get_connector d' k \<noteq> None"
    using assms by (cases "k = i") (auto simp: collection_frame_def elim: option.rel_cases)
qed

lemma end_job_store_ok:
  assumes "job_store_ok (ck_db w)"
  shows "job_store_ok (ck_db (end_job now j to err w))"
proof -
  let ?s = "\<lparr>js_store = ck_db w, js_published = []\<rparr>"
  have "service_ok ?s" using assms by (simp add: service_ok_def)
  from service_ok_transition [OF this, of now j to err] show ?thesis
    by (auto simp: service_ok_def end_job_def job_transition_def op_bind_def job_get_def js_put_job_def put_job_def
        split: option.splits sum.splits)
qed

lemma mark_failure_jobs: "db_jobs (ck_db (ignore_error (mark_failure t c m) w)) = db_jobs (ck_db w)"
  by (auto simp: ignore_error_def mark_failure_def store_run_state_def update_connector_run_state_def op_bind_def
      sql_update_run_state_def rbind_def split: sum.splits option.splits prod.splits)

lemma job_store_ok_cong: "db_jobs d = db_jobs d' \<Longrightarrow> job_store_ok d = job_store_ok d'"
  by (simp add: job_store_ok_def get_job_def)

lemma execute_collect_store_ok:
  assumes "connectors_ok (ck_db w)" "job_store_ok (ck_db w)" "get_connector (ck_db w) (cn_id c) \<noteq> None"
    and run: "execute_collect lib env kind c j w = (r, w')"
  shows "job_store_ok (ck_db w')"
proof (cases "get_source (ck_db w) (cn_source_id c)")
  case None
  have "job_store_ok (ck_db (ignore_error (mark_failure t c m) w))" for t m
    using assms(2) job_store_ok_cong [OF mark_failure_jobs] by blast
  with run None show ?thesis
    by (auto simp: execute_collect_def resolve_source_def Let_def intro: end_job_store_ok)
next
  case (Some s)
  obtain x v where known: "collect_known lib env kind s c w = (x, v)" by fastforce
  from framedD(1) [OF framed_collect_known [OF refl] assms(1,3) known]
  have v: "job_store_ok (ck_db v)" using assms(2) job_store_ok_cong [of "ck_db v" "ck_db w"] by (simp add: touched_def)
  have m: "job_store_ok (ck_db (ignore_error (mark_failure t c m) (end_job now j Failed (Some m) v)))" for t m now
    using end_job_store_ok [OF v] job_store_ok_cong [OF mark_failure_jobs] by blast
  show ?thesis
  proof (cases x)
    case (Inl e)
    let ?w1 = "ignore_error (mark_failure (re_failed_at env) c (rl_message lib e))
      (end_job (re_job_now env) j Failed (Some (rl_message lib e)) v)"
    have "ck_jobs w' = ck_jobs ?w1"
      using run Some known Inl
      by (auto simp: execute_collect_def resolve_source_def Let_def ignore_error_def publish_raw_def split: if_splits)
    with m show ?thesis by simp
  next
    case (Inr out)
    with run Some known end_job_store_ok [OF v] show ?thesis
      by (auto simp: execute_collect_def resolve_source_def)
  qed
qed

lemma execute_collect_ends:
  assumes "connectors_ok (ck_db w)" "job_store_ok (ck_db w)" "get_connector (ck_db w) (cn_id c) \<noteq> None"
    and "get_job (ck_db w) j = Some jb" "j_status jb = Running"
    and run: "execute_collect lib env kind c j w = (r, w')"
  shows "collection_frame (cn_id c) j (ck_db w) (ck_db w')" "job_over (ck_db w') j" "row_rested (ck_db w') (cn_id c)"
proof -
  from assms(3) obtain row where "get_connector (ck_db w) (cn_id c) = Some row" by blast
  note e = execute_collect_run [OF assms(1,2) this assms(4,5) run]
  then show "collection_frame (cn_id c) j (ck_db w) (ck_db w')" by blast
  from e show "job_over (ck_db w') j" "row_rested (ck_db w') (cn_id c)"
    by (auto simp: job_over_def row_rested_def failed_end_def idle_row_def split: sum.splits)
qed

lemma start_job_effect:
  assumes "job_store_ok (ck_db w)" "connectors_ok (ck_db w)" "get_job (ck_db w) j = None" "start_job now j c w = Inr w'"
  shows "collection_frame i j (ck_db w) (ck_db w')" "job_store_ok (ck_db w')" "\<exists>jb. get_job (ck_db w') j = Some jb \<and> j_status jb = Running"
proof -
  let ?f = "fresh_job now j ''collect'' (Some (cn_id c)) None"
  obtain jb where jb: "apply_transition now ?f Running None = Inr jb" "j_id jb = j" "j_status jb = Running"
    by (auto simp: apply_transition_def fresh_job_def)
  have w': "ck_jobs w' = (ck_jobs w)\<lparr>js_store := (ck_db w)\<lparr>db_jobs := tbl_put j jb (tbl_put j ?f (db_jobs (ck_db w)))\<rparr>\<rparr>"
    using assms(4) jb by (auto simp: start_job_def create_job_def fresh_job_def op_bind_def js_put_job_def put_job_def
        job_transition_def job_get_def get_job_def Let_def)
  show "collection_frame i j (ck_db w) (ck_db w')"
    using assms(2) by (cases "get_connector (ck_db w) i") (auto simp: w' collection_frame_def get_job_def)
  show "\<exists>jb. get_job (ck_db w') j = Some jb \<and> j_status jb = Running"
    using jb by (simp add: w' get_job_def)
  have "job_wf jb" using apply_transition_wf [OF jb(1)] fresh_job_wf by blast
  with job_store_ok_put [OF job_store_ok_put [OF assms(1) fresh_job_wf], of jb now j "''collect''" "Some (cn_id c)" None] jb(2)
  show "job_store_ok (ck_db w')" by (simp add: w' fresh_job_def)
qed

section \<open>The invariant of the loop\<close>

fun spawned :: "tick_event list \<Rightarrow> (uuid \<times> uuid) list" where
  "spawned [] = []"
| "spawned (Spawned i j # evs) = (i, j) # spawned evs"
| "spawned (_ # evs) = spawned evs"

fun refused_ids :: "tick_event list \<Rightarrow> uuid list" where
  "refused_ids [] = []"
| "refused_ids (Refused i # evs) = i # refused_ids evs"
| "refused_ids (_ # evs) = refused_ids evs"

fun joined_ids :: "tick_event list \<Rightarrow> uuid list" where
  "joined_ids [] = []"
| "joined_ids (Joined i # evs) = i # joined_ids evs"
| "joined_ids (_ # evs) = joined_ids evs"

fun lost_ids :: "tick_event list \<Rightarrow> uuid list" where
  "lost_ids [] = []"
| "lost_ids (Lost i # evs) = i # lost_ids evs"
| "lost_ids (_ # evs) = lost_ids evs"

lemma event_append [simp]:
  "spawned (xs @ ys) = spawned xs @ spawned ys" "refused_ids (xs @ ys) = refused_ids xs @ refused_ids ys"
  "joined_ids (xs @ ys) = joined_ids xs @ joined_ids ys" "lost_ids (xs @ ys) = lost_ids xs @ lost_ids ys"
proof -
  show "spawned (xs @ ys) = spawned xs @ spawned ys" by (induction xs rule: spawned.induct) auto
  show "refused_ids (xs @ ys) = refused_ids xs @ refused_ids ys" by (induction xs rule: refused_ids.induct) auto
  show "joined_ids (xs @ ys) = joined_ids xs @ joined_ids ys" by (induction xs rule: joined_ids.induct) auto
  show "lost_ids (xs @ ys) = lost_ids xs @ lost_ids ys" by (induction xs rule: lost_ids.induct) auto
qed

fun task_pair :: "connector \<times> known_connector_kind \<times> uuid \<Rightarrow> uuid \<times> uuid" where
  "task_pair (c, kind, j) = (cn_id c, j)"

abbreviation running_ids :: "tick_state \<Rightarrow> (uuid \<times> uuid) list" where
  "running_ids s \<equiv> map task_pair (tk_running s)"

abbreviation job_running :: "db \<Rightarrow> uuid \<Rightarrow> bool" where
  "job_running d j \<equiv> \<exists>jb. get_job d j = Some jb \<and> j_status jb = Running"

abbreviation job_known :: "db \<Rightarrow> uuid \<Rightarrow> bool" where
  "job_known d j \<equiv> \<exists>jb. get_job d j = Some jb \<and> j_status jb \<in> {Running, Completed, Failed}"

text \<open>The bookkeeping: which connector is where.\<close>

definition books_ok :: "tick_state \<Rightarrow> tick_event list \<Rightarrow> tick_state \<Rightarrow> bool" where
  "books_ok s0 evs s \<longleftrightarrow>
     mset (map cn_id (tk_queue s0)) = mset (map cn_id (tk_queue s)) + mset (refused_ids evs) + mset (map fst (spawned evs)) \<and>
     mset (map fst (spawned evs)) = mset (map fst (running_ids s)) + mset (joined_ids evs) + mset (lost_ids evs) \<and>
     length (tk_results s) + tc_collect_failed (tk_counts s) =
       length (tk_results s0) + tc_collect_failed (tk_counts s0) + length (joined_ids evs) \<and>
     set (running_ids s) \<subseteq> set (tk_inflight s) \<and> set (tk_inflight s) \<subseteq> set (spawned evs) \<and>
     (\<forall>(i, j) \<in> set (tk_inflight s). (i, j) \<in> set (running_ids s) \<or> i \<in> set (lost_ids evs)) \<and>
     distinct (map snd (spawned evs))"

text \<open>The database: every spawned collection is running, lost, or over.\<close>

definition data_ok :: "tick_event list \<Rightarrow> tick_state \<Rightarrow> bool" where
  "data_ok evs s \<longleftrightarrow>
     (let d = ck_db (tk_world s)
      in connectors_ok d \<and> job_store_ok d \<and>
         (\<forall>c \<in> set (tk_queue s). get_connector d (cn_id c) \<noteq> None) \<and>
         (\<forall>(i, j) \<in> set (running_ids s). job_running d j) \<and>
         (\<forall>(i, j) \<in> set (tk_inflight s). get_connector d i \<noteq> None \<and> job_known d j) \<and>
         (\<forall>(i, j) \<in> set (spawned evs) - set (tk_inflight s). job_over d j \<and> row_rested d i))"

definition tick_inv :: "nat \<Rightarrow> tick_state \<Rightarrow> tick_event list \<Rightarrow> tick_state \<Rightarrow> bool" where
  "tick_inv cap s0 evs s \<longleftrightarrow> length (tk_running s) \<le> cap \<and> distinct (map cn_id (tk_queue s0)) \<and> books_ok s0 evs s \<and> data_ok evs s"

lemma books_distinct:
  assumes "books_ok s0 evs s" "distinct (map cn_id (tk_queue s0))"
  shows "distinct (map cn_id (tk_queue s) @ map fst (spawned evs))" "distinct (map fst (running_ids s) @ lost_ids evs)"
proof -
  have sp: "mset (map fst (spawned evs)) = mset (map fst (running_ids s)) + mset (joined_ids evs) + mset (lost_ids evs)"
    using assms(1) by (simp add: books_ok_def)
  have "mset (map cn_id (tk_queue s0)) = mset (refused_ids evs @ map cn_id (tk_queue s) @ map fst (spawned evs))"
    using assms(1) by (simp add: books_ok_def)
  with assms(2) have "distinct (refused_ids evs @ map cn_id (tk_queue s) @ map fst (spawned evs))"
    by (metis mset_eq_imp_distinct_iff)
  then show d: "distinct (map cn_id (tk_queue s) @ map fst (spawned evs))" by simp
  have "mset (map fst (spawned evs)) = mset (joined_ids evs @ map fst (running_ids s) @ lost_ids evs)"
    using sp by simp
  with d have "distinct (joined_ids evs @ map fst (running_ids s) @ lost_ids evs)"
    by (metis distinct_append mset_eq_imp_distinct_iff)
  then show "distinct (map fst (running_ids s) @ lost_ids evs)" by simp
qed

text \<open>A step for the pair \<open>i, j\<close> leaves what is known of the others.\<close>

lemma frame_pair:
  assumes "collection_frame i j d d'" "k \<noteq> i" "l \<noteq> j"
  shows "get_connector d' k = get_connector d k" "job_running d' l = job_running d l" "job_known d' l = job_known d l"
    "job_over d' l = job_over d l" "row_rested d' k = row_rested d k"
  using frameD(2,3) [OF assms(1)] assms(2,3) by (simp_all add: job_over_def row_rested_def)

text \<open>The data after a step for \<open>i, j\<close> that frames it, when the pair itself is accounted for.\<close>

lemma data_ok_step:
  assumes ok: "data_ok evs s" and frame: "collection_frame i j (ck_db (tk_world s)) (ck_db (tk_world s'))"
    and jobs: "job_store_ok (ck_db (tk_world s'))"
    and queue: "set (tk_queue s') \<subseteq> set (tk_queue s)"
    and books: "books_ok s0 evs' s'" and apart: "\<forall>p \<in> set (spawned evs'). p = (i, j) \<or> fst p \<noteq> i \<and> snd p \<noteq> j"
    and running: "set (running_ids s') \<subseteq> set (running_ids s) \<union> {(i, j)}"
    and inflight: "set (tk_inflight s') \<subseteq> set (tk_inflight s) \<union> {(i, j)}"
    and left: "set (spawned evs') - set (tk_inflight s') \<subseteq> (set (spawned evs) - set (tk_inflight s)) \<union> {(i, j)}"
    and own: "(i, j) \<in> set (running_ids s') \<Longrightarrow> job_running (ck_db (tk_world s')) j"
      "(i, j) \<in> set (tk_inflight s') \<Longrightarrow> get_connector (ck_db (tk_world s')) i \<noteq> None \<and> job_known (ck_db (tk_world s')) j"
      "(i, j) \<in> set (spawned evs') - set (tk_inflight s') \<Longrightarrow> job_over (ck_db (tk_world s')) j \<and> row_rested (ck_db (tk_world s')) i"
  shows "data_ok evs' s'"
proof -
  let ?d = "ck_db (tk_world s)" and ?d' = "ck_db (tk_world s')"
  note pair = frame_pair [OF frame]
  have sub: "set (running_ids s') \<subseteq> set (spawned evs')" "set (tk_inflight s') \<subseteq> set (spawned evs')"
    using books by (auto simp: books_ok_def)
  have others: "k \<noteq> i \<and> l \<noteq> j" if "(k, l) \<in> set (spawned evs')" "(k, l) \<noteq> (i, j)" for k l
    using apart that by fastforce
  have "\<forall>c \<in> set (tk_queue s'). get_connector ?d' (cn_id c) \<noteq> None"
    using ok queue frameD(4) [OF frame] unfolding data_ok_def Let_def by blast
  moreover have "job_running ?d' l" if kl: "(k, l) \<in> set (running_ids s')" for k l
  proof (cases "(k, l) = (i, j)")
    case False
    with others sub kl have "k \<noteq> i" "l \<noteq> j" by blast+
    moreover have "job_running ?d l" using ok running kl False unfolding data_ok_def Let_def by blast
    ultimately show ?thesis using pair(2) by simp
  qed (use own(1) kl in blast)
  moreover have "get_connector ?d' k \<noteq> None \<and> job_known ?d' l" if kl: "(k, l) \<in> set (tk_inflight s')" for k l
  proof (cases "(k, l) = (i, j)")
    case False
    with others sub kl have "k \<noteq> i" "l \<noteq> j" by blast+
    moreover have "get_connector ?d k \<noteq> None \<and> job_known ?d l" using ok inflight kl False unfolding data_ok_def Let_def by blast
    ultimately show ?thesis using pair(1,3) by simp
  qed (use own(2) kl in blast)
  moreover have "job_over ?d' l \<and> row_rested ?d' k" if kl: "(k, l) \<in> set (spawned evs') - set (tk_inflight s')" for k l
  proof (cases "(k, l) = (i, j)")
    case False
    with others kl have "k \<noteq> i" "l \<noteq> j" by blast+
    moreover have "job_over ?d l \<and> row_rested ?d k" using ok left kl False unfolding data_ok_def Let_def by blast
    ultimately show ?thesis using pair(4,5) by simp
  qed (use own(3) kl in blast)
  ultimately show ?thesis
    using frameD(1) [OF frame] jobs unfolding data_ok_def Let_def by blast
qed

lemma distinct_pairs:
  "distinct (map fst ps) \<Longrightarrow> distinct (map snd ps) \<Longrightarrow> (i, j) \<in> set ps \<Longrightarrow> p \<in> set ps \<Longrightarrow> p = (i, j) \<or> fst p \<noteq> i \<and> snd p \<noteq> j"
  by (induction ps) force+

lemma spawned_known:
  assumes "data_ok evs s" "(k, l) \<in> set (spawned evs)"
  shows "get_job (ck_db (tk_world s)) l \<noteq> None"
proof (cases "(k, l) \<in> set (tk_inflight s)")
  case True
  then have "job_known (ck_db (tk_world s)) l" using assms(1) unfolding data_ok_def Let_def by blast
  then show ?thesis by auto
next
  case False
  then have "job_over (ck_db (tk_world s)) l" using assms unfolding data_ok_def Let_def by blast
  then show ?thesis by (auto simp: job_over_def)
qed

lemma inv_spawn:
  assumes inv: "tick_inv cap s0 evs s" and s: "length (tk_running s) < cap" "tk_queue s = c # q"
    and fresh: "get_job (ck_db (tk_world s)) j = None" and w: "start_job now j c (tk_world s) = Inr w"
  shows "tick_inv cap s0 (evs @ [Spawned (cn_id c) j]) (s\<lparr>tk_world := w, tk_queue := q, tk_running := tk_running s @ [(c, kind, j)],
      tk_inflight := filter (\<lambda>p. fst p \<noteq> cn_id c) (tk_inflight s) @ [(cn_id c, j)]\<rparr>)"
    (is "tick_inv _ _ ?evs ?s")
proof -
  have books: "books_ok s0 evs s" and data: "data_ok evs s" and d0: "distinct (map cn_id (tk_queue s0))"
    using inv by (simp_all add: tick_inv_def)
  note d = books_distinct [OF books d0]
  have new: "cn_id c \<notin> fst ` set (spawned evs)" "cn_id c \<notin> cn_id ` set q" using d(1) s(2) by auto
  have jnew: "j \<notin> snd ` set (spawned evs)" using spawned_known [OF data] fresh by force
  have sub: "set (running_ids s) \<subseteq> set (tk_inflight s)" "set (tk_inflight s) \<subseteq> set (spawned evs)" using books by (auto simp: books_ok_def)
  have keep: "filter (\<lambda>p. fst p \<noteq> cn_id c) (tk_inflight s) = tk_inflight s"
    using new(1) sub(2) by (intro filter_True) force
  have db: "job_store_ok (ck_db (tk_world s))" "connectors_ok (ck_db (tk_world s))" using data by (simp_all add: data_ok_def Let_def)
  note e = start_job_effect [OF db fresh w]
  have row: "get_connector (ck_db (tk_world s)) (cn_id c) \<noteq> None" using data s(2) by (simp add: data_ok_def Let_def)
  have books': "books_ok s0 ?evs ?s"
    using books s(2) jnew unfolding books_ok_def by (simp add: keep) blast
  moreover have "data_ok ?evs ?s"
  proof (rule data_ok_step [OF data, of "cn_id c" j])
    show "collection_frame (cn_id c) j (ck_db (tk_world s)) (ck_db (tk_world ?s))" using e(1) by simp
    show "job_store_ok (ck_db (tk_world ?s))" using e(2) by simp
    show "books_ok s0 ?evs ?s" by (rule books')
    show "\<forall>p \<in> set (spawned ?evs). p = (cn_id c, j) \<or> fst p \<noteq> cn_id c \<and> snd p \<noteq> j" using new(1) jnew by force
    show "get_connector (ck_db (tk_world ?s)) (cn_id c) \<noteq> None \<and> job_known (ck_db (tk_world ?s)) j"
      using frameD(4) [OF e(1) row] e(3) by auto
  qed (use s(2) e(3) in \<open>auto simp: keep\<close>)
  ultimately show ?thesis using s(1) d0 by (simp add: tick_inv_def)
qed

lemma inv_refused:
  assumes inv: "tick_inv cap s0 evs s" and s: "tk_queue s = c # q"
  shows "tick_inv cap s0 (evs @ [Refused (cn_id c)]) (s\<lparr>tk_queue := q\<rparr>)"
  using inv s by (auto simp: tick_inv_def books_ok_def data_ok_def Let_def)

lemma inv_cancel:
  assumes "tick_inv cap s0 evs s"
  shows "tick_inv cap s0 (evs @ [Cancelling]) (s\<lparr>tk_draining := True\<rparr>)"
  using assms by (auto simp: tick_inv_def books_ok_def data_ok_def Let_def)

text \<open>A task that leaves the set: its pair, and what is left.\<close>

lemma leaving_pair:
  assumes inv: "tick_inv cap s0 evs s" and s: "tk_running s = xs @ (c, kind, j) # ys"
  shows "(cn_id c, j) \<in> set (tk_inflight s)" "(cn_id c, j) \<in> set (spawned evs)" "job_running (ck_db (tk_world s)) j"
    "get_connector (ck_db (tk_world s)) (cn_id c) \<noteq> None"
    "\<forall>p \<in> set (spawned evs). p = (cn_id c, j) \<or> fst p \<noteq> cn_id c \<and> snd p \<noteq> j"
    "(cn_id c, j) \<notin> set (map task_pair (xs @ ys))"
    "cn_id c \<notin> set (lost_ids evs)"
proof -
  have books: "books_ok s0 evs s" and data: "data_ok evs s" and d0: "distinct (map cn_id (tk_queue s0))"
    using inv by (simp_all add: tick_inv_def)
  note d = books_distinct [OF books d0]
  have run: "(cn_id c, j) \<in> set (running_ids s)" by (simp add: s)
  have sub: "set (running_ids s) \<subseteq> set (tk_inflight s)" "set (tk_inflight s) \<subseteq> set (spawned evs)"
    "distinct (map snd (spawned evs))" using books by (auto simp: books_ok_def)
  show in_inf: "(cn_id c, j) \<in> set (tk_inflight s)" and in_sp: "(cn_id c, j) \<in> set (spawned evs)" using run sub by blast+
  show "job_running (ck_db (tk_world s)) j" "get_connector (ck_db (tk_world s)) (cn_id c) \<noteq> None"
    using data run in_inf unfolding data_ok_def Let_def by blast+
  have "distinct (map fst (spawned evs))" using d(1) by simp
  from distinct_pairs [OF this sub(3) in_sp]
  show "\<forall>p \<in> set (spawned evs). p = (cn_id c, j) \<or> fst p \<noteq> cn_id c \<and> snd p \<noteq> j" by blast
  show "cn_id c \<notin> set (lost_ids evs)" using d(2) by (auto simp: s)
  have "cn_id c \<notin> fst ` set (map task_pair (xs @ ys))" using d(2) unfolding s by (simp add: image_Un image_image)
  then show "(cn_id c, j) \<notin> set (map task_pair (xs @ ys))" by force
qed

lemma inv_lost:
  assumes inv: "tick_inv cap s0 evs s" and s: "tk_running s = xs @ (c, kind, j) # ys"
    and lost: "lost_task (cn_id c) j (ck_db (tk_world s)) (ck_db w)"
  shows "tick_inv cap s0 (evs @ [Lost (cn_id c)]) (s\<lparr>tk_world := w, tk_running := xs @ ys\<rparr>)" (is "tick_inv _ _ ?evs ?s")
proof -
  have books: "books_ok s0 evs s" and data: "data_ok evs s" and d0: "distinct (map cn_id (tk_queue s0))"
    using inv by (simp_all add: tick_inv_def)
  note p = leaving_pair [OF inv s]
  have frame: "collection_frame (cn_id c) j (ck_db (tk_world s)) (ck_db w)" and js: "job_store_ok (ck_db w)" "job_known (ck_db w) j"
    using lost by (auto simp: lost_task_def)
  have sub: "set (tk_inflight s) \<subseteq> set (spawned evs)" using books by (simp add: books_ok_def)
  have books': "books_ok s0 ?evs ?s"
  proof -
    have "\<forall>p \<in> set (tk_inflight s). p \<in> set (running_ids s) \<or> fst p \<in> set (lost_ids evs)"
      using books unfolding books_ok_def by fastforce
    then have "\<forall>(i, l) \<in> set (tk_inflight s). (i, l) \<in> set (running_ids ?s) \<or> i \<in> set (lost_ids ?evs)"
      by (auto simp: s)
    then show ?thesis using books unfolding books_ok_def by (simp add: s)
  qed
  moreover have "data_ok ?evs ?s"
  proof (rule data_ok_step [OF data, of "cn_id c" j])
    show "books_ok s0 ?evs ?s" by (rule books')
    show "\<forall>p \<in> set (spawned ?evs). p = (cn_id c, j) \<or> fst p \<noteq> cn_id c \<and> snd p \<noteq> j" using p(5) by simp
    show "job_running (ck_db (tk_world ?s)) j" if "(cn_id c, j) \<in> set (running_ids ?s)" using p(6) that by simp
    show "job_over (ck_db (tk_world ?s)) j \<and> row_rested (ck_db (tk_world ?s)) (cn_id c)"
      if "(cn_id c, j) \<in> set (spawned ?evs) - set (tk_inflight ?s)" using that p(1) by simp
    show "get_connector (ck_db (tk_world ?s)) (cn_id c) \<noteq> None \<and> job_known (ck_db (tk_world ?s)) j"
      using frameD(4) [OF frame p(4)] js(2) by simp
  qed (use frame js in \<open>auto simp: s\<close>)
  ultimately show ?thesis using inv by (auto simp: tick_inv_def s)
qed

lemma inv_join:
  assumes inv: "tick_inv cap s0 evs s" and s: "tk_running s = xs @ (c, kind, j) # ys"
    and run: "execute_collect lib env kind c j (tk_world s) = (r, w)"
  shows "tick_inv cap s0 (evs @ [Joined (cn_id c)]) (record_join c r (s\<lparr>tk_world := w, tk_running := xs @ ys\<rparr>))"
    (is "tick_inv _ _ ?evs ?s")
proof -
  have books: "books_ok s0 evs s" and data: "data_ok evs s" and d0: "distinct (map cn_id (tk_queue s0))"
    using inv by (simp_all add: tick_inv_def)
  note p = leaving_pair [OF inv s]
  have db: "connectors_ok (ck_db (tk_world s))" "job_store_ok (ck_db (tk_world s))" using data by (simp_all add: data_ok_def Let_def)
  obtain jb where "get_job (ck_db (tk_world s)) j = Some jb" "j_status jb = Running" using p(3) by blast
  note ends = execute_collect_ends [OF db p(4) this run]
  have sub: "set (tk_inflight s) \<subseteq> set (spawned evs)" using books by (simp add: books_ok_def)
  have sel: "tk_world ?s = w" "tk_queue ?s = tk_queue s" "tk_running ?s = xs @ ys"
    "tk_inflight ?s = filter (\<lambda>p. fst p \<noteq> cn_id c) (tk_inflight s)"
    "length (tk_results ?s) + tc_collect_failed (tk_counts ?s) = length (tk_results s) + tc_collect_failed (tk_counts s) + 1"
    by (cases r; simp add: record_join_def Let_def)+
  have keep: "set (tk_inflight ?s) = set (tk_inflight s) - {(cn_id c, j)}"
    using p(5) sub by (auto simp: sel(4))
  have left: "set (running_ids ?s) = set (running_ids s) - {(cn_id c, j)}"
    using p(6) by (auto simp: sel(3) s)
  have "mset (map fst (running_ids s)) = mset (map fst (running_ids ?s)) + {#cn_id c#}" by (simp add: s sel(3))
  then have books': "books_ok s0 ?evs ?s"
    using books unfolding books_ok_def keep left sel(2,5) by (simp add: Ball_def) blast
  moreover have "data_ok ?evs ?s"
  proof (rule data_ok_step [OF data, of "cn_id c" j])
    show "books_ok s0 ?evs ?s" by (rule books')
    show "\<forall>p \<in> set (spawned ?evs). p = (cn_id c, j) \<or> fst p \<noteq> cn_id c \<and> snd p \<noteq> j" using p(5) by simp
    show "job_running (ck_db (tk_world ?s)) j" if "(cn_id c, j) \<in> set (running_ids ?s)" using p(6) that unfolding sel(3) by simp
    show "job_over (ck_db (tk_world ?s)) j \<and> row_rested (ck_db (tk_world ?s)) (cn_id c)" using ends(2,3) by (simp add: sel(1))
    show "job_store_ok (ck_db (tk_world ?s))" using execute_collect_store_ok [OF db p(4) run] by (simp add: sel(1))
    show "collection_frame (cn_id c) j (ck_db (tk_world s)) (ck_db (tk_world ?s))" using ends(1) by (simp add: sel(1))
    show "get_connector (ck_db (tk_world ?s)) (cn_id c) \<noteq> None \<and> job_known (ck_db (tk_world ?s)) j"
      if "(cn_id c, j) \<in> set (tk_inflight ?s)" using that unfolding keep by blast
    show "set (running_ids ?s) \<subseteq> set (running_ids s) \<union> {(cn_id c, j)}" by (auto simp: sel(3) s)
  qed (use keep in \<open>auto simp: sel(2)\<close>)
  ultimately show ?thesis using inv by (auto simp: tick_inv_def s sel(3))
qed

lemma inv_step:
  assumes "tick_inv cap s0 evs s" "tick_step lib cap s ev s'"
  shows "tick_inv cap s0 (evs @ [ev]) s'"
  using assms(2,1) by cases (auto intro: inv_spawn inv_refused inv_join inv_lost inv_cancel)

lemma inv_run:
  assumes "tick_run lib cap s0 evs s" "tick_inv cap s0 [] s0"
  shows "tick_inv cap s0 evs s"
  using assms by (induction rule: tick_run.induct) (auto intro: inv_step)

lemma inv_start:
  assumes "connectors_ok (ck_db (tk_world s0))" "job_store_ok (ck_db (tk_world s0))" "distinct (map cn_id (tk_queue s0))"
    and "\<forall>c \<in> set (tk_queue s0). get_connector (ck_db (tk_world s0)) (cn_id c) \<noteq> None"
    and "tk_running s0 = []" "tk_inflight s0 = []"
  shows "tick_inv cap s0 [] s0"
  using assms by (simp add: tick_inv_def books_ok_def data_ok_def Let_def)

section \<open>The end of a tick\<close>

lemma end_job_cancel:
  assumes "connectors_ok (ck_db w)" "job_store_ok (ck_db w)" "job_known (ck_db w) j"
  shows "collection_frame i j (ck_db w) (ck_db (end_job now j Cancelled err w))" "job_over (ck_db (end_job now j Cancelled err w)) j"
    "db_connectors (ck_db (end_job now j Cancelled err w)) = db_connectors (ck_db w)"
proof -
  obtain jb where jb: "get_job (ck_db w) j = Some jb" "j_status jb \<in> {Running, Completed, Failed}" using assms(3) by blast
  with assms(2) have id: "j_id jb = j" by (auto dest: job_store_okD)
  consider (keep) "end_job now j Cancelled err w = w" "j_status jb = Completed"
    | (cancelled) jb' where "end_job now j Cancelled err w = ck_set_db ((ck_db w)\<lparr>db_jobs := tbl_put j jb' (db_jobs (ck_db w))\<rparr>) w"
        "j_status jb' = Cancelled"
  proof (cases "j_status jb = Completed")
    case True
    then have "end_job now j Cancelled err w = w" by (simp add: end_job_def job_transition_cases jb(1) apply_transition_def)
    with True that(1) show ?thesis by blast
  next
    case False
    with jb obtain jb' where t: "apply_transition now jb Cancelled err = Inr jb'" "j_status jb' = Cancelled" "j_id jb' = j"
      by (auto simp: apply_transition_def id)
    with jb(1) have "end_job now j Cancelled err w = ck_set_db ((ck_db w)\<lparr>db_jobs := tbl_put j jb' (db_jobs (ck_db w))\<rparr>) w"
      by (simp add: end_job_def job_transition_cases js_put_job_def put_job_def ck_set_db_def)
    with t that(2) show ?thesis by blast
  qed
  then have "collection_frame i j (ck_db w) (ck_db (end_job now j Cancelled err w)) \<and> job_over (ck_db (end_job now j Cancelled err w)) j \<and>
    db_connectors (ck_db (end_job now j Cancelled err w)) = db_connectors (ck_db w)"
  proof cases
    case keep
    with assms(1) jb(1) show ?thesis
      by (cases "get_connector (ck_db w) i") (simp_all add: collection_frame_def job_over_def)
  next
    case cancelled
    with assms(1) show ?thesis
      by (cases "get_connector (ck_db w) i") (simp_all add: collection_frame_def job_over_def get_job_def)
  qed
  then show "collection_frame i j (ck_db w) (ck_db (end_job now j Cancelled err w))" "job_over (ck_db (end_job now j Cancelled err w)) j"
    "db_connectors (ck_db (end_job now j Cancelled err w)) = db_connectors (ck_db w)" by blast+
qed

lemma finish_one_effect:
  assumes "connectors_ok (ck_db w)" "job_store_ok (ck_db w)" "job_known (ck_db w) j" "get_connector (ck_db w) i \<noteq> None"
  shows "collection_frame i j (ck_db w) (ck_db (finish_one_aborted now (i, j) w))" "job_store_ok (ck_db (finish_one_aborted now (i, j) w))"
    "job_over (ck_db (finish_one_aborted now (i, j) w)) j" "row_rested (ck_db (finish_one_aborted now (i, j) w)) i"
proof -
  let ?v = "end_job now j Cancelled (Some ABORT_JOB_ERROR) w"
  let ?u = "no_update\<lparr>ru_status := Some ''idle'', ru_checkpoint := CpMerge (JObject [(''last_error'', JString ABORT_JOB_ERROR)])\<rparr>"
  note e = end_job_cancel [OF assms(1-3), where now = now and err = "Some ABORT_JOB_ERROR"]
  obtain row where row: "get_connector (ck_db ?v) i = Some row"
    using assms(4) e(3) by (auto simp: get_connector_def)
  have "validate_run_state ?u = Inr ()" by (simp add: validate_run_state_def no_update_def)
  from store_run_state_run [OF row this]
  have run: "finish_one_aborted now (i, j) w = ck_set_db (set_row i (updated ?u row) (ck_db ?v)) ?v"
    by (simp add: finish_one_aborted_def ignore_error_def Let_def)
  show "collection_frame i j (ck_db w) (ck_db (finish_one_aborted now (i, j) w))"
    using collection_frame_row [OF e(1) row, of ?u] by (simp add: run)
  show "job_store_ok (ck_db (finish_one_aborted now (i, j) w))"
    using end_job_store_ok [OF assms(2)] job_store_ok_cong [of "ck_db (finish_one_aborted now (i, j) w)" "ck_db ?v"] by (simp add: run)
  show "job_over (ck_db (finish_one_aborted now (i, j) w)) j" using e(2) by (simp add: run job_over_def)
  show "row_rested (ck_db (finish_one_aborted now (i, j) w)) i"
    by (simp add: run row_rested_def get_connector_def sql_run_state_def no_update_def coalesce_def)
qed

lemma finish_aborted_effect:
  assumes "connectors_ok (ck_db w)" "job_store_ok (ck_db w)" "distinct (map fst ps)" "distinct (map snd ps)"
    and "\<forall>(i, j) \<in> set ps. job_known (ck_db w) j \<and> get_connector (ck_db w) i \<noteq> None"
  shows "(\<forall>(i, j) \<in> set ps. job_over (ck_db (finish_aborted now ps w)) j \<and> row_rested (ck_db (finish_aborted now ps w)) i) \<and>
    (\<forall>i j. i \<notin> fst ` set ps \<longrightarrow> j \<notin> snd ` set ps \<longrightarrow>
       job_over (ck_db (finish_aborted now ps w)) j = job_over (ck_db w) j \<and>
       row_rested (ck_db (finish_aborted now ps w)) i = row_rested (ck_db w) i)"
  using assms
proof (induction ps arbitrary: w)
  case Nil
  then show ?case by (simp add: finish_aborted_def)
next
  case (Cons p ps)
  obtain i j where p: "p = (i, j)" by (cases p)
  let ?v = "finish_one_aborted now (i, j) w" and ?fin = "finish_aborted now (p # ps) w"
  have step: "?fin = finish_aborted now ps ?v" by (simp add: finish_aborted_def p)
  have known: "job_known (ck_db w) j" "get_connector (ck_db w) i \<noteq> None" using Cons.prems(5) p by auto
  note e = finish_one_effect [OF Cons.prems(1,2) this, where now = now]
  have rest: "k \<noteq> i" "l \<noteq> j" if "(k, l) \<in> set ps" for k l using Cons.prems(3,4) that p by force+
  have pairs: "\<forall>(k, l) \<in> set ps. job_known (ck_db ?v) l \<and> get_connector (ck_db ?v) k \<noteq> None"
  proof (intro ballI, clarify)
    fix k l assume kl: "(k, l) \<in> set ps"
    have "job_known (ck_db w) l \<and> get_connector (ck_db w) k \<noteq> None" using Cons.prems(5) kl by fastforce
    with frame_pair(1,3) [OF e(1) rest [OF kl]] show "job_known (ck_db ?v) l \<and> get_connector (ck_db ?v) k \<noteq> None" by simp
  qed
  have "distinct (map fst ps)" "distinct (map snd ps)" using Cons.prems(3,4) by simp_all
  note ih = Cons.IH [OF frameD(1) [OF e(1)] e(2) this pairs, folded step]
  have out: "i \<notin> fst ` set ps" "j \<notin> snd ` set ps" using Cons.prems(3,4) p by auto
  with ih e(3,4) have "job_over (ck_db ?fin) j \<and> row_rested (ck_db ?fin) i" by blast
  moreover have "job_over (ck_db ?fin) l = job_over (ck_db w) l \<and> row_rested (ck_db ?fin) k = row_rested (ck_db w) k"
    if "k \<notin> fst ` set (p # ps)" "l \<notin> snd ` set (p # ps)" for k l
  proof -
    have "k \<noteq> i" "l \<noteq> j" "k \<notin> fst ` set ps" "l \<notin> snd ` set ps" using that p by auto
    with ih frame_pair(4,5) [OF e(1) \<open>k \<noteq> i\<close> \<open>l \<noteq> j\<close>] show ?thesis by simp
  qed
  ultimately show ?case using ih p by simp
qed

text \<open>Draining stops the dispatch, and every tick ends.\<close>

lemma record_join_sel [simp]:
  "tk_queue (record_join c r s) = tk_queue s" "tk_running (record_join c r s) = tk_running s"
  "tk_draining (record_join c r s) = tk_draining s"
  "tk_inflight (record_join c r s) = filter (\<lambda>p. fst p \<noteq> cn_id c) (tk_inflight s)"
  by (cases r; simp add: record_join_def Let_def)+

lemma draining_step: "tick_step lib cap s ev s' \<Longrightarrow> (tk_draining s \<longrightarrow> tk_draining s') \<and> (ev = Cancelling \<longrightarrow> tk_draining s') \<and>
    (tk_draining s \<longrightarrow> spawned [ev] = [])"
  by (erule tick_step.cases) simp_all

lemma draining_run:
  assumes "tick_run lib cap s0 evs s"
  shows "(Cancelling \<in> set evs \<longrightarrow> tk_draining s) \<and> (\<forall>xs ys. evs = xs @ Cancelling # ys \<longrightarrow> spawned ys = [])"
  using assms
proof (induction rule: tick_run.induct)
  case (more evs s ev s')
  note d = draining_step [OF more.hyps(2)]
  have "spawned ys = []" if ys: "evs @ [ev] = xs @ Cancelling # ys" for xs ys
  proof (cases ys rule: rev_cases)
    case (snoc ys' e)
    with ys have split: "evs = xs @ Cancelling # ys'" "e = ev" by (auto simp flip: append_Cons append_assoc)
    then have "spawned ys' = []" "tk_draining s" using more.IH by auto
    with d snoc split(2) show ?thesis by simp
  qed simp
  with d more.IH show ?case by auto
qed simp

definition tick_measure :: "tick_state \<Rightarrow> nat" where
  "tick_measure s = 2 * length (tk_queue s) + length (tk_running s) + (if tk_draining s then 0 else 1)"

lemma measure_step: "tick_step lib cap s ev s' \<Longrightarrow> tick_measure s' < tick_measure s"
  by (erule tick_step.cases) (simp_all add: tick_measure_def)

lemma measure_run: "tick_run lib cap s0 evs s \<Longrightarrow> length evs + tick_measure s \<le> tick_measure s0"
  by (induction rule: tick_run.induct) (auto dest: measure_step)

lemma step_exists:
  assumes "\<not> tick_over s" "0 < cap"
  shows "\<exists>ev s'. tick_step lib cap s ev s'"
proof (cases "tk_running s")
  case Nil
  with assms obtain c q where "tk_queue s = c # q" "\<not> tk_draining s" by (auto simp: tick_over_def neq_Nil_conv)
  with Nil assms(2) tick_step.refused [of s cap c q lib] show ?thesis by auto
next
  case (Cons t ts)
  obtain c kind j where t: "t = (c, kind, j)" by (cases t)
  obtain env r w where "execute_collect lib env kind c j (tk_world s) = (r, w)" by (meson surj_pair)
  from tick_step.join [of s "[]" c kind j ts lib env r w cap] Cons t this show ?thesis by auto
qed

section \<open>One tick, whatever happens\<close>

definition tick_start_ok :: "tick_state \<Rightarrow> bool" where
  "tick_start_ok s \<longleftrightarrow> connectors_ok (ck_db (tk_world s)) \<and> job_store_ok (ck_db (tk_world s)) \<and>
     distinct (map cn_id (tk_queue s)) \<and> (\<forall>c \<in> set (tk_queue s). get_connector (ck_db (tk_world s)) (cn_id c) \<noteq> None) \<and>
     tk_running s = [] \<and> tk_inflight s = []"

lemma tick_run_inv: "tick_start_ok s0 \<Longrightarrow> tick_run lib cap s0 evs s \<Longrightarrow> tick_inv cap s0 evs s"
  by (rule inv_run [OF _ inv_start]) (simp_all add: tick_start_ok_def)

lemma inflight_step:
  assumes "tick_step lib cap s ev s'" "distinct (map fst (tk_inflight s))"
  shows "distinct (map fst (tk_inflight s'))"
  using assms by cases (auto simp: distinct_map_filter)

lemma inflight_distinct:
  "tick_run lib cap s0 evs s \<Longrightarrow> distinct (map fst (tk_inflight s0)) \<Longrightarrow> distinct (map fst (tk_inflight s))"
  by (induction rule: tick_run.induct) (auto intro: inflight_step)

lemma distinct_sub_pairs:
  assumes "distinct (map fst ps)" "set ps \<subseteq> set qs" "distinct (map fst qs)" "distinct (map snd qs)"
  shows "distinct (map snd ps)"
proof -
  have "inj_on snd (set ps)" using assms(2,4) by (auto simp: distinct_map intro: inj_on_subset)
  with assms(1) show ?thesis by (simp add: distinct_map)
qed

lemma tick_loop_invariant_parts:
  assumes "tick_start_ok s0" "tick_run lib cap s0 evs s"
  shows "length (tk_running s) \<le> cap \<and> distinct (map fst (running_ids s))"
    and "\<forall>(i, j) \<in> set (running_ids s). job_running (ck_db (tk_world s)) j"
    and "mset (map cn_id (tk_queue s0)) = mset (map cn_id (tk_queue s)) + mset (refused_ids evs) + mset (map fst (running_ids s)) +
      mset (joined_ids evs) + mset (lost_ids evs)"
    and "length (tk_results s) + tc_collect_failed (tk_counts s) =
      length (tk_results s0) + tc_collect_failed (tk_counts s0) + length (joined_ids evs)"
    and "evs = xs @ Cancelling # ys \<Longrightarrow> spawned ys = []"
proof -
  from tick_run_inv [OF assms] have inv: "tick_inv cap s0 evs s" .
  then have b: "books_ok s0 evs s" "distinct (map cn_id (tk_queue s0))" "data_ok evs s" by (simp_all add: tick_inv_def)
  from inv books_distinct(2) [OF b(1,2)] show "length (tk_running s) \<le> cap \<and> distinct (map fst (running_ids s))"
    by (simp add: tick_inv_def)
  from b(3) show "\<forall>(i, j) \<in> set (running_ids s). job_running (ck_db (tk_world s)) j" unfolding data_ok_def Let_def by blast
  have "mset (map cn_id (tk_queue s0)) = mset (map cn_id (tk_queue s)) + mset (refused_ids evs) + mset (map fst (spawned evs))"
    "mset (map fst (spawned evs)) = mset (map fst (running_ids s)) + mset (joined_ids evs) + mset (lost_ids evs)"
    using b(1) unfolding books_ok_def by blast+
  then show "mset (map cn_id (tk_queue s0)) = mset (map cn_id (tk_queue s)) + mset (refused_ids evs) + mset (map fst (running_ids s)) +
      mset (joined_ids evs) + mset (lost_ids evs)" by (simp add: union_assoc)
  show "length (tk_results s) + tc_collect_failed (tk_counts s) =
      length (tk_results s0) + tc_collect_failed (tk_counts s0) + length (joined_ids evs)"
    using b(1) unfolding books_ok_def by blast
  show "spawned ys = []" if "evs = xs @ Cancelling # ys" using draining_run [OF assms(2)] that by blast
qed

text \<open>
  C39: the loop of a tick, at every moment: the collections that run are at most the cap, each for another
  connector and with its job running; every connector is waiting, refused, or spawned, and a spawned one
  runs, was joined, or was lost, none twice; the results and the failures count the joined ones;
  and nothing is spawned after the shutdown token was seen.
\<close>

theorem tick_loop_invariant:
  assumes "tick_start_ok s0" "tick_run lib cap s0 evs s"
  shows "length (tk_running s) \<le> cap \<and> distinct (map fst (running_ids s)) \<and>
    (\<forall>(i, j) \<in> set (running_ids s). job_running (ck_db (tk_world s)) j) \<and>
    mset (map cn_id (tk_queue s0)) = mset (map cn_id (tk_queue s)) + mset (refused_ids evs) + mset (map fst (running_ids s)) +
      mset (joined_ids evs) + mset (lost_ids evs) \<and>
    length (tk_results s) + tc_collect_failed (tk_counts s) =
      length (tk_results s0) + tc_collect_failed (tk_counts s0) + length (joined_ids evs) \<and>
    (\<forall>xs ys. evs = xs @ Cancelling # ys \<longrightarrow> spawned ys = [])"
  using tick_loop_invariant_parts [OF assms] by blast


lemma tick_ends_parts:
  assumes "tick_run lib cap s0 evs s" "0 < cap"
  shows "length evs \<le> 2 * length (tk_queue s0) + length (tk_running s0) + 1"
    and "\<not> tick_over s \<Longrightarrow> \<exists>ev s'. tick_step lib cap s ev s'"
  using measure_run [OF assms(1)] step_exists [OF _ assms(2)] by (auto simp: tick_measure_def split: if_splits)

text \<open>
  a tick ends. It takes at most two steps for each dispatched connector and one for the
  shutdown, and as long as it is not over a step is possible.
\<close>

theorem tick_ends:
  assumes "tick_run lib cap s0 evs s" "0 < cap"
  shows "length evs \<le> 2 * length (tk_queue s0) + length (tk_running s0) + 1 \<and>
    (\<not> tick_over s \<longrightarrow> (\<exists>ev s'. tick_step lib cap s ev s'))"
  using tick_ends_parts [OF assms] by blast

section \<open>A concrete tick\<close>

definition sample_tick :: tick_state where
  "sample_tick = start_tick [sample_connector 7 ''rss'']
     \<lparr>pl_results = [], pl_due = [], pl_counts = zero_counts, pl_world = sample_collector\<rparr> False"

lemma sample_tick_ok: "tick_start_ok sample_tick"
  using sample_collector_ok sample_collector_sel(2)
  by (simp add: tick_start_ok_def sample_tick_def start_tick_def sample_connector_def)

lemma sample_tick_run:
  "\<exists>s. tick_run sample_run_lib 1 sample_tick [Spawned 7 6, Joined 7, Cancelling] s \<and> tick_over s \<and> tk_draining s"
proof -
  let ?c = "sample_connector 7 ''rss''"
  have c: "cn_id ?c = 7" "cn_type ?c = ''rss''" by (simp_all add: sample_connector_def)
  have start: "tk_queue sample_tick = [?c]" "\<not> tk_draining sample_tick" "tk_running sample_tick = []" "tk_world sample_tick = sample_collector"
    by (simp_all add: sample_tick_def start_tick_def)
  have fresh: "get_job (ck_db (tk_world sample_tick)) 6 = None"
    by (simp add: start sample_collector_def get_job_def tbl_get_def)
  obtain w where w: "start_job 50 6 ?c (tk_world sample_tick) = Inr w"
    by (auto simp: start_job_def create_job_def op_bind_def js_put_job_def put_job_def Let_def)
  let ?s1 = "sample_tick\<lparr>tk_world := w, tk_queue := [], tk_running := tk_running sample_tick @ [(?c, RssOrAtom, 6)],
      tk_inflight := filter (\<lambda>p. fst p \<noteq> cn_id ?c) (tk_inflight sample_tick) @ [(cn_id ?c, 6)]\<rparr>"
  have 1: "tick_step sample_run_lib 1 sample_tick (Spawned 7 6) ?s1"
    using tick_step.spawn [OF start(2) _ start(1) _ fresh w, of 1 RssOrAtom sample_run_lib] sample_classify(1) by (simp add: c start(3))
  obtain r v where r: "execute_collect sample_run_lib (sample_run_env True) RssOrAtom ?c 6 (tk_world ?s1) = (r, v)" by fastforce
  let ?s2 = "record_join ?c r (?s1\<lparr>tk_world := v, tk_running := [] @ []\<rparr>)"
  have 2: "tick_step sample_run_lib 1 ?s1 (Joined 7) ?s2"
    using tick_step.join [where s = ?s1 and xs = "[]" and ys = "[]" and cap = 1, OF _ r] by (simp add: c start(3))
  have 3: "tick_step sample_run_lib 1 ?s2 Cancelling (?s2\<lparr>tk_draining := True\<rparr>)"
    by (rule tick_step.cancel) (simp add: start(2))
  have "tick_run sample_run_lib 1 sample_tick ((([] @ [Spawned 7 6]) @ [Joined 7]) @ [Cancelling]) (?s2\<lparr>tk_draining := True\<rparr>)"
    by (intro tick_run.more [OF _ 3] tick_run.more [OF _ 2] tick_run.more [OF _ 1] tick_run.start)
  moreover have "tick_over (?s2\<lparr>tk_draining := True\<rparr>)" by (simp add: tick_over_def)
  ultimately show ?thesis by auto
qed

theorem tick_loop_invariant_witness:
  "\<exists>s. tick_run sample_run_lib 1 sample_tick [Spawned 7 6, Joined 7, Cancelling] s \<and>
     length (tk_results s) + tc_collect_failed (tk_counts s) = 1"
proof -
  obtain s where s: "tick_run sample_run_lib 1 sample_tick [Spawned 7 6, Joined 7, Cancelling] s" using sample_tick_run by blast
  from tick_loop_invariant [OF sample_tick_ok s] s show ?thesis
    by (auto simp: sample_tick_def start_tick_def zero_counts_def)
qed


theorem tick_ends_witness:
  "length [Spawned 7 6, Joined 7, Cancelling] \<le> 3 \<and> (\<exists>ev s'. tick_step sample_run_lib 1 sample_tick ev s')"
proof -
  obtain s where s: "tick_run sample_run_lib 1 sample_tick [Spawned 7 6, Joined 7, Cancelling] s" using sample_tick_run by blast
  have "\<not> tick_over sample_tick" by (simp add: tick_over_def sample_tick_def start_tick_def)
  from tick_ends [where lib = sample_run_lib and cap = 1, OF tick_run.start [where ?s0.0 = sample_tick]] tick_ends [OF s] this show ?thesis
    by (auto simp: sample_tick_def start_tick_def)
qed

end
