(* ===== verification/SimHash.thy ===== *)
theory SimHash
  imports Prelude "HOL-Library.Multiset"
begin

unbundle bit_operations_syntax

text \<open>
  The near-duplicate fingerprint, \<open>crates/deduplicator/src/simhash.rs\<close>. A text is a list of characters of some type: the
  Unicode tables behind \<open>is_alphanumeric\<close> and \<open>to_lowercase\<close>, and SHA-256, are parameters. A fingerprint
  is kept as the 64 bits that the code stores in an \<open>i64\<close>.
\<close>

record 'c text_lib =
  tx_alphanumeric :: "'c \<Rightarrow> bool"
  tx_lowercase :: "'c list \<Rightarrow> 'c list"
  tx_token_hash :: "'c list \<Rightarrow> 64 word"

definition DEFAULT_MAX_DISTANCE :: nat where "DEFAULT_MAX_DISTANCE = 3"
definition MIN_TOKENS :: nat where "MIN_TOKENS = 16"

section \<open>Tokens\<close>

text \<open>\<open>str::split\<close> with a predicate: the pieces between the separators, empty ones included.\<close>

fun split_where :: "('c \<Rightarrow> bool) \<Rightarrow> 'c list \<Rightarrow> 'c list list" where
  "split_where P [] = [[]]"
| "split_where P (c # cs) =
     (if P c then [] # split_where P cs
      else case split_where P cs of
             piece # rest \<Rightarrow> (c # piece) # rest
           | [] \<Rightarrow> [[c]])"

definition tokenize :: "'c text_lib \<Rightarrow> 'c list \<Rightarrow> 'c list list" where
  "tokenize lib text =
     map (tx_lowercase lib) (filter (\<lambda>t. 1 < length t) (split_where (\<lambda>c. \<not> tx_alphanumeric lib c) text))"

section \<open>The fingerprint\<close>

text \<open>One signed counter for each bit: the token's hash adds or subtracts one.\<close>

definition add_token :: "64 word \<Rightarrow> int list \<Rightarrow> int list" where
  "add_token h weights = map (\<lambda>(b, w). if bit h b then w + 1 else w - 1) (enumerate 0 weights)"

definition set_positive :: "nat \<times> int \<Rightarrow> 64 word \<Rightarrow> 64 word" where
  "set_positive = (\<lambda>(b, w) out. if 0 < w then out OR push_bit b 1 else out)"

definition fingerprint_of_tokens :: "'c text_lib \<Rightarrow> 'c list list \<Rightarrow> 64 word" where
  "fingerprint_of_tokens lib tokens =
     fold set_positive (enumerate 0 (fold (\<lambda>t. add_token (tx_token_hash lib t)) tokens (replicate 64 0))) 0"

definition fingerprint :: "'c text_lib \<Rightarrow> 'c list \<Rightarrow> 64 word option" where
  "fingerprint lib text =
     (let tokens = tokenize lib text
      in if length tokens < MIN_TOKENS then None else Some (fingerprint_of_tokens lib tokens))"

definition count_ones :: "64 word \<Rightarrow> nat" where
  "count_ones w = length (filter (bit w) [0..<64])"

definition hamming_distance :: "64 word \<Rightarrow> 64 word \<Rightarrow> nat" where
  "hamming_distance a b = count_ones (a XOR b)"

definition similarity :: "nat \<Rightarrow> rat" where
  "similarity distance = 1 - of_nat (min distance 64) / 64"

section \<open>What the bits say\<close>

lemma length_add_token [simp]: "length (add_token h ws) = length ws"
  by (simp add: add_token_def)

lemma nth_add_token: "b < length ws \<Longrightarrow> add_token h ws ! b = (if bit h b then ws ! b + 1 else ws ! b - 1)"
  by (simp add: add_token_def nth_enumerate_eq)

lemma length_weights: "length (fold (\<lambda>t. add_token (tx_token_hash lib t)) ts ws) = length ws"
  by (induction ts arbitrary: ws) auto

lemma weights_at:
  "b < length ws \<Longrightarrow> fold (\<lambda>t. add_token (tx_token_hash lib t)) ts ws ! b =
     ws ! b + 2 * int (length (filter (\<lambda>t. bit (tx_token_hash lib t) b) ts)) - int (length ts)"
  by (induction ts arbitrary: ws) (auto simp: nth_add_token)

lemma bit_set_positive:
  "fst p < 64 \<Longrightarrow> bit (set_positive p out) b \<longleftrightarrow> bit out b \<or> b = fst p \<and> 0 < snd p"
  by (cases p) (auto simp: set_positive_def bit_simps)

lemma bit_set_all:
  "\<forall>p \<in> set ps. fst p < 64 \<Longrightarrow> bit (fold set_positive ps out) b \<longleftrightarrow> bit out b \<or> (\<exists>p \<in> set ps. b = fst p \<and> 0 < snd p)"
  by (induction ps arbitrary: out) (auto simp: bit_set_positive)

lemma bit_fingerprint:
  "bit (fingerprint_of_tokens lib ts) b \<longleftrightarrow> b < 64 \<and> length ts < 2 * length (filter (\<lambda>t. bit (tx_token_hash lib t) b) ts)"
proof -
  let ?ws = "fold (\<lambda>t. add_token (tx_token_hash lib t)) ts (replicate 64 0)"
  have len: "length ?ws = 64" by (simp add: length_weights)
  have "bit (fingerprint_of_tokens lib ts) b \<longleftrightarrow> (\<exists>p \<in> set (enumerate 0 ?ws). b = fst p \<and> 0 < snd p)"
    unfolding fingerprint_of_tokens_def by (subst bit_set_all) (auto simp: in_set_enumerate_eq len)
  also have "\<dots> \<longleftrightarrow> b < 64 \<and> 0 < ?ws ! b"
    by (auto simp: in_set_enumerate_eq len intro!: bexI [of _ "(b, ?ws ! b)"])
  also have "\<dots> \<longleftrightarrow> b < 64 \<and> length ts < 2 * length (filter (\<lambda>t. bit (tx_token_hash lib t) b) ts)"
    by (auto simp: weights_at)
  finally show ?thesis .
qed

lemma hamming_set: "hamming_distance a b = card {i. i < 64 \<and> bit a i \<noteq> bit b i}"
proof -
  have "hamming_distance a b = card (set (filter (bit (a XOR b)) [0..<64]))"
    unfolding hamming_distance_def count_ones_def by (rule distinct_card [symmetric]) simp
  also have "set (filter (bit (a XOR b)) [0..<64]) = {i. i < 64 \<and> bit a i \<noteq> bit b i}"
    by (auto simp: bit_simps)
  finally show ?thesis .
qed

lemma hamming_triangle: "hamming_distance a c \<le> hamming_distance a b + hamming_distance b c"
proof -
  have "{i. i < 64 \<and> bit a i \<noteq> bit c i} \<subseteq> {i. i < 64 \<and> bit a i \<noteq> bit b i} \<union> {i. i < 64 \<and> bit b i \<noteq> bit c i}" by auto
  then have "card {i. i < 64 \<and> bit a i \<noteq> bit c i} \<le> card ({i. i < 64 \<and> bit a i \<noteq> bit b i} \<union> {i. i < 64 \<and> bit b i \<noteq> bit c i})"
    by (intro card_mono) auto
  also have "\<dots> \<le> card {i. i < 64 \<and> bit a i \<noteq> bit b i} + card {i. i < 64 \<and> bit b i \<noteq> bit c i}" by (rule card_Un_le)
  finally show ?thesis by (simp add: hamming_set)
qed

lemma hamming_zero: "hamming_distance a b = 0 \<longleftrightarrow> a = b"
proof
  assume "hamming_distance a b = 0"
  then have "\<forall>i < 64. bit a i = bit b i" by (auto simp: hamming_set)
  then show "a = b" by (intro bit_word_eqI) simp
qed (simp add: hamming_set)

text \<open>
  the fingerprint of at least sixteen tokens has exactly those bits set that are set in the hash of
  more than half of the tokens, so it does not depend on their order; and the distance of two fingerprints is a metric
  with values up to 64, so that texts with the same words are at distance zero.
\<close>

theorem fingerprint_majority:
  assumes "MIN_TOKENS \<le> length (tokenize lib text)" "mset (tokenize lib text) = mset (tokenize lib text')"
  shows "\<exists>f. fingerprint lib text = Some f \<and> fingerprint lib text' = Some f \<and>
    (\<forall>b. bit f b \<longleftrightarrow> b < 64 \<and>
       length (tokenize lib text) < 2 * length (filter (\<lambda>t. bit (tx_token_hash lib t) b) (tokenize lib text))) \<and>
    (\<forall>g h. hamming_distance f g \<le> 64 \<and> hamming_distance f g = hamming_distance g f \<and>
       (hamming_distance f g = 0 \<longleftrightarrow> f = g) \<and> hamming_distance f h \<le> hamming_distance f g + hamming_distance g h)"
proof -
  let ?ts = "tokenize lib text" and ?ts' = "tokenize lib text'"
  have len: "length ?ts' = length ?ts" "length (filter P ?ts') = length (filter P ?ts)" for P
    using assms(2) by (metis mset_eq_length, metis mset_filter mset_eq_length)
  have "fingerprint_of_tokens lib ?ts' = fingerprint_of_tokens lib ?ts"
    by (rule bit_eqI) (simp add: bit_fingerprint len)
  moreover have "hamming_distance f g \<le> 64" for f g
    using card_mono [of "{..<64}" "{i. i < 64 \<and> bit f i \<noteq> bit g i}"] by (auto simp: hamming_set)
  moreover have "hamming_distance f g = hamming_distance g f" for f g
    by (simp add: hamming_distance_def xor.commute)
  ultimately show ?thesis
    using assms(1) len(1) by (simp add: fingerprint_def Let_def bit_fingerprint hamming_zero hamming_triangle)
qed

text \<open>Sixteen words of two letters, and the same words in another order.\<close>

definition ascii_text :: "char text_lib" where
  "ascii_text = \<lparr>tx_alphanumeric = (\<lambda>c. c \<noteq> CHR '' ''), tx_lowercase = to_ascii_lowercase,
     tx_token_hash = (\<lambda>t. if t = ''ab'' then 5 else 6)\<rparr>"

definition sample_words :: string where
  "sample_words = ''ab cd ab ab CD ab ab ab ab ab ab ab ab ab ''"

theorem fingerprint_majority_witness:
  "fingerprint ascii_text (sample_words @ ''cd ab'') = fingerprint ascii_text (sample_words @ ''ab cd'') \<and>
   fingerprint ascii_text (sample_words @ ''ab cd'') \<noteq> None"
proof -
  have t: "tokenize ascii_text (sample_words @ ''cd ab'') = [''ab'', ''cd'', ''ab'', ''ab'', ''cd'', ''ab'', ''ab'', ''ab'', ''ab'',
      ''ab'', ''ab'', ''ab'', ''ab'', ''ab'', ''cd'', ''ab'']"
    "tokenize ascii_text (sample_words @ ''ab cd'') = [''ab'', ''cd'', ''ab'', ''ab'', ''cd'', ''ab'', ''ab'', ''ab'', ''ab'',
      ''ab'', ''ab'', ''ab'', ''ab'', ''ab'', ''ab'', ''cd'']"
    by code_simp+
  from fingerprint_majority [of ascii_text "sample_words @ ''cd ab''" "sample_words @ ''ab cd''"]
  show ?thesis by (auto simp: t MIN_TOKENS_def)
qed

end
