(* ===== verification/Documents.thy ===== *)
theory Documents
  imports Connectors SimHash
begin

text \<open>
  Documents, their provenance and the groups of duplicates: the rows of \<open>crates/core-model/src/document.rs\<close>,
  \<open>provenance.rs\<close> and \<open>duplicate.rs\<close>, and the operations of \<open>PostgresCanonicalStore\<close> on them
  (\<open>crates/storage-postgres/src/store.rs\<close>) with the constraints of the migrations. The contract of the candidate
  queries of the deduplicator is the locale \<open>older_documents\<close>.
\<close>

datatype document_type = Article | WebPage | Post | Message | Report | File | Advisory

record document =
  do_id :: uuid
  do_object_type :: document_type
  do_schema_version :: string
  do_title :: "string option"
  do_body :: "string option"
  do_summary :: "string option"
  do_language :: "string option"
  do_author :: "string option"
  do_published_at :: "time option"
  do_modified_at :: "time option"
  do_observed_at :: time
  do_collected_at :: time
  do_source_url :: "string option"
  do_canonical_url :: "string option"
  do_content_hash :: "string option"
  do_confidence :: rat
  do_labels :: "string list"
  do_attributes :: json
  do_external_key :: "string option"
  do_simhash :: "64 word option"
  do_duplicate_of :: "uuid option"

record provenance =
  pv_id :: uuid
  pv_subject_id :: uuid
  pv_action :: string
  pv_parent_id :: "uuid option"
  pv_raw_evidence_id :: "uuid option"
  pv_processor :: string
  pv_processor_version :: string
  pv_timestamp :: time
  pv_metadata :: json

record duplicate_group =
  dg_id :: uuid
  dg_canonical_object_id :: uuid
  dg_member_object_id :: "uuid option"
  dg_member_raw_evidence_id :: "uuid option"
  dg_method :: string
  dg_similarity :: rat
  dg_first_seen :: time
  dg_model :: "string option"

text \<open>The database: the tables of the other theories, and these three.\<close>

record doc_store =
  ds_db :: db
  ds_documents :: "document tbl"
  ds_provenance :: "provenance tbl"
  ds_groups :: "duplicate_group tbl"

definition json_field :: "json \<Rightarrow> string \<Rightarrow> json option" where
  "json_field v k = (case as_object v of Some kvs \<Rightarrow> map_of kvs k | None \<Rightarrow> None)"

definition json_str :: "json option \<Rightarrow> string option" where
  "json_str v = (case v of Some (JString s) \<Rightarrow> Some s | _ \<Rightarrow> None)"

section \<open>Documents\<close>

definition get_document :: "doc_store \<Rightarrow> uuid \<Rightarrow> document option" where
  "get_document ds i = tbl_get (ds_documents ds) i"

text \<open>The foreign key of \<open>duplicate_of\<close> may name the row itself.\<close>

definition put_document :: "document \<Rightarrow> doc_store \<Rightarrow> storage_error + doc_store" where
  "put_document doc ds =
     (if (case do_duplicate_of doc of None \<Rightarrow> True | Some c \<Rightarrow> c = do_id doc \<or> get_document ds c \<noteq> None)
      then Inr (ds\<lparr>ds_documents := tbl_put (do_id doc) doc (ds_documents ds)\<rparr>)
      else Inl ConstraintViolation)"

definition dedup_candidate_ids :: "(document \<Rightarrow> string option) \<Rightarrow> doc_store \<Rightarrow> string \<Rightarrow> uuid \<Rightarrow> nat \<Rightarrow> uuid list" where
  "dedup_candidate_ids column ds key before limit =
     take (clamp_limit limit) (map do_id (tbl_select (\<lambda>d. column d = Some key \<and> do_id d < before) (ds_documents ds)))"

definition find_document_ids_by_external_key :: "doc_store \<Rightarrow> string \<Rightarrow> uuid \<Rightarrow> nat \<Rightarrow> uuid list" where
  "find_document_ids_by_external_key = dedup_candidate_ids do_external_key"

definition find_document_ids_by_canonical_url :: "doc_store \<Rightarrow> string \<Rightarrow> uuid \<Rightarrow> nat \<Rightarrow> uuid list" where
  "find_document_ids_by_canonical_url = dedup_candidate_ids do_canonical_url"

definition find_document_ids_by_content_hash :: "doc_store \<Rightarrow> string \<Rightarrow> uuid \<Rightarrow> nat \<Rightarrow> uuid list" where
  "find_document_ids_by_content_hash = dedup_candidate_ids do_content_hash"

definition clamp_scan_limit :: "nat \<Rightarrow> nat" where
  "clamp_scan_limit limit = clamp_nat 1 5000 limit"

text \<open>The most recent rows with a fingerprint, then those of them that are near, oldest first.\<close>

definition simhash_window :: "doc_store \<Rightarrow> uuid \<Rightarrow> nat \<Rightarrow> document list" where
  "simhash_window ds before scan_limit =
     rev (take (clamp_scan_limit scan_limit)
       (rev (tbl_select (\<lambda>d. do_simhash d \<noteq> None \<and> do_id d < before) (ds_documents ds))))"

definition find_simhash_candidates :: "doc_store \<Rightarrow> 64 word \<Rightarrow> nat \<Rightarrow> uuid \<Rightarrow> nat \<Rightarrow> (uuid \<times> 64 word) list" where
  "find_simhash_candidates ds fp max_distance before scan_limit =
     filter (\<lambda>(i, h). hamming_distance h fp \<le> max_distance)
       (map (\<lambda>d. (do_id d, the (do_simhash d))) (simhash_window ds before scan_limit))"

section \<open>Provenance\<close>

definition list_provenance_by_subject :: "doc_store \<Rightarrow> uuid \<Rightarrow> provenance list" where
  "list_provenance_by_subject ds i =
     sort_key pv_timestamp (tbl_select (\<lambda>p. pv_subject_id p = i) (ds_provenance ds))"

text \<open>The partial unique indexes: what a row with one of the three actions is the only one for.\<close>

definition claim_key :: "provenance \<Rightarrow> (string \<times> uuid) option" where
  "claim_key p =
     (if pv_action p = ''deduplicated'' \<or> pv_action p = ''entity_extracted'' then Some (pv_action p, pv_subject_id p)
      else if pv_action p = ''normalized'' then map_option (Pair (pv_action p)) (pv_raw_evidence_id p)
      else None)"

definition put_provenance :: "provenance \<Rightarrow> doc_store \<Rightarrow> storage_error + doc_store" where
  "put_provenance p ds =
     (if claim_key p \<noteq> None \<and> (\<exists>q \<in> snd ` set (ds_provenance ds). pv_id q \<noteq> pv_id p \<and> claim_key q = claim_key p)
      then Inl Conflict
      else if \<not> fk_opt (db_raw_evidence_keys (ds_db ds)) (pv_raw_evidence_id p) then Inl ConstraintViolation
      else Inr (ds\<lparr>ds_provenance := tbl_put (pv_id p) p (ds_provenance ds)\<rparr>))"

section \<open>Groups\<close>

definition get_duplicate_group :: "doc_store \<Rightarrow> uuid \<Rightarrow> duplicate_group option" where
  "get_duplicate_group ds i = tbl_get (ds_groups ds) i"

definition put_duplicate_group :: "duplicate_group \<Rightarrow> doc_store \<Rightarrow> storage_error + doc_store" where
  "put_duplicate_group g ds =
     (if dg_member_object_id g = None \<and> dg_member_raw_evidence_id g = None then Inl ConstraintViolation
      else if dg_member_object_id g \<noteq> None \<and>
        (\<exists>h \<in> snd ` set (ds_groups ds). dg_id h \<noteq> dg_id g \<and> dg_member_object_id h = dg_member_object_id g) then Inl Conflict
      else if \<not> fk_opt (db_raw_evidence_keys (ds_db ds)) (dg_member_raw_evidence_id g) then Inl ConstraintViolation
      else Inr (ds\<lparr>ds_groups := tbl_put (dg_id g) g (ds_groups ds)\<rparr>))"

section \<open>The contract of the candidate queries\<close>

text \<open>What \<open>traits.rs\<close> promises of them: only older documents with the key, and the oldest one first.\<close>

definition documents_ok :: "doc_store \<Rightarrow> bool" where
  "documents_ok ds \<longleftrightarrow> tbl_keyed do_id (ds_documents ds)"

locale older_documents =
  fixes find :: "doc_store \<Rightarrow> string \<Rightarrow> uuid \<Rightarrow> nat \<Rightarrow> uuid list"
    and column :: "document \<Rightarrow> string option"
  assumes candidate: "documents_ok ds \<Longrightarrow> i \<in> set (find ds key before limit) \<Longrightarrow>
      i < before \<and> (\<exists>d. get_document ds i = Some d \<and> column d = Some key)"
    and oldest: "documents_ok ds \<Longrightarrow> get_document ds i = Some d \<Longrightarrow> column d = Some key \<Longrightarrow> i < before \<Longrightarrow>
      find ds key before limit \<noteq> [] \<and> hd (find ds key before limit) \<le> i"
begin

lemma none_older:
  "documents_ok ds \<Longrightarrow> find ds key before limit = [] \<longleftrightarrow>
     (\<forall>i d. get_document ds i = Some d \<longrightarrow> column d = Some key \<longrightarrow> before \<le> i)"
  by (metis candidate oldest list.set_intros(1) neq_Nil_conv not_le)

lemma first_is_oldest:
  assumes "documents_ok ds" "find ds key before limit = i # is"
  shows "i < before \<and> (\<exists>d. get_document ds i = Some d \<and> column d = Some key) \<and>
    (\<forall>k d. get_document ds k = Some d \<longrightarrow> column d = Some key \<longrightarrow> i \<le> k)"
proof (intro conjI allI impI)
  show "i < before" and older: "\<exists>d. get_document ds i = Some d \<and> column d = Some key"
    using candidate [OF assms(1), of i key before limit] assms(2) by auto
  fix k d assume k: "get_document ds k = Some d" "column d = Some key"
  show "i \<le> k"
  proof (cases "k < before")
    case True
    from oldest [OF assms(1) k this, of limit] assms(2) show ?thesis by simp
  next
    case False
    with \<open>i < before\<close> show ?thesis by simp
  qed
qed

end

lemma select_sorted:
  "documents_ok ds \<Longrightarrow> sorted_wrt (<) (map do_id (tbl_select P (ds_documents ds)))"
  unfolding documents_ok_def by (rule sorted_tbl_select_key [OF tbl_keyedD(1) tbl_keyedD(2)])

lemma get_document_id: "documents_ok ds \<Longrightarrow> get_document ds i = Some d \<Longrightarrow> do_id d = i"
  unfolding documents_ok_def get_document_def by (rule tbl_keyedD(2))

lemma mem_select:
  "documents_ok ds \<Longrightarrow> d \<in> set (tbl_select P (ds_documents ds)) \<longleftrightarrow> get_document ds (do_id d) = Some d \<and> P d"
  unfolding documents_ok_def get_document_def by (rule mem_tbl_select)

lemma mem_select_ids:
  assumes "documents_ok ds"
  shows "i \<in> set (map do_id (tbl_select P (ds_documents ds))) \<longleftrightarrow> (\<exists>d. get_document ds i = Some d \<and> P d)"
  using mem_select [OF assms] get_document_id [OF assms] by (force simp: image_iff)

lemma candidate_ids_in:
  assumes "documents_ok ds" "i \<in> set (dedup_candidate_ids column ds key before limit)"
  shows "i < before \<and> (\<exists>d. get_document ds i = Some d \<and> column d = Some key)"
proof -
  have "i \<in> set (map do_id (tbl_select (\<lambda>d. column d = Some key \<and> do_id d < before) (ds_documents ds)))"
    using assms(2) unfolding dedup_candidate_ids_def by (rule in_set_takeD)
  then have "\<exists>d. get_document ds i = Some d \<and> column d = Some key \<and> do_id d < before"
    by (simp only: mem_select_ids [OF assms(1)])
  then obtain d where d: "get_document ds i = Some d" "column d = Some key" "do_id d < before" by auto
  with get_document_id [OF assms(1) d(1)] show ?thesis by auto
qed

lemma candidate_ids_oldest:
  assumes "documents_ok ds" "get_document ds i = Some d" "column d = Some key" "i < before"
  shows "dedup_candidate_ids column ds key before limit \<noteq> [] \<and> hd (dedup_candidate_ids column ds key before limit) \<le> i"
proof -
  let ?all = "map do_id (tbl_select (\<lambda>d. column d = Some key \<and> do_id d < before) (ds_documents ds))"
  have "do_id d = i" by (rule get_document_id [OF assms(1,2)])
  with assms(2-4) have i: "i \<in> set ?all" by (simp only: mem_select_ids [OF assms(1)]) auto
  obtain a as where all: "?all = a # as" using i by (cases ?all) auto
  have "sorted_wrt (<) (a # as)" unfolding all [symmetric] by (rule select_sorted [OF assms(1)])
  with i have "a \<le> i" unfolding all by auto
  moreover have "0 < clamp_limit limit" by (simp add: clamp_limit_def clamp_nat_def)
  ultimately show ?thesis unfolding dedup_candidate_ids_def all by (cases "clamp_limit limit") simp_all
qed

interpretation by_external_key: older_documents find_document_ids_by_external_key do_external_key
  by unfold_locales (simp_all add: find_document_ids_by_external_key_def candidate_ids_in candidate_ids_oldest)

interpretation by_canonical_url: older_documents find_document_ids_by_canonical_url do_canonical_url
  by unfold_locales (simp_all add: find_document_ids_by_canonical_url_def candidate_ids_in candidate_ids_oldest)

interpretation by_content_hash: older_documents find_document_ids_by_content_hash do_content_hash
  by unfold_locales (simp_all add: find_document_ids_by_content_hash_def candidate_ids_in candidate_ids_oldest)

lemma set_put_fresh: "k \<notin> fst ` set t \<Longrightarrow> set (tbl_put k r t) = insert (k, r) (set t)"
  by (induction k r t rule: tbl_put.induct) auto

lemma mem_window:
  assumes "documents_ok ds" "d \<in> set (simhash_window ds before scan)"
  shows "get_document ds (do_id d) = Some d \<and> do_id d < before \<and> do_simhash d \<noteq> None"
proof -
  have "d \<in> set (tbl_select (\<lambda>d. do_simhash d \<noteq> None \<and> do_id d < before) (ds_documents ds))"
    using assms(2) by (auto simp: simhash_window_def dest: in_set_takeD)
  then show ?thesis by (simp add: mem_select [OF assms(1)])
qed

lemma simhash_candidate:
  assumes "documents_ok ds" "(i, h) \<in> set (find_simhash_candidates ds fp m before scan)"
  shows "i < before \<and> hamming_distance h fp \<le> m \<and> (\<exists>d. get_document ds i = Some d \<and> do_simhash d = Some h)"
  using assms mem_window [OF assms(1)] by (auto simp: find_simhash_candidates_def)

end
