(* ===== verification/UrlNorm.thy ===== *)
theory UrlNorm
  imports Prelude "HOL-Library.List_Lexorder" "HOL-Library.Char_ord" "HOL-Library.Product_Lexorder"
begin

text \<open>
  The canonical form of a URL, \<open>crates/core-model/src/url_norm.rs\<close>. The \<open>url\<close> crate is a
  parameter; a string is its bytes.
\<close>

definition TRACKING_PARAMS :: "string list" where
  "TRACKING_PARAMS =
     [''gclid'', ''gclsrc'', ''dclid'', ''gbraid'', ''wbraid'', ''fbclid'', ''msclkid'', ''yclid'', ''_openstat'', ''mc_cid'',
      ''mc_eid'', ''_hsenc'', ''_hsmi'', ''hsctatracking'', ''igshid'', ''ttclid'', ''twclid'', ''spm'', ''scm'', ''ref'',
      ''ref_src'', ''ref_url'', ''referrer'', ''referer'', ''cmpid'', ''campaignid'', ''s_cid'', ''icid'', ''ncid'', ''sr_share'',
      ''vero_id'', ''vero_conv'', ''oly_anon_id'', ''oly_enc_id'', ''wickedid'']"

definition TRACKING_PREFIXES :: "string list" where
  "TRACKING_PREFIXES = [''utm_'', ''pk_'', ''mtm_'', ''matomo_'']"

definition IMPORT_URL_PREFIX :: string where "IMPORT_URL_PREFIX = ''import://''"

definition is_synthetic_import_url :: "string \<Rightarrow> bool" where
  "is_synthetic_import_url raw \<longleftrightarrow>
     to_ascii_lowercase (take (length IMPORT_URL_PREFIX) (trim_start raw)) = IMPORT_URL_PREFIX"

definition is_tracking_param :: "string \<Rightarrow> bool" where
  "is_tracking_param name \<longleftrightarrow>
     (let lower = to_ascii_lowercase name
      in lower \<in> set TRACKING_PARAMS \<or> (\<exists>prefix \<in> set TRACKING_PREFIXES. starts_with prefix lower))"

section \<open>Percent encoding\<close>

definition hex_value :: "char \<Rightarrow> nat option" where
  "hex_value c =
     (let n = of_char c :: nat
      in if 48 \<le> n \<and> n \<le> 57 then Some (n - 48)
         else if 97 \<le> n \<and> n \<le> 102 then Some (n - 87)
         else if 65 \<le> n \<and> n \<le> 70 then Some (n - 55)
         else None)"

definition is_unreserved :: "nat \<Rightarrow> bool" where
  "is_unreserved n \<longleftrightarrow> (48 \<le> n \<and> n \<le> 57) \<or> (65 \<le> n \<and> n \<le> 90) \<or> (97 \<le> n \<and> n \<le> 122) \<or> n \<in> {45, 46, 95, 126}"

definition upper_hex :: "nat \<Rightarrow> char" where
  "upper_hex n = ''0123456789ABCDEF'' ! n"

definition encode_byte :: "nat \<Rightarrow> string" where
  "encode_byte v = (if is_unreserved v then [char_of v] else [CHR ''%'', upper_hex (v div 16), upper_hex (v mod 16)])"

text \<open>The loop over the bytes: a percent sign with two hexadecimal digits is rewritten, anything else is kept.\<close>

fun normalize_percent_encoding :: "string \<Rightarrow> string" where
  "normalize_percent_encoding (c # h # l # rest) =
     (case (hex_value h, hex_value l) of
        (Some hi, Some lo) \<Rightarrow>
          if c = CHR ''%'' then encode_byte (hi * 16 + lo) @ normalize_percent_encoding rest
          else c # normalize_percent_encoding (h # l # rest)
      | _ \<Rightarrow> c # normalize_percent_encoding (h # l # rest))"
| "normalize_percent_encoding rest = rest"

section \<open>The canonical form\<close>

record 'u url_ops =
  uo_parse :: "string \<Rightarrow> 'u option"
  uo_scheme :: "'u \<Rightarrow> string"
  uo_clear_fragment :: "'u \<Rightarrow> 'u"
  uo_clear_userinfo :: "'u \<Rightarrow> 'u"
  uo_query_pairs :: "'u \<Rightarrow> (string \<times> string) list"
  uo_has_query :: "'u \<Rightarrow> bool"
  uo_clear_query :: "'u \<Rightarrow> 'u"
  uo_write_pairs :: "'u \<Rightarrow> (string \<times> string) list \<Rightarrow> 'u"
  uo_path :: "'u \<Rightarrow> string"
  uo_set_path :: "'u \<Rightarrow> string \<Rightarrow> 'u"
  uo_show :: "'u \<Rightarrow> string"

definition is_http_or_https :: "'u url_ops \<Rightarrow> string \<Rightarrow> bool" where
  "is_http_or_https ops raw \<longleftrightarrow>
     (case uo_parse ops (trim raw) of Some u \<Rightarrow> uo_scheme ops u = ''http'' \<or> uo_scheme ops u = ''https'' | None \<Rightarrow> False)"

text \<open>The pairs that are kept, sorted by name and then by value, bytes compared.\<close>

definition kept_pairs :: "(string \<times> string) list \<Rightarrow> (string \<times> string) list" where
  "kept_pairs ps = sort (filter (\<lambda>p. \<not> is_tracking_param (fst p)) ps)"

definition canonicalize :: "'u url_ops \<Rightarrow> string \<Rightarrow> string option" where
  "canonicalize ops raw =
     map_option (\<lambda>u.
       let u = uo_clear_userinfo ops (uo_clear_fragment ops u);
           kept = kept_pairs (uo_query_pairs ops u);
           u = (if uo_has_query ops u then (if kept = [] then uo_clear_query ops u else uo_write_pairs ops u kept) else u);
           u = (if uo_path ops u = [] then uo_set_path ops u ''/'' else u);
           p = normalize_percent_encoding (uo_path ops u);
           u = (if p \<noteq> uo_path ops u then uo_set_path ops u p else u)
       in uo_show ops u) (uo_parse ops (trim raw))"

text \<open>\<open>None\<close> is the panic of slicing inside a character.\<close>

definition short :: "string \<Rightarrow> string option" where
  "short url =
     (if length url \<le> 120 then Some url
      else if 128 \<le> (of_char (url ! 120) :: nat) \<and> (of_char (url ! 120) :: nat) < 192 then None
      else Some (take 120 url @ [char_of (0xE2 :: nat), char_of (0x80 :: nat), char_of (0xA6 :: nat)]))"

section \<open>The normal form of the encoding\<close>

text \<open>The parts of a path: a character as it is, or a byte that must stay encoded.\<close>

datatype pct = Raw char | Enc nat

definition pct_byte :: "nat \<Rightarrow> pct" where
  "pct_byte v = (if is_unreserved v then Raw (char_of v) else Enc v)"

fun pct_parse :: "string \<Rightarrow> pct list" where
  "pct_parse (c # h # l # rest) =
     (case (hex_value h, hex_value l) of
        (Some hi, Some lo) \<Rightarrow>
          if c = CHR ''%'' then pct_byte (hi * 16 + lo) # pct_parse rest else Raw c # pct_parse (h # l # rest)
      | _ \<Rightarrow> Raw c # pct_parse (h # l # rest))"
| "pct_parse rest = map Raw rest"

fun pct_show :: "pct \<Rightarrow> string" where
  "pct_show (Raw c) = [c]"
| "pct_show (Enc v) = [CHR ''%'', upper_hex (v div 16), upper_hex (v mod 16)]"

definition well_encoded :: "string \<Rightarrow> bool" where
  "well_encoded s \<longleftrightarrow> Raw (CHR ''%'') \<notin> set (pct_parse s)"

lemma normalize_parse: "normalize_percent_encoding s = concat (map pct_show (pct_parse s))"
  by (induction s rule: pct_parse.induct)
    (auto simp: pct_byte_def encode_byte_def split: option.splits)

lemma hex_value_bound: "hex_value c = Some n \<Longrightarrow> n < 16"
  by (auto simp: hex_value_def Let_def split: if_splits)

lemma less_16: "n < 16 \<Longrightarrow> n \<in> {0, 1, 2, 3, 4, 5, 6, 7, 8, 9, 10, 11, 12, 13, 14, 15::nat}"
  by (auto simp: numeral_eq_Suc less_Suc_eq)

lemma hex_upper: "n < 16 \<Longrightarrow> hex_value (upper_hex n) = Some n"
  by (drule less_16) (auto simp: hex_value_def upper_hex_def)

text \<open>A part that the parser can produce and that is not a stray percent sign.\<close>

definition pct_valid :: "pct \<Rightarrow> bool" where
  "pct_valid p \<longleftrightarrow> (case p of Raw c \<Rightarrow> c \<noteq> CHR ''%'' | Enc v \<Rightarrow> v < 256 \<and> \<not> is_unreserved v)"

lemma pct_byte_valid:
  assumes "hex_value h = Some hi" "hex_value l = Some lo"
  shows "pct_valid (pct_byte (hi * 16 + lo))"
proof -
  let ?v = "hi * 16 + lo"
  have v: "?v < 256" using hex_value_bound [OF assms(1)] hex_value_bound [OF assms(2)] by simp
  have "char_of ?v \<noteq> CHR ''%''" if "is_unreserved ?v"
  proof
    assume "char_of ?v = CHR ''%''"
    then have "(of_char (char_of ?v :: char) :: nat) = 37" by simp
    with v have "?v = 37" by simp
    with that show False by (simp add: is_unreserved_def)
  qed
  with v show ?thesis by (simp add: pct_valid_def pct_byte_def)
qed

lemma pct_parse_valid: "well_encoded s \<Longrightarrow> \<forall>p \<in> set (pct_parse s). pct_valid p"
  unfolding well_encoded_def
  by (induction s rule: pct_parse.induct) (auto simp: pct_valid_def [of "Raw _"] pct_byte_valid split: option.splits if_splits)

lemma pct_parse_raw: "c \<noteq> CHR ''%'' \<Longrightarrow> pct_parse (c # s) = Raw c # pct_parse s"
  by (cases s rule: pct_parse.cases) (auto split: option.splits)

lemma pct_parse_show: "\<forall>p \<in> set ps. pct_valid p \<Longrightarrow> pct_parse (concat (map pct_show ps)) = ps"
proof (induction ps)
  case (Cons p ps)
  show ?case
  proof (cases p)
    case (Raw c)
    with Cons show ?thesis by (simp add: pct_valid_def pct_parse_raw)
  next
    case (Enc v)
    with Cons.prems have "v div 16 < 16" "\<not> is_unreserved v" by (auto simp: pct_valid_def)
    with Cons Enc show ?thesis by (simp add: hex_upper pct_byte_def)
  qed
qed simp

text \<open>
  the normal form of a path in which every percent sign starts an encoded byte. Normalizing again changes
  nothing, and two paths have the same normal form exactly when they consist of the same parts: the same characters,
  where an encoded unreserved one counts as itself, and the same encoded bytes. So an encoded slash stays apart from a slash.
\<close>

theorem percent_normal_form:
  assumes "well_encoded s" "well_encoded t"
  shows "normalize_percent_encoding (normalize_percent_encoding s) = normalize_percent_encoding s \<and>
    (normalize_percent_encoding s = normalize_percent_encoding t \<longleftrightarrow> pct_parse s = pct_parse t)"
proof -
  have again: "pct_parse (normalize_percent_encoding u) = pct_parse u" if "well_encoded u" for u
    using pct_parse_show [OF pct_parse_valid [OF that]] by (simp add: normalize_parse)
  from again [OF assms(1)] again [OF assms(2)] show ?thesis by (metis normalize_parse)
qed

theorem percent_normal_form_witness:
  "normalize_percent_encoding ''/%7ea%2f'' = ''/~a%2F'' \<and> normalize_percent_encoding ''/~a%2f'' = ''/~a%2F'' \<and>
   pct_parse ''/%7ea%2f'' = pct_parse ''/~a%2f'' \<and> pct_parse ''/~a%2f'' \<noteq> pct_parse ''/~a/''"
proof -
  have "well_encoded ''/%7ea%2f''" "well_encoded ''/~a%2f''" "well_encoded ''/~a/''" by code_simp+
  from percent_normal_form [OF this(1,2)] percent_normal_form [OF this(2,3)] show ?thesis by code_simp
qed

text \<open>A stray percent sign breaks both: the second pass decodes what the first one made.\<close>

lemma stray_percent:
  "normalize_percent_encoding ''/%%34%31'' = ''/%41'' \<and>
   normalize_percent_encoding (normalize_percent_encoding ''/%%34%31'') = ''/A''"
  by code_simp

end
