(* ===== verification/Dedup.thy ===== *)
theory Dedup
  imports Documents UrlNorm
begin

text \<open>
  The deduplicator, \<open>crates/deduplicator/src/service.rs\<close> with \<open>semantic.rs\<close> and the choice of a neighbour in
  \<open>semantic_real.rs\<close>, and the content hash of \<open>crates/core-model/src/content.rs\<close>. A document is compared with older
  ones in five stages; a hit marks it as a duplicate and writes a group, and every outcome is claimed by a row of
  provenance before it is published. The record \<open>dedup_env\<close> holds what is outside: SHA-256, Unicode, the \<open>url\<close> and
  \<open>uuid\<close> crates, the detector of the last stage, the clock, a fresh identifier and whether the broker accepts.
\<close>

section \<open>Types\<close>

datatype dedup_stage = PlatformExternalId | CanonicalUrl | ContentHash | Simhash | Semantic

fun stage_as_str :: "dedup_stage \<Rightarrow> string" where
  "stage_as_str PlatformExternalId = ''platform_external_id''"
| "stage_as_str CanonicalUrl = ''canonical_url''"
| "stage_as_str ContentHash = ''content_sha256''"
| "stage_as_str Simhash = ''simhash''"
| "stage_as_str Semantic = ''semantic''"

fun stage_number :: "dedup_stage \<Rightarrow> nat" where
  "stage_number PlatformExternalId = 1"
| "stage_number CanonicalUrl = 2"
| "stage_number ContentHash = 3"
| "stage_number Simhash = 4"
| "stage_number Semantic = 5"

datatype dedup_outcome =
    DedupCanonical uuid
  | DedupDuplicate uuid uuid dedup_stage rat uuid
  | DedupAlreadyDone uuid "uuid option"
  | DedupDocumentMissing uuid

record dedup_bounds =
  db_candidate_limit :: nat
  db_simhash_scan_limit :: nat
  db_simhash_max_distance :: nat

definition default_bounds :: dedup_bounds where
  "default_bounds = \<lparr>db_candidate_limit = 20, db_simhash_scan_limit = 500, db_simhash_max_distance = DEFAULT_MAX_DISTANCE\<rparr>"

datatype deduplicator_error =
    DedupStorage storage_error
  | DedupEventError
  | MissingField string
  | DuplicateChainTooDeep uuid
  | HashTaskFailed

datatype semantic_outcome = SemUnsupported | SemNoMatch | SemHit uuid rat string

record dedup_keys =
  dk_platform :: "string option"
  dk_external_id :: "string option"
  dk_external_key :: "string option"
  dk_canonical_url :: "string option"
  dk_content_hash :: "string option"
  dk_simhash :: "64 word option"

record duplicate_hit =
  dh_canonical :: uuid
  dh_stage :: dedup_stage
  dh_similarity :: rat
  dh_model :: "string option"

text \<open>The payload of \<open>dedup.completed\<close>: the hit and the group, if the document is a duplicate.\<close>

datatype dedup_event = DedupCompleted uuid "(dedup_stage \<times> uuid \<times> rat \<times> uuid) option"

record ('c, 'u) dedup_env =
  de_text :: "'c text_lib"
  de_chars :: "string \<Rightarrow> 'c list"
  de_whitespace :: "'c \<Rightarrow> bool"
  de_sha256_hex :: "'c list \<Rightarrow> string"
  de_url :: "'u url_ops"
  de_parse_uuid :: "string \<Rightarrow> uuid option"
  de_show_uuid :: "uuid \<Rightarrow> string"
  de_group_id :: "uuid \<Rightarrow> uuid"
  de_bounds :: dedup_bounds
  de_detect :: "document \<Rightarrow> semantic_outcome"
  de_detector_id :: string
  de_version :: string
  de_now :: time
  de_claim_id :: uuid
  de_hash_task :: bool
  de_producer :: "(dedup_event \<Rightarrow> bool) option"

record dedup_world =
  dw_store :: doc_store
  dw_events :: "dedup_event list"
  dw_examined :: nat
  dw_duplicates :: nat
  dw_failed_jobs :: nat

type_synonym 'a dedup_op = "(dedup_world, deduplicator_error, 'a) op"

definition PROCESSOR :: string where "PROCESSOR = ''deduplicator''"
definition ACTION_DEDUPLICATED :: string where "ACTION_DEDUPLICATED = ''deduplicated''"
definition MAX_CHAIN_DEPTH :: nat where "MAX_CHAIN_DEPTH = 8"

section \<open>The content of a document\<close>

text \<open>\<open>split_whitespace\<close> and \<open>join\<close>.\<close>

fun join_with :: "'c list \<Rightarrow> 'c list list \<Rightarrow> 'c list" where
  "join_with sep [] = []"
| "join_with sep [w] = w"
| "join_with sep (w # ws) = w @ sep @ join_with sep ws"

definition normalize_content :: "('c, 'u) dedup_env \<Rightarrow> 'c list \<Rightarrow> 'c list" where
  "normalize_content env raw =
     join_with (de_chars env '' '') (filter (\<lambda>w. w \<noteq> []) (split_where (de_whitespace env) raw))"

definition text_or_empty :: "('c, 'u) dedup_env \<Rightarrow> string option \<Rightarrow> 'c list" where
  "text_or_empty env t = (case t of Some s \<Rightarrow> de_chars env s | None \<Rightarrow> [])"

definition content_hash :: "('c, 'u) dedup_env \<Rightarrow> string option \<Rightarrow> string option \<Rightarrow> string option \<Rightarrow> string" where
  "content_hash env title summary body =
     de_sha256_hex env (normalize_content env (text_or_empty env title) @ de_chars env ''|'' @
       normalize_content env (text_or_empty env summary) @ de_chars env ''|'' @
       normalize_content env (text_or_empty env body))"

definition simhash_input :: "('c, 'u) dedup_env \<Rightarrow> document \<Rightarrow> 'c list" where
  "simhash_input env doc =
     concat (map (\<lambda>part. case part of Some s \<Rightarrow> de_chars env s @ de_chars env '' '' | None \<Rightarrow> [])
       [do_title doc, do_summary doc, do_body doc])"

section \<open>The keys\<close>

definition attribute_uuid :: "('c, 'u) dedup_env \<Rightarrow> document \<Rightarrow> string \<Rightarrow> uuid option" where
  "attribute_uuid env doc k = Option.bind (json_str (json_field (do_attributes doc) k)) (de_parse_uuid env)"

definition platform_of :: "('c, 'u) dedup_env \<Rightarrow> doc_store \<Rightarrow> document \<Rightarrow> string option" where
  "platform_of env ds doc =
     Option.bind (attribute_uuid env doc ''raw_evidence_id'') (\<lambda>raw_id.
     Option.bind (get_raw_evidence (ds_db ds) raw_id) (\<lambda>evidence.
     Option.bind (get_source (ds_db ds) (rv_source_id evidence)) so_platform))"

definition derive_keys :: "('c, 'u) dedup_env \<Rightarrow> doc_store \<Rightarrow> document \<Rightarrow> deduplicator_error + dedup_keys" where
  "derive_keys env ds doc =
     (let platform = platform_of env ds doc;
          external_id = json_str (json_field (do_attributes doc) ''external_id'');
          external_key = (case (platform, external_id) of
            (Some p, Some e) \<Rightarrow> if p \<noteq> [] \<and> e \<noteq> [] then Some (p @ ''|'' @ e) else None
          | _ \<Rightarrow> None);
          synthetic = (case do_source_url doc of Some u \<Rightarrow> is_synthetic_import_url u | None \<Rightarrow> False);
          canonical_url = (if synthetic then None else Option.bind (do_source_url doc) (canonicalize (de_url env)));
          content_hash = (case do_content_hash doc of
            Some h \<Rightarrow> Some h
          | None \<Rightarrow> Some (content_hash env (do_title doc) (do_summary doc) (do_body doc)))
      in if \<not> de_hash_task env then Inl HashTaskFailed
         else Inr \<lparr>dk_platform = platform, dk_external_id = external_id, dk_external_key = external_key,
                dk_canonical_url = canonical_url, dk_content_hash = content_hash,
                dk_simhash = fingerprint (de_text env) (simhash_input env doc)\<rparr>)"

section \<open>The canonical document of a chain\<close>

fun resolve_chain :: "nat \<Rightarrow> uuid \<Rightarrow> doc_store \<Rightarrow> uuid \<Rightarrow> deduplicator_error + uuid option" where
  "resolve_chain 0 start ds current = Inl (DuplicateChainTooDeep start)"
| "resolve_chain (Suc n) start ds current =
     (case get_document ds current of
        None \<Rightarrow> Inr None
      | Some doc \<Rightarrow>
          (case do_duplicate_of doc of
             Some parent \<Rightarrow> if parent \<noteq> current then resolve_chain n start ds parent else Inr (Some current)
           | None \<Rightarrow> Inr (Some current)))"

definition resolve_canonical :: "doc_store \<Rightarrow> uuid \<Rightarrow> deduplicator_error + uuid option" where
  "resolve_canonical ds start = resolve_chain MAX_CHAIN_DEPTH start ds start"

definition first_canonical :: "doc_store \<Rightarrow> uuid list \<Rightarrow> deduplicator_error + uuid option" where
  "first_canonical ds candidates = (case candidates of [] \<Rightarrow> Inr None | first # _ \<Rightarrow> resolve_canonical ds first)"

section \<open>The five stages\<close>

definition exact_stage ::
  "dedup_stage \<Rightarrow> (doc_store \<Rightarrow> string \<Rightarrow> uuid \<Rightarrow> nat \<Rightarrow> uuid list) \<Rightarrow> ('c, 'u) dedup_env \<Rightarrow> doc_store \<Rightarrow> document
     \<Rightarrow> string option \<Rightarrow> deduplicator_error + duplicate_hit option" where
  "exact_stage stage candidates env ds doc key =
     (case key of
        None \<Rightarrow> Inr None
      | Some k \<Rightarrow>
          rbind (first_canonical ds (candidates ds k (do_id doc) (db_candidate_limit (de_bounds env)))) (\<lambda>canonical.
          Inr (map_option (\<lambda>c. \<lparr>dh_canonical = c, dh_stage = stage, dh_similarity = 1, dh_model = None\<rparr>) canonical)))"

text \<open>\<open>min_by_key\<close> over the distance and the identifier: the first of the smallest.\<close>

definition nearer :: "64 word \<Rightarrow> uuid \<times> 64 word \<Rightarrow> uuid \<times> 64 word \<Rightarrow> bool" where
  "nearer fp a b \<longleftrightarrow>
     (let da = hamming_distance (snd a) fp; db = hamming_distance (snd b) fp
      in da < db \<or> (da = db \<and> fst a < fst b))"

fun nearest :: "64 word \<Rightarrow> (uuid \<times> 64 word) list \<Rightarrow> (uuid \<times> 64 word) option" where
  "nearest fp [] = None"
| "nearest fp (c # cs) = (case nearest fp cs of None \<Rightarrow> Some c | Some b \<Rightarrow> if nearer fp b c then Some b else Some c)"

definition simhash_stage ::
  "('c, 'u) dedup_env \<Rightarrow> doc_store \<Rightarrow> document \<Rightarrow> 64 word option \<Rightarrow> deduplicator_error + duplicate_hit option" where
  "simhash_stage env ds doc fp =
     (case fp of
        None \<Rightarrow> Inr None
      | Some f \<Rightarrow>
          (case nearest f (find_simhash_candidates ds f (db_simhash_max_distance (de_bounds env)) (do_id doc)
                             (db_simhash_scan_limit (de_bounds env))) of
             None \<Rightarrow> Inr None
           | Some best \<Rightarrow>
               rbind (resolve_canonical ds (fst best)) (\<lambda>canonical.
               Inr (map_option (\<lambda>c. \<lparr>dh_canonical = c, dh_stage = Simhash,
                      dh_similarity = similarity (hamming_distance (snd best) f), dh_model = None\<rparr>) canonical))))"

definition semantic_stage :: "('c, 'u) dedup_env \<Rightarrow> doc_store \<Rightarrow> document \<Rightarrow> deduplicator_error + duplicate_hit option" where
  "semantic_stage env ds doc =
     (case de_detect env doc of
        SemHit hit_id sim model \<Rightarrow>
          rbind (resolve_canonical ds hit_id) (\<lambda>canonical.
          Inr (map_option (\<lambda>c. \<lparr>dh_canonical = c, dh_stage = Semantic, dh_similarity = sim, dh_model = Some model\<rparr>) canonical))
      | _ \<Rightarrow> Inr None)"

definition or_else ::
  "deduplicator_error + duplicate_hit option \<Rightarrow> deduplicator_error + duplicate_hit option \<Rightarrow> deduplicator_error + duplicate_hit option" where
  "or_else a b = rbind a (\<lambda>hit. case hit of Some h \<Rightarrow> Inr (Some h) | None \<Rightarrow> b)"

definition find_duplicate ::
  "('c, 'u) dedup_env \<Rightarrow> doc_store \<Rightarrow> document \<Rightarrow> dedup_keys \<Rightarrow> deduplicator_error + duplicate_hit option" where
  "find_duplicate env ds doc keys =
     or_else (exact_stage PlatformExternalId find_document_ids_by_external_key env ds doc (dk_external_key keys))
    (or_else (exact_stage CanonicalUrl find_document_ids_by_canonical_url env ds doc (dk_canonical_url keys))
    (or_else (exact_stage ContentHash find_document_ids_by_content_hash env ds doc (dk_content_hash keys))
    (or_else (simhash_stage env ds doc (dk_simhash keys)) (semantic_stage env ds doc))))"

section \<open>Writing the outcome\<close>

text \<open>A call to the store that changes it, and one that may fail without changing it.\<close>

definition store_write :: "(doc_store \<Rightarrow> storage_error + doc_store) \<Rightarrow> unit dedup_op" where
  "store_write f w = (case f (dw_store w) of Inl e \<Rightarrow> (Inl (DedupStorage e), w) | Inr ds \<Rightarrow> (Inr (), w\<lparr>dw_store := ds\<rparr>))"

definition pure_step :: "(doc_store \<Rightarrow> deduplicator_error + 'a) \<Rightarrow> 'a dedup_op" where
  "pure_step f w = (f (dw_store w), w)"

definition group_model :: "duplicate_hit \<Rightarrow> string option" where
  "group_model hit = (if dh_stage hit = Semantic then dh_model hit else None)"

definition write_group :: "('c, 'u) dedup_env \<Rightarrow> document \<Rightarrow> duplicate_hit \<Rightarrow> uuid dedup_op" where
  "write_group env doc hit w =
     (let i = de_group_id env (do_id doc);
          first_seen = (case get_duplicate_group (dw_store w) i of Some g \<Rightarrow> dg_first_seen g | None \<Rightarrow> de_now env);
          g = \<lparr>dg_id = i, dg_canonical_object_id = dh_canonical hit, dg_member_object_id = Some (do_id doc),
               dg_member_raw_evidence_id = attribute_uuid env doc ''raw_evidence_id'',
               dg_method = stage_as_str (dh_stage hit), dg_similarity = dh_similarity hit, dg_first_seen = first_seen,
               dg_model = group_model hit\<rparr>
      in op_bind (store_write (put_duplicate_group g)) (\<lambda>_. op_return i) w)"

definition json_of :: "('a \<Rightarrow> json) \<Rightarrow> 'a option \<Rightarrow> json" where
  "json_of f x = (case x of Some v \<Rightarrow> f v | None \<Rightarrow> JNull)"

definition claim_metadata :: "('c, 'u) dedup_env \<Rightarrow> duplicate_hit option \<Rightarrow> dedup_keys \<Rightarrow> json" where
  "claim_metadata env hit keys = JObject
     [(''canonical_object_id'', json_of (JString \<circ> de_show_uuid env \<circ> dh_canonical) hit),
      (''canonical_url'', json_of JString (dk_canonical_url keys)),
      (''content_sha256'', json_of JString (dk_content_hash keys)),
      (''external_key'', json_of JString (dk_external_key keys)),
      (''is_duplicate'', JBool (hit \<noteq> None)),
      (''semantic_detector'', JString (de_detector_id env)),
      (''simhash'', json_of (\<lambda>h. JNumber (of_int (sint h))) (dk_simhash keys)),
      (''simhash_max_distance'', JNumber (of_nat (db_simhash_max_distance (de_bounds env)))),
      (''similarity'', json_of (JNumber \<circ> dh_similarity) hit),
      (''stage'', json_of (JString \<circ> stage_as_str \<circ> dh_stage) hit),
      (''stage_number'', json_of (JNumber \<circ> of_nat \<circ> stage_number \<circ> dh_stage) hit)]"

definition dedup_claim ::
  "('c, 'u) dedup_env \<Rightarrow> document \<Rightarrow> duplicate_hit option \<Rightarrow> dedup_keys \<Rightarrow> unit dedup_op" where
  "dedup_claim env doc hit keys =
     store_write (put_provenance \<lparr>pv_id = de_claim_id env, pv_subject_id = do_id doc, pv_action = ACTION_DEDUPLICATED,
       pv_parent_id = map_option dh_canonical hit, pv_raw_evidence_id = attribute_uuid env doc ''raw_evidence_id'',
       pv_processor = PROCESSOR, pv_processor_version = de_version env, pv_timestamp = de_now env,
       pv_metadata = claim_metadata env hit keys\<rparr>)"

definition existing_claim :: "('c, 'u) dedup_env \<Rightarrow> doc_store \<Rightarrow> uuid \<Rightarrow> dedup_outcome option" where
  "existing_claim env ds i =
     map_option (\<lambda>claim. DedupAlreadyDone i
         (Option.bind (json_str (json_field (pv_metadata claim) ''canonical_object_id'')) (de_parse_uuid env)))
       (List.find (\<lambda>p. pv_action p = ACTION_DEDUPLICATED) (list_provenance_by_subject ds i))"

definition dedup_publish :: "('c, 'u) dedup_env \<Rightarrow> dedup_outcome \<Rightarrow> unit dedup_op" where
  "dedup_publish env outcome w =
     (case de_producer env of
        None \<Rightarrow> (Inr (), w)
      | Some accepts \<Rightarrow>
          (let send = (\<lambda>ev. if accepts ev then (Inr (), w\<lparr>dw_events := dw_events w @ [ev]\<rparr>) else (Inl DedupEventError, w))
           in case outcome of
                DedupDuplicate i c stage sim g \<Rightarrow> send (DedupCompleted i (Some (stage, c, sim, g)))
              | DedupCanonical i \<Rightarrow> send (DedupCompleted i None)
              | _ \<Rightarrow> (Inr (), w)))"

section \<open>One document\<close>

definition with_keys :: "document \<Rightarrow> dedup_keys \<Rightarrow> duplicate_hit option \<Rightarrow> document" where
  "with_keys doc keys hit =
     doc\<lparr>do_external_key := dk_external_key keys,
         do_canonical_url := (case dk_canonical_url keys of Some u \<Rightarrow> Some u | None \<Rightarrow> do_canonical_url doc),
         do_simhash := dk_simhash keys,
         do_duplicate_of := map_option dh_canonical hit\<rparr>"

text \<open>The claim: a conflict means that another consumer was first, and its result is the answer.\<close>

definition claim_or_yield ::
  "('c, 'u) dedup_env \<Rightarrow> document \<Rightarrow> duplicate_hit option \<Rightarrow> dedup_keys \<Rightarrow> dedup_outcome option dedup_op" where
  "claim_or_yield env doc hit keys w =
     (case dedup_claim env doc hit keys w of
        (Inr _, w) \<Rightarrow> (Inr None, w)
      | (Inl e, w) \<Rightarrow>
          if e = DedupStorage Conflict
          then (case existing_claim env (dw_store w) (do_id doc) of
                  Some found \<Rightarrow> (Inr (Some found), w)
                | None \<Rightarrow> (Inl (DedupStorage Conflict), w))
          else (Inl e, w))"

text \<open>The group of a hit, the answer with its metric and its event, and all that is written for one document.\<close>

definition group_step :: "('c, 'u) dedup_env \<Rightarrow> document \<Rightarrow> duplicate_hit option \<Rightarrow> uuid option dedup_op" where
  "group_step env doc hit =
     (case hit of
        Some h \<Rightarrow> op_bind (write_group env doc h) (\<lambda>g. op_return (Some g))
      | None \<Rightarrow> op_return None)"

definition announce :: "('c, 'u) dedup_env \<Rightarrow> uuid \<Rightarrow> duplicate_hit option \<Rightarrow> uuid option \<Rightarrow> dedup_outcome dedup_op" where
  "announce env i hit group_id w =
     (case (hit, group_id) of
        (Some h, Some g) \<Rightarrow>
          (let outcome = DedupDuplicate i (dh_canonical h) (dh_stage h) (dh_similarity h) g
           in op_bind (dedup_publish env outcome) (\<lambda>_. op_return outcome) (w\<lparr>dw_duplicates := dw_duplicates w + 1\<rparr>))
      | _ \<Rightarrow> op_bind (dedup_publish env (DedupCanonical i)) (\<lambda>_. op_return (DedupCanonical i)) w)"

definition record_outcome ::
  "('c, 'u) dedup_env \<Rightarrow> document \<Rightarrow> dedup_keys \<Rightarrow> duplicate_hit option \<Rightarrow> dedup_outcome dedup_op" where
  "record_outcome env doc keys hit =
     op_bind (group_step env (with_keys doc keys hit) hit) (\<lambda>group_id.
     op_bind (store_write (put_document (with_keys doc keys hit))) (\<lambda>_.
     op_bind (claim_or_yield env (with_keys doc keys hit) hit keys) (\<lambda>yielded.
     case yielded of
       Some found \<Rightarrow> op_return found
     | None \<Rightarrow> announce env (do_id doc) hit group_id)))"

definition dedup_process :: "('c, 'u) dedup_env \<Rightarrow> document \<Rightarrow> dedup_outcome dedup_op" where
  "dedup_process env doc =
     op_bind (\<lambda>w. (Inr (), w\<lparr>dw_examined := dw_examined w + 1\<rparr>)) (\<lambda>_.
     op_bind (pure_step (\<lambda>ds. derive_keys env ds doc)) (\<lambda>keys.
     op_bind (pure_step (\<lambda>ds. find_duplicate env ds doc keys)) (\<lambda>hit.
     record_outcome env doc keys hit)))"

definition dedup_document :: "('c, 'u) dedup_env \<Rightarrow> uuid \<Rightarrow> dedup_outcome dedup_op" where
  "dedup_document env i w =
     (case existing_claim env (dw_store w) i of
        Some found \<Rightarrow> (Inr found, w)
      | None \<Rightarrow>
          (case get_document (dw_store w) i of
             None \<Rightarrow> (Inr (DedupDocumentMissing i), w)
           | Some doc \<Rightarrow> dedup_process env doc w))"

section \<open>One event\<close>

text \<open>The documents of \<open>object.normalized\<close>, one after another; the one that fails is left out.\<close>

fun handle_ids :: "(nat \<Rightarrow> ('c, 'u) dedup_env) \<Rightarrow> nat \<Rightarrow> json list \<Rightarrow> dedup_world \<Rightarrow> dedup_outcome list \<times> dedup_world" where
  "handle_ids envs k [] w = ([], w)"
| "handle_ids envs k (raw # ids) w =
     (case Option.bind (json_str (Some raw)) (de_parse_uuid (envs k)) of
        None \<Rightarrow> handle_ids envs (k + 1) ids w
      | Some i \<Rightarrow>
          (let (r, w) = dedup_document (envs k) i w; (outcomes, w) = handle_ids envs (k + 1) ids w
           in (case r of Inr outcome \<Rightarrow> outcome # outcomes | Inl _ \<Rightarrow> outcomes, w)))"

definition handle_payload :: "(nat \<Rightarrow> ('c, 'u) dedup_env) \<Rightarrow> json \<Rightarrow> dedup_outcome list dedup_op" where
  "handle_payload envs payload w =
     (case json_field payload ''document_ids'' of
        Some (JArray ids) \<Rightarrow> (let (outcomes, w) = handle_ids envs 0 ids w in (Inr outcomes, w))
      | _ \<Rightarrow> (Inl (MissingField ''document_ids''), w\<lparr>dw_failed_jobs := dw_failed_jobs w + 1\<rparr>))"

section \<open>The detector of the last stage\<close>

text \<open>
  \<open>VectorSemanticDetector\<close>: the embedding and the neighbours come from services; a neighbour has its identifier, the
  document it names and its similarity, the cosine of the two vectors or else the score of the index.
\<close>

record neighbour =
  nb_id :: string
  nb_document :: "uuid option"
  nb_similarity :: rat

definition matched_text :: "document \<Rightarrow> string option" where
  "matched_text doc =
     (case do_body doc of
        Some b \<Rightarrow> if b \<noteq> [] then Some b else (case do_title doc of Some t \<Rightarrow> if t \<noteq> [] then Some t else None | None \<Rightarrow> None)
      | None \<Rightarrow> (case do_title doc of Some t \<Rightarrow> if t \<noteq> [] then Some t else None | None \<Rightarrow> None))"

fun best_neighbour :: "(uuid \<Rightarrow> string) \<Rightarrow> rat \<Rightarrow> uuid \<Rightarrow> neighbour list \<Rightarrow> (uuid \<times> rat) option \<Rightarrow> (uuid \<times> rat) option" where
  "best_neighbour show_uuid threshold self [] best = best"
| "best_neighbour show_uuid threshold self (n # ns) best =
     best_neighbour show_uuid threshold self ns
       (if nb_id n = show_uuid self then best
        else case nb_document n of
               None \<Rightarrow> best
             | Some c \<Rightarrow>
                 if c = self then best
                 else if threshold \<le> nb_similarity n \<and> (case best of None \<Rightarrow> True | Some (_, s) \<Rightarrow> s < nb_similarity n)
                 then Some (c, nb_similarity n) else best)"

definition vector_detect ::
  "(uuid \<Rightarrow> string) \<Rightarrow> rat \<Rightarrow> string \<Rightarrow> (string \<Rightarrow> bool) \<Rightarrow> (document \<Rightarrow> neighbour list option) \<Rightarrow> document \<Rightarrow> semantic_outcome" where
  "vector_detect show_uuid threshold model embeds search doc =
     (case matched_text doc of
        None \<Rightarrow> SemNoMatch
      | Some text \<Rightarrow>
          if \<not> embeds text then SemUnsupported
          else case search doc of
                 None \<Rightarrow> SemUnsupported
               | Some ns \<Rightarrow>
                   (case best_neighbour show_uuid threshold (do_id doc) ns None of
                      Some (c, s) \<Rightarrow> SemHit c s model
                    | None \<Rightarrow> SemNoMatch))"

end
