(* ===== verification/DedupCorrect.thy ===== *)
theory DedupCorrect
  imports Dedup
begin

text \<open>
  What the deduplicator of \<open>Dedup\<close> keeps: a duplicate always points to an older document, the five stages are tried in
  order and the oldest match wins, every document is claimed and announced at most once.
\<close>

section \<open>Duplicates point to older documents\<close>

definition older_ok :: "doc_store \<Rightarrow> bool" where
  "older_ok ds \<longleftrightarrow> documents_ok ds \<and>
     (\<forall>i d c. get_document ds i = Some d \<longrightarrow> do_duplicate_of d = Some c \<longrightarrow> c < i \<and> get_document ds c \<noteq> None)"

definition canonical_in :: "doc_store \<Rightarrow> uuid \<Rightarrow> bool" where
  "canonical_in ds i \<longleftrightarrow> (\<exists>d. get_document ds i = Some d \<and> do_duplicate_of d = None)"

lemma resolve_chain_root:
  assumes "older_ok ds" "get_document ds current \<noteq> None" "resolve_chain n start ds current = Inr r"
  shows "\<exists>root. r = Some root \<and> root \<le> current \<and> canonical_in ds root"
  using assms(2,3)
proof (induction n arbitrary: current)
  case (Suc n)
  then obtain d where d: "get_document ds current = Some d" by blast
  show ?case
  proof (cases "do_duplicate_of d")
    case None
    with d Suc.prems(2) show ?thesis by (auto simp: canonical_in_def)
  next
    case (Some parent)
    with assms(1) d have p: "parent < current" "get_document ds parent \<noteq> None" by (auto simp: older_ok_def)
    with Suc.prems(2) d Some have "resolve_chain n start ds parent = Inr r" by simp
    from Suc.IH [OF p(2) this] p(1) show ?thesis by force
  qed
qed simp

lemma resolve_root:
  "older_ok ds \<Longrightarrow> get_document ds i \<noteq> None \<Longrightarrow> resolve_canonical ds i = Inr r \<Longrightarrow>
     \<exists>root. r = Some root \<and> root \<le> i \<and> canonical_in ds root"
  unfolding resolve_canonical_def by (rule resolve_chain_root)

lemma resolve_missing: "get_document ds i = None \<Longrightarrow> resolve_canonical ds i = Inr None"
  by (simp add: resolve_canonical_def MAX_CHAIN_DEPTH_def numeral_eq_Suc)

text \<open>What a stage may answer for the document \<open>before\<close>.\<close>

definition hit_ok :: "doc_store \<Rightarrow> uuid \<Rightarrow> duplicate_hit \<Rightarrow> bool" where
  "hit_ok ds before hit \<longleftrightarrow> dh_canonical hit < before \<and> canonical_in ds (dh_canonical hit)"

context older_documents
begin

lemma exact_stage_hit:
  assumes ok: "older_ok ds" and run: "exact_stage st find env ds doc key = Inr (Some hit)"
  shows "hit_ok ds (do_id doc) hit \<and> dh_stage hit = st \<and> dh_similarity hit = 1 \<and>
    (\<exists>k i d. key = Some k \<and> get_document ds i = Some d \<and> column d = Some k \<and> i < do_id doc \<and>
      (\<forall>j e. get_document ds j = Some e \<longrightarrow> column e = Some k \<longrightarrow> i \<le> j) \<and>
      resolve_canonical ds i = Inr (Some (dh_canonical hit)))"
proof -
  have docs: "documents_ok ds" using ok by (simp add: older_ok_def)
  from run obtain k where k: "key = Some k" by (cases key) (simp_all add: exact_stage_def)
  obtain i "is" where cands: "find ds k (do_id doc) (db_candidate_limit (de_bounds env)) = i # is"
    using run k by (cases "find ds k (do_id doc) (db_candidate_limit (de_bounds env))")
      (simp_all add: exact_stage_def first_canonical_def)
  note first = first_is_oldest [OF docs cands]
  from run k cands have hit: "resolve_canonical ds i = Inr (Some (dh_canonical hit))" "dh_stage hit = st" "dh_similarity hit = 1"
    by (auto simp: exact_stage_def first_canonical_def rbind_Inr_iff)
  have "get_document ds i \<noteq> None" using first by auto
  from resolve_root [OF ok this hit(1)] first have "hit_ok ds (do_id doc) hit" by (auto simp: hit_ok_def)
  with first hit k show ?thesis by blast
qed

lemma exact_stage_none:
  assumes ok: "older_ok ds" and run: "exact_stage st find env ds doc key = Inr None" and k: "key = Some k"
    and i: "get_document ds i = Some d" "column d = Some k"
  shows "do_id doc \<le> i"
proof -
  have docs: "documents_ok ds" using ok by (simp add: older_ok_def)
  have "find ds k (do_id doc) (db_candidate_limit (de_bounds env)) = []"
  proof (cases "find ds k (do_id doc) (db_candidate_limit (de_bounds env))")
    case (Cons j "is")
    from first_is_oldest [OF docs Cons] have "get_document ds j \<noteq> None" by auto
    moreover from run k Cons have "resolve_canonical ds j = Inr None"
      by (auto simp: exact_stage_def first_canonical_def rbind_Inr_iff)
    ultimately show ?thesis using resolve_root [OF ok] by blast
  qed
  with none_older [OF docs] i show ?thesis by blast
qed

end

lemma nearest_in: "nearest fp cs = Some b \<Longrightarrow> b \<in> set cs"
  by (induction cs arbitrary: b) (auto split: option.splits if_splits)

lemma nearest_none: "nearest fp cs = None \<longleftrightarrow> cs = []"
  by (cases cs) (auto split: option.splits)

lemma nearest_least: "nearest fp cs = Some b \<Longrightarrow> c \<in> set cs \<Longrightarrow> hamming_distance (snd b) fp \<le> hamming_distance (snd c) fp"
proof (induction cs arbitrary: b)
  case (Cons a cs)
  show ?case
  proof (cases "nearest fp cs")
    case None
    with Cons.prems show ?thesis by (simp add: nearest_none)
  next
    case (Some m)
    with Cons.prems Cons.IH [OF Some] show ?thesis by (auto simp: nearer_def Let_def split: if_splits) 
  qed
qed simp

lemma simhash_stage_hit:
  assumes ok: "older_ok ds" and run: "simhash_stage env ds doc fp = Inr (Some hit)"
  shows "hit_ok ds (do_id doc) hit \<and> dh_stage hit = Simhash \<and>
    (\<exists>f i d h. fp = Some f \<and> get_document ds i = Some d \<and> do_simhash d = Some h \<and> i < do_id doc \<and>
      hamming_distance h f \<le> db_simhash_max_distance (de_bounds env) \<and> dh_similarity hit = similarity (hamming_distance h f) \<and>
      (\<forall>e \<in> set (simhash_window ds (do_id doc) (db_simhash_scan_limit (de_bounds env))).
         \<forall>g. do_simhash e = Some g \<longrightarrow> hamming_distance h f \<le> hamming_distance g f) \<and>
      resolve_canonical ds i = Inr (Some (dh_canonical hit)))"
proof -
  have docs: "documents_ok ds" using ok by (simp add: older_ok_def)
  from run obtain f where f: "fp = Some f" by (cases fp) (simp_all add: simhash_stage_def)
  let ?m = "db_simhash_max_distance (de_bounds env)" and ?s = "db_simhash_scan_limit (de_bounds env)"
  obtain i h where best: "nearest f (find_simhash_candidates ds f ?m (do_id doc) ?s) = Some (i, h)"
    using run f by (cases "nearest f (find_simhash_candidates ds f ?m (do_id doc) ?s)") (auto simp: simhash_stage_def)
  from simhash_candidate [OF docs nearest_in [OF best]] obtain d where d: "i < do_id doc" "hamming_distance h f \<le> ?m"
    "get_document ds i = Some d" "do_simhash d = Some h" by blast
  from run f best have hit: "resolve_canonical ds i = Inr (Some (dh_canonical hit))" "dh_stage hit = Simhash"
    "dh_similarity hit = similarity (hamming_distance h f)"
    by (auto simp: simhash_stage_def rbind_Inr_iff)
  have near: "hamming_distance h f \<le> hamming_distance g f"
    if e: "e \<in> set (simhash_window ds (do_id doc) ?s)" "do_simhash e = Some g" for e g
  proof (cases "hamming_distance g f \<le> ?m")
    case True
    with e have "(do_id e, g) \<in> set (find_simhash_candidates ds f ?m (do_id doc) ?s)"
      by (force simp: find_simhash_candidates_def image_iff)
    from nearest_least [OF best this] show ?thesis by simp
  qed (use d(2) in simp)
  have "get_document ds i \<noteq> None" using d(3) by simp
  from resolve_root [OF ok this hit(1)] d(1) have "hit_ok ds (do_id doc) hit" by (auto simp: hit_ok_def)
  with hit d near f show ?thesis by blast
qed

lemma simhash_stage_none:
  assumes ok: "older_ok ds" and run: "simhash_stage env ds doc (Some f) = Inr None"
    and e: "e \<in> set (simhash_window ds (do_id doc) (db_simhash_scan_limit (de_bounds env)))" "do_simhash e = Some g"
  shows "db_simhash_max_distance (de_bounds env) < hamming_distance g f"
proof (rule ccontr)
  let ?cs = "find_simhash_candidates ds f (db_simhash_max_distance (de_bounds env)) (do_id doc) (db_simhash_scan_limit (de_bounds env))"
  have docs: "documents_ok ds" using ok by (simp add: older_ok_def)
  assume "\<not> db_simhash_max_distance (de_bounds env) < hamming_distance g f"
  with e have "(do_id e, g) \<in> set ?cs" by (force simp: find_simhash_candidates_def image_iff)
  then obtain b where b: "nearest f ?cs = Some b" by (cases "nearest f ?cs") (auto simp: nearest_none)
  obtain i h where ih: "b = (i, h)" by (cases b)
  from simhash_candidate [OF docs nearest_in [OF b [unfolded ih]]] have "get_document ds (fst b) \<noteq> None" unfolding ih by auto
  moreover from run b have "resolve_canonical ds (fst b) = Inr None" by (auto simp: simhash_stage_def rbind_Inr_iff)
  ultimately show False using resolve_root [OF ok] by blast
qed

section \<open>The stages in order\<close>

text \<open>No older document has the key, none in the window is near, and the two kinds of match.\<close>

definition no_older :: "doc_store \<Rightarrow> (document \<Rightarrow> string option) \<Rightarrow> string option \<Rightarrow> uuid \<Rightarrow> bool" where
  "no_older ds column key before \<longleftrightarrow>
     (\<forall>k i d. key = Some k \<longrightarrow> get_document ds i = Some d \<longrightarrow> column d = Some k \<longrightarrow> before \<le> i)"

definition oldest_match :: "doc_store \<Rightarrow> (document \<Rightarrow> string option) \<Rightarrow> string option \<Rightarrow> uuid \<Rightarrow> duplicate_hit \<Rightarrow> bool" where
  "oldest_match ds column key before hit \<longleftrightarrow> dh_similarity hit = 1 \<and>
     (\<exists>k i d. key = Some k \<and> get_document ds i = Some d \<and> column d = Some k \<and> i < before \<and>
       (\<forall>j e. get_document ds j = Some e \<longrightarrow> column e = Some k \<longrightarrow> i \<le> j) \<and>
       resolve_canonical ds i = Inr (Some (dh_canonical hit)))"

definition none_near :: "dedup_bounds \<Rightarrow> doc_store \<Rightarrow> uuid \<Rightarrow> 64 word option \<Rightarrow> bool" where
  "none_near b ds before fp \<longleftrightarrow>
     (\<forall>f e g. fp = Some f \<longrightarrow> e \<in> set (simhash_window ds before (db_simhash_scan_limit b)) \<longrightarrow> do_simhash e = Some g \<longrightarrow>
       db_simhash_max_distance b < hamming_distance g f)"

definition nearest_match :: "dedup_bounds \<Rightarrow> doc_store \<Rightarrow> uuid \<Rightarrow> 64 word option \<Rightarrow> duplicate_hit \<Rightarrow> bool" where
  "nearest_match b ds before fp hit \<longleftrightarrow>
     (\<exists>f i d h. fp = Some f \<and> get_document ds i = Some d \<and> do_simhash d = Some h \<and> i < before \<and>
      hamming_distance h f \<le> db_simhash_max_distance b \<and> dh_similarity hit = similarity (hamming_distance h f) \<and>
      (\<forall>e \<in> set (simhash_window ds before (db_simhash_scan_limit b)).
         \<forall>g. do_simhash e = Some g \<longrightarrow> hamming_distance h f \<le> hamming_distance g f) \<and>
      resolve_canonical ds i = Inr (Some (dh_canonical hit)))"

lemma or_else_Inr:
  "or_else a b = Inr r \<longleftrightarrow> (\<exists>h. r = Some h \<and> a = Inr (Some h)) \<or> (a = Inr None \<and> b = Inr r)"
  by (auto simp: or_else_def rbind_Inr_iff split: option.splits)

context older_documents
begin

lemma stage_hit:
  "older_ok ds \<Longrightarrow> exact_stage st find env ds doc key = Inr (Some hit) \<Longrightarrow>
     hit_ok ds (do_id doc) hit \<and> dh_stage hit = st \<and> oldest_match ds column key (do_id doc) hit"
  using exact_stage_hit [of ds st env doc key hit] unfolding oldest_match_def by blast

lemma stage_none:
  "older_ok ds \<Longrightarrow> exact_stage st find env ds doc key = Inr None \<Longrightarrow> no_older ds column key (do_id doc)"
  unfolding no_older_def using exact_stage_none by blast

end

lemma near_hit:
  "older_ok ds \<Longrightarrow> simhash_stage env ds doc fp = Inr (Some hit) \<Longrightarrow>
     hit_ok ds (do_id doc) hit \<and> dh_stage hit = Simhash \<and> nearest_match (de_bounds env) ds (do_id doc) fp hit"
  using simhash_stage_hit [of ds env doc fp hit] unfolding nearest_match_def by blast

lemma near_none:
  "older_ok ds \<Longrightarrow> simhash_stage env ds doc fp = Inr None \<Longrightarrow> none_near (de_bounds env) ds (do_id doc) fp"
  unfolding none_near_def using simhash_stage_none by blast

lemma semantic_hit:
  "semantic_stage env ds doc = Inr (Some hit) \<Longrightarrow> dh_stage hit = Semantic \<and>
     (\<exists>i m. de_detect env doc = SemHit i (dh_similarity hit) m \<and> dh_model hit = Some m \<and>
        resolve_canonical ds i = Inr (Some (dh_canonical hit)))"
  by (auto simp: semantic_stage_def rbind_Inr_iff split: semantic_outcome.splits)

lemmas stage_hits = by_external_key.stage_hit by_canonical_url.stage_hit by_content_hash.stage_hit near_hit
lemmas stage_nones = by_external_key.stage_none by_canonical_url.stage_none by_content_hash.stage_none near_none

text \<open>
  C7: The five stages are tried in order and the first that matches decides: a hit of a key stage is the oldest older
  document with the same key and of the fourth stage the nearest of the scanned window, a hit of a stage means that
  the stages before it match no older document, and no hit that none of the first four does; outside the semantic
  stage the canonical document is always older than the duplicate and is not a duplicate itself.
\<close>

theorem find_duplicate_exact:
  assumes "older_ok ds" "find_duplicate env ds doc keys = Inr r"
  shows "(\<forall>hit. r = Some hit \<longrightarrow> dh_stage hit \<noteq> Semantic \<longrightarrow> hit_ok ds (do_id doc) hit) \<and>
    (case map_option dh_stage r of
       Some PlatformExternalId \<Rightarrow> oldest_match ds do_external_key (dk_external_key keys) (do_id doc) (the r)
     | Some CanonicalUrl \<Rightarrow> no_older ds do_external_key (dk_external_key keys) (do_id doc) \<and>
         oldest_match ds do_canonical_url (dk_canonical_url keys) (do_id doc) (the r)
     | Some ContentHash \<Rightarrow> no_older ds do_external_key (dk_external_key keys) (do_id doc) \<and>
         no_older ds do_canonical_url (dk_canonical_url keys) (do_id doc) \<and>
         oldest_match ds do_content_hash (dk_content_hash keys) (do_id doc) (the r)
     | other \<Rightarrow> no_older ds do_external_key (dk_external_key keys) (do_id doc) \<and>
         no_older ds do_canonical_url (dk_canonical_url keys) (do_id doc) \<and>
         no_older ds do_content_hash (dk_content_hash keys) (do_id doc) \<and>
         (if other = Some Simhash then nearest_match (de_bounds env) ds (do_id doc) (dk_simhash keys) (the r)
          else none_near (de_bounds env) ds (do_id doc) (dk_simhash keys)))"
  using assms(2) unfolding find_duplicate_def or_else_Inr
  by (cases r; elim disjE exE conjE; auto dest!: stage_hits [OF assms(1)] stage_nones [OF assms(1)] semantic_hit)

section \<open>One document\<close>

text \<open>What a call may leave behind: the groups, the row of the document with its keys, and the claim.\<close>

definition claim_row :: "('c, 'u) dedup_env \<Rightarrow> document \<Rightarrow> duplicate_hit option \<Rightarrow> dedup_keys \<Rightarrow> provenance" where
  "claim_row env doc hit keys =
     \<lparr>pv_id = de_claim_id env, pv_subject_id = do_id doc, pv_action = ACTION_DEDUPLICATED,
       pv_parent_id = map_option dh_canonical hit, pv_raw_evidence_id = attribute_uuid env doc ''raw_evidence_id'',
       pv_processor = PROCESSOR, pv_processor_version = de_version env, pv_timestamp = de_now env,
       pv_metadata = claim_metadata env hit keys\<rparr>"

lemma dedup_claim_row: "dedup_claim env doc hit keys = store_write (put_provenance (claim_row env doc hit keys))"
  by (simp add: dedup_claim_def claim_row_def)

lemma put_provenance_effect:
  "put_provenance p ds = Inr ds' \<Longrightarrow> ds' = ds\<lparr>ds_provenance := tbl_put (pv_id p) p (ds_provenance ds)\<rparr>"
  by (auto simp: put_provenance_def split: if_splits)

lemma put_document_effect:
  "put_document doc ds = Inr ds' \<Longrightarrow> ds' = ds\<lparr>ds_documents := tbl_put (do_id doc) doc (ds_documents ds)\<rparr>"
  by (auto simp: put_document_def split: if_splits)

lemma put_group_effect:
  "put_duplicate_group g ds = Inr ds' \<Longrightarrow> ds' = ds\<lparr>ds_groups := tbl_put (dg_id g) g (ds_groups ds)\<rparr>"
  by (auto simp: put_duplicate_group_def split: if_splits)

definition same_but_groups :: "doc_store \<Rightarrow> doc_store \<Rightarrow> bool" where
  "same_but_groups ds ds' \<longleftrightarrow> ds_db ds' = ds_db ds \<and> ds_documents ds' = ds_documents ds \<and> ds_provenance ds' = ds_provenance ds"

lemma write_group_effect:
  "write_group env doc hit w = (r, w') \<Longrightarrow> same_but_groups (dw_store w) (dw_store w') \<and> dw_events w' = dw_events w"
  by (auto simp: write_group_def Let_def op_bind_def store_write_def same_but_groups_def split: sum.splits
      dest!: put_group_effect)

lemma claim_or_yield_cases:
  assumes "claim_or_yield env doc hit keys w = (r, w')"
  shows "(r = Inr None \<and> put_provenance (claim_row env doc hit keys) (dw_store w) = Inr (dw_store w') \<and> dw_events w' = dw_events w) \<or>
    (r \<noteq> Inr None \<and> w' = w)"
  using assms by (auto simp: claim_or_yield_def dedup_claim_row store_write_def split: sum.splits if_splits option.splits)

fun outcome_id :: "dedup_outcome \<Rightarrow> uuid" where
  "outcome_id (DedupCanonical i) = i"
| "outcome_id (DedupDuplicate i c st s g) = i"
| "outcome_id (DedupAlreadyDone i c) = i"
| "outcome_id (DedupDocumentMissing i) = i"

lemma publish_cases:
  "dedup_publish env outcome w = (r, w') \<Longrightarrow> dw_store w' = dw_store w \<and>
     (dw_events w' = dw_events w \<or> (\<exists>x. dw_events w' = dw_events w @ [DedupCompleted (outcome_id outcome) x]))"
  by (auto simp: dedup_publish_def Let_def split: option.splits dedup_outcome.splits if_splits)

lemma op_bind_cases:
  assumes "op_bind m k s = (r, s')"
  obtains e where "m s = (Inl e, s')" "r = Inl e" | x s1 where "m s = (Inr x, s1)" "k x s1 = (r, s')"
  using assms by (auto simp: op_bind_def split: prod.splits sum.splits)

text \<open>The row of the document is the only one that changes, and it changes to what the stages found.\<close>

definition document_written :: "('c, 'u) dedup_env \<Rightarrow> document \<Rightarrow> dedup_keys \<Rightarrow> duplicate_hit option \<Rightarrow> doc_store \<Rightarrow> doc_store \<Rightarrow> bool" where
  "document_written env doc keys hit ds ds' \<longleftrightarrow>
     derive_keys env ds doc = Inr keys \<and> find_duplicate env ds doc keys = Inr hit \<and> ds_db ds' = ds_db ds \<and>
     ds_documents ds' = tbl_put (do_id doc) (with_keys doc keys hit) (ds_documents ds)"

definition claim_written :: "('c, 'u) dedup_env \<Rightarrow> document \<Rightarrow> dedup_keys \<Rightarrow> duplicate_hit option \<Rightarrow> doc_store \<Rightarrow> doc_store \<Rightarrow> bool" where
  "claim_written env doc keys hit ds ds' \<longleftrightarrow>
     ds_provenance ds' = tbl_put (de_claim_id env) (claim_row env (with_keys doc keys hit) hit keys) (ds_provenance ds)"

lemma claim_row_id [simp]: "pv_id (claim_row env doc hit keys) = de_claim_id env"
  by (simp add: claim_row_def)

lemma group_step_effect:
  assumes "group_step env doc hit w = (r, w')"
  shows "same_but_groups (dw_store w) (dw_store w') \<and> dw_events w' = dw_events w \<and> (\<forall>g. r = Inr g \<longrightarrow> (g = None \<longleftrightarrow> hit = None))"
  using assms
  by (auto simp: group_step_def same_but_groups_def split: option.splits
      elim!: op_bind_cases dest!: write_group_effect)

lemma announce_effect:
  "announce env i hit g w = (r, w') \<Longrightarrow> dw_store w' = dw_store w \<and>
     (dw_events w' = dw_events w \<or> (\<exists>x. dw_events w' = dw_events w @ [DedupCompleted i x]))"
  by (auto simp: announce_def Let_def split: option.splits elim!: op_bind_cases dest!: publish_cases)

lemma with_keys_id [simp]: "do_id (with_keys doc keys hit) = do_id doc"
  by (simp add: with_keys_def)

lemma record_cases:
  assumes "record_outcome env doc keys hit w = (r, w')"
  obtains
    (failed) e where "r = Inl e" "same_but_groups (dw_store w) (dw_store w')" "dw_events w' = dw_events w"
  | (unclaimed) "ds_db (dw_store w') = ds_db (dw_store w)"
      "ds_documents (dw_store w') = tbl_put (do_id doc) (with_keys doc keys hit) (ds_documents (dw_store w))"
      "ds_provenance (dw_store w') = ds_provenance (dw_store w)" "dw_events w' = dw_events w"
  | (claimed) "ds_db (dw_store w') = ds_db (dw_store w)"
      "ds_documents (dw_store w') = tbl_put (do_id doc) (with_keys doc keys hit) (ds_documents (dw_store w))"
      "claim_written env doc keys hit (dw_store w) (dw_store w')"
      "\<exists>g w3. announce env (do_id doc) hit g w3 = (r, w') \<and> dw_store w3 = dw_store w' \<and> dw_events w3 = dw_events w"
proof -
  let ?doc = "with_keys doc keys hit"
  from assms [unfolded record_outcome_def] show ?thesis
  proof (cases rule: op_bind_cases)
    case (1 e)
    with group_step_effect [OF 1(1)] show ?thesis by (intro failed) auto
  next
    case (2 g w1)
    note group = group_step_effect [OF 2(1)]
    from 2(2) show ?thesis
    proof (cases rule: op_bind_cases)
      case (1 e)
      then have "w' = w1" by (auto simp: store_write_def split: sum.splits)
      with group 1(2) show ?thesis by (intro failed) auto
    next
      case (2 u w2)
      then have put: "put_document ?doc (dw_store w1) = Inr (dw_store w2)" and w2: "dw_events w2 = dw_events w1"
        by (auto simp: store_write_def split: sum.splits)
      from put_document_effect [OF put] group w2
      have w2: "ds_db (dw_store w2) = ds_db (dw_store w)" "dw_events w2 = dw_events w"
        "ds_documents (dw_store w2) = tbl_put (do_id doc) ?doc (ds_documents (dw_store w))"
        "ds_provenance (dw_store w2) = ds_provenance (dw_store w)"
        by (simp_all add: same_but_groups_def)
      show ?thesis
      proof (cases "claim_or_yield env ?doc hit keys w2")
        case (Pair c w3)
        from claim_or_yield_cases [OF Pair] show ?thesis
        proof
          assume c: "c = Inr None \<and> put_provenance (claim_row env ?doc hit keys) (dw_store w2) = Inr (dw_store w3) \<and>
            dw_events w3 = dw_events w2"
          with 2(2) Pair have "announce env (do_id doc) hit g w3 = (r, w')" by (simp add: op_bind_def)
          note ann = announce_effect [OF this]
          from c put_provenance_effect [of "claim_row env ?doc hit keys" "dw_store w2"]
          have "dw_store w3 = dw_store w2\<lparr>ds_provenance :=
             tbl_put (de_claim_id env) (claim_row env ?doc hit keys) (ds_provenance (dw_store w2))\<rparr>" by auto
          with c ann w2 \<open>announce env (do_id doc) hit g w3 = (r, w')\<close> show ?thesis
            by (intro claimed) (auto simp: claim_written_def)
        next
          assume c: "c \<noteq> Inr None \<and> w3 = w2"
          with 2(2) Pair have "w' = w2" by (auto simp: op_bind_def split: sum.splits option.splits)
          with w2 show ?thesis by (intro unclaimed) auto
        qed
      qed
    qed
  qed
qed

lemma process_cases:
  assumes "dedup_process env doc w = (r, w')"
  obtains
    (failed) e where "r = Inl e" "same_but_groups (dw_store w) (dw_store w')" "dw_events w' = dw_events w"
  | (unclaimed) keys hit where "document_written env doc keys hit (dw_store w) (dw_store w')"
      "ds_provenance (dw_store w') = ds_provenance (dw_store w)" "dw_events w' = dw_events w"
  | (claimed) keys hit where "document_written env doc keys hit (dw_store w) (dw_store w')"
      "claim_written env doc keys hit (dw_store w) (dw_store w')"
      "\<exists>g w3. announce env (do_id doc) hit g w3 = (r, w') \<and> dw_store w3 = dw_store w' \<and> dw_events w3 = dw_events w"
proof -
  let ?w = "w\<lparr>dw_examined := dw_examined w + 1\<rparr>"
  consider e where "r = Inl e" "w' = ?w"
    | keys hit where "derive_keys env (dw_store w) doc = Inr keys" "find_duplicate env (dw_store w) doc keys = Inr hit"
        "record_outcome env doc keys hit ?w = (r, w')"
    using assms unfolding dedup_process_def by (auto simp: pure_step_def elim!: op_bind_cases)
  then show ?thesis
  proof cases
    case 1
    then show ?thesis by (intro failed) (auto simp: same_but_groups_def)
  next
    case (2 keys hit)
    from 2(3) show ?thesis
      by (cases rule: record_cases) (use 2(1,2) failed unclaimed claimed in \<open>auto simp: document_written_def claim_written_def\<close>)
  qed
qed

section \<open>What every call keeps\<close>

definition has_claim :: "doc_store \<Rightarrow> uuid \<Rightarrow> bool" where
  "has_claim ds i \<longleftrightarrow> (\<exists>p \<in> snd ` set (ds_provenance ds). pv_action p = ACTION_DEDUPLICATED \<and> pv_subject_id p = i)"

lemma existing_claim_iff: "existing_claim env ds i = None \<longleftrightarrow> \<not> has_claim ds i"
  by (force simp: existing_claim_def find_None_iff list_provenance_by_subject_def tbl_select_def has_claim_def)

lemma existing_claim_done: "has_claim ds i \<Longrightarrow> \<exists>c. existing_claim env ds i = Some (DedupAlreadyDone i c)"
  using existing_claim_iff [of env ds i] by (auto simp: existing_claim_def)

definition only_keys_differ :: "document \<Rightarrow> document \<Rightarrow> bool" where
  "only_keys_differ d d' \<longleftrightarrow>
     d' = d\<lparr>do_external_key := do_external_key d', do_canonical_url := do_canonical_url d', do_simhash := do_simhash d',
            do_duplicate_of := do_duplicate_of d'\<rparr>"

lemma only_keys_differ_refl [simp]: "only_keys_differ d d"
  by (simp add: only_keys_differ_def)

lemma only_keys_differ_with_keys [simp]: "only_keys_differ d (with_keys d keys hit)"
  by (simp add: only_keys_differ_def with_keys_def)

lemma only_keys_differ_trans: "only_keys_differ a b \<Longrightarrow> only_keys_differ b c \<Longrightarrow> only_keys_differ a c"
  by (cases a, cases b, cases c) (simp add: only_keys_differ_def)

definition older_detect :: "('c, 'u) dedup_env \<Rightarrow> bool" where
  "older_detect env \<longleftrightarrow> (\<forall>doc h s m. de_detect env doc = SemHit h s m \<longrightarrow> h < do_id doc)"

lemma find_duplicate_older:
  assumes ok: "older_ok ds" and env: "older_detect env" and run: "find_duplicate env ds doc keys = Inr (Some hit)"
  shows "hit_ok ds (do_id doc) hit"
proof -
  have sem: "hit_ok ds (do_id doc) hit" if "semantic_stage env ds doc = Inr (Some hit)"
  proof -
    from semantic_hit [OF that] obtain i m where i: "de_detect env doc = SemHit i (dh_similarity hit) m"
      "resolve_canonical ds i = Inr (Some (dh_canonical hit))" by blast
    then have "get_document ds i \<noteq> None" using resolve_missing [of ds i] by auto
    from resolve_root [OF ok this i(2)] have "dh_canonical hit \<le> i" "canonical_in ds (dh_canonical hit)" by auto
    moreover have "i < do_id doc" using env i(1) unfolding older_detect_def by blast
    ultimately show ?thesis by (simp add: hit_ok_def)
  qed
  from run show ?thesis unfolding find_duplicate_def or_else_Inr using stage_hits [OF ok] sem by blast
qed

lemma put_documents:
  "ds_documents ds' = tbl_put (do_id d) d (ds_documents ds) \<Longrightarrow> get_document ds' = (get_document ds)(do_id d \<mapsto> d)"
  by (simp add: get_document_def tbl_get_put fun_eq_iff)

text \<open>The documents before and after: the same ones, with the same content, and sound pointers.\<close>

definition documents_kept :: "doc_store \<Rightarrow> doc_store \<Rightarrow> bool" where
  "documents_kept ds ds' \<longleftrightarrow> ds_db ds' = ds_db ds \<and>
     (\<forall>i. rel_option only_keys_differ (get_document ds i) (get_document ds' i))"

lemma documents_kept_refl [simp]: "documents_kept ds ds"
  by (simp add: documents_kept_def option.rel_refl)

lemma documents_kept_trans: "documents_kept a b \<Longrightarrow> documents_kept b c \<Longrightarrow> documents_kept a c"
  unfolding documents_kept_def
  using option.rel_transp [of only_keys_differ] only_keys_differ_trans by (metis transpD transpI)

lemma written_keeps:
  assumes ok: "older_ok ds" and env: "older_detect env" and doc: "get_document ds i = Some doc"
    and wr: "document_written env doc keys hit ds ds'"
  shows "older_ok ds' \<and> documents_kept ds ds' \<and> (\<forall>j. j \<noteq> i \<longrightarrow> get_document ds' j = get_document ds j)"
proof -
  have docs: "documents_ok ds" using ok by (simp add: older_ok_def)
  have id: "do_id doc = i" by (rule get_document_id [OF docs doc])
  from wr have put: "ds_documents ds' = tbl_put (do_id (with_keys doc keys hit)) (with_keys doc keys hit) (ds_documents ds)"
    and db: "ds_db ds' = ds_db ds" and fd: "find_duplicate env ds doc keys = Inr hit"
    by (simp_all add: document_written_def)
  note get = put_documents [OF put, unfolded with_keys_id id]
  have "documents_ok ds'" 
    using docs tbl_keyed_put [of do_id "ds_documents ds" "with_keys doc keys hit"] by (simp add: documents_ok_def put)
  moreover have "c < i \<and> get_document ds c \<noteq> None" if "do_duplicate_of (with_keys doc keys hit) = Some c" for c
  proof -
    from that obtain h where h: "hit = Some h" "dh_canonical h = c" by (auto simp: with_keys_def)
    from find_duplicate_older [OF ok env fd [unfolded h(1)]] show ?thesis
      using h(2) id by (auto simp: hit_ok_def canonical_in_def)
  qed
  ultimately have "older_ok ds'" using ok unfolding older_ok_def by (auto simp: get)
  moreover have "documents_kept ds ds'" using db doc by (simp add: documents_kept_def get option.rel_refl)
  ultimately show ?thesis using get by simp
qed

lemma same_but_groups_get: "same_but_groups ds ds' \<Longrightarrow> get_document ds' = get_document ds \<and> ds_provenance ds' = ds_provenance ds"
  by (simp add: same_but_groups_def get_document_def fun_eq_iff)

lemma dedup_document_cases:
  assumes "dedup_document env i w = (r, w')"
  obtains (unchanged) "w' = w" "\<And>e. r \<noteq> Inl e" "has_claim (dw_store w) i \<or> get_document (dw_store w) i = None"
  | (processed) doc where "\<not> has_claim (dw_store w) i" "get_document (dw_store w) i = Some doc"
      "dedup_process env doc w = (r, w')"
  using assms existing_claim_iff [of env "dw_store w" i] by (auto simp: dedup_document_def split: option.splits)

lemma dedup_document_keeps:
  assumes ok: "older_ok (dw_store w)" and env: "older_detect env" and run: "dedup_document env i w = (r, w')"
  shows "older_ok (dw_store w') \<and> documents_kept (dw_store w) (dw_store w') \<and>
    (\<forall>j. j \<noteq> i \<longrightarrow> get_document (dw_store w') j = get_document (dw_store w) j)"
  using run
proof (cases rule: dedup_document_cases)
  case (processed doc)
  note keeps = written_keeps [OF ok env processed(2)]
  from processed(3) show ?thesis
  proof (cases rule: process_cases)
    case failed
    then have "older_ok (dw_store w')" using ok same_but_groups_get [OF failed(2)]
      by (simp add: older_ok_def documents_ok_def same_but_groups_def)
    then show ?thesis using failed(2) same_but_groups_get [OF failed(2)]
      by (simp add: documents_kept_def same_but_groups_def option.rel_refl)
  qed (use keeps in blast)+
qed (use ok in simp)

lemma written_documents:
  assumes docs: "documents_ok ds" and doc: "get_document ds i = Some doc" and wr: "document_written env doc keys hit ds ds'"
  shows "documents_ok ds' \<and> (\<forall>j. j \<noteq> i \<longrightarrow> get_document ds' j = get_document ds j)"
proof -
  have id: "do_id doc = i" by (rule get_document_id [OF docs doc])
  from wr have put: "ds_documents ds' = tbl_put (do_id (with_keys doc keys hit)) (with_keys doc keys hit) (ds_documents ds)"
    by (simp add: document_written_def)
  note get = put_documents [OF put, unfolded with_keys_id id]
  have "documents_ok ds'" using docs tbl_keyed_put [of do_id "ds_documents ds" "with_keys doc keys hit"]
    by (simp add: documents_ok_def put)
  with get show ?thesis by simp
qed

section \<open>One event\<close>

lemma handle_ids_invariant:
  assumes skip: "\<And>k v. P k v \<Longrightarrow> P (Suc k) v" and step: "\<And>k i v. P k v \<Longrightarrow> P (Suc k) (snd (dedup_document (envs k) i v))"
    and "P k w"
  shows "\<exists>l. P l (snd (handle_ids envs k ids w))"
  using assms(3)
proof (induction ids arbitrary: k w)
  case (Cons raw ids)
  show ?case
  proof (cases "Option.bind (json_str (Some raw)) (de_parse_uuid (envs k))")
    case None
    with Cons.IH [OF skip [OF Cons.prems]] show ?thesis by simp
  next
    case (Some i)
    with Cons.IH [OF step [OF Cons.prems, of i]] show ?thesis by (auto simp: Let_def split: prod.splits)
  qed
qed auto

lemma handle_payload_invariant:
  assumes "handle_payload envs payload w = (r, w')"
    and "\<And>k v. P k v \<Longrightarrow> P (Suc k) v" "\<And>k i v. P k v \<Longrightarrow> P (Suc k) (snd (dedup_document (envs k) i v))" "P 0 w"
    and frame: "\<And>k v. P k v \<Longrightarrow> P k (v\<lparr>dw_failed_jobs := dw_failed_jobs v + 1\<rparr>)"
  shows "\<exists>k. P k w'"
proof (cases "\<exists>ids. json_field payload ''document_ids'' = Some (JArray ids)")
  case True
  then obtain ids where "json_field payload ''document_ids'' = Some (JArray ids)" by blast
  with assms(1) have "w' = snd (handle_ids envs 0 ids w)" by (auto simp: handle_payload_def split: prod.splits)
  with handle_ids_invariant [of P envs 0 w ids, OF assms(2,3,4)] show ?thesis by simp
next
  case False
  with assms(1) have "w' = w\<lparr>dw_failed_jobs := dw_failed_jobs w + 1\<rparr>"
    by (auto simp: handle_payload_def split: option.splits json.splits)
  with frame [OF assms(4)] show ?thesis by blast
qed


text \<open>The claims and the events of a document.\<close>

fun event_id :: "dedup_event \<Rightarrow> uuid" where
  "event_id (DedupCompleted i x) = i"

definition event_count :: "dedup_world \<Rightarrow> uuid \<Rightarrow> nat" where
  "event_count w i = count_list (map event_id (dw_events w)) i"

definition claims_unique :: "doc_store \<Rightarrow> bool" where
  "claims_unique ds \<longleftrightarrow> (\<forall>(k, p) \<in> set (ds_provenance ds). \<forall>(l, q) \<in> set (ds_provenance ds).
     pv_action p = ACTION_DEDUPLICATED \<longrightarrow> pv_action q = ACTION_DEDUPLICATED \<longrightarrow> pv_subject_id p = pv_subject_id q \<longrightarrow> k = l)"

definition announced_once :: "dedup_world \<Rightarrow> bool" where
  "announced_once w \<longleftrightarrow> claims_unique (dw_store w) \<and>
     (\<forall>i. event_count w i \<le> (if has_claim (dw_store w) i then 1 else 0))"

definition fresh_claims :: "(nat \<Rightarrow> ('c, 'u) dedup_env) \<Rightarrow> nat \<Rightarrow> doc_store \<Rightarrow> bool" where
  "fresh_claims envs k ds \<longleftrightarrow> (\<forall>j\<ge>k. de_claim_id (envs j) \<notin> fst ` set (ds_provenance ds) \<and>
     (\<forall>l>j. de_claim_id (envs l) \<noteq> de_claim_id (envs j)))"

definition settled :: "dedup_world \<Rightarrow> dedup_world \<Rightarrow> bool" where
  "settled w v \<longleftrightarrow> (\<forall>i. has_claim (dw_store w) i \<longrightarrow> has_claim (dw_store v) i \<and>
     get_document (dw_store v) i = get_document (dw_store w) i \<and> event_count v i = event_count w i)"

lemma settled_refl [simp]: "settled w w"
  by (simp add: settled_def)

lemma settled_trans: "settled a b \<Longrightarrow> settled b c \<Longrightarrow> settled a c"
  by (simp add: settled_def)

lemma claim_row_fields [simp]:
  "pv_action (claim_row env doc hit keys) = ACTION_DEDUPLICATED" "pv_subject_id (claim_row env doc hit keys) = do_id doc"
  by (simp_all add: claim_row_def)

lemma dedup_document_once:
  assumes docs: "documents_ok (dw_store w)" and once: "announced_once w" and fresh: "fresh_claims envs k (dw_store w)"
    and run: "dedup_document (envs k) i w = (r, w')"
  shows "documents_ok (dw_store w') \<and> announced_once w' \<and> fresh_claims envs (Suc k) (dw_store w') \<and> settled w w'"
  using run
proof (cases rule: dedup_document_cases)
  case unchanged
  with docs once fresh show ?thesis by (auto simp: fresh_claims_def)
next
  case (processed doc)
  have id: "do_id doc = i" by (rule get_document_id [OF docs processed(2)])
  from processed(3) show ?thesis
  proof (cases rule: process_cases)
    case (failed e)
    note same = same_but_groups_get [OF failed(2)]
    have "has_claim (dw_store w') = has_claim (dw_store w)" "event_count w' = event_count w"
      by (simp_all add: has_claim_def event_count_def same failed(3) fun_eq_iff)
    with docs once fresh same failed(2) show ?thesis
      by (auto simp: announced_once_def claims_unique_def fresh_claims_def settled_def documents_ok_def same_but_groups_def)
  next
    case (unclaimed keys hit)
    note put = written_documents [OF docs processed(2) unclaimed(1)]
    have "has_claim (dw_store w') = has_claim (dw_store w)" "event_count w' = event_count w"
      by (simp_all add: has_claim_def event_count_def unclaimed fun_eq_iff)
    with once fresh put unclaimed(2) processed(1) show ?thesis
      by (auto simp: announced_once_def claims_unique_def fresh_claims_def settled_def)
  next
    case (claimed keys hit)
    note put = written_documents [OF docs processed(2) claimed(1)]
    let ?row = "claim_row (envs k) (with_keys doc keys hit) hit keys"
    have prov: "set (ds_provenance (dw_store w')) = insert (de_claim_id (envs k), ?row) (set (ds_provenance (dw_store w)))"
      using claimed(2) fresh by (simp add: claim_written_def fresh_claims_def set_put_fresh)
    have claim: "has_claim (dw_store w') j \<longleftrightarrow> j = i \<or> has_claim (dw_store w) j" for j
      by (auto simp: has_claim_def prov id)
    have new: "event_count w i = 0" using once processed(1) by (auto simp: announced_once_def split: if_splits)
    from claimed(3) have ev: "dw_events w' = dw_events w \<or> (\<exists>x. dw_events w' = dw_events w @ [DedupCompleted i x])"
      using announce_effect id by metis
    then have count: "event_count w' j \<le> event_count w j + (if j = i then 1 else 0)" "j \<noteq> i \<Longrightarrow> event_count w' j = event_count w j" for j
      by (auto simp: event_count_def)
    have "claims_unique (dw_store w')"
      using once processed(1) unfolding announced_once_def claims_unique_def prov has_claim_def by (fastforce simp: id)
    moreover have "event_count w' j \<le> (if has_claim (dw_store w') j then 1 else 0)" for j
    proof -
      have "event_count w j \<le> (if has_claim (dw_store w) j then 1 else 0)" using once by (simp add: announced_once_def)
      with count(1) [of j] new show ?thesis by (cases "j = i") (auto simp: claim split: if_splits)
    qed
    ultimately have "announced_once w'" by (simp add: announced_once_def)
    moreover have "fresh_claims envs (Suc k) (dw_store w')" using fresh by (auto simp: fresh_claims_def prov)
    moreover have "settled w w'" using put count(2) processed(1) unfolding settled_def claim by metis
    ultimately show ?thesis using put by blast
  qed
qed


text \<open>
  C9: A result that the broker does not take is lost: when the document is claimed and the publication fails, the call
  is an error and no event was added, but every later call answers that the document is done, and it never announces
  it.
\<close>

theorem dedup_publish_lost:
  assumes "dedup_document env i w = (r, w')" "\<not> has_claim (dw_store w) i" "has_claim (dw_store w') i"
    "documents_ok (dw_store w)" "de_producer env = Some (\<lambda>_. False)"
  shows "r = Inl DedupEventError \<and> dw_events w' = dw_events w \<and>
    (\<forall>env'. \<exists>c. dedup_document env' i w' = (Inr (DedupAlreadyDone i c), w'))"
  using assms(1)
proof (cases rule: dedup_document_cases)
  case (processed doc)
  have later: "\<exists>c. dedup_document env' i w' = (Inr (DedupAlreadyDone i c), w')" for env' :: "('c, 'u) dedup_env"
    using existing_claim_done [OF assms(3), of env'] by (auto simp: dedup_document_def)
  from processed(3) show ?thesis
  proof (cases rule: process_cases)
    case (failed e)
    then show ?thesis using assms(2,3) by (auto simp: has_claim_def same_but_groups_def)
  next
    case (unclaimed keys hit)
    then show ?thesis using assms(2,3) by (auto simp: has_claim_def)
  next
    case (claimed keys hit)
    then obtain g v where "announce env (do_id doc) hit g v = (r, w')" "dw_events v = dw_events w" by blast
    then have "r = Inl DedupEventError \<and> dw_events w' = dw_events w"
      by (auto simp: announce_def Let_def op_bind_def dedup_publish_def assms(5) split: option.splits)
    with later show ?thesis by blast
  qed
qed (use assms(2,3) in simp)

section \<open>A concrete run\<close>

definition sample_id :: "string \<Rightarrow> uuid option" where
  "sample_id s = (if s = ''one'' then Some 1 else if s = ''two'' then Some 2 else None)"

definition sample_env :: "semantic_outcome \<Rightarrow> bool \<Rightarrow> nat \<Rightarrow> (char, unit) dedup_env" where
  "sample_env detect accepts k =
     \<lparr>de_text = ascii_text, de_chars = id, de_whitespace = (\<lambda>c. c = CHR '' ''), de_sha256_hex = id,
      de_url = \<lparr>uo_parse = (\<lambda>_. None), uo_scheme = (\<lambda>_. []), uo_clear_fragment = id, uo_clear_userinfo = id,
        uo_query_pairs = (\<lambda>_. []), uo_has_query = (\<lambda>_. False), uo_clear_query = id, uo_write_pairs = (\<lambda>u _. u),
        uo_path = (\<lambda>_. []), uo_set_path = (\<lambda>u _. u), uo_show = (\<lambda>_. [])\<rparr>,
      de_parse_uuid = sample_id, de_show_uuid = (\<lambda>i. if i = 1 then ''one'' else ''two''), de_group_id = (\<lambda>i. i + 50),
      de_bounds = default_bounds, de_detect = (\<lambda>_. detect), de_detector_id = ''none'', de_version = ''1'', de_now = 5,
      de_claim_id = 100 + k, de_hash_task = True, de_producer = Some (\<lambda>_. accepts)\<rparr>"

definition sample_doc :: "uuid \<Rightarrow> document" where
  "sample_doc i =
     \<lparr>do_id = i, do_object_type = Article, do_schema_version = ''1'', do_title = Some ''title'', do_body = None, do_summary = None,
      do_language = None, do_author = None, do_published_at = None, do_modified_at = None, do_observed_at = 1,
      do_collected_at = 1, do_source_url = None, do_canonical_url = None, do_content_hash = Some ''h'', do_confidence = 1,
      do_labels = [], do_attributes = JNull, do_external_key = None, do_simhash = None, do_duplicate_of = None\<rparr>"

definition sample_docs :: doc_store where
  "sample_docs = \<lparr>ds_db = empty_db, ds_documents = [(1, sample_doc 1), (2, sample_doc 2)], ds_provenance = [], ds_groups = []\<rparr>"

definition sample_dedup :: dedup_world where
  "sample_dedup = \<lparr>dw_store = sample_docs, dw_events = [], dw_examined = 0, dw_duplicates = 0, dw_failed_jobs = 0\<rparr>"

definition sample_event :: json where
  "sample_event = JObject [(''document_ids'', JArray [JString ''two'', JString ''three'', JString ''one''])]"

lemma sample_get: "get_document sample_docs i = (if i = 1 then Some (sample_doc 1) else if i = 2 then Some (sample_doc 2) else None)"
  by (simp add: get_document_def sample_docs_def tbl_get_Cons)

lemma sample_documents: "documents_ok sample_docs"
  by (auto simp: documents_ok_def sample_docs_def tbl_keyed_def tbl_ok_def tbl_get_Cons sample_doc_def split: if_splits)

lemma sample_older: "older_ok sample_docs"
  unfolding older_ok_def by (simp add: sample_documents sample_get) (auto simp: sample_doc_def split: if_splits)

lemma sample_duplicate:
  "find_duplicate (sample_env SemNoMatch True 0) sample_docs (sample_doc 2)
     \<lparr>dk_platform = None, dk_external_id = None, dk_external_key = None, dk_canonical_url = None,
      dk_content_hash = Some ''h'', dk_simhash = None\<rparr> =
   Inr (Some \<lparr>dh_canonical = 1, dh_stage = ContentHash, dh_similarity = 1, dh_model = None\<rparr>)"
  by code_simp

lemma sample_dedup_run:
  "let (r, w) = handle_payload (sample_env SemNoMatch True) sample_event sample_dedup
   in r = Inr [DedupDuplicate 2 1 ContentHash 1 52, DedupCanonical 1] \<and>
      dw_events w = [DedupCompleted 2 (Some (ContentHash, 1, 1, 52)), DedupCompleted 1 None] \<and>
      map fst (ds_provenance (dw_store w)) = [100, 102]"
  by code_simp

lemma sample_lost:
  "let (r, w) = dedup_document (sample_env SemNoMatch False 0) 2 sample_dedup
   in has_claim (dw_store w) 2 \<and> r = Inl DedupEventError"
  by code_simp

lemma sample_self_run:
  "let (r, w) = handle_payload (\<lambda>k. sample_env (if k = 2 then SemHit 2 (99/100) ''m'' else SemNoMatch) True k) sample_event sample_dedup
   in r = Inr [DedupDuplicate 2 1 ContentHash 1 52, DedupDuplicate 1 1 Semantic (99/100) 51]"
  by code_simp

text \<open>
  C10: The semantic stage can make a document a duplicate of itself: when the four stages before it find nothing and
  the detector names a document that is already a duplicate of the one in hand, the hit is the document itself, the
  row then points to itself, and the store accepts it.
\<close>

theorem self_duplicate:
  assumes "get_document ds j = Some d" "do_duplicate_of d = Some (do_id doc)"
    and "get_document ds (do_id doc) = Some doc" "do_duplicate_of doc = None"
    and "exact_stage PlatformExternalId find_document_ids_by_external_key env ds doc (dk_external_key keys) = Inr None"
    and "exact_stage CanonicalUrl find_document_ids_by_canonical_url env ds doc (dk_canonical_url keys) = Inr None"
    and "exact_stage ContentHash find_document_ids_by_content_hash env ds doc (dk_content_hash keys) = Inr None"
    and "simhash_stage env ds doc (dk_simhash keys) = Inr None" "de_detect env doc = SemHit j s m"
  shows "\<exists>hit ds'. find_duplicate env ds doc keys = Inr (Some hit) \<and> dh_canonical hit = do_id doc \<and> dh_stage hit = Semantic \<and>
    put_document (with_keys doc keys (Some hit)) ds = Inr ds' \<and>
    map_option do_duplicate_of (get_document ds' (do_id doc)) = Some (Some (do_id doc))"
proof -
  let ?hit = "\<lparr>dh_canonical = do_id doc, dh_stage = Semantic, dh_similarity = s, dh_model = Some m\<rparr>"
  have "j \<noteq> do_id doc" using assms(1-4) by auto
  then have "resolve_canonical ds j = Inr (Some (do_id doc))"
    using assms(1-4) by (simp add: resolve_canonical_def MAX_CHAIN_DEPTH_def numeral_eq_Suc)
  then have "find_duplicate env ds doc keys = Inr (Some ?hit)"
    using assms(5-9) by (simp add: find_duplicate_def or_else_def semantic_stage_def rbind_def)
  moreover obtain ds' where put: "put_document (with_keys doc keys (Some ?hit)) ds = Inr ds'"
    by (simp add: put_document_def with_keys_def)
  moreover have "map_option do_duplicate_of (get_document ds' (do_id doc)) = Some (Some (do_id doc))"
    using put_document_effect [OF put] by (simp add: get_document_def tbl_get_put with_keys_def)
  ultimately show ?thesis by auto
qed

definition sample_pair :: doc_store where
  "sample_pair = sample_docs\<lparr>ds_documents := [(1, sample_doc 1), (2, (sample_doc 2)\<lparr>do_duplicate_of := Some 1\<rparr>)]\<rparr>"

theorem self_duplicate_witness:
  "\<exists>hit. find_duplicate (sample_env (SemHit 2 (99/100) ''m'') True 0) sample_pair (sample_doc 1)
      \<lparr>dk_platform = None, dk_external_id = None, dk_external_key = None, dk_canonical_url = None,
       dk_content_hash = Some ''h'', dk_simhash = None\<rparr> = Inr (Some hit) \<and> dh_canonical hit = 1"
proof -
  let ?env = "sample_env (SemHit 2 (99/100) ''m'') True 0"
  let ?keys = "\<lparr>dk_platform = None, dk_external_id = None, dk_external_key = None, dk_canonical_url = None,
     dk_content_hash = Some ''h'', dk_simhash = None\<rparr>"
  have "do_id (sample_doc 1) = 1" "do_duplicate_of (sample_doc 1) = None" by (simp_all add: sample_doc_def)
  moreover have "get_document sample_pair 2 = Some ((sample_doc 2)\<lparr>do_duplicate_of := Some 1\<rparr>)"
    "get_document sample_pair 1 = Some (sample_doc 1)"
    by (simp_all add: get_document_def sample_pair_def tbl_get_Cons)
  moreover have "exact_stage ContentHash find_document_ids_by_content_hash ?env sample_pair (sample_doc 1) (Some ''h'') = Inr None"
    by code_simp
  moreover have "de_detect ?env (sample_doc 1) = SemHit 2 (99/100) ''m''" by (simp add: sample_env_def)
  ultimately show ?thesis
    using self_duplicate [of sample_pair 2 "(sample_doc 2)\<lparr>do_duplicate_of := Some 1\<rparr>" "sample_doc 1" ?env ?keys "99/100" "''m''"]
    by (auto simp: exact_stage_def [of PlatformExternalId] exact_stage_def [of CanonicalUrl] simhash_stage_def)
qed

theorem find_duplicate_exact_witness:
  "oldest_match sample_docs do_content_hash (Some ''h'') 2
     \<lparr>dh_canonical = 1, dh_stage = ContentHash, dh_similarity = 1, dh_model = None\<rparr> \<and>
   no_older sample_docs do_canonical_url None 2"
  using find_duplicate_exact [OF sample_older sample_duplicate] by (simp add: sample_doc_def)



theorem dedup_publish_lost_witness:
  "\<exists>w. dedup_document (sample_env SemNoMatch False 0) 2 sample_dedup = (Inl DedupEventError, w) \<and> dw_events w = [] \<and>
     (\<exists>c. dedup_document (sample_env SemNoMatch True 1) 2 w = (Inr (DedupAlreadyDone 2 c), w))"
proof -
  obtain r w where run: "dedup_document (sample_env SemNoMatch False 0) 2 sample_dedup = (r, w)"
    by (cases "dedup_document (sample_env SemNoMatch False 0) 2 sample_dedup")
  have "\<not> has_claim (dw_store sample_dedup) 2" "documents_ok (dw_store sample_dedup)"
    "de_producer (sample_env SemNoMatch False 0) = Some (\<lambda>_. False)"
    by (simp add: sample_dedup_def has_claim_def sample_docs_def, simp add: sample_dedup_def sample_documents,
        simp add: sample_env_def)
  moreover have "has_claim (dw_store w) 2" using sample_lost run by simp
  ultimately have lost: "r = Inl DedupEventError \<and> dw_events w = dw_events sample_dedup \<and>
      (\<forall>env' :: (char, unit) dedup_env. \<exists>c. dedup_document env' 2 w = (Inr (DedupAlreadyDone 2 c), w))"
    by (intro dedup_publish_lost [OF run])
  then show ?thesis using run by (auto simp: sample_dedup_def)
qed

end
