(* ===== verification/Resources.thy ===== *)
theory Resources
  imports AuthApi Connectors Secret
begin

text \<open>
  The handlers of \<open>crates/core-api/src/resources\<close> that write sources and connectors (\<open>sources.rs\<close>, \<open>connectors.rs\<close>) over
  the helpers they share (\<open>mod.rs\<close>): the text checks, the merge patch with its three states, \<open>If-Match\<close>, and the audit
  entry of every write. A partial update reads the row, checks and changes it, and writes the whole row back; the two
  halves are definitions of their own, because other requests and the collector may come in between.

  The text of an RFC 3339 time, the hash of a serialised row, the clock and fresh identifiers are in \<open>api_env\<close>.
\<close>

section \<open>Surroundings\<close>

record api_env =
  av_now :: time
  av_new_id :: uuid
  av_audit_id :: uuid
  av_ip :: "string option"
  av_connected :: bool
  av_fault :: "nat \<Rightarrow> storage_error option"
  av_show_uuid :: "uuid \<Rightarrow> string"
  av_show_time :: "time \<Rightarrow> string"
  av_parse_time :: "string \<Rightarrow> time option"
  av_fingerprint :: "connector \<Rightarrow> string"

record 'w api_world =
  aw_store :: 'w
  aw_audit :: audit_log

type_synonym 'a api_result = "api_error + 'a"

definition LINK_PAGE :: nat where "LINK_PAGE = 100"

definition precondition_required :: api_error where "precondition_required = ApiError 428 ''precondition_required''"
definition precondition_failed :: api_error where "precondition_failed = ApiError 412 ''precondition_failed''"

text \<open>The errors that tell the caller something pass; every other one is 503.\<close>

definition resource_error :: "storage_error \<Rightarrow> api_error" where
  "resource_error e = (if e \<in> {NotFound, Conflict, ConstraintViolation} then storage_api_error e else unavailable)"

definition connected :: "api_env \<Rightarrow> unit api_result" where
  "connected env = rguard (av_connected env) unavailable"

text \<open>The \<open>n\<close>-th call to the store within a request, which may fail instead.\<close>

definition store_call :: "api_env \<Rightarrow> nat \<Rightarrow> storage_error + 'a \<Rightarrow> 'a api_result" where
  "store_call env n r = map_err resource_error (case av_fault env n of Some e \<Rightarrow> Inl e | None \<Rightarrow> r)"

section \<open>Audit entries\<close>

definition rejected_metadata :: "api_error \<Rightarrow> (string \<times> json) list \<Rightarrow> json" where
  "rejected_metadata err extra = JObject (object_extend extra
     [(''status_code'', JNumber (of_nat (error_status err))), (''error'', JString (error_code err))])"

text \<open>An entry that cannot be written is logged and otherwise ignored.\<close>

definition resource_audit ::
  "api_env \<Rightarrow> principal \<Rightarrow> string \<Rightarrow> string \<Rightarrow> string option \<Rightarrow> string \<Rightarrow> json \<Rightarrow> 'w api_world \<Rightarrow> 'w api_world" where
  "resource_audit env who action resource_type resource_id outcome metadata s =
     s\<lparr>aw_audit := snd (audit_append ((new_entry (av_audit_id env) (av_now env) (pr_subject who) action resource_type resource_id outcome)
        \<lparr>au_ip := av_ip env, au_metadata := metadata\<rparr>) (aw_audit s))\<rparr>"

text \<open>
  The frame of every write: the role first, then the work, and one audit entry for its success or its refusal. A handler
  says what its entries name.
\<close>

record 'a audit_plan =
  an_action :: string
  an_resource :: string
  an_requested :: "string option"
  an_rejected :: "(string \<times> json) list"
  an_id :: "'a \<Rightarrow> string option"
  an_metadata :: "'a \<Rightarrow> json"

definition audited_write ::
  "api_env \<Rightarrow> principal \<Rightarrow> 'a audit_plan \<Rightarrow> ('w \<Rightarrow> 'a api_result \<times> 'w) \<Rightarrow> ('w api_world, api_error, 'a) op" where
  "audited_write env who plan work s =
     (case role_require (pr_role who) WritePerm of
        Inl e \<Rightarrow> (Inl (security_api_error e), s)
      | Inr _ \<Rightarrow>
          (case work (aw_store s) of
             (Inr x, w) \<Rightarrow> (Inr x, resource_audit env who (an_action plan) (an_resource plan) (an_id plan x) ''success'' (an_metadata plan x)
                (s\<lparr>aw_store := w\<rparr>))
           | (Inl e, w) \<Rightarrow> (Inl e, resource_audit env who (an_action plan) (an_resource plan) (an_requested plan) ''rejected''
                (rejected_metadata e (an_rejected plan)) (s\<lparr>aw_store := w\<rparr>))))"

text \<open>Work on the tables that leaves them alone when it fails.\<close>

definition on_store :: "('w \<Rightarrow> api_error + 'a \<times> 'w) \<Rightarrow> 'w \<Rightarrow> 'a api_result \<times> 'w" where
  "on_store f w = (case f w of Inl e \<Rightarrow> (Inl e, w) | Inr (x, w') \<Rightarrow> (Inr x, w'))"

section \<open>Versions\<close>

definition timestamp_version :: "api_env \<Rightarrow> time \<Rightarrow> string" where
  "timestamp_version env t = av_show_time env t"

definition version_matches :: "api_env \<Rightarrow> string \<Rightarrow> string \<Rightarrow> bool" where
  "version_matches env candidate current \<longleftrightarrow> candidate = current \<or>
     (case (av_parse_time env candidate, av_parse_time env current) of (Some a, Some b) \<Rightarrow> a = b | _ \<Rightarrow> False)"

fun split_commas :: "string \<Rightarrow> string list" where
  "split_commas [] = [[]]"
| "split_commas (c # cs) =
     (if c = CHR '','' then [] # split_commas cs
      else case split_commas cs of p # ps \<Rightarrow> (c # p) # ps | [] \<Rightarrow> [[c]])"

definition trim_quotes :: "string \<Rightarrow> string" where
  "trim_quotes t = rev (dropWhile (\<lambda>c. c = CHR 0x22) (rev (dropWhile (\<lambda>c. c = CHR 0x22) t)))"

definition if_match_accepts :: "api_env \<Rightarrow> string \<Rightarrow> string \<Rightarrow> bool" where
  "if_match_accepts env current part =
     (let candidate = trim part
      in candidate = ''*'' \<or>
         (let bare = (case strip_prefix ''W/'' candidate of Some rest \<Rightarrow> rest | None \<Rightarrow> candidate)
          in version_matches env (trim_quotes (trim bare)) current))"

text \<open>\<open>HeaderValue::to_str\<close> accepts visible ASCII and tabs.\<close>

definition header_text :: "string \<Rightarrow> bool" where
  "header_text t \<longleftrightarrow> (\<forall>c \<in> set t. let n = of_char c :: nat in n = 9 \<or> (32 \<le> n \<and> n < 127))"

definition check_if_match :: "api_env \<Rightarrow> string option \<Rightarrow> string \<Rightarrow> unit api_result" where
  "check_if_match env if_match current =
     rbind (ok_or precondition_required if_match) (\<lambda>raw.
     rbind (rguard (header_text raw) bad_request) (\<lambda>_.
     rguard (\<exists>part \<in> set (split_commas raw). if_match_accepts env current part) precondition_failed))"

section \<open>Fields\<close>

text \<open>A field of a patch is absent, null, or has a value; some fields may not be null.\<close>

definition required_patch :: "'a option option \<Rightarrow> 'a option api_result" where
  "required_patch v = (case v of None \<Rightarrow> Inr None | Some (Some x) \<Rightarrow> Inr (Some x) | Some None \<Rightarrow> Inl bad_request)"

definition validate_text :: "string \<Rightarrow> nat \<Rightarrow> string api_result" where
  "validate_text v m =
     (let t = trim v
      in if t = [] then Inl bad_request
         else if m < length t then Inl bad_request
         else if \<exists>c \<in> set t. is_control c then Inl bad_request
         else Inr t)"

definition validate_optional_text :: "string option \<Rightarrow> nat \<Rightarrow> string option api_result" where
  "validate_optional_text v m =
     (case v of
        None \<Rightarrow> Inr None
      | Some raw \<Rightarrow> if trim raw = [] then Inr None else rbind (validate_text raw m) (\<lambda>t. Inr (Some t)))"

definition validate_object :: "json \<Rightarrow> json api_result" where
  "validate_object v = (if as_object v \<noteq> None then Inr v else Inl bad_request)"

text \<open>One step of a patch: when the field is there, it is checked and set, and its name noted.\<close>

definition patch_field ::
  "string \<Rightarrow> 'v option \<Rightarrow> ('v \<Rightarrow> 'x api_result) \<Rightarrow> ('x \<Rightarrow> 'r \<Rightarrow> 'r) \<Rightarrow> 'r \<times> string list \<Rightarrow> ('r \<times> string list) api_result" where
  "patch_field name v check set_to row =
     (case v of
        None \<Rightarrow> Inr row
      | Some x \<Rightarrow> rbind (check x) (\<lambda>y. Inr (set_to y (fst row), snd row @ [name])))"

definition patch_required ::
  "string \<Rightarrow> 'v option option \<Rightarrow> ('v \<Rightarrow> 'x api_result) \<Rightarrow> ('x \<Rightarrow> 'r \<Rightarrow> 'r) \<Rightarrow> 'r \<times> string list \<Rightarrow> ('r \<times> string list) api_result" where
  "patch_required name v check set_to row =
     rbind (required_patch v) (\<lambda>x. patch_field name x check set_to row)"

section \<open>Sources\<close>

abbreviation "SOURCE_MAX_NAME \<equiv> 200 :: nat"
abbreviation "SOURCE_MAX_DESCRIPTION \<equiv> 2000 :: nat"
abbreviation "SOURCE_MAX_URL \<equiv> 2048 :: nat"
abbreviation "SOURCE_MAX_CODE \<equiv> 16 :: nat"
abbreviation "SOURCE_MAX_PLATFORM \<equiv> 64 :: nat"

record create_source_body =
  bs_id :: "uuid option"
  bs_name :: string
  bs_source_type :: source_type
  bs_platform :: "string option"
  bs_base_url :: "string option"
  bs_description :: "string option"
  bs_language :: "string option"
  bs_country :: "string option"
  bs_enabled :: bool
  bs_collection_policy :: json

record patch_source_body =
  ps_name :: "string option option"
  ps_source_type :: "source_type option option"
  ps_platform :: "string option option"
  ps_base_url :: "string option option"
  ps_description :: "string option option"
  ps_language :: "string option option"
  ps_country :: "string option option"
  ps_enabled :: "bool option option"
  ps_collection_policy :: "json option option"
  ps_last_seen :: "time option option"

text \<open>An identifier that the caller names has to be free.\<close>

definition choose_id :: "api_env \<Rightarrow> ('w \<Rightarrow> uuid \<Rightarrow> 'r option) \<Rightarrow> uuid option \<Rightarrow> 'w \<Rightarrow> uuid api_result" where
  "choose_id env lookup requested w =
     (case requested of
        None \<Rightarrow> Inr (av_new_id env)
      | Some i \<Rightarrow> rbind (store_call env 0 (Inr (lookup w i))) (\<lambda>found. if found = None then Inr i else Inl conflict))"

definition create_source_row :: "api_env \<Rightarrow> create_source_body \<Rightarrow> uuid \<Rightarrow> source api_result" where
  "create_source_row env b i =
     rbind (validate_text (bs_name b) SOURCE_MAX_NAME) (\<lambda>name.
     rbind (validate_optional_text (bs_platform b) SOURCE_MAX_PLATFORM) (\<lambda>platform.
     rbind (validate_optional_text (bs_base_url b) SOURCE_MAX_URL) (\<lambda>base_url.
     rbind (validate_optional_text (bs_description b) SOURCE_MAX_DESCRIPTION) (\<lambda>description.
     rbind (validate_optional_text (bs_language b) SOURCE_MAX_CODE) (\<lambda>language.
     rbind (validate_optional_text (bs_country b) SOURCE_MAX_CODE) (\<lambda>country.
     rbind (validate_object (bs_collection_policy b)) (\<lambda>policy.
     Inr \<lparr>so_id = i, so_name = name, so_type = bs_source_type b, so_platform = platform, so_base_url = base_url,
          so_description = description, so_language = language, so_country = country, so_enabled = bs_enabled b,
          so_collection_policy = policy, so_created_at = av_now env, so_updated_at = av_now env, so_last_seen = None\<rparr>)))))))"

definition create_source_inner :: "api_env \<Rightarrow> create_source_body \<Rightarrow> db \<Rightarrow> api_error + source \<times> db" where
  "create_source_inner env b d =
     rbind (connected env) (\<lambda>_.
     rbind (choose_id env get_source (bs_id b) d) (\<lambda>i.
     rbind (create_source_row env b i) (\<lambda>row.
     rbind (store_call env 1 (put_source row d)) (\<lambda>d'. Inr (row, d')))))"

definition create_source :: "api_env \<Rightarrow> principal \<Rightarrow> (source_type \<Rightarrow> json) \<Rightarrow> create_source_body \<Rightarrow> (db api_world, api_error, source) op" where
  "create_source env who type_json b = audited_write env who
     \<lparr>an_action = ''source.create'', an_resource = ''source'', an_requested = map_option (av_show_uuid env) (bs_id b), an_rejected = [],
      an_id = (\<lambda>s. Some (av_show_uuid env (so_id s))),
      an_metadata = (\<lambda>s. JObject [(''name'', JString (so_name s)), (''source_type'', type_json (so_type s))])\<rparr>
     (on_store (create_source_inner env b))"

definition load_source :: "api_env \<Rightarrow> uuid \<Rightarrow> db \<Rightarrow> source api_result" where
  "load_source env i d =
     rbind (connected env) (\<lambda>_. rbind (store_call env 0 (Inr (get_source d i))) (ok_or not_found))"

text \<open>The changes on the row that was read, in the order of the code.\<close>

definition source_patches :: "patch_source_body \<Rightarrow> (source \<times> string list \<Rightarrow> (source \<times> string list) api_result) list" where
  "source_patches b =
     [patch_required ''name'' (ps_name b) (\<lambda>v. validate_text v SOURCE_MAX_NAME) (\<lambda>v r. r\<lparr>so_name := v\<rparr>),
      patch_required ''source_type'' (ps_source_type b) Inr (\<lambda>v r. r\<lparr>so_type := v\<rparr>),
      patch_required ''enabled'' (ps_enabled b) Inr (\<lambda>v r. r\<lparr>so_enabled := v\<rparr>),
      patch_required ''collection_policy'' (ps_collection_policy b) validate_object (\<lambda>v r. r\<lparr>so_collection_policy := v\<rparr>),
      patch_field ''platform'' (ps_platform b) (\<lambda>v. validate_optional_text v SOURCE_MAX_PLATFORM) (\<lambda>v r. r\<lparr>so_platform := v\<rparr>),
      patch_field ''base_url'' (ps_base_url b) (\<lambda>v. validate_optional_text v SOURCE_MAX_URL) (\<lambda>v r. r\<lparr>so_base_url := v\<rparr>),
      patch_field ''description'' (ps_description b) (\<lambda>v. validate_optional_text v SOURCE_MAX_DESCRIPTION) (\<lambda>v r. r\<lparr>so_description := v\<rparr>),
      patch_field ''language'' (ps_language b) (\<lambda>v. validate_optional_text v SOURCE_MAX_CODE) (\<lambda>v r. r\<lparr>so_language := v\<rparr>),
      patch_field ''country'' (ps_country b) (\<lambda>v. validate_optional_text v SOURCE_MAX_CODE) (\<lambda>v r. r\<lparr>so_country := v\<rparr>),
      patch_field ''last_seen'' (ps_last_seen b) Inr (\<lambda>v r. r\<lparr>so_last_seen := v\<rparr>)]"

definition patch_source_row :: "api_env \<Rightarrow> string option \<Rightarrow> patch_source_body \<Rightarrow> source \<Rightarrow> (source \<times> string list) api_result" where
  "patch_source_row env if_match b s =
     rbind (check_if_match env if_match (timestamp_version env (so_updated_at s))) (\<lambda>_.
     rbind (rfold (\<lambda>patch. patch) (source_patches b) (s, [])) (\<lambda>r.
     if snd r = [] then Inl bad_request else Inr ((fst r)\<lparr>so_updated_at := av_now env\<rparr>, snd r)))"

definition patch_source_read :: "api_env \<Rightarrow> uuid \<Rightarrow> string option \<Rightarrow> patch_source_body \<Rightarrow> db \<Rightarrow> (source \<times> string list) api_result" where
  "patch_source_read env i if_match b d = rbind (load_source env i d) (patch_source_row env if_match b)"

definition patch_source_write :: "api_env \<Rightarrow> source \<times> string list \<Rightarrow> db \<Rightarrow> api_error + (source \<times> string list) \<times> db" where
  "patch_source_write env r d = rbind (store_call env 1 (put_source (fst r) d)) (\<lambda>d'. Inr (r, d'))"

definition patch_source_inner ::
  "api_env \<Rightarrow> uuid \<Rightarrow> string option \<Rightarrow> patch_source_body \<Rightarrow> db \<Rightarrow> api_error + (source \<times> string list) \<times> db" where
  "patch_source_inner env i if_match b d = rbind (patch_source_read env i if_match b d) (\<lambda>r. patch_source_write env r d)"

definition changed_fields :: "'r \<times> string list \<Rightarrow> json" where
  "changed_fields r = JObject [(''fields'', JArray (map JString (snd r)))]"

definition patch_source ::
  "api_env \<Rightarrow> principal \<Rightarrow> uuid \<Rightarrow> string option \<Rightarrow> patch_source_body \<Rightarrow> (db api_world, api_error, source \<times> string list) op" where
  "patch_source env who i if_match b = audited_write env who
     \<lparr>an_action = ''source.update'', an_resource = ''source'', an_requested = Some (av_show_uuid env i), an_rejected = [],
      an_id = (\<lambda>_. Some (av_show_uuid env i)), an_metadata = changed_fields\<rparr>
     (on_store (patch_source_inner env i if_match b))"

text \<open>\<open>GET\<close>: the entity tag and the row.\<close>

definition read_guard :: "principal \<Rightarrow> unit api_result" where
  "read_guard who = map_err security_api_error (role_require (pr_role who) ReadPerm)"

definition api_get_source :: "api_env \<Rightarrow> principal \<Rightarrow> uuid \<Rightarrow> db \<Rightarrow> (string \<times> source) api_result" where
  "api_get_source env who i d =
     rbind (read_guard who) (\<lambda>_. rbind (load_source env i d) (\<lambda>s.
     Inr ([CHR 0x22] @ timestamp_version env (so_updated_at s) @ [CHR 0x22], s)))"

definition api_list_sources ::
  "api_env \<Rightarrow> principal \<Rightarrow> (string \<Rightarrow> uuid option) \<Rightarrow> (string \<Rightarrow> string option) \<Rightarrow> pagination \<Rightarrow> db \<Rightarrow> source cursor_page api_result" where
  "api_list_sources env who parse_uuid b64 p d =
     rbind (read_guard who) (\<lambda>_. rbind (connected env) (\<lambda>_.
     list_handler (av_show_uuid env) parse_uuid b64 so_id (\<lambda>after limit. store_call env 0 (Inr (list_sources d after limit))) p))"

section \<open>Connectors\<close>

abbreviation "CONNECTOR_MAX_NAME \<equiv> 200 :: nat"
abbreviation "CONNECTOR_MAX_TYPE \<equiv> 64 :: nat"
abbreviation "CONNECTOR_MAX_VERSION \<equiv> 64 :: nat"
abbreviation "CONNECTOR_MAX_STATUS \<equiv> 32 :: nat"
abbreviation "CONNECTOR_MAX_SCHEDULE \<equiv> 128 :: nat"
abbreviation "CONNECTOR_MAX_SECRET_REF \<equiv> 512 :: nat"

record create_connector_body =
  bc_id :: "uuid option"
  bc_source_id :: uuid
  bc_name :: string
  bc_type :: string
  bc_version :: "string option"
  bc_enabled :: bool
  bc_configuration :: json
  bc_credential_reference :: "string option"
  bc_schedule :: "string option"
  bc_rate_limit :: json
  bc_timeout :: json
  bc_proxy_reference :: "string option"
  bc_checkpoint :: json
  bc_status :: "string option"

record patch_connector_body =
  pc_name :: "string option option"
  pc_type :: "string option option"
  pc_version :: "string option option"
  pc_enabled :: "bool option option"
  pc_configuration :: "json option option"
  pc_credential_reference :: "string option option"
  pc_schedule :: "string option option"
  pc_rate_limit :: "json option option"
  pc_timeout :: "json option option"
  pc_proxy_reference :: "string option option"
  pc_checkpoint :: "json option option"
  pc_status :: "string option option"

text \<open>A credential is the place of a secret, never the secret.\<close>

definition validate_secret_ref :: "string option \<Rightarrow> string option api_result" where
  "validate_secret_ref v =
     (case v of
        None \<Rightarrow> Inr None
      | Some raw \<Rightarrow>
          (let t = trim raw
           in if t = [] then Inr None
              else if CONNECTOR_MAX_SECRET_REF < length t then Inl bad_request
              else case secret_parse t of Inr r \<Rightarrow> Inr (Some (sr_raw r)) | Inl _ \<Rightarrow> Inl bad_request))"

definition text_or :: "string \<Rightarrow> nat \<Rightarrow> string option \<Rightarrow> string api_result" where
  "text_or preset m v = (case v of Some t \<Rightarrow> validate_text t m | None \<Rightarrow> Inr preset)"

definition create_connector_row :: "create_connector_body \<Rightarrow> uuid \<Rightarrow> connector api_result" where
  "create_connector_row b i =
     rbind (validate_text (bc_name b) CONNECTOR_MAX_NAME) (\<lambda>name.
     rbind (validate_text (bc_type b) CONNECTOR_MAX_TYPE) (\<lambda>ty.
     rbind (text_or ''0.1.0'' CONNECTOR_MAX_VERSION (bc_version b)) (\<lambda>version.
     rbind (validate_object (bc_configuration b)) (\<lambda>configuration.
     rbind (validate_secret_ref (bc_credential_reference b)) (\<lambda>credential.
     rbind (validate_optional_text (bc_schedule b) CONNECTOR_MAX_SCHEDULE) (\<lambda>schedule.
     rbind (validate_object (bc_rate_limit b)) (\<lambda>rate_limit.
     rbind (validate_object (bc_timeout b)) (\<lambda>timeout.
     rbind (validate_secret_ref (bc_proxy_reference b)) (\<lambda>proxy.
     rbind (validate_object (bc_checkpoint b)) (\<lambda>checkpoint.
     rbind (text_or ''idle'' CONNECTOR_MAX_STATUS (bc_status b)) (\<lambda>status.
     Inr \<lparr>cn_id = i, cn_source_id = bc_source_id b, cn_name = name, cn_type = ty, cn_version = version, cn_enabled = bc_enabled b,
          cn_configuration = configuration, cn_credential_reference = credential, cn_schedule = schedule, cn_rate_limit = rate_limit,
          cn_timeout = timeout, cn_proxy_reference = proxy, cn_checkpoint = checkpoint, cn_last_run = None, cn_last_success = None,
          cn_status = status, cn_error_count = 0\<rparr>)))))))))))"

definition create_connector_inner :: "api_env \<Rightarrow> create_connector_body \<Rightarrow> db \<Rightarrow> api_error + connector \<times> db" where
  "create_connector_inner env b d =
     rbind (connected env) (\<lambda>_.
     rbind (store_call env 2 (Inr (get_source d (bc_source_id b)))) (\<lambda>src.
     rbind (ok_or unprocessable src) (\<lambda>_.
     rbind (choose_id env get_connector (bc_id b) d) (\<lambda>i.
     rbind (create_connector_row b i) (\<lambda>row.
     rbind (store_call env 1 (put_connector row d)) (\<lambda>d'. Inr (row, d')))))))"

definition create_connector :: "api_env \<Rightarrow> principal \<Rightarrow> create_connector_body \<Rightarrow> (db api_world, api_error, connector) op" where
  "create_connector env who b = audited_write env who
     \<lparr>an_action = ''connector.create'', an_resource = ''connector'', an_requested = map_option (av_show_uuid env) (bc_id b),
      an_rejected = [(''source_id'', JString (av_show_uuid env (bc_source_id b)))],
      an_id = (\<lambda>c. Some (av_show_uuid env (cn_id c))),
      an_metadata = (\<lambda>c. JObject [(''enabled'', JBool (cn_enabled c)), (''name'', JString (cn_name c)),
         (''source_id'', JString (av_show_uuid env (cn_source_id c))), (''type'', JString (cn_type c))])\<rparr>
     (on_store (create_connector_inner env b))"

definition load_connector :: "api_env \<Rightarrow> uuid \<Rightarrow> db \<Rightarrow> connector api_result" where
  "load_connector env i d =
     rbind (connected env) (\<lambda>_. rbind (store_call env 0 (Inr (get_connector d i))) (ok_or not_found))"

definition connector_patches :: "patch_connector_body \<Rightarrow> (connector \<times> string list \<Rightarrow> (connector \<times> string list) api_result) list" where
  "connector_patches b =
     [patch_required ''name'' (pc_name b) (\<lambda>v. validate_text v CONNECTOR_MAX_NAME) (\<lambda>v r. r\<lparr>cn_name := v\<rparr>),
      patch_required ''type'' (pc_type b) (\<lambda>v. validate_text v CONNECTOR_MAX_TYPE) (\<lambda>v r. r\<lparr>cn_type := v\<rparr>),
      patch_required ''version'' (pc_version b) (\<lambda>v. validate_text v CONNECTOR_MAX_VERSION) (\<lambda>v r. r\<lparr>cn_version := v\<rparr>),
      patch_required ''enabled'' (pc_enabled b) Inr (\<lambda>v r. r\<lparr>cn_enabled := v\<rparr>),
      patch_required ''configuration'' (pc_configuration b) validate_object (\<lambda>v r. r\<lparr>cn_configuration := v\<rparr>),
      patch_required ''rate_limit'' (pc_rate_limit b) validate_object (\<lambda>v r. r\<lparr>cn_rate_limit := v\<rparr>),
      patch_required ''timeout'' (pc_timeout b) validate_object (\<lambda>v r. r\<lparr>cn_timeout := v\<rparr>),
      patch_required ''checkpoint'' (pc_checkpoint b) validate_object (\<lambda>v r. r\<lparr>cn_checkpoint := v\<rparr>),
      patch_required ''status'' (pc_status b) (\<lambda>v. validate_text v CONNECTOR_MAX_STATUS) (\<lambda>v r. r\<lparr>cn_status := v\<rparr>),
      patch_field ''credential_reference'' (pc_credential_reference b) validate_secret_ref (\<lambda>v r. r\<lparr>cn_credential_reference := v\<rparr>),
      patch_field ''proxy_reference'' (pc_proxy_reference b) validate_secret_ref (\<lambda>v r. r\<lparr>cn_proxy_reference := v\<rparr>),
      patch_field ''schedule'' (pc_schedule b) (\<lambda>v. validate_optional_text v CONNECTOR_MAX_SCHEDULE) (\<lambda>v r. r\<lparr>cn_schedule := v\<rparr>)]"

definition patch_connector_row ::
  "api_env \<Rightarrow> string option \<Rightarrow> patch_connector_body \<Rightarrow> connector \<Rightarrow> (connector \<times> string list) api_result" where
  "patch_connector_row env if_match b c =
     rbind (check_if_match env if_match (av_fingerprint env c)) (\<lambda>_.
     rbind (rfold (\<lambda>patch. patch) (connector_patches b) (c, [])) (\<lambda>r.
     if snd r = [] then Inl bad_request else Inr r))"

definition patch_connector_read ::
  "api_env \<Rightarrow> uuid \<Rightarrow> string option \<Rightarrow> patch_connector_body \<Rightarrow> db \<Rightarrow> (connector \<times> string list) api_result" where
  "patch_connector_read env i if_match b d = rbind (load_connector env i d) (patch_connector_row env if_match b)"

definition patch_connector_write :: "api_env \<Rightarrow> connector \<times> string list \<Rightarrow> db \<Rightarrow> api_error + (connector \<times> string list) \<times> db" where
  "patch_connector_write env r d = rbind (store_call env 1 (put_connector (fst r) d)) (\<lambda>d'. Inr (r, d'))"

definition patch_connector_inner ::
  "api_env \<Rightarrow> uuid \<Rightarrow> string option \<Rightarrow> patch_connector_body \<Rightarrow> db \<Rightarrow> api_error + (connector \<times> string list) \<times> db" where
  "patch_connector_inner env i if_match b d =
     rbind (patch_connector_read env i if_match b d) (\<lambda>r. patch_connector_write env r d)"

definition patch_connector ::
  "api_env \<Rightarrow> principal \<Rightarrow> uuid \<Rightarrow> string option \<Rightarrow> patch_connector_body \<Rightarrow> (db api_world, api_error, connector \<times> string list) op" where
  "patch_connector env who i if_match b = audited_write env who
     \<lparr>an_action = ''connector.update'', an_resource = ''connector'', an_requested = Some (av_show_uuid env i), an_rejected = [],
      an_id = (\<lambda>_. Some (av_show_uuid env i)), an_metadata = changed_fields\<rparr>
     (on_store (patch_connector_inner env i if_match b))"

definition api_get_connector :: "api_env \<Rightarrow> principal \<Rightarrow> uuid \<Rightarrow> db \<Rightarrow> (string \<times> connector) api_result" where
  "api_get_connector env who i d =
     rbind (read_guard who) (\<lambda>_. rbind (load_connector env i d) (\<lambda>c.
     Inr ([CHR 0x22] @ av_fingerprint env c @ [CHR 0x22], c)))"

definition api_list_connectors ::
  "api_env \<Rightarrow> principal \<Rightarrow> (string \<Rightarrow> uuid option) \<Rightarrow> (string \<Rightarrow> string option) \<Rightarrow> bool option \<Rightarrow> pagination \<Rightarrow> db
     \<Rightarrow> connector cursor_page api_result" where
  "api_list_connectors env who parse_uuid b64 enabled p d =
     rbind (read_guard who) (\<lambda>_. rbind (connected env) (\<lambda>_.
     list_handler (av_show_uuid env) parse_uuid b64 cn_id (\<lambda>after limit. store_call env 0 (Inr (list_connectors_by_enabled d enabled after limit))) p))"

end
