(* ===== verification/Outbox.thy ===== *)
theory Outbox
  imports Store "HOL-Library.Multiset"
begin

text \<open>
  The transactional outbox: the rows of \<open>crates/storage-core/src/outbox.rs\<close>, the SQL on them in
  \<open>crates/storage-postgres/src/store.rs\<close>, and the relay of \<open>crates/core-api/src/outbox.rs\<close> that claims due rows, sends
  them to the broker and marks them. Several relays may run: their calls to the store and to the broker interleave, and
  any of them may stop in between, which the step relation \<open>outbox_step\<close> describes.
\<close>

section \<open>Rows\<close>

record outbox_event =
  oe_id :: uuid
  oe_topic :: string
  oe_partition_key :: string
  oe_correlation_id :: "uuid option"
  oe_payload :: json
  oe_source_service :: string
  oe_created_at :: time
  oe_attempts :: int
  oe_last_error :: "string option"
  oe_next_attempt_at :: time
  oe_published_at :: "time option"

type_synonym outbox = "outbox_event tbl"

definition pending_event ::
  "uuid \<Rightarrow> time \<Rightarrow> string \<Rightarrow> string \<Rightarrow> uuid option \<Rightarrow> json \<Rightarrow> string \<Rightarrow> outbox_event" where
  "pending_event i now topic key correlation payload service =
     \<lparr>oe_id = i, oe_topic = topic, oe_partition_key = key, oe_correlation_id = correlation, oe_payload = payload,
      oe_source_service = service, oe_created_at = now, oe_attempts = 0, oe_last_error = None, oe_next_attempt_at = now,
      oe_published_at = None\<rparr>"

definition OUTBOX_CLAIM_LIMIT_MAX :: nat where "OUTBOX_CLAIM_LIMIT_MAX = 500"

definition clamp_outbox_limit :: "nat \<Rightarrow> nat" where
  "clamp_outbox_limit limit = clamp_nat 1 OUTBOX_CLAIM_LIMIT_MAX limit"

section \<open>The SQL\<close>

text \<open>A plain insert: the primary key is the only constraint.\<close>

definition enqueue_outbox :: "outbox_event \<Rightarrow> outbox \<Rightarrow> storage_error + outbox" where
  "enqueue_outbox ev t = (if tbl_get t (oe_id ev) = None then Inr (tbl_put (oe_id ev) ev t) else Inl Conflict)"

definition is_pending :: "outbox_event \<Rightarrow> bool" where
  "is_pending ev \<longleftrightarrow> oe_published_at ev = None"

definition outbox_due :: "time \<Rightarrow> outbox_event \<Rightarrow> bool" where
  "outbox_due now ev \<longleftrightarrow> is_pending ev \<and> oe_next_attempt_at ev \<le> now"

text \<open>
  The rows that a claim takes, the oldest first, and what it makes of them. SQL leaves the order of the rows of
  \<open>RETURNING\<close> open, so it is an argument.
\<close>

definition picked_outbox :: "nat \<Rightarrow> time \<Rightarrow> outbox \<Rightarrow> outbox_event list" where
  "picked_outbox limit now t = take (clamp_outbox_limit limit) (sort_key oe_created_at (tbl_select (outbox_due now) t))"

definition lease :: "time \<Rightarrow> outbox_event \<Rightarrow> outbox_event" where
  "lease lease_until ev = ev\<lparr>oe_attempts := oe_attempts ev + 1, oe_next_attempt_at := lease_until\<rparr>"

definition claim_pending_outbox ::
  "(outbox_event list \<Rightarrow> outbox_event list) \<Rightarrow> nat \<Rightarrow> time \<Rightarrow> time \<Rightarrow> outbox \<Rightarrow> outbox_event list \<times> outbox" where
  "claim_pending_outbox order limit now lease_until t =
     (let picked = picked_outbox limit now t
      in (order (map (lease lease_until) picked), tbl_upd oe_id (oe_id ` set picked) (lease lease_until) t))"

text \<open>An update of the row with an identifier, if it is still pending.\<close>

definition upd_pending :: "uuid \<Rightarrow> (outbox_event \<Rightarrow> outbox_event) \<Rightarrow> outbox \<Rightarrow> outbox" where
  "upd_pending i f t = tbl_upd oe_id {i} (\<lambda>ev. if is_pending ev then f ev else ev) t"

definition mark_outbox_published :: "uuid \<Rightarrow> time \<Rightarrow> outbox \<Rightarrow> outbox" where
  "mark_outbox_published i at_time t = upd_pending i (\<lambda>ev. ev\<lparr>oe_published_at := Some at_time\<rparr>) t"

definition truncate_outbox_error :: "string \<Rightarrow> string" where
  "truncate_outbox_error e = take 2000 e"

definition mark_outbox_failed :: "uuid \<Rightarrow> string \<Rightarrow> time \<Rightarrow> outbox \<Rightarrow> outbox" where
  "mark_outbox_failed i e retry_at t =
     upd_pending i (\<lambda>ev. ev\<lparr>oe_last_error := Some (truncate_outbox_error e), oe_next_attempt_at := retry_at\<rparr>) t"

definition count_pending_outbox :: "outbox \<Rightarrow> nat" where
  "count_pending_outbox t = length (tbl_select is_pending t)"

text \<open>Whole seconds, cut off towards zero.\<close>

definition oldest_pending_outbox_age_secs :: "time \<Rightarrow> outbox \<Rightarrow> int option" where
  "oldest_pending_outbox_age_secs now t =
     (case map oe_created_at (tbl_select is_pending t) of
        [] \<Rightarrow> None
      | c # cs \<Rightarrow> Some (max 0 ((now - fold min cs c) div 1000)))"

definition purge_published_outbox :: "time \<Rightarrow> nat \<Rightarrow> outbox \<Rightarrow> nat \<times> outbox" where
  "purge_published_outbox older_than limit t =
     (let old = tbl_select (\<lambda>ev. case oe_published_at ev of Some p \<Rightarrow> p < older_than | None \<Rightarrow> False) t;
          ids = oe_id ` set (take (clamp_outbox_limit limit) (sort_key (\<lambda>ev. the (oe_published_at ev)) old))
      in (card ids, tbl_delete_where (\<lambda>ev. oe_id ev \<in> ids) t))"

section \<open>The relay\<close>

record event_envelope =
  en_id :: uuid
  en_event_type :: string
  en_schema_version :: string
  en_source_service :: string
  en_timestamp :: time
  en_correlation_id :: "uuid option"
  en_payload :: json

definition SCHEMA_VERSION :: string where "SCHEMA_VERSION = ''1''"

definition envelope_from_outbox :: "outbox_event \<Rightarrow> event_envelope" where
  "envelope_from_outbox row =
     \<lparr>en_id = oe_id row, en_event_type = oe_topic row, en_schema_version = SCHEMA_VERSION,
      en_source_service = oe_source_service row, en_timestamp = oe_created_at row,
      en_correlation_id = oe_correlation_id row, en_payload = oe_payload row\<rparr>"

text \<open>What the broker is handed: the topic, the key and the envelope.\<close>

type_synonym outbox_message = "string \<times> string \<times> event_envelope"

definition message_of :: "outbox_event \<Rightarrow> outbox_message" where
  "message_of row = (oe_topic row, oe_partition_key row, envelope_from_outbox row)"

text \<open>\<open>attempts\<close> is the value after the claim, so it is one for the first failure.\<close>

definition backoff_delay :: "int \<Rightarrow> nat \<Rightarrow> nat \<Rightarrow> duration" where
  "backoff_delay attempts base_ms max_ms =
     (let e = min 20 (nat (max 0 (attempts - 1)))
      in min (sat_mul u64_max base_ms (2 ^ e)) max_ms)"

record event_outbox_config =
  eo_enabled :: bool
  eo_poll_interval_ms :: nat
  eo_batch_size :: nat
  eo_backoff_base_ms :: nat
  eo_backoff_max_ms :: nat
  eo_lease_ms :: nat
  eo_published_retention_hours :: nat

definition default_event_outbox :: event_outbox_config where
  "default_event_outbox = \<lparr>eo_enabled = True, eo_poll_interval_ms = 500, eo_batch_size = 50, eo_backoff_base_ms = 1000,
     eo_backoff_max_ms = 60000, eo_lease_ms = 30000, eo_published_retention_hours = 24\<rparr>"

definition validate_event_outbox :: "event_outbox_config \<Rightarrow> bool" where
  "validate_event_outbox c \<longleftrightarrow> 100 \<le> eo_poll_interval_ms c \<and> 1 \<le> eo_batch_size c \<and> eo_batch_size c \<le> 500 \<and>
     1 \<le> eo_backoff_base_ms c \<and> eo_backoff_base_ms c \<le> eo_backoff_max_ms c \<and> 1000 \<le> eo_lease_ms c \<and>
     eo_published_retention_hours c \<le> 168"

text \<open>\<open>as i64\<close>, and \<open>Duration::from_std\<close>, which fails above the largest number of milliseconds.\<close>

definition as_i64 :: "nat \<Rightarrow> int" where
  "as_i64 n = sint (of_nat n :: 64 word)"

definition duration_from_std :: "duration \<Rightarrow> int" where
  "duration_from_std d = (if d < 2 ^ 63 then int d else 1000)"

record relay_stats =
  rs_claimed :: nat
  rs_published :: nat
  rs_failed :: nat
  rs_purged :: nat

text \<open>
  One round's surroundings: the time it starts and the time after each send, the order of the claimed rows, the answer of
  the broker to each send, and which of its calls to the store fails, numbered in their order.
\<close>

record relay_env =
  rl_now :: time
  rl_clock :: "nat \<Rightarrow> time"
  rl_order :: "outbox_event list \<Rightarrow> outbox_event list"
  rl_broker :: "nat \<Rightarrow> string option"
  rl_fault :: "nat \<Rightarrow> storage_error option"

record outbox_world =
  ob_rows :: outbox
  ob_sent :: "outbox_message list"

text \<open>A call to the store that may fail instead.\<close>

definition outbox_call :: "storage_error option \<Rightarrow> (outbox \<Rightarrow> 'a \<times> outbox) \<Rightarrow> (outbox_world, storage_error, 'a) op" where
  "outbox_call fault f w =
     (case fault of
        Some e \<Rightarrow> (Inl e, w)
      | None \<Rightarrow> (let (x, t) = f (ob_rows w) in (Inr x, w\<lparr>ob_rows := t\<rparr>)))"

definition retry_at :: "event_outbox_config \<Rightarrow> time \<Rightarrow> outbox_event \<Rightarrow> time" where
  "retry_at c now row =
     now + duration_from_std (backoff_delay (oe_attempts row) (eo_backoff_base_ms c) (eo_backoff_max_ms c))"

fun relay_rows ::
  "relay_env \<Rightarrow> event_outbox_config \<Rightarrow> nat \<Rightarrow> outbox_event list \<Rightarrow> relay_stats \<Rightarrow> (outbox_world, storage_error, relay_stats) op" where
  "relay_rows env c k [] stats w = (Inr stats, w)"
| "relay_rows env c k (row # rows) stats w =
     (case rl_broker env k of
        None \<Rightarrow>
          op_bind (outbox_call (rl_fault env (Suc k)) (\<lambda>t. ((), mark_outbox_published (oe_id row) (rl_clock env k) t)))
            (\<lambda>_. relay_rows env c (Suc k) rows (stats\<lparr>rs_published := rs_published stats + 1\<rparr>))
            (w\<lparr>ob_sent := ob_sent w @ [message_of row]\<rparr>)
      | Some e \<Rightarrow>
          op_bind (outbox_call (rl_fault env (Suc k)) (\<lambda>t. ((), mark_outbox_failed (oe_id row) e (retry_at c (rl_clock env k) row) t)))
            (\<lambda>_. relay_rows env c (Suc k) rows (stats\<lparr>rs_failed := rs_failed stats + 1\<rparr>)) w)"

definition relay_once :: "relay_env \<Rightarrow> event_outbox_config \<Rightarrow> (outbox_world, storage_error, relay_stats) op" where
  "relay_once env c =
     op_bind (outbox_call (rl_fault env 0)
         (claim_pending_outbox (rl_order env) (eo_batch_size c) (rl_now env) (rl_now env + as_i64 (eo_lease_ms c)))) (\<lambda>claimed.
     let n = length claimed
     in op_bind (relay_rows env c 0 claimed \<lparr>rs_claimed = n, rs_published = 0, rs_failed = 0, rs_purged = 0\<rparr>) (\<lambda>stats.
        op_bind (if 0 < eo_published_retention_hours c
                 then op_bind (outbox_call (rl_fault env (n + 1)) (purge_published_outbox
                          (rl_clock env n - int (eo_published_retention_hours c) * 3600000) (eo_batch_size c)))
                        (\<lambda>purged. op_return (stats\<lparr>rs_purged := purged\<rparr>))
                 else op_return stats) (\<lambda>stats.
        op_bind (outbox_call (rl_fault env (n + 2)) (\<lambda>t. (count_pending_outbox t, t))) (\<lambda>_.
        op_bind (outbox_call (rl_fault env (n + 3)) (\<lambda>t. (oldest_pending_outbox_age_secs (rl_clock env n) t, t))) (\<lambda>_.
        op_return stats)))))"

section \<open>Several relays at once\<close>

text \<open>
  A relay is idle, or it works on the rest of what it claimed under a lease, or it has the broker's answer for a row and
  has not yet marked it. It may stop at any time: the process ends, or a call to the store fails and \<open>relay_once\<close> returns.
\<close>

datatype relay_state =
    RelayIdle
  | RelayWorking "outbox_event list" time
  | RelayMarking outbox_event "string option" "outbox_event list" time

record outbox_system =
  os_world :: outbox_world
  os_relays :: "nat \<Rightarrow> relay_state"
  os_now :: time

datatype outbox_label =
    Enqueued outbox_event
  | Waited time
  | Claimed nat
  | Answered nat outbox_event "string option"
  | Marked nat outbox_event
  | Stopped nat
  | Purged

definition mark_row :: "event_outbox_config \<Rightarrow> time \<Rightarrow> outbox_event \<Rightarrow> string option \<Rightarrow> outbox \<Rightarrow> outbox" where
  "mark_row c now row answer t =
     (case answer of
        None \<Rightarrow> mark_outbox_published (oe_id row) now t
      | Some e \<Rightarrow> mark_outbox_failed (oe_id row) e (retry_at c now row) t)"

definition with_rows :: "outbox \<Rightarrow> outbox_system \<Rightarrow> outbox_system" where
  "with_rows t s = s\<lparr>os_world := (os_world s)\<lparr>ob_rows := t\<rparr>\<rparr>"

definition with_relay :: "nat \<Rightarrow> relay_state \<Rightarrow> outbox_system \<Rightarrow> outbox_system" where
  "with_relay r st s = s\<lparr>os_relays := (os_relays s)(r := st)\<rparr>"

abbreviation rows_of :: "outbox_system \<Rightarrow> outbox" where "rows_of s \<equiv> ob_rows (os_world s)"
abbreviation sent_of :: "outbox_system \<Rightarrow> outbox_message list" where "sent_of s \<equiv> ob_sent (os_world s)"

inductive outbox_step :: "event_outbox_config \<Rightarrow> outbox_system \<Rightarrow> outbox_label \<Rightarrow> outbox_system \<Rightarrow> bool"
  for c where
  enqueue: "is_pending ev \<Longrightarrow> enqueue_outbox ev (rows_of s) = Inr t \<Longrightarrow> outbox_step c s (Enqueued ev) (with_rows t s)"
| wait: "os_now s \<le> t \<Longrightarrow> outbox_step c s (Waited t) (s\<lparr>os_now := t\<rparr>)"
| claim: "os_relays s r = RelayIdle \<Longrightarrow> mset (order (map (lease l) (picked_outbox (eo_batch_size c) (os_now s) (rows_of s)))) =
      mset (map (lease l) (picked_outbox (eo_batch_size c) (os_now s) (rows_of s))) \<Longrightarrow> l = os_now s + as_i64 (eo_lease_ms c) \<Longrightarrow>
    claim_pending_outbox order (eo_batch_size c) (os_now s) l (rows_of s) = (claimed, t) \<Longrightarrow>
    outbox_step c s (Claimed r) (with_relay r (RelayWorking claimed l) (with_rows t s))"
| accepted: "os_relays s r = RelayWorking (row # rows) l \<Longrightarrow> outbox_step c s (Answered r row None)
    (with_relay r (RelayMarking row None rows l) (s\<lparr>os_world := (os_world s)\<lparr>ob_sent := sent_of s @ [message_of row]\<rparr>\<rparr>))"
| refused: "os_relays s r = RelayWorking (row # rows) l \<Longrightarrow> outbox_step c s (Answered r row (Some e))
    (with_relay r (RelayMarking row (Some e) rows l) s)"
| mark: "os_relays s r = RelayMarking row answer rows l \<Longrightarrow> outbox_step c s (Marked r row)
    (with_relay r (RelayWorking rows l) (with_rows (mark_row c (os_now s) row answer (rows_of s)) s))"
| stop: "outbox_step c s (Stopped r) (with_relay r RelayIdle s)"
| purge: "purge_published_outbox older_than limit (rows_of s) = (n, t) \<Longrightarrow> outbox_step c s Purged (with_rows t s)"

inductive outbox_run :: "event_outbox_config \<Rightarrow> outbox_system \<Rightarrow> outbox_label list \<Rightarrow> outbox_system \<Rightarrow> bool"
  for c s0 where
  start: "outbox_run c s0 [] s0"
| step: "outbox_run c s0 ls s \<Longrightarrow> outbox_step c s l s' \<Longrightarrow> outbox_run c s0 (ls @ [l]) s'"

fun enqueued :: "outbox_label list \<Rightarrow> outbox_event list" where
  "enqueued [] = []"
| "enqueued (Enqueued ev # ls) = ev # enqueued ls"
| "enqueued (_ # ls) = enqueued ls"

definition empty_outbox :: "time \<Rightarrow> outbox_system" where
  "empty_outbox now = \<lparr>os_world = \<lparr>ob_rows = [], ob_sent = []\<rparr>, os_relays = (\<lambda>_. RelayIdle), os_now = now\<rparr>"

end
