(* ===== verification/OutboxRelay.thy ===== *)
theory OutboxRelay
  imports Outbox
begin

text \<open>
  What the outbox of \<open>Outbox\<close> promises: no event is lost whatever the relays do, each is sent once when every relay keeps
  within its lease, one round of the relay is a run of the steps, and with a broker that accepts the table drains.
\<close>

section \<open>The tables after each statement\<close>

lemma lease_simps [simp]:
  "oe_id (lease l ev) = oe_id ev" "is_pending (lease l ev) = is_pending ev" "message_of (lease l ev) = message_of ev"
  "oe_next_attempt_at (lease l ev) = l" "oe_published_at (lease l ev) = oe_published_at ev"
  by (simp_all add: lease_def is_pending_def message_of_def envelope_from_outbox_def)

lemma picked_in:
  assumes "tbl_keyed oe_id t" "ev \<in> set (picked_outbox limit now t)"
  shows "tbl_get t (oe_id ev) = Some ev \<and> outbox_due now ev"
proof -
  have "ev \<in> set (tbl_select (outbox_due now) t)" using assms(2) by (auto simp: picked_outbox_def dest: in_set_takeD)
  then show ?thesis by (simp add: mem_tbl_select [OF assms(1)])
qed

lemma picked_distinct:
  assumes "tbl_keyed oe_id t"
  shows "distinct (map oe_id (picked_outbox limit now t))"
proof -
  have "distinct (map oe_id (tbl_select (outbox_due now) t))"
    by (rule distinct_tbl_select_key) (use assms in \<open>auto simp: tbl_keyedD\<close>)
  then have "distinct (map oe_id (sort_key oe_created_at (tbl_select (outbox_due now) t)))"
    by (simp add: distinct_map)
  then show ?thesis by (simp add: picked_outbox_def take_map [symmetric] distinct_take)
qed

definition is_picked :: "nat \<Rightarrow> time \<Rightarrow> outbox \<Rightarrow> uuid \<Rightarrow> bool" where
  "is_picked limit now t i \<longleftrightarrow> i \<in> oe_id ` set (picked_outbox limit now t)"

lemma claim_outcome:
  assumes t: "tbl_keyed oe_id t" and run: "claim_pending_outbox order limit now l t = (claimed, t')"
    and order: "mset (order (map (lease l) (picked_outbox limit now t))) = mset (map (lease l) (picked_outbox limit now t))"
  shows "tbl_keyed oe_id t' \<and> distinct (map oe_id claimed) \<and>
    (\<forall>ev \<in> set claimed. is_picked limit now t (oe_id ev) \<and> tbl_get t' (oe_id ev) = Some ev) \<and>
    (\<forall>i. is_picked limit now t i \<longleftrightarrow> i \<in> oe_id ` set claimed) \<and>
    (\<forall>i. tbl_get t' i = (if is_picked limit now t i then map_option (lease l) (tbl_get t i) else tbl_get t i)) \<and>
    (\<forall>i. is_picked limit now t i \<longrightarrow> (\<exists>row. tbl_get t i = Some row \<and> outbox_due now row))"
proof -
  let ?p = "picked_outbox limit now t"
  have t': "t' = tbl_upd oe_id (oe_id ` set ?p) (lease l) t" and claimed: "claimed = order (map (lease l) ?p)"
    using run by (simp_all add: claim_pending_outbox_def Let_def)
  have get: "tbl_get t' i = (if is_picked limit now t i then map_option (lease l) (tbl_get t i) else tbl_get t i)" for i
    unfolding t' tbl_get_upd [OF t] is_picked_def by (cases "tbl_get t i") simp_all
  have set: "set claimed = lease l ` set ?p" using order claimed by (metis mset_eq_setD set_map)
  have "distinct (map oe_id (map (lease l) ?p))" using picked_distinct [OF t] by (simp add: comp_def)
  moreover have "mset (map oe_id claimed) = mset (map oe_id (map (lease l) ?p))" using order claimed by (metis mset_map)
  ultimately have "distinct (map oe_id claimed)" by (metis mset_eq_imp_distinct_iff)
  moreover have "tbl_keyed oe_id t'" unfolding t' by (rule tbl_keyed_upd [OF t]) simp
  moreover have due: "\<exists>row. tbl_get t i = Some row \<and> outbox_due now row" if "is_picked limit now t i" for i
    using that picked_in [OF t] by (auto simp: is_picked_def)
  moreover have "is_picked limit now t (oe_id ev) \<and> tbl_get t' (oe_id ev) = Some ev" if "ev \<in> set claimed" for ev
  proof -
    from that obtain x where x: "x \<in> set ?p" "ev = lease l x" by (auto simp: set)
    then have "is_picked limit now t (oe_id ev)" by (auto simp: is_picked_def)
    with x picked_in [OF t x(1)] show ?thesis by (simp add: get)
  qed
  moreover have "is_picked limit now t i \<longleftrightarrow> i \<in> oe_id ` set claimed" for i
    by (simp add: set is_picked_def image_image)
  ultimately show ?thesis using get by blast
qed

lemma get_upd_pending:
  "tbl_keyed oe_id t \<Longrightarrow> tbl_get (upd_pending i f t) k =
     (if k = i then map_option (\<lambda>ev. if is_pending ev then f ev else ev) (tbl_get t k) else tbl_get t k)"
  by (cases "k = i"; cases "tbl_get t k"; auto simp: upd_pending_def tbl_get_upd)

lemma keyed_mark_row: "tbl_keyed oe_id t \<Longrightarrow> tbl_keyed oe_id (mark_row c now row a t)"
  by (auto simp: mark_row_def mark_outbox_published_def mark_outbox_failed_def upd_pending_def intro!: tbl_keyed_upd split: option.split)

definition marked :: "event_outbox_config \<Rightarrow> time \<Rightarrow> outbox_event \<Rightarrow> string option \<Rightarrow> outbox_event \<Rightarrow> outbox_event" where
  "marked c now row a ev =
     (case a of None \<Rightarrow> ev\<lparr>oe_published_at := Some now\<rparr>
      | Some e \<Rightarrow> ev\<lparr>oe_last_error := Some (truncate_outbox_error e), oe_next_attempt_at := retry_at c now row\<rparr>)"

lemma marked_simps [simp]:
  "oe_id (marked c now row a ev) = oe_id ev" "message_of (marked c now row a ev) = message_of ev"
  "is_pending (marked c now row a ev) \<longleftrightarrow> a \<noteq> None \<and> is_pending ev"
  by (auto simp: marked_def message_of_def envelope_from_outbox_def is_pending_def split: option.split)

lemma get_mark_row:
  "tbl_keyed oe_id t \<Longrightarrow> tbl_get (mark_row c now row a t) k =
     (if k = oe_id row then map_option (\<lambda>ev. if is_pending ev then marked c now row a ev else ev) (tbl_get t k) else tbl_get t k)"
  by (cases "k = oe_id row"; cases a; cases "tbl_get t k";
      auto simp: mark_row_def mark_outbox_published_def mark_outbox_failed_def get_upd_pending marked_def)

lemma purge_outcome:
  assumes t: "tbl_keyed oe_id t" and run: "purge_published_outbox older_than limit t = (n, t')"
  shows "tbl_keyed oe_id t' \<and> (\<forall>i. tbl_get t' i = tbl_get t i \<or>
    (tbl_get t' i = None \<and> (\<exists>row. tbl_get t i = Some row \<and> \<not> is_pending row)))"
proof -
  let ?old = "tbl_select (\<lambda>ev. case oe_published_at ev of Some p \<Rightarrow> p < older_than | None \<Rightarrow> False) t"
  let ?ids = "oe_id ` set (take (clamp_outbox_limit limit) (sort_key (\<lambda>ev. the (oe_published_at ev)) ?old))"
  have t': "t' = tbl_delete_where (\<lambda>ev. oe_id ev \<in> ?ids) t" using run by (simp add: purge_published_outbox_def Let_def)
  have old: "\<exists>row. tbl_get t i = Some row \<and> \<not> is_pending row" if i: "i \<in> ?ids" for i
  proof -
    from i obtain ev where "ev \<in> set ?old" "oe_id ev = i" by (auto dest: in_set_takeD)
    then show ?thesis using mem_tbl_select [OF t] by (auto simp: is_pending_def split: option.splits)
  qed
  have get: "tbl_get t' i = (if i \<in> ?ids then None else tbl_get t i)" for i
    using t by (auto simp: t' tbl_get_delete_where tbl_keyedD split: option.splits)
  show ?thesis unfolding get using tbl_keyed_delete_where [OF t] old t' by auto
qed

lemma enqueue_outcome:
  assumes "tbl_keyed oe_id t" "enqueue_outbox ev t = Inr t'"
  shows "tbl_keyed oe_id t' \<and> tbl_get t (oe_id ev) = None \<and> tbl_get t' = (tbl_get t)(oe_id ev \<mapsto> ev)"
  using assms by (auto simp: enqueue_outbox_def tbl_get_put intro: tbl_keyed_put split: if_splits)

section \<open>Nothing is lost\<close>

fun held :: "relay_state \<Rightarrow> outbox_event list" where
  "held RelayIdle = []"
| "held (RelayWorking rows l) = rows"
| "held (RelayMarking row a rows l) = row # rows"

fun accepted_row :: "relay_state \<Rightarrow> outbox_event option" where
  "accepted_row (RelayMarking row None rows l) = Some row"
| "accepted_row _ = None"

definition known :: "outbox_label list \<Rightarrow> outbox_message \<Rightarrow> bool" where
  "known ls m \<longleftrightarrow> m \<in> message_of ` set (enqueued ls)"

definition waiting :: "outbox_system \<Rightarrow> outbox_event \<Rightarrow> bool" where
  "waiting s ev \<longleftrightarrow> (\<exists>row. tbl_get (rows_of s) (oe_id ev) = Some row \<and> is_pending row \<and> message_of row = message_of ev)"

definition outbox_inv :: "outbox_label list \<Rightarrow> outbox_system \<Rightarrow> bool" where
  "outbox_inv ls s \<longleftrightarrow> tbl_keyed oe_id (rows_of s) \<and>
     (\<forall>i row. tbl_get (rows_of s) i = Some row \<longrightarrow> known ls (message_of row) \<and> (\<not> is_pending row \<longrightarrow> message_of row \<in> set (sent_of s))) \<and>
     (\<forall>ev \<in> set (enqueued ls). message_of ev \<in> set (sent_of s) \<or> waiting s ev) \<and>
     (\<forall>r. \<forall>row \<in> set (held (os_relays s r)). known ls (message_of row)) \<and>
     (\<forall>r row. accepted_row (os_relays s r) = Some row \<longrightarrow> message_of row \<in> set (sent_of s)) \<and>
     (\<forall>m \<in> set (sent_of s). known ls m)"

lemma message_id: "message_of a = message_of b \<Longrightarrow> oe_id a = oe_id b"
  by (simp add: message_of_def envelope_from_outbox_def)

lemma enqueued_append: "enqueued (ls @ [l]) = enqueued ls @ enqueued [l]"
  by (induction ls rule: enqueued.induct) simp_all

lemma known_snoc: "known (ls @ [l]) m \<longleftrightarrow> known ls m \<or> m \<in> message_of ` set (enqueued [l])"
  by (auto simp: known_def enqueued_append)

lemma known_same:
  "distinct (map oe_id (enqueued ls)) \<Longrightarrow> known ls (message_of a) \<Longrightarrow> known ls (message_of b) \<Longrightarrow> oe_id a = oe_id b \<Longrightarrow>
     message_of a = message_of b"
proof -
  assume d: "distinct (map oe_id (enqueued ls))" and k: "known ls (message_of a)" "known ls (message_of b)" "oe_id a = oe_id b"
  from k obtain x y where xy: "x \<in> set (enqueued ls)" "message_of a = message_of x" "y \<in> set (enqueued ls)" "message_of b = message_of y"
    unfolding known_def by blast
  then have "oe_id x = oe_id y" using k(3) message_id by metis
  with xy d have "x = y" by (auto simp: distinct_map dest: inj_onD)
  with xy show ?thesis by simp
qed

lemma with_simps [simp]:
  "rows_of (with_rows t s) = t" "sent_of (with_rows t s) = sent_of s" "os_relays (with_rows t s) = os_relays s"
  "os_now (with_rows t s) = os_now s" "os_world (with_relay r st s) = os_world s"
  "os_relays (with_relay r st s) = (os_relays s)(r := st)" "os_now (with_relay r st s) = os_now s"
  by (simp_all add: with_rows_def with_relay_def)

lemmas inv_defs = outbox_inv_def known_snoc waiting_def enqueued_append

lemma claim_inv:
  assumes inv: "outbox_inv ls s" and claim: "claim_pending_outbox order limit (os_now s) l (rows_of s) = (claimed, t)"
    and order: "mset (order (map (lease l) (picked_outbox limit (os_now s) (rows_of s)))) =
      mset (map (lease l) (picked_outbox limit (os_now s) (rows_of s)))"
  shows "outbox_inv (ls @ [Claimed r]) (with_relay r (RelayWorking claimed l) (with_rows t s))"
proof -
  have t: "tbl_keyed oe_id (rows_of s)" using inv by (simp add: outbox_inv_def)
  note out = claim_outcome [OF t claim order]
  have row: "\<exists>old. tbl_get (rows_of s) i = Some old \<and> message_of old = message_of row \<and> is_pending old = is_pending row"
    if "tbl_get t i = Some row" for i row
    using out that by (auto split: if_splits)
  have new: "\<exists>row. tbl_get t i = Some row \<and> message_of old = message_of row \<and> is_pending old = is_pending row"
    if "tbl_get (rows_of s) i = Some old" for i old
    using out that by auto
  have held: "known ls (message_of ev)" if "ev \<in> set claimed" for ev
  proof -
    have "tbl_get t (oe_id ev) = Some ev" using out that by blast
    from row [OF this] inv show ?thesis unfolding outbox_inv_def by metis
  qed
  show ?thesis
    using inv out unfolding inv_defs by (auto simp: held)
qed

lemma mark_inv:
  assumes inv: "outbox_inv ls s" and d: "distinct (map oe_id (enqueued ls))" and st: "os_relays s r = RelayMarking row a rows l"
  shows "outbox_inv (ls @ [Marked r row])
    (with_relay r (RelayWorking rows l) (with_rows (mark_row c (os_now s) row a (rows_of s)) s))"
proof -
  let ?t = "mark_row c (os_now s) row a (rows_of s)"
  have t: "tbl_keyed oe_id (rows_of s)" using inv by (simp add: outbox_inv_def)
  note get = get_mark_row [OF t, of c "os_now s" row a]
  have kr: "known ls (message_of row)" using inv st unfolding outbox_inv_def by (metis held.simps(3) list.set_intros(1))
  have sent: "message_of row \<in> set (sent_of s)" if "a = None"
    using inv st that unfolding outbox_inv_def by (metis accepted_row.simps(1))
  have old: "\<exists>old. tbl_get (rows_of s) i = Some old \<and> message_of old = message_of new \<and>
      (is_pending old = is_pending new \<or> (\<not> is_pending new \<and> message_of new \<in> set (sent_of s)))"
    if new: "tbl_get ?t i = Some new" for i new
  proof -
    from new obtain old where old: "tbl_get (rows_of s) i = Some old" by (auto simp: get split: if_splits)
    show ?thesis
    proof (cases "i = oe_id row")
      case True
      have "known ls (message_of old)" "oe_id old = i" using inv old t by (auto simp: outbox_inv_def tbl_keyedD)
      with known_same [OF d _ kr, of old] True have "message_of old = message_of row" by simp
      with old new sent True show ?thesis by (auto simp: get split: if_splits)
    next
      case False
      with old new show ?thesis by (simp add: get)
    qed
  qed
  have keep: "\<exists>new. tbl_get ?t i = Some new \<and> message_of old = message_of new \<and>
      (is_pending new = is_pending old \<or> message_of old \<in> set (sent_of s))" if "tbl_get (rows_of s) i = Some old" for i old
    using that old [of i] by (cases "tbl_get ?t i") (auto simp: get split: if_splits)
  have 1: "tbl_get ?t i = Some new \<longrightarrow> known ls (message_of new) \<and> (\<not> is_pending new \<longrightarrow> message_of new \<in> set (sent_of s))" for i new
    using old [of i new] inv unfolding outbox_inv_def by metis
  have 2: "message_of ev \<in> set (sent_of s) \<or> (\<exists>new. tbl_get ?t (oe_id ev) = Some new \<and> is_pending new \<and> message_of new = message_of ev)"
    if "ev \<in> set (enqueued ls)" for ev
    using that inv keep unfolding outbox_inv_def waiting_def by metis
  show ?thesis
    using inv keyed_mark_row [OF t, of c "os_now s" row a] 1 2 st unfolding inv_defs
    by (auto simp: fun_upd_apply) (metis held.simps(3) list.set_intros(2))+
qed

lemma step_inv:
  assumes inv: "outbox_inv ls s" and step: "outbox_step c s l s'" and d: "distinct (map oe_id (enqueued (ls @ [l])))"
  shows "outbox_inv (ls @ [l]) s'"
  using step
proof cases
  case (enqueue ev t)
  have t: "tbl_keyed oe_id (rows_of s)" using inv by (simp add: outbox_inv_def)
  note out = enqueue_outcome [OF t enqueue(4)]
  have "waiting s x \<Longrightarrow> oe_id x \<noteq> oe_id ev" for x using out by (auto simp: waiting_def)
  then show ?thesis using inv out enqueue(1-3) unfolding inv_defs by (auto simp: waiting_def)
next
  case (wait t)
  then show ?thesis using inv unfolding inv_defs by simp
next
  case (claim r order lu claimed t)
  then show ?thesis using claim_inv [OF inv claim(6,4)] by simp
next
  case (accepted r row rows lu)
  have "known ls (message_of row)" using inv accepted(3) unfolding outbox_inv_def by (metis held.simps(2) list.set_intros(1))
  then show ?thesis using inv accepted unfolding inv_defs
    by (auto simp: fun_upd_apply) (metis held.simps(2) list.set_intros(2))+
next
  case (refused r row rows lu e)
  then show ?thesis using inv unfolding inv_defs by (auto simp: fun_upd_apply) (metis held.simps(2) list.set_intros)+
next
  case (mark r row a rows lu)
  have "distinct (map oe_id (enqueued ls))" using d by (simp add: enqueued_append)
  from mark_inv [OF inv this mark(3)] mark show ?thesis by simp
next
  case (stop r)
  then show ?thesis using inv unfolding inv_defs by (auto simp: fun_upd_apply)
next
  case (purge older_than limit n t)
  have t: "tbl_keyed oe_id (rows_of s)" using inv by (simp add: outbox_inv_def)
  note out = purge_outcome [OF t purge(3)]
  have "waiting s ev \<Longrightarrow> \<exists>row. tbl_get t (oe_id ev) = Some row \<and> is_pending row \<and> message_of row = message_of ev" for ev
    using out unfolding waiting_def by (metis option.inject option.distinct(1))
  moreover have "known ls (message_of row) \<and> (\<not> is_pending row \<longrightarrow> message_of row \<in> set (sent_of s))"
    if "tbl_get t i = Some row" for i row
  proof -
    have "tbl_get (rows_of s) i = Some row" using out that by (metis option.distinct(1))
    then show ?thesis using inv unfolding outbox_inv_def by blast
  qed
  ultimately show ?thesis using inv out purge(1,2) unfolding inv_defs by auto
qed

lemma run_inv:
  assumes "outbox_run c (empty_outbox now) ls s" "distinct (map oe_id (enqueued ls))"
  shows "outbox_inv ls s"
  using assms
proof (induction rule: outbox_run.induct)
  case start
  then show ?case by (simp add: inv_defs empty_outbox_def tbl_keyed_def tbl_ok_def)
next
  case (step ls s l s')
  from step.prems have "distinct (map oe_id (enqueued ls))" by (simp add: enqueued_append)
  from step_inv [OF step.IH [OF this] step.hyps(2) step.prems] show ?case .
qed

text \<open>
  C11: No event is lost or made up, whatever the relays do: several may run at once, each may stop between any two of
  its calls, leases may expire and rows be purged. Every event that was enqueued, with an identifier of its own, is
  either still pending in the table with its message unchanged, so that a later claim sends it, or the broker accepted
  exactly this message, with the event's own identifier however often it was sent; and nothing else was sent.
\<close>

theorem outbox_no_loss:
  assumes "outbox_run c (empty_outbox now) ls s" "distinct (map oe_id (enqueued ls))"
  shows "(\<forall>ev \<in> set (enqueued ls). message_of ev \<in> set (sent_of s) \<or> waiting s ev) \<and>
    (\<forall>m \<in> set (sent_of s). \<exists>ev \<in> set (enqueued ls). m = message_of ev)"
  using run_inv [OF assms] unfolding outbox_inv_def known_def by blast


section \<open>Sent once\<close>

text \<open>
  A run is punctual when every send and its mark fall within the lease and no relay stops between them.
\<close>

fun lease_end :: "relay_state \<Rightarrow> time option" where
  "lease_end RelayIdle = None"
| "lease_end (RelayWorking rows l) = Some l"
| "lease_end (RelayMarking row a rows l) = Some l"

fun marking :: "relay_state \<Rightarrow> bool" where
  "marking (RelayMarking row a rows l) = True"
| "marking _ = False"

fun punctual :: "outbox_system \<Rightarrow> outbox_label \<Rightarrow> bool" where
  "punctual s (Waited t) \<longleftrightarrow> (\<forall>r l. marking (os_relays s r) \<longrightarrow> lease_end (os_relays s r) = Some l \<longrightarrow> t < l)"
| "punctual s (Answered r row a) \<longleftrightarrow> (\<forall>l. lease_end (os_relays s r) = Some l \<longrightarrow> os_now s < l)"
| "punctual s (Stopped r) \<longleftrightarrow> \<not> marking (os_relays s r)"
| "punctual s _ \<longleftrightarrow> True"

inductive punctual_run :: "event_outbox_config \<Rightarrow> outbox_system \<Rightarrow> outbox_label list \<Rightarrow> outbox_system \<Rightarrow> bool"
  for c s0 where
  start: "punctual_run c s0 [] s0"
| step: "punctual_run c s0 ls s \<Longrightarrow> outbox_step c s l s' \<Longrightarrow> punctual s l \<Longrightarrow> punctual_run c s0 (ls @ [l]) s'"

lemma punctual_run_run: "punctual_run c s0 ls s \<Longrightarrow> outbox_run c s0 ls s"
  by (induction rule: punctual_run.induct) (auto intro: outbox_run.intros)

definition holds :: "outbox_system \<Rightarrow> nat \<Rightarrow> uuid \<Rightarrow> time \<Rightarrow> bool" where
  "holds s r i l \<longleftrightarrow> i \<in> oe_id ` set (held (os_relays s r)) \<and> lease_end (os_relays s r) = Some l"

definition leased_until :: "outbox_system \<Rightarrow> uuid \<Rightarrow> time \<Rightarrow> bool" where
  "leased_until s i l \<longleftrightarrow> (\<exists>row. tbl_get (rows_of s) i = Some row \<and> is_pending row \<and> l \<le> oe_next_attempt_at row)"

definition live :: "outbox_system \<Rightarrow> uuid \<Rightarrow> bool" where
  "live s i \<longleftrightarrow> (\<exists>row. tbl_get (rows_of s) i = Some row \<and> is_pending row)"

definition sent_ids :: "outbox_system \<Rightarrow> uuid list" where
  "sent_ids s = map (\<lambda>m. en_id (snd (snd m))) (sent_of s)"

definition lease_inv :: "outbox_system \<Rightarrow> bool" where
  "lease_inv s \<longleftrightarrow>
     (\<forall>r. distinct (map oe_id (held (os_relays s r)))) \<and>
     (\<forall>r i l. holds s r i l \<longrightarrow> l \<le> os_now s \<or> leased_until s i l) \<and>
     (\<forall>r r' i l l'. r \<noteq> r' \<longrightarrow> holds s r i l \<longrightarrow> holds s r' i l' \<longrightarrow> l \<le> os_now s \<or> l' \<le> os_now s) \<and>
     (\<forall>r l. marking (os_relays s r) \<longrightarrow> lease_end (os_relays s r) = Some l \<longrightarrow> os_now s < l)"

definition once_inv :: "outbox_system \<Rightarrow> bool" where
  "once_inv s \<longleftrightarrow> distinct (sent_ids s) \<and>
     (\<forall>i \<in> set (sent_ids s). \<not> live s i \<or> (\<exists>r row. accepted_row (os_relays s r) = Some row \<and> oe_id row = i))"

lemma lease_invD:
  assumes "lease_inv s"
  shows "distinct (map oe_id (held (os_relays s r)))" "holds s r i l \<Longrightarrow> l \<le> os_now s \<or> leased_until s i l"
    "r \<noteq> r' \<Longrightarrow> holds s r i l \<Longrightarrow> holds s r' i l' \<Longrightarrow> l \<le> os_now s \<or> l' \<le> os_now s"
    "marking (os_relays s r) \<Longrightarrow> lease_end (os_relays s r) = Some l \<Longrightarrow> os_now s < l"
  using assms unfolding lease_inv_def by blast+

lemma lease_invI:
  assumes "\<And>r. distinct (map oe_id (held (os_relays s r)))" "\<And>r i l. holds s r i l \<Longrightarrow> l \<le> os_now s \<or> leased_until s i l"
    and "\<And>r r' i l l'. r \<noteq> r' \<Longrightarrow> holds s r i l \<Longrightarrow> holds s r' i l' \<Longrightarrow> l \<le> os_now s \<or> l' \<le> os_now s"
    and "\<And>r l. marking (os_relays s r) \<Longrightarrow> lease_end (os_relays s r) = Some l \<Longrightarrow> os_now s < l"
  shows "lease_inv s"
  using assms unfolding lease_inv_def by blast

lemma leased_live: "leased_until s i l \<Longrightarrow> live s i"
  by (auto simp: leased_until_def live_def)

lemma accepted_marking: "accepted_row st = Some row \<Longrightarrow> marking st \<and> row \<in> set (held st)"
  by (cases st rule: accepted_row.cases) auto

lemma holds_simps [simp]:
  "holds (with_relay r st s) r' i l \<longleftrightarrow>
     (if r' = r then i \<in> oe_id ` set (held st) \<and> lease_end st = Some l else holds s r' i l)"
  "holds (with_rows t s) r' i l \<longleftrightarrow> holds s r' i l"
  "leased_until (with_relay r st s) i l \<longleftrightarrow> leased_until s i l"
  "live (with_relay r st s) i \<longleftrightarrow> live s i"
  "sent_ids (with_relay r st s) = sent_ids s" "sent_ids (with_rows t s) = sent_ids s"
  by (auto simp: holds_def leased_until_def live_def sent_ids_def)

lemma lease_claim:
  assumes t: "tbl_keyed oe_id (rows_of s)" and inv: "lease_inv s" and idle: "os_relays s r = RelayIdle"
    and claim: "claim_pending_outbox order limit (os_now s) l (rows_of s) = (claimed, t')"
    and order: "mset (order (map (lease l) (picked_outbox limit (os_now s) (rows_of s)))) =
      mset (map (lease l) (picked_outbox limit (os_now s) (rows_of s)))"
  shows "lease_inv (with_relay r (RelayWorking claimed l) (with_rows t' s)) \<and> (\<forall>i. live (with_rows t' s) i \<longleftrightarrow> live s i)"
proof -
  let ?s = "with_relay r (RelayWorking claimed l) (with_rows t' s)"
  note out = claim_outcome [OF t claim order]
  have live: "live (with_rows t' s) i \<longleftrightarrow> live s i" for i
    using out by (auto simp: live_def)
  have picked: "is_picked limit (os_now s) (rows_of s) i \<longleftrightarrow> i \<in> oe_id ` set claimed" for i using out by blast
  have expired: "m \<le> os_now s" if "holds s r' i m" "i \<in> oe_id ` set claimed" for r' i m
  proof -
    from that picked out obtain row where "tbl_get (rows_of s) i = Some row" "outbox_due (os_now s) row" by blast
    with inv that(1) show ?thesis unfolding lease_inv_def leased_until_def outbox_due_def
      by (metis option.inject order_trans)
  qed
  have mine: "leased_until (with_rows t' s) i l" if "i \<in> oe_id ` set claimed" for i
  proof -
    from that picked out obtain row where "tbl_get (rows_of s) i = Some row" "outbox_due (os_now s) row"
      "tbl_get t' i = Some (lease l row)" by auto
    then show ?thesis by (simp add: leased_until_def outbox_due_def)
  qed
  have other: "leased_until (with_rows t' s) i m" if "leased_until s i m" "i \<notin> oe_id ` set claimed" for i m
    using that out picked by (auto simp: leased_until_def)
  have "lease_inv ?s"
  proof (rule lease_invI)
    fix r' show "distinct (map oe_id (held (os_relays ?s r')))"
      using lease_invD(1) [OF inv] out by simp
  next
    fix r' i m assume h: "holds ?s r' i m"
    show "m \<le> os_now ?s \<or> leased_until ?s i m"
    proof (cases "r' = r \<or> i \<in> oe_id ` set claimed")
      case True
      with h expired [of r' i m] mine show ?thesis by (auto split: if_splits)
    next
      case False
      with h lease_invD(2) [OF inv, of r' i m] other [of i m] show ?thesis by auto
    qed
  next
    fix r1 r2 i m1 m2 assume "r1 \<noteq> r2" "holds ?s r1 i m1" "holds ?s r2 i m2"
    then show "m1 \<le> os_now ?s \<or> m2 \<le> os_now ?s"
      using expired [of r1 i m1] expired [of r2 i m2] lease_invD(3) [OF inv, of r1 r2 i m1 m2]
      by (cases "r1 = r"; cases "r2 = r") auto
  next
    fix r' m assume "marking (os_relays ?s r')" "lease_end (os_relays ?s r') = Some m"
    then show "os_now ?s < m" using lease_invD(4) [OF inv, of r' m] by (auto split: if_splits)
  qed
  with live show ?thesis by blast
qed

lemma lease_mark:
  assumes t: "tbl_keyed oe_id (rows_of s)" and inv: "lease_inv s" and st: "os_relays s r = RelayMarking row a rows l"
  shows "lease_inv (with_relay r (RelayWorking rows l) (with_rows (mark_row c (os_now s) row a (rows_of s)) s)) \<and>
    (\<forall>i. live (with_rows (mark_row c (os_now s) row a (rows_of s)) s) i \<longleftrightarrow> live s i \<and> (i = oe_id row \<longrightarrow> a \<noteq> None))"
proof -
  let ?t = "mark_row c (os_now s) row a (rows_of s)"
  let ?s = "with_relay r (RelayWorking rows l) (with_rows ?t s)"
  note get = get_mark_row [OF t, of c "os_now s" row a]
  have live: "live (with_rows ?t s) i \<longleftrightarrow> live s i \<and> (i = oe_id row \<longrightarrow> a \<noteq> None)" for i
  proof -
    have "is_pending (if is_pending z then marked c (os_now s) row a z else z) \<longleftrightarrow> is_pending z \<and> a \<noteq> None" for z by simp
    then show ?thesis unfolding live_def with_simps get by (cases "i = oe_id row"; cases "tbl_get (rows_of s) i"; simp)
  qed
  have active: "os_now s < l" "holds s r (oe_id row) l"
    using lease_invD(4) [OF inv, of r l] st by (simp_all add: holds_def)
  have others: "m \<le> os_now s" if "holds s r' (oe_id row) m" "r' \<noteq> r" for r' m
    using lease_invD(3) [OF inv that(2,1) active(2)] active(1) by auto
  have fresh: "oe_id row \<notin> oe_id ` set rows" using lease_invD(1) [OF inv, of r] st by simp
  have kept: "leased_until (with_rows ?t s) i m" if "leased_until s i m" "i \<noteq> oe_id row" for i m
    using that by (auto simp: leased_until_def get)
  have mine: "holds s r i m" if "i \<in> oe_id ` set rows" "m = l" for i m
    using that st by (auto simp: holds_def)
  have "lease_inv ?s"
  proof (rule lease_invI)
    fix r' show "distinct (map oe_id (held (os_relays ?s r')))"
      using lease_invD(1) [OF inv, of r'] lease_invD(1) [OF inv, of r] st by simp
  next
    fix r' i m assume h: "holds ?s r' i m"
    then have old: "holds s r' i m" and ne: "i = oe_id row \<Longrightarrow> r' \<noteq> r" using mine fresh by (auto split: if_splits)
    show "m \<le> os_now ?s \<or> leased_until ?s i m"
      using lease_invD(2) [OF inv old] others [of r' m] kept [of i m] ne old by (cases "i = oe_id row") auto
  next
    fix r1 r2 i m1 m2 assume "r1 \<noteq> r2" "holds ?s r1 i m1" "holds ?s r2 i m2"
    then show "m1 \<le> os_now ?s \<or> m2 \<le> os_now ?s"
      using lease_invD(3) [OF inv, of r1 r2 i m1 m2] mine by (auto split: if_splits)
  next
    fix r' m assume "marking (os_relays ?s r')" "lease_end (os_relays ?s r') = Some m"
    then show "os_now ?s < m" using lease_invD(4) [OF inv, of r' m] by (auto split: if_splits)
  qed
  with live show ?thesis by blast
qed

lemma lease_rows:
  assumes inv: "lease_inv s" and keep: "\<And>i l. leased_until s i l \<Longrightarrow> leased_until (with_rows t s) i l"
  shows "lease_inv (with_rows t s)"
proof (rule lease_invI)
  fix r i l assume "holds (with_rows t s) r i l"
  then show "l \<le> os_now (with_rows t s) \<or> leased_until (with_rows t s) i l"
    using lease_invD(2) [OF inv, of r i l] keep [of i l] by simp blast
qed (use lease_invD(1,3,4) [OF inv] in simp_all)

lemma lease_enqueue:
  assumes t: "tbl_keyed oe_id (rows_of s)" and inv: "lease_inv s" and run: "enqueue_outbox ev (rows_of s) = Inr t'"
  shows "lease_inv (with_rows t' s) \<and> (\<forall>i. i \<noteq> oe_id ev \<longrightarrow> live (with_rows t' s) i = live s i)"
proof -
  note out = enqueue_outcome [OF t run]
  have "lease_inv (with_rows t' s)" by (rule lease_rows [OF inv]) (use out in \<open>auto simp: leased_until_def\<close>)
  with out show ?thesis by (auto simp: live_def)
qed

lemma lease_purge:
  assumes t: "tbl_keyed oe_id (rows_of s)" and inv: "lease_inv s" and run: "purge_published_outbox older_than limit (rows_of s) = (n, t')"
  shows "lease_inv (with_rows t' s) \<and> (\<forall>i. live (with_rows t' s) i = live s i)"
proof -
  have get: "(\<exists>row. tbl_get t' i = Some row \<and> is_pending row \<and> P row) \<longleftrightarrow> (\<exists>row. tbl_get (rows_of s) i = Some row \<and> is_pending row \<and> P row)"
    for i P using purge_outcome [OF t run] by (metis option.distinct(1) option.inject)
  have "lease_inv (with_rows t' s)" by (rule lease_rows [OF inv]) (simp add: leased_until_def get)
  moreover have "live (with_rows t' s) i = live s i" for i using get [of i "\<lambda>_. True"] by (simp add: live_def)
  ultimately show ?thesis by blast
qed

lemma lease_wait:
  assumes inv: "lease_inv s" and t: "os_now s \<le> t" and p: "punctual s (Waited t)"
  shows "lease_inv (s\<lparr>os_now := t\<rparr>)"
proof -
  have same: "holds (s\<lparr>os_now := t\<rparr>) = holds s" "leased_until (s\<lparr>os_now := t\<rparr>) = leased_until s"
    by (simp_all add: holds_def leased_until_def fun_eq_iff)
  show ?thesis
    using lease_invD [OF inv] t p by (intro lease_invI) (simp_all add: same, (meson order_trans)+)
qed

lemma lease_answer:
  assumes inv: "lease_inv s" and st: "os_relays s r = RelayWorking (row # rows) l" and p: "os_now s < l"
    and s': "os_relays s' = (os_relays s)(r := RelayMarking row a rows l)" "rows_of s' = rows_of s" "os_now s' = os_now s"
  shows "lease_inv s'"
proof -
  have held: "held (os_relays s' x) = held (os_relays s x)" "lease_end (os_relays s' x) = lease_end (os_relays s x)" for x
    using st by (simp_all add: s')
  have same: "holds s' x i m = holds s x i m" "leased_until s' i m = leased_until s i m" for x i m
    by (simp_all only: holds_def held leased_until_def s'(2))
  have "os_now s < m" if "marking (os_relays s' x)" "lease_end (os_relays s x) = Some m" for x m
    using that p st lease_invD(4) [OF inv, of x m] by (auto simp: s' split: if_splits)
  then show ?thesis
    using lease_invD(1-3) [OF inv] by (intro lease_invI) (simp_all only: same held s'(3))
qed

lemma once_keep:
  assumes "once_inv s" "sent_ids s' = sent_ids s" "\<And>i. i \<in> set (sent_ids s) \<Longrightarrow> live s' i \<Longrightarrow> live s i"
    and "\<And>x y. accepted_row (os_relays s x) = Some y \<Longrightarrow> live s' (oe_id y) \<Longrightarrow> accepted_row (os_relays s' x) = Some y"
  shows "once_inv s'"
  using assms unfolding once_inv_def by metis

lemma once_answer:
  assumes inv: "lease_inv s" and once: "once_inv s" and st: "os_relays s r = RelayWorking (row # rows) l" and p: "os_now s < l"
    and s': "s' = with_relay r (RelayMarking row None rows l) (s\<lparr>os_world := (os_world s)\<lparr>ob_sent := sent_of s @ [message_of row]\<rparr>\<rparr>)"
  shows "once_inv s'"
proof -
  have ids: "sent_ids s' = sent_ids s @ [oe_id row]"
    by (simp add: s' sent_ids_def message_of_def envelope_from_outbox_def)
  have live: "live s' i = live s i" for i by (simp add: s' live_def)
  have h: "holds s r (oe_id row) l" using st by (simp add: holds_def)
  have "oe_id row \<notin> set (sent_ids s)"
  proof
    assume "oe_id row \<in> set (sent_ids s)"
    moreover have "live s (oe_id row)" using lease_invD(2) [OF inv h] p by (auto dest: leased_live)
    ultimately obtain r' row' where acc: "accepted_row (os_relays s r') = Some row'" "oe_id row' = oe_id row"
      using once unfolding once_inv_def by blast
    from accepted_marking [OF acc(1)] acc(2)
    have mk: "marking (os_relays s r')" "oe_id row \<in> oe_id ` set (held (os_relays s r'))" by (auto intro: rev_image_eqI)
    then obtain m where m: "lease_end (os_relays s r') = Some m" "marking (os_relays s r')" "holds s r' (oe_id row) m"
      unfolding holds_def by (cases "os_relays s r'") auto
    have "r' \<noteq> r" using m(2) st by auto
    from lease_invD(3) [OF inv this m(3) h] lease_invD(4) [OF inv m(2,1)] p show False by auto
  qed
  moreover have "accepted_row (os_relays s' x) = Some y" if "accepted_row (os_relays s x) = Some y" for x y
    using that st by (auto simp: s')
  moreover have "accepted_row (os_relays s' r) = Some row" by (simp add: s')
  ultimately show ?thesis using once unfolding once_inv_def ids live set_append distinct_append by (simp, metis)
qed

lemma once_step:
  assumes inv: "lease_inv s" and once: "once_inv s" and all: "outbox_inv ls s" and step: "outbox_step c s l s'" and p: "punctual s l"
    and d: "distinct (map oe_id (enqueued (ls @ [l])))"
  shows "lease_inv s' \<and> once_inv s'"
  using step
proof cases
  case (enqueue ev t)
  have t: "tbl_keyed oe_id (rows_of s)" using all by (simp add: outbox_inv_def)
  have "oe_id ev \<notin> set (sent_ids s)"
  proof
    assume "oe_id ev \<in> set (sent_ids s)"
    then obtain m where m: "m \<in> set (sent_of s)" "en_id (snd (snd m)) = oe_id ev" by (auto simp: sent_ids_def)
    with all obtain x where "x \<in> set (enqueued ls)" "m = message_of x" by (auto simp: outbox_inv_def known_def)
    moreover from this m(2) have "oe_id x = oe_id ev" by (simp add: message_of_def envelope_from_outbox_def)
    ultimately have "oe_id ev \<in> oe_id ` set (enqueued ls)" by (auto intro: rev_image_eqI)
    then show False using d enqueue(1) by (simp add: enqueued_append)
  qed
  then have "once_inv s'"
    using lease_enqueue [OF t inv enqueue(4)] unfolding enqueue(2) by (intro once_keep [OF once]) (simp_all, metis)
  with lease_enqueue [OF t inv enqueue(4)] enqueue(2) show ?thesis by blast
next
  case (wait t)
  have "once_inv s'" using once wait(2) by (auto simp: once_inv_def live_def sent_ids_def)
  with lease_wait [OF inv wait(3)] p wait show ?thesis by simp
next
  case (claim r order lu claimed t)
  have t: "tbl_keyed oe_id (rows_of s)" using all by (simp add: outbox_inv_def)
  note keep = lease_claim [OF t inv claim(3,6,4)]
  have "accepted_row (os_relays s' x) = Some y" if "accepted_row (os_relays s x) = Some y" for x y
    using that claim(2,3) by (auto simp: fun_upd_apply)
  then have "once_inv s'" using keep by (intro once_keep [OF once]) (simp_all add: claim(2))
  with keep claim(2) show ?thesis by blast
next
  case (accepted r row rows lu)
  have "os_now s < lu" using p accepted(1,3) by simp
  with lease_answer [OF inv accepted(3) this, of s' None] once_answer [OF inv once accepted(3) this accepted(2)] accepted(2)
  show ?thesis by simp
next
  case (refused r row rows lu e)
  have "os_now s < lu" using p refused(1,3) by simp
  moreover have "accepted_row (os_relays s' x) = Some y" if "accepted_row (os_relays s x) = Some y" for x y
    using that refused(2,3) by (auto simp: fun_upd_apply)
  then have "once_inv s'" by (intro once_keep [OF once]) (simp_all add: refused(2))
  ultimately show ?thesis using lease_answer [OF inv refused(3), of s' "Some e"] refused(2) by simp
next
  case (mark r row a rows lu)
  have t: "tbl_keyed oe_id (rows_of s)" using all by (simp add: outbox_inv_def)
  note keep = lease_mark [OF t inv mark(3), of c]
  have live: "live s' i \<longleftrightarrow> live s i \<and> (i = oe_id row \<longrightarrow> a \<noteq> None)" for i
    using conjunct2 [OF keep] by (simp add: mark(2))
  have "accepted_row (os_relays s' x) = Some y" if "accepted_row (os_relays s x) = Some y" "live s' (oe_id y)" for x y
    using that mark(3) live [of "oe_id y"] by (cases "x = r"; cases a) (auto simp: mark(2))
  then have "once_inv s'" by (intro once_keep [OF once]) (simp_all add: live, simp add: mark(2))
  with keep mark(2) show ?thesis by blast
next
  case (stop r)
  have nm: "\<not> marking (os_relays s r)" using p stop(1) by simp
  have "lease_inv s'"
    using lease_invD [OF inv] by (intro lease_invI) (auto simp: stop(2) split: if_splits)
  moreover have "accepted_row (os_relays s' x) = Some y" if "accepted_row (os_relays s x) = Some y" for x y
    using that nm accepted_marking [OF that] by (auto simp: stop(2))
  then have "once_inv s'" by (intro once_keep [OF once]) (simp_all add: stop(2))
  ultimately show ?thesis by blast
next
  case (purge older_than limit n t)
  have t: "tbl_keyed oe_id (rows_of s)" using all by (simp add: outbox_inv_def)
  note keep = lease_purge [OF t inv purge(3)]
  have "once_inv s'" using keep by (intro once_keep [OF once]) (simp_all add: purge(2))
  with keep purge(2) show ?thesis by blast
qed

lemma punctual_inv:
  assumes "punctual_run c (empty_outbox now) ls s" "distinct (map oe_id (enqueued ls))"
  shows "lease_inv s \<and> once_inv s"
  using assms
proof (induction rule: punctual_run.induct)
  case start
  then show ?case by (auto simp: lease_inv_def once_inv_def empty_outbox_def holds_def sent_ids_def)
next
  case (step ls s l s')
  from step.prems have d: "distinct (map oe_id (enqueued ls))" by (simp add: enqueued_append)
  have "outbox_inv ls s" by (rule run_inv [OF punctual_run_run [OF step.hyps(1)] d])
  with step.IH [OF d] once_step step.hyps(2,3) step.prems show ?case by blast
qed


section \<open>One round is a run\<close>

definition reaches :: "event_outbox_config \<Rightarrow> outbox_system \<Rightarrow> outbox_system \<Rightarrow> bool" where
  "reaches c s0 s \<longleftrightarrow> (\<exists>ls. outbox_run c s0 ls s \<and> enqueued ls = [])"

lemma reaches_refl: "reaches c s s"
  unfolding reaches_def by (intro exI [of _ "[]"]) (simp add: outbox_run.start)

lemma reaches_step: "reaches c s0 s \<Longrightarrow> outbox_step c s l s' \<Longrightarrow> enqueued [l] = [] \<Longrightarrow> reaches c s0 s'"
  unfolding reaches_def using enqueued_append by (metis append_self_conv2 outbox_run.step)

lemma call_outcome:
  "outbox_call fault f w = (r, w') \<Longrightarrow>
     (\<exists>e. fault = Some e \<and> r = Inl e \<and> w' = w) \<or> (fault = None \<and> (\<exists>x t. f (ob_rows w) = (x, t) \<and> r = Inr x \<and> w' = w\<lparr>ob_rows := t\<rparr>))"
  by (auto simp: outbox_call_def split: option.splits prod.splits)

text \<open>What a relay with its rows reaches, the world apart.\<close>

definition round_state :: "outbox_system \<Rightarrow> nat \<Rightarrow> outbox_world \<Rightarrow> time \<Rightarrow> outbox_system \<Rightarrow> bool" where
  "round_state s0 x w t s \<longleftrightarrow> os_world s = w \<and> os_now s \<le> t \<and> (\<forall>y. y \<noteq> x \<longrightarrow> os_relays s y = os_relays s0 y)"

lemma rows_reach:
  assumes clock: "\<And>k. rl_clock env k \<le> rl_clock env (Suc k)"
    and run: "relay_rows env c k rows stats w = (r, w')"
    and s: "reaches c s0 s" "round_state s0 x w (rl_clock env k) s" "os_relays s x = RelayWorking rows l"
  shows "\<exists>s'. reaches c s0 s' \<and> round_state s0 x w' (rl_clock env (k + length rows)) s'"
  using run s
proof (induction rows arbitrary: k stats w s)
  case Nil
  then show ?case by auto
next
  case (Cons row rows)
  let ?t = "rl_clock env k"
  define a where "a = rl_broker env k"
  define w1 where "w1 = (case a of None \<Rightarrow> w\<lparr>ob_sent := ob_sent w @ [message_of row]\<rparr> | Some e \<Rightarrow> w)"
  define s1 where "s1 = with_relay x (RelayMarking row a rows l) (s\<lparr>os_now := ?t, os_world := w1\<rparr>)"
  have w: "os_world s = w" "os_now s \<le> ?t" "\<And>y. y \<noteq> x \<Longrightarrow> os_relays s y = os_relays s0 y"
    using Cons.prems(3) by (auto simp: round_state_def)
  have same: "s\<lparr>os_now := t, os_world := w\<rparr> = s\<lparr>os_now := t\<rparr>" for t using w(1) by (cases s) simp
  have "reaches c s0 (s\<lparr>os_now := ?t\<rparr>)" by (rule reaches_step [OF Cons.prems(2) outbox_step.wait [OF w(2)]]) simp
  moreover have "outbox_step c (s\<lparr>os_now := ?t\<rparr>) (Answered x row a) s1"
    using outbox_step.accepted [of "s\<lparr>os_now := ?t\<rparr>" x row rows l c] outbox_step.refused [of "s\<lparr>os_now := ?t\<rparr>" x row rows l c]
    by (cases a) (simp_all add: Cons.prems(4) s1_def w1_def same w(1) with_relay_def)
  ultimately have s1: "reaches c s0 s1" by (rule reaches_step) simp
  have mono: "?t \<le> rl_clock env (Suc k + n)" for n by (induction n) (use clock order_trans in force)+
  from Cons.prems(1) have body: "op_bind (outbox_call (rl_fault env (Suc k)) (\<lambda>t. ((), mark_row c ?t row a t)))
      (\<lambda>_. relay_rows env c (Suc k) rows (case a of None \<Rightarrow> stats\<lparr>rs_published := rs_published stats + 1\<rparr>
         | Some e \<Rightarrow> stats\<lparr>rs_failed := rs_failed stats + 1\<rparr>)) w1 = (r, w')"
    by (cases "rl_broker env k") (simp_all add: a_def w1_def mark_row_def)
  show ?case
  proof (cases "rl_fault env (Suc k)")
    case (Some e)
    with body have "w' = w1" by (simp add: op_bind_def outbox_call_def)
    with s1 w mono show ?thesis by (intro exI [of _ s1]) (auto simp: s1_def round_state_def)
  next
    case None
    define s2 where "s2 = with_relay x (RelayWorking rows l) (with_rows (mark_row c ?t row a (rows_of s1)) s1)"
    have "outbox_step c s1 (Marked x row) s2"
      using outbox_step.mark [of s1 x row a rows l c] by (simp add: s1_def s2_def)
    with s1 have s2: "reaches c s0 s2" by (rule reaches_step) simp
    from None body have "relay_rows env c (Suc k) rows (case a of None \<Rightarrow> stats\<lparr>rs_published := rs_published stats + 1\<rparr>
         | Some e \<Rightarrow> stats\<lparr>rs_failed := rs_failed stats + 1\<rparr>) (w1\<lparr>ob_rows := mark_row c ?t row a (ob_rows w1)\<rparr>) = (r, w')"
      by (simp add: op_bind_def outbox_call_def)
    from Cons.IH [OF this s2] w clock [of k] show ?thesis
      by (simp add: s1_def s2_def round_state_def with_rows_def)
  qed
qed

lemma relay_once_tail:
  assumes clock: "\<And>k. rl_clock env k \<le> rl_clock env (Suc k)"
    and run: "op_bind (if 0 < eo_published_retention_hours c
                 then op_bind (outbox_call f1 (purge_published_outbox older limit)) (\<lambda>purged. op_return (stats\<lparr>rs_purged := purged\<rparr>))
                 else op_return stats) (\<lambda>stats.
        op_bind (outbox_call f2 (\<lambda>t. (count_pending_outbox t, t))) (\<lambda>_.
        op_bind (outbox_call f3 (\<lambda>t. (age t, t))) (\<lambda>_. op_return stats))) w = (r, w')"
    and s: "reaches c s0 s" "round_state s0 x w t s"
  shows "\<exists>s'. reaches c s0 s' \<and> round_state s0 x w' t s'"
proof -
  have w: "os_world s = w" using s(2) by (simp add: round_state_def)
  consider "w' = w" | n tt where "purge_published_outbox older limit (ob_rows w) = (n, tt)" "w' = w\<lparr>ob_rows := tt\<rparr>"
    using run by (cases "purge_published_outbox older limit (ob_rows w)")
      (auto simp: op_bind_def outbox_call_def split: option.splits if_splits)
  then show ?thesis
  proof cases
    case 1
    with s show ?thesis by blast
  next
    case (2 n tt)
    then have "outbox_step c s Purged (with_rows tt s)" using w outbox_step.purge by simp
    from reaches_step [OF s(1) this] s(2) 2 show ?thesis
      by (intro exI [of _ "with_rows tt s"]) (simp add: round_state_def with_rows_def)
  qed
qed

lemma relay_once_reach:
  assumes run: "relay_once env c w = (r, w')" and order: "\<And>xs. mset (rl_order env xs) = mset xs"
    and clock: "rl_now env \<le> rl_clock env 0" "\<And>k. rl_clock env k \<le> rl_clock env (Suc k)"
    and s: "os_world s = w" "os_relays s x = RelayIdle" "os_now s \<le> rl_now env"
  shows "\<exists>s'. reaches c s s' \<and> os_world s' = w' \<and> (\<forall>y. y \<noteq> x \<longrightarrow> os_relays s' y = os_relays s y)"
proof (cases "rl_fault env 0")
  case (Some e)
  with run have "w' = w" by (simp add: relay_once_def op_bind_def outbox_call_def)
  with s reaches_refl show ?thesis by auto
next
  case None
  let ?l = "rl_now env + as_i64 (eo_lease_ms c)" and ?s = "s\<lparr>os_now := rl_now env\<rparr>"
  obtain claimed t where cl: "claim_pending_outbox (rl_order env) (eo_batch_size c) (rl_now env) ?l (ob_rows w) = (claimed, t)"
    by (cases "claim_pending_outbox (rl_order env) (eo_batch_size c) (rl_now env) ?l (ob_rows w)")
  define s1 where "s1 = with_relay x (RelayWorking claimed ?l) (with_rows t ?s)"
  have "reaches c s ?s" by (rule reaches_step [OF reaches_refl outbox_step.wait [OF s(3)]]) simp
  moreover have "outbox_step c ?s (Claimed x) s1"
    unfolding s1_def by (rule outbox_step.claim [where order = "rl_order env"]) (use s cl order in simp_all)
  ultimately have s1: "reaches c s s1" by (rule reaches_step) simp
  let ?w1 = "w\<lparr>ob_rows := t\<rparr>" and ?n = "length claimed"
  let ?st = "\<lparr>rs_claimed = ?n, rs_published = 0, rs_failed = 0, rs_purged = 0\<rparr>"
  have round1: "round_state s x ?w1 (rl_clock env 0) s1" using s clock(1) by (simp add: round_state_def s1_def with_rows_def)
  obtain r2 w2 where rows: "relay_rows env c 0 claimed ?st ?w1 = (r2, w2)" by (cases "relay_rows env c 0 claimed ?st ?w1")
  have "os_relays s1 x = RelayWorking claimed ?l" by (simp add: s1_def)
  from rows_reach [OF clock(2) rows s1 round1 this] obtain s2 where s2: "reaches c s s2" "round_state s x w2 (rl_clock env ?n) s2"
    by auto
  have "\<exists>s3. reaches c s s3 \<and> round_state s x w' (rl_clock env ?n) s3"
  proof (cases r2)
    case (Inl e)
    with run None cl rows have "w' = w2" by (simp add: relay_once_def op_bind_def outbox_call_def Let_def)
    with s2 show ?thesis by blast
  next
    case (Inr stats)
    with run None cl rows show ?thesis
      by (intro relay_once_tail [OF clock(2) _ s2]) (simp add: relay_once_def op_bind_def [of "outbox_call _ _"] op_bind_def [of "relay_rows _ _ _ _ _"]
          outbox_call_def [of None] Let_def)
  qed
  then show ?thesis by (auto simp: round_state_def)
qed

text \<open>
  C13: One round of the relay, with whatever failures of the store and answers of the broker, is a run of the steps of the
  concurrent system in which no other relay moves: so what holds of every run, such as that no event is lost, holds of
  any sequence of rounds, also of one that a failing call to the store cuts short.
\<close>

theorem relay_once_refines:
  assumes "relay_once env c w = (r, w')" "\<And>xs. mset (rl_order env xs) = mset xs"
    and "rl_now env \<le> rl_clock env 0" "\<And>k. rl_clock env k \<le> rl_clock env (Suc k)"
    and "os_world s = w" "os_relays s x = RelayIdle" "os_now s \<le> rl_now env"
  shows "\<exists>ls s'. outbox_run c s ls s' \<and> enqueued ls = [] \<and> os_world s' = w' \<and> os_relays s' = os_relays s"
proof -
  from relay_once_reach [OF assms] obtain s1 where s1: "reaches c s s1" "os_world s1 = w'"
    "\<And>y. y \<noteq> x \<Longrightarrow> os_relays s1 y = os_relays s y" by blast
  let ?s2 = "with_relay x RelayIdle s1"
  have "reaches c s ?s2" by (rule reaches_step [OF s1(1) outbox_step.stop]) simp
  moreover have "os_relays ?s2 = os_relays s" using s1(3) assms(6) by (auto simp: fun_eq_iff)
  moreover from calculation(1) obtain ls where "outbox_run c s ls ?s2" "enqueued ls = []" unfolding reaches_def by blast
  ultimately show ?thesis using s1(2) by (intro exI [of _ ls] exI [of _ ?s2]) simp
qed

section \<open>The table drains\<close>

text \<open>A round whose broker and store answer.\<close>

definition good_round :: "relay_env \<Rightarrow> bool" where
  "good_round env \<longleftrightarrow> (\<forall>k. rl_broker env k = None \<and> rl_fault env k = None) \<and> (\<forall>xs. mset (rl_order env xs) = mset xs)"

definition pending_ids :: "outbox \<Rightarrow> uuid set" where
  "pending_ids t = {i. \<exists>row. tbl_get t i = Some row \<and> is_pending row}"

lemma count_pending: "tbl_keyed oe_id t \<Longrightarrow> count_pending_outbox t = card (pending_ids t)"
proof -
  assume t: "tbl_keyed oe_id t"
  have "distinct (map oe_id (tbl_select is_pending t))"
    by (rule distinct_tbl_select_key) (use t in \<open>auto simp: tbl_keyedD\<close>)
  then have "count_pending_outbox t = card (set (map oe_id (tbl_select is_pending t)))"
    unfolding count_pending_outbox_def by (metis distinct_card length_map)
  also have "set (map oe_id (tbl_select is_pending t)) = pending_ids t"
    using t by (force simp: pending_ids_def mem_tbl_select tbl_keyedD image_iff)
  finally show ?thesis .
qed

lemma good_rows:
  assumes env: "good_round env" and t: "tbl_keyed oe_id (ob_rows w)"
  shows "\<exists>w' st. relay_rows env c k rows stats w = (Inr st, w') \<and> rs_published st = rs_published stats + length rows \<and>
    rs_claimed st = rs_claimed stats \<and> rs_failed st = rs_failed stats \<and>
    tbl_keyed oe_id (ob_rows w') \<and> ob_sent w' = ob_sent w @ map message_of rows \<and>
    pending_ids (ob_rows w') = pending_ids (ob_rows w) - oe_id ` set rows \<and>
    (\<forall>i row. tbl_get (ob_rows w') i = Some row \<longrightarrow> is_pending row \<longrightarrow> tbl_get (ob_rows w) i = Some row)"
  using t
proof (induction rows arbitrary: k stats w)
  case Nil
  then show ?case by simp
next
  case (Cons row rows)
  let ?t = "mark_outbox_published (oe_id row) (rl_clock env k) (ob_rows w)"
  let ?w = "w\<lparr>ob_sent := ob_sent w @ [message_of row], ob_rows := ?t\<rparr>"
  have keyed: "tbl_keyed oe_id ?t" using keyed_mark_row [OF Cons.prems, of c "rl_clock env k" row None] by (simp add: mark_row_def)
  have get: "tbl_get ?t i = (if i = oe_id row then map_option (\<lambda>ev. if is_pending ev then marked c (rl_clock env k) row None ev else ev) (tbl_get (ob_rows w) i)
      else tbl_get (ob_rows w) i)" for i
    using get_mark_row [OF Cons.prems, of c "rl_clock env k" row None] by (simp add: mark_row_def)
  have self: "z = marked c (rl_clock env k) row None z \<Longrightarrow> \<not> is_pending z" for z by (metis marked_simps(3))
  have pend: "pending_ids ?t = pending_ids (ob_rows w) - {oe_id row}"
    "tbl_get ?t i = Some x \<Longrightarrow> is_pending x \<Longrightarrow> tbl_get (ob_rows w) i = Some x" for i x
    by (auto simp: pending_ids_def get split: if_splits dest: self)
  have "relay_rows env c k (row # rows) stats w = relay_rows env c (Suc k) rows (stats\<lparr>rs_published := rs_published stats + 1\<rparr>) ?w"
    using env by (simp add: good_round_def op_bind_def outbox_call_def)
  with Cons.IH [of ?w "Suc k" "stats\<lparr>rs_published := rs_published stats + 1\<rparr>"] keyed pend show ?case by auto
qed

definition message_at :: "outbox \<Rightarrow> uuid \<Rightarrow> outbox_message" where
  "message_at t i = message_of (the (tbl_get t i))"

text \<open>From one table to a later one: rows have left the pending ones by being sent, each once, and no other changed.\<close>

definition drained :: "outbox_world \<Rightarrow> outbox_world \<Rightarrow> bool" where
  "drained w w' \<longleftrightarrow> tbl_keyed oe_id (ob_rows w') \<and> pending_ids (ob_rows w') \<subseteq> pending_ids (ob_rows w) \<and>
     mset (ob_sent w') = mset (ob_sent w) +
       image_mset (message_at (ob_rows w)) (mset_set (pending_ids (ob_rows w) - pending_ids (ob_rows w'))) \<and>
     (\<forall>i row. tbl_get (ob_rows w') i = Some row \<longrightarrow> is_pending row \<longrightarrow> tbl_get (ob_rows w) i = Some row)"

lemma finite_pending: "finite (pending_ids t)"
proof (rule finite_subset)
  show "pending_ids t \<subseteq> fst ` set t" by (force simp: pending_ids_def dest: tbl_get_set)
qed simp

lemma drained_trans:
  assumes a: "drained u v" and b: "drained v w"
  shows "drained u w"
proof -
  let ?p = "\<lambda>w. pending_ids (ob_rows w)"
  have sub: "?p w \<subseteq> ?p v" "?p v \<subseteq> ?p u" using a b by (auto simp: drained_def)
  have same: "message_at (ob_rows v) i = message_at (ob_rows u) i" if "i \<in> ?p v - ?p w" for i
    using that a by (auto simp: message_at_def drained_def pending_ids_def)
  have "?p u - ?p w = (?p u - ?p v) \<union> (?p v - ?p w)" "(?p u - ?p v) \<inter> (?p v - ?p w) = {}" using sub by auto
  then have "mset_set (?p u - ?p w) = mset_set (?p u - ?p v) + mset_set (?p v - ?p w)"
    by (simp add: mset_set_Union finite_pending)
  moreover have "image_mset (message_at (ob_rows v)) (mset_set (?p v - ?p w)) = image_mset (message_at (ob_rows u)) (mset_set (?p v - ?p w))"
    by (rule image_mset_cong) (use same finite_pending in simp)
  ultimately have "mset (ob_sent w) = mset (ob_sent u) + image_mset (message_at (ob_rows u)) (mset_set (?p u - ?p w))"
    using a b by (simp add: drained_def add.assoc)
  then show ?thesis using a b sub unfolding drained_def by blast
qed

lemma card_picked:
  assumes t: "tbl_keyed oe_id t" and due: "\<And>i row. tbl_get t i = Some row \<Longrightarrow> is_pending row \<Longrightarrow> outbox_due now row"
  shows "oe_id ` set (picked_outbox limit now t) \<subseteq> pending_ids t \<and>
    card (oe_id ` set (picked_outbox limit now t)) = min (clamp_outbox_limit limit) (card (pending_ids t))"
proof -
  have "oe_id ` set (picked_outbox limit now t) \<subseteq> pending_ids t"
    using picked_in [OF t] by (fastforce simp: pending_ids_def outbox_due_def)
  moreover have "tbl_select (outbox_due now) t = tbl_select is_pending t"
    unfolding tbl_select_def by (rule filter_cong [OF refl])
      (use t due in \<open>auto simp: outbox_due_def tbl_get_iff [OF tbl_keyedD(1) [OF t], symmetric]\<close>)
  then have "length (picked_outbox limit now t) = min (clamp_outbox_limit limit) (card (pending_ids t))"
    using count_pending [OF t] by (simp add: picked_outbox_def count_pending_outbox_def min.commute)
  ultimately show ?thesis using picked_distinct [OF t, of limit now] by (metis distinct_card length_map list.set_map)
qed

lemma pending_messages:
  assumes t: "tbl_keyed oe_id t"
  shows "mset (map message_of (tbl_select is_pending t)) = image_mset (message_at t) (mset_set (pending_ids t))"
proof -
  let ?p = "tbl_select is_pending t"
  have d: "distinct (map oe_id ?p)"
    by (rule distinct_tbl_select_key) (use t in \<open>auto simp: tbl_keyedD\<close>)
  have "set (map oe_id ?p) = pending_ids t"
    using t by (force simp: pending_ids_def mem_tbl_select tbl_keyedD image_iff)
  then have "mset_set (pending_ids t) = mset (map oe_id ?p)" using mset_set_set [OF d] by simp
  moreover have "image_mset message_of (mset ?p) = image_mset (message_at t \<circ> oe_id) (mset ?p)"
    by (rule image_mset_cong) (use mem_tbl_select [OF t] in \<open>simp add: message_at_def\<close>)
  ultimately show ?thesis by (simp add: image_mset.compositionality)
qed

lemma pending_purged:
  assumes t: "tbl_keyed oe_id t" and run: "purge_published_outbox older_than limit t = (n, t')"
  shows "pending_ids t' = pending_ids t"
proof -
  have "(\<exists>row. tbl_get t' i = Some row \<and> is_pending row) \<longleftrightarrow> (\<exists>row. tbl_get t i = Some row \<and> is_pending row)" for i
    using purge_outcome [OF t run] by (metis option.distinct(1) option.inject)
  then show ?thesis by (simp add: pending_ids_def)
qed

lemma good_once:
  assumes env: "good_round env" and t: "tbl_keyed oe_id (ob_rows w)"
    and due: "\<And>i row. tbl_get (ob_rows w) i = Some row \<Longrightarrow> is_pending row \<Longrightarrow> outbox_due (rl_now env) row"
  shows "drained w (snd (relay_once env c w)) \<and> card (pending_ids (ob_rows (snd (relay_once env c w)))) =
    card (pending_ids (ob_rows w)) - clamp_outbox_limit (eo_batch_size c)"
proof -
  let ?p = "picked_outbox (eo_batch_size c) (rl_now env) (ob_rows w)" and ?l = "rl_now env + as_i64 (eo_lease_ms c)"
  have order: "mset (rl_order env xs) = mset xs" for xs using env by (simp add: good_round_def)
  obtain claimed t1 where cl: "claim_pending_outbox (rl_order env) (eo_batch_size c) (rl_now env) ?l (ob_rows w) = (claimed, t1)"
    by (cases "claim_pending_outbox (rl_order env) (eo_batch_size c) (rl_now env) ?l (ob_rows w)")
  note out = claim_outcome [OF t cl order]
  let ?w1 = "w\<lparr>ob_rows := t1\<rparr>"
  let ?st = "\<lparr>rs_claimed = length claimed, rs_published = 0, rs_failed = 0, rs_purged = 0\<rparr>"
  have claimed: "mset claimed = mset (map (lease ?l) ?p)" using cl order by (auto simp: claim_pending_outbox_def Let_def)
  have ids: "oe_id ` set claimed = oe_id ` set ?p" using mset_eq_setD [OF claimed] by (simp add: image_image)
  have "tbl_keyed oe_id (ob_rows ?w1)" using out by simp
  from good_rows [OF env this, of c 0 claimed ?st] obtain w2 st where rows: "relay_rows env c 0 claimed ?st ?w1 = (Inr st, w2)" "tbl_keyed oe_id (ob_rows w2)"
    "ob_sent w2 = ob_sent w @ map message_of claimed" "pending_ids (ob_rows w2) = pending_ids t1 - oe_id ` set claimed"
    "\<forall>i row. tbl_get (ob_rows w2) i = Some row \<longrightarrow> is_pending row \<longrightarrow> tbl_get t1 i = Some row"
    by auto
  have "(\<exists>row. tbl_get t1 i = Some row \<and> is_pending row) \<longleftrightarrow> (\<exists>row. tbl_get (ob_rows w) i = Some row \<and> is_pending row)" for i
    using out by auto
  then have pend1: "pending_ids t1 = pending_ids (ob_rows w)" by (simp add: pending_ids_def)
  obtain k t3 where purge: "purge_published_outbox (rl_clock env (length claimed) - int (eo_published_retention_hours c) * 3600000)
      (eo_batch_size c) (ob_rows w2) = (k, t3)"
    by (cases "purge_published_outbox (rl_clock env (length claimed) - int (eo_published_retention_hours c) * 3600000)
      (eo_batch_size c) (ob_rows w2)")
  define w3 where "w3 = (if 0 < eo_published_retention_hours c then w2\<lparr>ob_rows := t3\<rparr> else w2)"
  have once: "snd (relay_once env c w) = w3"
    using env cl rows(1) purge
    by (simp add: relay_once_def good_round_def op_bind_def outbox_call_def Let_def w3_def)
  note pout = purge_outcome [OF rows(2) purge]
  have w3: "tbl_keyed oe_id (ob_rows w3)" "ob_sent w3 = ob_sent w2" "pending_ids (ob_rows w3) = pending_ids (ob_rows w2)"
    using pout rows(2) pending_purged [OF rows(2) purge] by (simp_all add: w3_def)
  have sub3: "tbl_get (ob_rows w3) i = Some row \<Longrightarrow> tbl_get (ob_rows w2) i = Some row" for i row
    using pout unfolding w3_def by (auto split: if_splits) (metis option.distinct(1))
  have picked: "oe_id ` set ?p \<subseteq> pending_ids (ob_rows w)" "card (oe_id ` set ?p) = min (clamp_outbox_limit (eo_batch_size c)) (card (pending_ids (ob_rows w)))"
    using card_picked [OF t, of "rl_now env" "eo_batch_size c"] due by blast+
  have diff: "pending_ids (ob_rows w) - pending_ids (ob_rows w3) = oe_id ` set ?p"
    using picked(1) w3(3) rows(4) pend1 ids by auto
  have "mset (map message_of claimed) = image_mset message_of (mset claimed)" by simp
  also have "\<dots> = image_mset message_of (mset ?p)" unfolding claimed by (simp add: image_mset.compositionality comp_def)
  also have "\<dots> = image_mset (message_at (ob_rows w) \<circ> oe_id) (mset ?p)"
    by (rule image_mset_cong) (use picked_in [OF t] in \<open>simp add: message_at_def\<close>)
  also have "\<dots> = image_mset (message_at (ob_rows w)) (mset (map oe_id ?p))" by (simp add: image_mset.compositionality)
  also have "mset (map oe_id ?p) = mset_set (oe_id ` set ?p)" using mset_set_set [OF picked_distinct [OF t]] by (metis list.set_map)
  finally have sent: "mset (ob_sent w3) = mset (ob_sent w) +
      image_mset (message_at (ob_rows w)) (mset_set (pending_ids (ob_rows w) - pending_ids (ob_rows w3)))"
    by (simp add: w3(2) rows(3) diff)
  have keep: "tbl_get (ob_rows w) i = Some row" if "tbl_get (ob_rows w3) i = Some row" "is_pending row" for i row
  proof -
    have "tbl_get (ob_rows w2) i = Some row" by (rule sub3 [OF that(1)])
    moreover from this that(2) have "i \<in> pending_ids (ob_rows w2)" by (auto simp: pending_ids_def)
    ultimately have "tbl_get t1 i = Some row" "i \<notin> oe_id ` set claimed" using rows(4,5) that(2) by auto
    with out show ?thesis by (metis (no_types, lifting))
  qed
  have "drained w w3" unfolding drained_def using w3(1) sent keep diff w3(3) rows(4) pend1 by blast
  moreover have "card (pending_ids (ob_rows w3)) = card (pending_ids (ob_rows w)) - card (oe_id ` set ?p)"
    using picked(1) finite_pending diff w3(3) rows(4) pend1 ids by (metis card_Diff_subset finite_subset)
  ultimately show ?thesis unfolding once picked(2) by simp
qed

fun relay_rounds :: "(nat \<Rightarrow> relay_env) \<Rightarrow> event_outbox_config \<Rightarrow> nat \<Rightarrow> outbox_world \<Rightarrow> outbox_world" where
  "relay_rounds envs c 0 w = w"
| "relay_rounds envs c (Suc n) w = snd (relay_once (envs n) c (relay_rounds envs c n w))"

text \<open>
  C14: With a broker and a store that answer, the table drains at the rate of the batch: every round sends as many of the
  due events as the batch allows, and after enough rounds each event that was pending has been sent exactly once, none is
  left pending, and nothing else was sent.
\<close>

theorem outbox_drains:
  assumes "tbl_keyed oe_id (ob_rows w)" "\<And>k. good_round (envs k)"
    and "\<And>k i row. tbl_get (ob_rows w) i = Some row \<Longrightarrow> is_pending row \<Longrightarrow> outbox_due (rl_now (envs k)) row"
  shows "count_pending_outbox (ob_rows (relay_rounds envs c n w)) =
      count_pending_outbox (ob_rows w) - n * clamp_outbox_limit (eo_batch_size c) \<and>
    (count_pending_outbox (ob_rows w) \<le> n * clamp_outbox_limit (eo_batch_size c) \<longrightarrow>
      mset (ob_sent (relay_rounds envs c n w)) =
      mset (ob_sent w) + mset (map message_of (tbl_select is_pending (ob_rows w))))"
proof -
  let ?w = "\<lambda>n. relay_rounds envs c n w" and ?b = "clamp_outbox_limit (eo_batch_size c)"
  have main: "drained w (?w n) \<and> card (pending_ids (ob_rows (?w n))) = card (pending_ids (ob_rows w)) - n * ?b" for n
  proof (induction n)
    case 0
    then show ?case using assms(1) by (simp add: drained_def)
  next
    case (Suc n)
    have "outbox_due (rl_now (envs n)) row" if "tbl_get (ob_rows (?w n)) i = Some row" "is_pending row" for i row
    proof -
      have "tbl_get (ob_rows w) i = Some row" using that Suc unfolding drained_def by blast
      with assms(3) that(2) show ?thesis by blast
    qed
    moreover have "tbl_keyed oe_id (ob_rows (?w n))" using Suc by (simp add: drained_def)
    ultimately have "drained (?w n) (?w (Suc n)) \<and> card (pending_ids (ob_rows (?w (Suc n)))) = card (pending_ids (ob_rows (?w n))) - ?b"
      using good_once [OF assms(2), of "?w n" n c] by simp
    with Suc show ?case by (auto intro: drained_trans)
  qed
  have t: "tbl_keyed oe_id (ob_rows (?w n))" using main by (simp add: drained_def)
  have all: "mset (map message_of (tbl_select is_pending (ob_rows w))) =
      image_mset (message_at (ob_rows w)) (mset_set (pending_ids (ob_rows w)))"
    by (rule pending_messages [OF assms(1)])
  have "pending_ids (ob_rows (?w n)) = {}" if "count_pending_outbox (ob_rows w) \<le> n * ?b"
    using main [of n] that finite_pending [of "ob_rows (?w n)"] by (simp add: count_pending [OF assms(1)])
  then show ?thesis using main [of n] unfolding all by (simp add: count_pending [OF t] count_pending [OF assms(1)] drained_def)
qed

section \<open>A concrete run\<close>

definition sample_outbox_event :: "uuid \<Rightarrow> outbox_event" where
  "sample_outbox_event i = pending_event i 0 ''seed.created'' ''pk'' None JNull ''core-api''"

definition sample_relay :: "nat \<Rightarrow> relay_env" where
  "sample_relay n = \<lparr>rl_now = 10 + int n, rl_clock = (\<lambda>k. 20 + int k), rl_order = id, rl_broker = (\<lambda>_. None), rl_fault = (\<lambda>_. None)\<rparr>"

definition sample_rows :: outbox where
  "sample_rows = [(1, sample_outbox_event 1), (2, sample_outbox_event 2), (3, sample_outbox_event 3)]"

abbreviation "sample_outbox \<equiv> \<lparr>ob_rows = sample_rows, ob_sent = []\<rparr>"

definition small_batch :: event_outbox_config where
  "small_batch = default_event_outbox\<lparr>eo_batch_size := 2\<rparr>"

lemma sample_keyed: "tbl_keyed oe_id sample_rows"
  by (auto simp: sample_rows_def sample_outbox_event_def pending_event_def tbl_keyed_def tbl_ok_def)

lemma sample_get_row:
  "tbl_get sample_rows i = (if i \<in> {1, 2, 3} then Some (sample_outbox_event i) else None)"
  by (auto simp: sample_rows_def tbl_get_Cons)

theorem outbox_drains_witness:
  "mset (ob_sent (relay_rounds sample_relay small_batch 2 sample_outbox)) =
     mset (map (\<lambda>i. message_of (sample_outbox_event i)) [1, 2, 3])"
proof -
  have "outbox_due (rl_now (sample_relay k)) row" if "tbl_get sample_rows i = Some row" for k i row
    using that by (auto simp: sample_get_row sample_outbox_event_def pending_event_def outbox_due_def is_pending_def sample_relay_def
        split: if_splits)
  moreover have "good_round (sample_relay k)" for k by (simp add: good_round_def sample_relay_def)
  ultimately have "count_pending_outbox sample_rows \<le> 2 * clamp_outbox_limit (eo_batch_size small_batch) \<longrightarrow>
      mset (ob_sent (relay_rounds sample_relay small_batch 2 sample_outbox)) =
      mset (ob_sent sample_outbox) + mset (map message_of (tbl_select is_pending sample_rows))"
    using outbox_drains [of sample_outbox sample_relay small_batch 2] sample_keyed by auto
  moreover have "tbl_select is_pending sample_rows = map sample_outbox_event [1, 2, 3]"
    by (simp add: tbl_select_def sample_rows_def is_pending_def sample_outbox_event_def pending_event_def)
  moreover have "clamp_outbox_limit (eo_batch_size small_batch) = 2"
    by (simp add: clamp_outbox_limit_def clamp_nat_def OUTBOX_CLAIM_LIMIT_MAX_def small_batch_def)
  ultimately show ?thesis by (simp add: count_pending_outbox_def)
qed

text \<open>One event is enqueued, claimed, sent and marked.\<close>

definition sample_labels :: "outbox_label list" where
  "sample_labels = [Enqueued (sample_outbox_event 2), Claimed 0, Answered 0 (lease 30000 (sample_outbox_event 2)) None,
     Marked 0 (lease 30000 (sample_outbox_event 2))]"

lemma sample_punctual:
  "\<exists>s. punctual_run default_event_outbox (empty_outbox 0) sample_labels s \<and> sent_of s = [message_of (sample_outbox_event 2)]"
proof -
  let ?c = default_event_outbox and ?e = "sample_outbox_event 2"
  let ?row = "lease 30000 ?e"
  define s1 where "s1 = with_rows [(2, ?e)] (empty_outbox 0)"
  define s2 where "s2 = with_relay 0 (RelayWorking [?row] 30000) (with_rows [(2, ?row)] s1)"
  define s3 where "s3 = with_relay 0 (RelayMarking ?row None [] 30000) (s2\<lparr>os_world := (os_world s2)\<lparr>ob_sent := sent_of s2 @ [message_of ?row]\<rparr>\<rparr>)"
  define s4 where "s4 = with_relay 0 (RelayWorking [] 30000) (with_rows (mark_row ?c (os_now s3) ?row None (rows_of s3)) s3)"
  have id: "oe_id ?e = 2" "is_pending ?e" by (simp_all add: sample_outbox_event_def pending_event_def is_pending_def)
  have 1: "outbox_step ?c (empty_outbox 0) (Enqueued ?e) s1"
    unfolding s1_def by (rule outbox_step.enqueue [OF id(2)]) (simp add: enqueue_outbox_def empty_outbox_def id)
  have lease: "os_now s1 + as_i64 (eo_lease_ms ?c) = 30000"
    by (simp add: s1_def empty_outbox_def default_event_outbox_def as_i64_def)
  have "picked_outbox 50 0 [(2, ?e)] = [?e]"
    by (simp add: picked_outbox_def tbl_select_def clamp_outbox_limit_def clamp_nat_def OUTBOX_CLAIM_LIMIT_MAX_def outbox_due_def id)
      (simp add: sample_outbox_event_def pending_event_def)
  then have claim: "claim_pending_outbox id (eo_batch_size ?c) (os_now s1) 30000 (rows_of s1) = ([?row], [(2, ?row)])"
    by (simp add: claim_pending_outbox_def Let_def default_event_outbox_def s1_def empty_outbox_def tbl_upd_def id)
  have 2: "outbox_step ?c s1 (Claimed 0) s2"
    unfolding s2_def by (rule outbox_step.claim [where order = id, OF _ _ lease [symmetric] claim]) (simp_all add: s1_def empty_outbox_def)
  have 3: "outbox_step ?c s2 (Answered 0 ?row None) s3"
    unfolding s3_def by (rule outbox_step.accepted) (simp add: s2_def)
  have 4: "outbox_step ?c s3 (Marked 0 ?row) s4"
    unfolding s4_def by (rule outbox_step.mark) (simp add: s3_def)
  have now: "os_now s2 = 0" by (simp add: s2_def s1_def empty_outbox_def)
  have "punctual_run ?c (empty_outbox 0) ([] @ [Enqueued ?e]) s1" by (rule punctual_run.step [OF punctual_run.start 1]) simp
  then have "punctual_run ?c (empty_outbox 0) (([] @ [Enqueued ?e]) @ [Claimed 0]) s2" by (rule punctual_run.step [OF _ 2]) simp
  then have "punctual_run ?c (empty_outbox 0) ((([] @ [Enqueued ?e]) @ [Claimed 0]) @ [Answered 0 ?row None]) s3"
    by (rule punctual_run.step [OF _ 3]) (use now in \<open>simp add: s2_def\<close>)
  then have "punctual_run ?c (empty_outbox 0) (((([] @ [Enqueued ?e]) @ [Claimed 0]) @ [Answered 0 ?row None]) @ [Marked 0 ?row]) s4"
    by (rule punctual_run.step [OF _ 4]) simp
  moreover have "sent_of s4 = [message_of ?e]" by (simp add: s4_def s3_def s2_def s1_def empty_outbox_def)
  ultimately show ?thesis by (auto simp: sample_labels_def)
qed


theorem outbox_no_loss_witness:
  "\<exists>s. sent_of s = [message_of (sample_outbox_event 2)] \<and> (\<forall>m \<in> set (sent_of s). \<exists>ev \<in> {sample_outbox_event 2}. m = message_of ev)"
proof -
  from sample_punctual obtain s where s: "punctual_run default_event_outbox (empty_outbox 0) sample_labels s"
    "sent_of s = [message_of (sample_outbox_event 2)]" by blast
  from outbox_no_loss [OF punctual_run_run [OF s(1)]] s(2) show ?thesis by (auto simp: sample_labels_def)
qed

theorem relay_once_refines_witness:
  "\<exists>ls s'. outbox_run small_batch \<lparr>os_world = sample_outbox, os_relays = (\<lambda>_. RelayIdle), os_now = 0\<rparr> ls s' \<and> enqueued ls = [] \<and>
     os_world s' = snd (relay_once (sample_relay 0) small_batch sample_outbox)"
proof -
  let ?s = "\<lparr>os_world = sample_outbox, os_relays = (\<lambda>_. RelayIdle), os_now = 0\<rparr>"
  have "relay_once (sample_relay 0) small_batch sample_outbox =
      (fst (relay_once (sample_relay 0) small_batch sample_outbox), snd (relay_once (sample_relay 0) small_batch sample_outbox))" by simp
  from relay_once_refines [OF this, of ?s 0] show ?thesis by (auto simp: sample_relay_def)
qed

end
