(* ===== verification/Discovery.thy ===== *)
theory Discovery
  imports Quota Documents OutboxRelay Jobs
begin

text \<open>
  Discovery: the candidates of \<open>crates/core-model/src/candidate.rs\<close> and \<open>candidate_evidence.rs\<close>, the operations on
  them in \<open>crates/storage-postgres/src/store.rs\<close>, and the worker of \<open>crates/discovery-worker/src\<close>, which expands one
  entity along the graph and along its sources, writes each candidate together with its event, and closes its job. The
  graph, fresh identifiers, the clock and the transactions that fail are in the record \<open>discovery_env\<close>.
\<close>

section \<open>Candidates\<close>

datatype candidate_type =
    CandEntity | CandRelationship | CandAccount | CandChannel | CandSource | CandUrl | CandDomain | CandRepository
  | CandKeyword | CandTopic | CandSeed

datatype candidate_status = CandPending | CandApproved | CandAutoApproved | CandRejected | CandExpired

fun candidate_type_name :: "candidate_type \<Rightarrow> string" where
  "candidate_type_name CandEntity = ''entity''"
| "candidate_type_name CandRelationship = ''relationship''"
| "candidate_type_name CandAccount = ''account''"
| "candidate_type_name CandChannel = ''channel''"
| "candidate_type_name CandSource = ''source''"
| "candidate_type_name CandUrl = ''url''"
| "candidate_type_name CandDomain = ''domain''"
| "candidate_type_name CandRepository = ''repository''"
| "candidate_type_name CandKeyword = ''keyword''"
| "candidate_type_name CandTopic = ''topic''"
| "candidate_type_name CandSeed = ''seed''"

fun candidate_status_name :: "candidate_status \<Rightarrow> string" where
  "candidate_status_name CandPending = ''pending''"
| "candidate_status_name CandApproved = ''approved''"
| "candidate_status_name CandAutoApproved = ''auto_approved''"
| "candidate_status_name CandRejected = ''rejected''"
| "candidate_status_name CandExpired = ''expired''"

record candidate =
  ca_id :: uuid
  ca_type :: candidate_type
  ca_value :: string
  ca_normalized_value :: string
  ca_collection_id :: "uuid option"
  ca_discovered_by :: string
  ca_discovery_method :: string
  ca_confidence :: rat
  ca_score :: rat
  ca_status :: candidate_status
  ca_depth :: int
  ca_created_at :: time
  ca_reviewed_at :: "time option"

record candidate_evidence =
  ce_id :: uuid
  ce_candidate_id :: uuid
  ce_object_id :: "uuid option"
  ce_entity_id :: "uuid option"
  ce_relationship_id :: "uuid option"
  ce_raw_evidence_id :: "uuid option"
  ce_reason :: string
  ce_weight :: rat
  ce_created_at :: time

record discovery_store =
  dv_docs :: doc_store
  dv_usage :: usage_store
  dv_candidates :: "candidate tbl"
  dv_evidence :: "candidate_evidence tbl"
  dv_outbox :: outbox

text \<open>The partial unique index of migration 0018.\<close>

definition candidate_key :: "candidate \<Rightarrow> (uuid \<times> candidate_type \<times> string) option" where
  "candidate_key c = map_option (\<lambda>coll. (coll, ca_type c, ca_normalized_value c)) (ca_collection_id c)"

definition candidate_with_key :: "discovery_store \<Rightarrow> (uuid \<times> candidate_type \<times> string) option \<Rightarrow> candidate option" where
  "candidate_with_key s key =
     (if key = None then None else List.find (\<lambda>c. candidate_key c = key) (map snd (dv_candidates s)))"

definition get_candidate :: "discovery_store \<Rightarrow> uuid \<Rightarrow> candidate option" where
  "get_candidate s i = tbl_get (dv_candidates s) i"

definition put_candidate :: "candidate \<Rightarrow> discovery_store \<Rightarrow> storage_error + discovery_store" where
  "put_candidate c s =
     (if \<not> fk_opt (db_collection_keys (ds_db (dv_docs s))) (ca_collection_id c) then Inl ConstraintViolation
      else if (case candidate_with_key s (candidate_key c) of Some d \<Rightarrow> ca_id d \<noteq> ca_id c | None \<Rightarrow> False) then Inl Conflict
      else Inr (s\<lparr>dv_candidates := tbl_put (ca_id c) c (dv_candidates s)\<rparr>))"

definition list_candidates :: "discovery_store \<Rightarrow> candidate_status option \<Rightarrow> uuid option \<Rightarrow> nat \<Rightarrow> candidate list" where
  "list_candidates s st after limit =
     take (clamp_limit limit) (rev (tbl_select (\<lambda>c. (case after of None \<Rightarrow> True | Some a \<Rightarrow> ca_id c < a) \<and>
       (case st of None \<Rightarrow> True | Some x \<Rightarrow> ca_status c = x)) (dv_candidates s)))"

definition list_candidates_by_collection ::
  "discovery_store \<Rightarrow> uuid \<Rightarrow> candidate_status option \<Rightarrow> uuid option \<Rightarrow> nat \<Rightarrow> candidate list" where
  "list_candidates_by_collection s coll st after limit =
     take (clamp_limit limit) (rev (tbl_select (\<lambda>c. ca_collection_id c = Some coll \<and>
       (case st of None \<Rightarrow> True | Some x \<Rightarrow> ca_status c = x) \<and>
       (case after of None \<Rightarrow> True | Some a \<Rightarrow> ca_id c < a)) (dv_candidates s)))"

definition update_candidate_status :: "uuid \<Rightarrow> candidate_status \<Rightarrow> time \<Rightarrow> discovery_store \<Rightarrow> bool \<times> discovery_store" where
  "update_candidate_status i st now s =
     (case get_candidate s i of
        None \<Rightarrow> (False, s)
      | Some c \<Rightarrow>
          if ca_status c = st then (False, s)
          else (True, s\<lparr>dv_candidates := tbl_put i (c\<lparr>ca_status := st, ca_reviewed_at := Some now\<rparr>) (dv_candidates s)\<rparr>))"

definition put_candidate_evidence :: "candidate_evidence \<Rightarrow> discovery_store \<Rightarrow> storage_error + discovery_store" where
  "put_candidate_evidence ev s =
     (let d = ds_db (dv_docs s)
      in if get_candidate s (ce_candidate_id ev) = None \<or> \<not> fk_opt (map fst (db_entities d)) (ce_entity_id ev) \<or>
           \<not> fk_opt (map fst (db_relationships d)) (ce_relationship_id ev) \<or> \<not> fk_opt (db_raw_evidence_keys d) (ce_raw_evidence_id ev)
         then Inl ConstraintViolation
         else Inr (s\<lparr>dv_evidence := tbl_put (ce_id ev) ev (dv_evidence s)\<rparr>))"

definition get_candidate_evidence :: "discovery_store \<Rightarrow> uuid \<Rightarrow> candidate_evidence option" where
  "get_candidate_evidence s i = tbl_get (dv_evidence s) i"

definition list_candidate_evidence_by_candidate :: "discovery_store \<Rightarrow> uuid \<Rightarrow> nat \<Rightarrow> candidate_evidence list" where
  "list_candidate_evidence_by_candidate s i limit =
     take (clamp_limit limit) (rev (tbl_select (\<lambda>e. ce_candidate_id e = i) (dv_evidence s)))"

section \<open>Recording a discovery\<close>

record discovery_outcome =
  dy_candidate_id :: uuid
  dy_created :: bool
  dy_evidence_added :: bool

text \<open>
  The insert that does nothing on a conflict, and the row found by the natural key when it did nothing.
\<close>

definition insert_candidate :: "candidate \<Rightarrow> discovery_store \<Rightarrow> storage_error + (uuid \<times> bool) \<times> discovery_store" where
  "insert_candidate c s =
     (if ca_collection_id c = None then rbind (put_candidate c s) (\<lambda>s'. Inr ((ca_id c, True), s'))
      else if get_candidate s (ca_id c) = None \<and> candidate_with_key s (candidate_key c) = None
      then if fk_opt (db_collection_keys (ds_db (dv_docs s))) (ca_collection_id c)
           then Inr ((ca_id c, True), s\<lparr>dv_candidates := tbl_put (ca_id c) c (dv_candidates s)\<rparr>)
           else Inl ConstraintViolation
      else case candidate_with_key s (candidate_key c) of
             Some d \<Rightarrow> Inr ((ca_id d, False), s)
           | None \<Rightarrow> Inl Conflict)"

definition same_reason :: "candidate_evidence \<Rightarrow> candidate_evidence \<Rightarrow> bool" where
  "same_reason a b \<longleftrightarrow> ce_object_id a = ce_object_id b \<and> ce_entity_id a = ce_entity_id b \<and>
     ce_relationship_id a = ce_relationship_id b \<and> ce_raw_evidence_id a = ce_raw_evidence_id b \<and> ce_reason a = ce_reason b"

definition evidence_exists :: "discovery_store \<Rightarrow> uuid \<Rightarrow> candidate_evidence \<Rightarrow> bool" where
  "evidence_exists s i ev \<longleftrightarrow> (\<exists>e \<in> snd ` set (dv_evidence s). ce_candidate_id e = i \<and> same_reason e ev)"

definition record_candidate_discovery ::
  "candidate \<Rightarrow> candidate_evidence \<Rightarrow> discovery_store \<Rightarrow> storage_error + discovery_outcome \<times> discovery_store" where
  "record_candidate_discovery c ev s =
     rbind (insert_candidate c s) (\<lambda>((i, created), s1).
       if evidence_exists s1 i ev
       then Inr (\<lparr>dy_candidate_id = i, dy_created = created, dy_evidence_added = False\<rparr>, s1)
       else rbind (put_candidate_evidence (ev\<lparr>ce_candidate_id := i\<rparr>) s1) (\<lambda>s2.
            Inr (\<lparr>dy_candidate_id = i, dy_created = created, dy_evidence_added = True\<rparr>, s2)))"

section \<open>The payloads\<close>

definition partition_key :: "(uuid \<Rightarrow> string) \<Rightarrow> uuid option \<Rightarrow> uuid \<Rightarrow> string" where
  "partition_key show_uuid coll fallback = show_uuid (case coll of Some c \<Rightarrow> c | None \<Rightarrow> fallback)"

record discovery_env =
  di_show_uuid :: "uuid \<Rightarrow> string"
  di_lowercase :: "string \<Rightarrow> string"
  di_parse_uuid :: "string \<Rightarrow> uuid option"
  di_show_time :: "time \<Rightarrow> string"
  di_neighbors :: "uuid \<Rightarrow> string list \<Rightarrow> storage_error + (uuid \<times> string) list"
  di_today :: int
  di_now :: time
  di_candidate_id :: "nat \<Rightarrow> uuid"
  di_evidence_id :: "nat \<Rightarrow> uuid"
  di_event_id :: "nat \<Rightarrow> uuid"
  di_fault :: "nat \<Rightarrow> storage_error option"
  di_final_event_id :: uuid
  di_final_fault :: "storage_error option"

definition opt_json :: "('a \<Rightarrow> json) \<Rightarrow> 'a option \<Rightarrow> json" where
  "opt_json f x = (case x of Some v \<Rightarrow> f v | None \<Rightarrow> JNull)"

definition candidate_lifecycle :: "(uuid \<Rightarrow> string) \<Rightarrow> (time \<Rightarrow> string) \<Rightarrow> candidate \<Rightarrow> uuid \<Rightarrow> json" where
  "candidate_lifecycle show_uuid show_time c i = JObject
     [(''candidate_id'', JString (show_uuid i)),
      (''candidate_type'', JString (candidate_type_name (ca_type c))),
      (''collection_id'', opt_json (JString \<circ> show_uuid) (ca_collection_id c)),
      (''confidence'', JNumber (ca_confidence c)),
      (''created_at'', JString (show_time (ca_created_at c))),
      (''depth'', JNumber (of_int (ca_depth c))),
      (''discovered_by'', JString (ca_discovered_by c)),
      (''discovery_method'', JString (ca_discovery_method c)),
      (''normalized_value'', JString (ca_normalized_value c)),
      (''reviewed_at'', opt_json (JString \<circ> show_time) (ca_reviewed_at c)),
      (''score'', JNumber (ca_score c)),
      (''status'', JString (candidate_status_name (ca_status c))),
      (''value'', JString (ca_value c))]"

definition candidate_created_event :: "discovery_env \<Rightarrow> nat \<Rightarrow> candidate \<Rightarrow> uuid \<Rightarrow> outbox_event" where
  "candidate_created_event env k c i =
     pending_event (di_event_id env k) (di_now env) ''candidate.created'' (partition_key (di_show_uuid env) (ca_collection_id c) i)
       (Some i) (candidate_lifecycle (di_show_uuid env) (di_show_time env) c i) ''discovery-worker''"

section \<open>Expansion\<close>

definition DISCOVERY_METHOD_GRAPH_EXPANSION :: string where "DISCOVERY_METHOD_GRAPH_EXPANSION = ''graph_expansion''"
definition DISCOVERY_METHOD_SOURCE_EXPANSION :: string where "DISCOVERY_METHOD_SOURCE_EXPANSION = ''source_expansion''"
definition GRAPH_EXPANSION_SCORE :: rat where "GRAPH_EXPANSION_SCORE = 4 / 10"
definition SOURCE_EXPANSION_SCORE :: rat where "SOURCE_EXPANSION_SCORE = 4 / 10"
definition SOURCE_EXPANSION_QUERY_LIMIT :: nat where "SOURCE_EXPANSION_QUERY_LIMIT = 100"

definition GRAPH_EXPANSION_ENTITY_TYPES :: "string list" where
  "GRAPH_EXPANSION_ENTITY_TYPES = [''vulnerability'', ''repository'', ''software'', ''product'']"

text \<open>A 32-bit integer, as \<open>as i32\<close> and the arithmetic of a release build make it.\<close>

definition as_i32 :: "int \<Rightarrow> int" where
  "as_i32 n = sint (word_of_int n :: 32 word)"

definition depth_refused :: "int \<Rightarrow> int \<Rightarrow> bool" where
  "depth_refused depth max_depth \<longleftrightarrow> max_depth < as_i32 (depth + 1)"

definition found_candidate ::
  "discovery_env \<Rightarrow> nat \<Rightarrow> candidate_type \<Rightarrow> string \<Rightarrow> uuid option \<Rightarrow> uuid \<Rightarrow> string \<Rightarrow> rat \<Rightarrow> int \<Rightarrow> candidate" where
  "found_candidate env k ty name coll source discovery_method score depth =
     \<lparr>ca_id = di_candidate_id env k, ca_type = ty, ca_value = name, ca_normalized_value = di_lowercase env (trim name),
      ca_collection_id = coll, ca_discovered_by = ''entity:'' @ di_show_uuid env source, ca_discovery_method = discovery_method,
      ca_confidence = score, ca_score = score, ca_status = CandPending, ca_depth = depth, ca_created_at = di_now env,
      ca_reviewed_at = None\<rparr>"

definition found_evidence :: "discovery_env \<Rightarrow> nat \<Rightarrow> uuid \<Rightarrow> string \<Rightarrow> rat \<Rightarrow> candidate_evidence" where
  "found_evidence env k ent reason weight =
     \<lparr>ce_id = di_evidence_id env k, ce_candidate_id = di_candidate_id env k, ce_object_id = None, ce_entity_id = Some ent,
      ce_relationship_id = None, ce_raw_evidence_id = None, ce_reason = reason, ce_weight = weight, ce_created_at = di_now env\<rparr>"

text \<open>The reason names both ends; the sentence around them, which is Chinese in the code, is abridged.\<close>

definition graph_reason :: "discovery_env \<Rightarrow> entity \<Rightarrow> string" where
  "graph_reason env e = ''Entity '' @ e_name e @ '' ('' @ di_show_uuid env (e_id e) @ '') 1-hop graph neighbor''"

definition source_reason :: "entity \<Rightarrow> string \<Rightarrow> string" where
  "source_reason e name = ''Entity '' @ e_name e @ '' raw evidence Source '' @ name"

definition neighbour_pair ::
  "discovery_env \<Rightarrow> entity \<Rightarrow> uuid option \<Rightarrow> int \<Rightarrow> nat \<Rightarrow> uuid \<times> string \<Rightarrow> candidate \<times> candidate_evidence" where
  "neighbour_pair env e coll depth k n =
     (found_candidate env k CandEntity (snd n) coll (e_id e) DISCOVERY_METHOD_GRAPH_EXPANSION GRAPH_EXPANSION_SCORE depth,
      found_evidence env k (fst n) (graph_reason env e) GRAPH_EXPANSION_SCORE)"

definition graph_expansion ::
  "discovery_env \<Rightarrow> entity \<Rightarrow> uuid option \<Rightarrow> int \<Rightarrow> int \<Rightarrow> string list \<Rightarrow> storage_error + (candidate \<times> candidate_evidence) list" where
  "graph_expansion env e coll depth max_depth types =
     (if depth_refused depth max_depth then Inr []
      else rbind (di_neighbors env (e_id e) types) (\<lambda>nodes.
        Inr (map (\<lambda>(k, n). neighbour_pair env e coll (as_i32 (depth + 1)) k n)
               (enumerate 0 (filter (\<lambda>n. fst n \<noteq> e_id e) nodes)))))"

text \<open>The sources of the evidence behind the documents in which the entity was extracted.\<close>

definition list_sources_by_entity :: "doc_store \<Rightarrow> uuid \<Rightarrow> nat \<Rightarrow> uuid list" where
  "list_sources_by_entity ds ent limit =
     take (clamp_limit limit) (remdups (sort (map rv_source_id (concat (map (\<lambda>ee.
       List.map_filter (\<lambda>p. Option.bind (pv_raw_evidence_id p) (get_raw_evidence (ds_db ds)))
         (tbl_select (\<lambda>p. pv_subject_id p = ex_object_id ee \<and> pv_action p = ''derived_from'') (ds_provenance ds)))
       (tbl_select (\<lambda>ee. ex_entity_id ee = ent) (db_entity_extractions (ds_db ds))))))))"

section \<open>One run\<close>

datatype discovery_error =
    MissingParameters
  | BadEntityId
  | BadCollectionId
  | DiscoveryStorage storage_error
  | EntityMissing uuid
  | DepthReached int int
  | DailyBudgetUsed int int

record discovery_summary =
  sm_neighbours :: nat
  sm_sources :: nat
  sm_written :: nat
  sm_created :: nat

type_synonym 'a discovery_op = "(discovery_store, discovery_error, 'a) op"

text \<open>The candidate and its event in one transaction, which may fail as a whole.\<close>

definition write_candidate_with_outbox ::
  "discovery_env \<Rightarrow> nat \<Rightarrow> candidate \<times> candidate_evidence \<Rightarrow> discovery_outcome discovery_op" where
  "write_candidate_with_outbox env k p s =
     (case di_fault env k of
        Some e \<Rightarrow> (Inl (DiscoveryStorage e), s)
      | None \<Rightarrow>
          (case record_candidate_discovery (fst p) (snd p) s of
             Inl e \<Rightarrow> (Inl (DiscoveryStorage e), s)
           | Inr (outcome, s1) \<Rightarrow>
               if dy_created outcome
               then (case enqueue_outbox (candidate_created_event env k (fst p) (dy_candidate_id outcome)) (dv_outbox s1) of
                       Inl e \<Rightarrow> (Inl (DiscoveryStorage e), s)
                     | Inr t \<Rightarrow> (Inr outcome, s1\<lparr>dv_outbox := t\<rparr>))
               else (Inr outcome, s1)))"

text \<open>The number of candidates handled, and of those created.\<close>

fun write_pairs ::
  "discovery_env \<Rightarrow> nat \<Rightarrow> nat \<Rightarrow> (candidate \<times> candidate_evidence) list \<Rightarrow> nat \<times> nat \<Rightarrow> (nat \<times> nat) discovery_op" where
  "write_pairs env cap k [] counts s = (Inr counts, s)"
| "write_pairs env cap k (p # ps) counts s =
     (if cap \<le> fst counts then (Inr counts, s)
      else op_bind (write_candidate_with_outbox env k p) (\<lambda>outcome.
             write_pairs env cap (Suc k) ps (Suc (fst counts), if dy_created outcome then Suc (snd counts) else snd counts)) s)"

definition source_pair :: "discovery_env \<Rightarrow> entity \<Rightarrow> uuid option \<Rightarrow> int \<Rightarrow> nat \<Rightarrow> source \<Rightarrow> candidate \<times> candidate_evidence" where
  "source_pair env e coll depth k so =
     (found_candidate env k CandSource (so_name so) coll (e_id e) DISCOVERY_METHOD_SOURCE_EXPANSION SOURCE_EXPANSION_SCORE depth,
      found_evidence env k (e_id e) (source_reason e (so_name so)) SOURCE_EXPANSION_SCORE)"

definition source_pairs :: "discovery_env \<Rightarrow> doc_store \<Rightarrow> entity \<Rightarrow> uuid option \<Rightarrow> int \<Rightarrow> nat \<Rightarrow> uuid list \<Rightarrow> (candidate \<times> candidate_evidence) list" where
  "source_pairs env ds e coll depth k ids =
     map (\<lambda>(j, so). source_pair env e coll depth j so) (enumerate k (List.map_filter (get_source (ds_db ds)) ids))"

definition param_uuid :: "discovery_env \<Rightarrow> json \<Rightarrow> string \<Rightarrow> uuid option" where
  "param_uuid env params k = Option.bind (json_str (json_field params k)) (di_parse_uuid env)"

definition json_i64 :: "json option \<Rightarrow> int option" where
  "json_i64 v = (case v of
     Some (JNumber q) \<Rightarrow> if of_int \<lfloor>q\<rfloor> = q \<and> - (2 ^ 63) \<le> \<lfloor>q\<rfloor> \<and> \<lfloor>q\<rfloor> < 2 ^ 63 then Some \<lfloor>q\<rfloor> else None
   | _ \<Rightarrow> None)"

definition param_depth :: "json \<Rightarrow> int" where
  "param_depth params = as_i32 (case json_i64 (json_field params ''depth'') of Some d \<Rightarrow> d | None \<Rightarrow> 0)"

text \<open>\<open>as usize\<close> of a 32-bit integer.\<close>

definition as_usize :: "int \<Rightarrow> nat" where
  "as_usize n = (if 0 \<le> n then nat n else nat (2 ^ 64 + n))"

definition expand ::
  "discovery_env \<Rightarrow> entity \<Rightarrow> uuid \<Rightarrow> int \<Rightarrow> collection_budget \<Rightarrow> discovery_summary discovery_op" where
  "expand env e coll depth budget s =
     (case graph_expansion env e (Some coll) depth (cb_max_depth budget) GRAPH_EXPANSION_ENTITY_TYPES of
        Inl err \<Rightarrow> (Inl (DiscoveryStorage err), s)
      | Inr pairs \<Rightarrow>
          (let cap = as_usize (cb_max_candidates_per_run budget); n = length pairs
           in op_bind (write_pairs env cap 0 pairs (0, 0)) (\<lambda>counts.
              if fst counts < cap
              then (\<lambda>s. let ids = list_sources_by_entity (dv_docs s) (e_id e) SOURCE_EXPANSION_QUERY_LIMIT
                   in op_bind (write_pairs env cap n (source_pairs env (dv_docs s) e (Some coll) (as_i32 (depth + 1)) n ids) counts)
                     (\<lambda>counts'. op_return \<lparr>sm_neighbours = n, sm_sources = length ids, sm_written = fst counts', sm_created = snd counts'\<rparr>) s)
              else op_return \<lparr>sm_neighbours = n, sm_sources = 0, sm_written = fst counts, sm_created = snd counts\<rparr>) s))"

definition run_graph_expansion :: "discovery_env \<Rightarrow> json option \<Rightarrow> discovery_summary discovery_op" where
  "run_graph_expansion env parameters s =
     (case parameters of
        None \<Rightarrow> (Inl MissingParameters, s)
      | Some params \<Rightarrow>
     case param_uuid env params ''entity_id'' of
        None \<Rightarrow> (Inl BadEntityId, s)
      | Some ent \<Rightarrow>
     case param_uuid env params ''collection_id'' of
        None \<Rightarrow> (Inl BadCollectionId, s)
      | Some coll \<Rightarrow>
     case get_entity (ds_db (dv_docs s)) ent of
        None \<Rightarrow> (Inl (EntityMissing ent), s)
      | Some e \<Rightarrow>
     case get_collection_budget (dv_usage s) coll of
        Inl err \<Rightarrow> (Inl (DiscoveryStorage err), s)
      | Inr b \<Rightarrow>
          (let budget = (case b of Some x \<Rightarrow> x | None \<Rightarrow> conservative_default coll (di_now env)); depth = param_depth params
           in if depth_refused depth (cb_max_depth budget) then (Inl (DepthReached depth (cb_max_depth budget)), s)
              else case try_consume_daily_usage coll (di_today env) 1 (cb_daily_request_budget budget) RequestsUsed (dv_usage s) of
                     (Inl err, u) \<Rightarrow> (Inl (DiscoveryStorage err), s\<lparr>dv_usage := u\<rparr>)
                   | (Inr (allowed, used), u) \<Rightarrow>
                       if \<not> allowed then (Inl (DailyBudgetUsed used (cb_daily_request_budget budget)), s\<lparr>dv_usage := u\<rparr>)
                       else expand env e coll depth budget (s\<lparr>dv_usage := u\<rparr>)))"

section \<open>The job\<close>

definition JOB_TYPE_DISCOVERY_RUN :: string where "JOB_TYPE_DISCOVERY_RUN = ''discovery_run''"

fun job_status_name :: "job_status \<Rightarrow> string" where
  "job_status_name Queued = ''queued''"
| "job_status_name Running = ''running''"
| "job_status_name Completed = ''completed''"
| "job_status_name Failed = ''failed''"
| "job_status_name Retrying = ''retrying''"
| "job_status_name Cancelled = ''cancelled''"

text \<open>The payload of \<open>discovery.completed\<close>.\<close>

definition discovery_completed :: "discovery_env \<Rightarrow> job \<Rightarrow> json" where
  "discovery_completed env j =
     (let param = (\<lambda>k. Option.bind (j_parameters j) (\<lambda>p. param_uuid env p k))
      in JObject
       [(''collection_id'', opt_json (JString \<circ> di_show_uuid env) (param ''collection_id'')),
        (''completed_at'', JString (di_show_time env (case j_completed_at j of Some t \<Rightarrow> t | None \<Rightarrow> di_now env))),
        (''entity_id'', opt_json (JString \<circ> di_show_uuid env) (param ''entity_id'')),
        (''error'', opt_json JString (j_error j)),
        (''job_id'', JString (di_show_uuid env (j_id j))),
        (''status'', JString (job_status_name (j_status j)))])"

definition discovery_completed_event :: "discovery_env \<Rightarrow> job \<Rightarrow> outbox_event" where
  "discovery_completed_event env j =
     pending_event (di_final_event_id env) (di_now env) ''discovery.completed''
       (partition_key (di_show_uuid env) (Option.bind (j_parameters j) (\<lambda>p. param_uuid env p ''collection_id'')) (j_id j))
       (Some (j_id j)) (discovery_completed env j) ''discovery-worker''"

definition with_discovery_db :: "db \<Rightarrow> discovery_store \<Rightarrow> discovery_store" where
  "with_discovery_db d s = s\<lparr>dv_docs := (dv_docs s)\<lparr>ds_db := d\<rparr>\<rparr>"

definition persist_discovery_completed :: "discovery_env \<Rightarrow> job \<Rightarrow> discovery_store \<Rightarrow> storage_error + discovery_store" where
  "persist_discovery_completed env j s =
     (case di_final_fault env of
        Some e \<Rightarrow> Inl e
      | None \<Rightarrow>
          rbind (put_job j (ds_db (dv_docs s))) (\<lambda>d.
          rbind (enqueue_outbox (discovery_completed_event env j) (dv_outbox s)) (\<lambda>t.
          Inr ((with_discovery_db d s)\<lparr>dv_outbox := t\<rparr>))))"

text \<open>Every failure is only logged.\<close>

definition persist_discovery_terminal ::
  "discovery_env \<Rightarrow> uuid \<Rightarrow> job_status \<Rightarrow> string option \<Rightarrow> discovery_store \<Rightarrow> discovery_store" where
  "persist_discovery_terminal env i to error s =
     (case get_job (ds_db (dv_docs s)) i of
        None \<Rightarrow> s
      | Some j \<Rightarrow>
          (case apply_transition (di_now env) j to error of
             Inl e \<Rightarrow> s
           | Inr j' \<Rightarrow> (case persist_discovery_completed env j' s of Inl e \<Rightarrow> s | Inr s' \<Rightarrow> s')))"

definition handle_discovery_run ::
  "discovery_env \<Rightarrow> (discovery_error + discovery_summary \<Rightarrow> string) \<Rightarrow> uuid \<Rightarrow> discovery_store \<Rightarrow> discovery_store" where
  "handle_discovery_run env message i s =
     (case get_job (ds_db (dv_docs s)) i of
        None \<Rightarrow> s
      | Some j \<Rightarrow>
          (case job_transition (di_now env) i Running None \<lparr>js_store = ds_db (dv_docs s), js_published = []\<rparr> of
             (Inl e, _) \<Rightarrow> s
           | (Inr _, js) \<Rightarrow>
               (let (r, s2) = run_graph_expansion env (j_parameters j) (with_discovery_db (js_store js) s)
                in persist_discovery_terminal env i (case r of Inl e \<Rightarrow> Failed | Inr sm \<Rightarrow> Completed) (Some (message r)) s2)))"

definition handle_discovery_envelope ::
  "discovery_env \<Rightarrow> (discovery_error + discovery_summary \<Rightarrow> string) \<Rightarrow> json \<Rightarrow> discovery_store \<Rightarrow> discovery_store" where
  "handle_discovery_envelope env message payload s =
     (if (case json_str (json_field payload ''job_type'') of Some t \<Rightarrow> t | None \<Rightarrow> []) \<noteq> JOB_TYPE_DISCOVERY_RUN then s
      else case param_uuid env payload ''job_id'' of
             None \<Rightarrow> s
           | Some i \<Rightarrow> handle_discovery_run env message i s)"

end
