(* ===== verification/Review.thy ===== *)
theory Review
  imports Resources Discovery UrlNorm
begin

text \<open>
  The handlers of \<open>crates/core-api/src/resources/discovery.rs\<close>: seeds, the review of candidates, and the dispatch of a
  discovery run, over the stores of the theory \<open>Discovery\<close>. A status and its event, and a seed and its event, are written in
  one transaction.
\<close>

section \<open>Seeds\<close>

datatype seed_type =
    SeedKeyword | SeedTopic | SeedPerson | SeedOrganization | SeedAccount | SeedChannel | SeedUrl | SeedDomain | SeedIp
  | SeedEmail | SeedVulnerability | SeedSoftware | SeedProduct | SeedRepository | SeedHashtag | SeedLocation

datatype seed_origin =
    OriginManual | OriginConnector | OriginAi | OriginGraph | OriginEntity | OriginExternalImport | OriginDiscovery

fun seed_type_name :: "seed_type \<Rightarrow> string" where
  "seed_type_name SeedKeyword = ''keyword''"
| "seed_type_name SeedTopic = ''topic''"
| "seed_type_name SeedPerson = ''person''"
| "seed_type_name SeedOrganization = ''organization''"
| "seed_type_name SeedAccount = ''account''"
| "seed_type_name SeedChannel = ''channel''"
| "seed_type_name SeedUrl = ''url''"
| "seed_type_name SeedDomain = ''domain''"
| "seed_type_name SeedIp = ''ip''"
| "seed_type_name SeedEmail = ''email''"
| "seed_type_name SeedVulnerability = ''vulnerability''"
| "seed_type_name SeedSoftware = ''software''"
| "seed_type_name SeedProduct = ''product''"
| "seed_type_name SeedRepository = ''repository''"
| "seed_type_name SeedHashtag = ''hashtag''"
| "seed_type_name SeedLocation = ''location''"

fun seed_origin_name :: "seed_origin \<Rightarrow> string" where
  "seed_origin_name OriginManual = ''manual''"
| "seed_origin_name OriginConnector = ''connector''"
| "seed_origin_name OriginAi = ''ai''"
| "seed_origin_name OriginGraph = ''graph''"
| "seed_origin_name OriginEntity = ''entity''"
| "seed_origin_name OriginExternalImport = ''external_import''"
| "seed_origin_name OriginDiscovery = ''discovery''"

record seed =
  sd_id :: uuid
  sd_collection_id :: "uuid option"
  sd_type :: seed_type
  sd_value :: string
  sd_entity_id :: "uuid option"
  sd_priority :: int
  sd_confidence :: rat
  sd_origin :: seed_origin
  sd_status :: string
  sd_depth :: int
  sd_created_at :: time

text \<open>What the handlers work on: the tables, and the messages of the job service.\<close>

record review_world =
  rw_store :: discovery_store
  rw_seeds :: "seed tbl"
  rw_published :: "job_dispatched list"

abbreviation rw_db :: "review_world \<Rightarrow> db" where "rw_db w \<equiv> ds_db (dv_docs (rw_store w))"

definition put_seed :: "seed \<Rightarrow> review_world \<Rightarrow> storage_error + review_world" where
  "put_seed s w =
     (if fk_opt (db_collection_keys (rw_db w)) (sd_collection_id s) \<and> fk_opt (map fst (db_entities (rw_db w))) (sd_entity_id s)
      then Inr (w\<lparr>rw_seeds := tbl_put (sd_id s) s (rw_seeds w)\<rparr>) else Inl ConstraintViolation)"

definition get_seed :: "review_world \<Rightarrow> uuid \<Rightarrow> seed option" where
  "get_seed w i = tbl_get (rw_seeds w) i"

definition list_seeds :: "review_world \<Rightarrow> string option \<Rightarrow> uuid option \<Rightarrow> nat \<Rightarrow> seed list" where
  "list_seeds w st after limit =
     take (clamp_limit limit) (rev (tbl_select (\<lambda>s. after_cursor after (sd_id s) \<and>
       (case st of None \<Rightarrow> True | Some x \<Rightarrow> sd_status s = x)) (rw_seeds w)))"

definition list_seeds_by_collection :: "review_world \<Rightarrow> uuid \<Rightarrow> string option \<Rightarrow> uuid option \<Rightarrow> nat \<Rightarrow> seed list" where
  "list_seeds_by_collection w coll st after limit =
     take (clamp_limit limit) (rev (tbl_select (\<lambda>s. sd_collection_id s = Some coll \<and>
       (case st of None \<Rightarrow> True | Some x \<Rightarrow> sd_status s = x) \<and> after_cursor after (sd_id s)) (rw_seeds w)))"

text \<open>The payload of \<open>seed.created\<close>.\<close>

definition seed_created :: "(uuid \<Rightarrow> string) \<Rightarrow> (time \<Rightarrow> string) \<Rightarrow> seed \<Rightarrow> json" where
  "seed_created show_uuid show_time s = JObject
     [(''collection_id'', opt_json (JString \<circ> show_uuid) (sd_collection_id s)),
      (''confidence'', JNumber (sd_confidence s)),
      (''created_at'', JString (show_time (sd_created_at s))),
      (''depth'', JNumber (of_int (sd_depth s))),
      (''entity_id'', opt_json (JString \<circ> show_uuid) (sd_entity_id s)),
      (''origin'', JString (seed_origin_name (sd_origin s))),
      (''priority'', JNumber (of_int (sd_priority s))),
      (''seed_id'', JString (show_uuid (sd_id s))),
      (''seed_type'', JString (seed_type_name (sd_type s))),
      (''status'', JString (sd_status s)),
      (''value'', JString (sd_value s))]"

section \<open>The handlers of seeds\<close>

text \<open>The identifier of the event that a request writes.\<close>

record review_env =
  re_api :: api_env
  re_event_id :: uuid

abbreviation "MAX_SEED_VALUE \<equiv> 2048 :: nat"

text \<open>The fields that the caller may omit have their preset value here.\<close>

record create_seed_body =
  sb_id :: "uuid option"
  sb_type :: seed_type
  sb_value :: string
  sb_collection_id :: "uuid option"
  sb_entity_id :: "uuid option"
  sb_priority :: int
  sb_confidence :: rat
  sb_origin :: seed_origin
  sb_status :: string
  sb_depth :: int

definition seed_created_event :: "review_env \<Rightarrow> seed \<Rightarrow> outbox_event" where
  "seed_created_event env s =
     pending_event (re_event_id env) (av_now (re_api env)) ''seed.created'' (partition_key (av_show_uuid (re_api env)) (sd_collection_id s) (sd_id s))
       (Some (sd_id s)) (seed_created (av_show_uuid (re_api env)) (av_show_time (re_api env)) s) ''core-api''"

definition put_event :: "outbox_event \<Rightarrow> review_world \<Rightarrow> storage_error + review_world" where
  "put_event ev w =
     rbind (enqueue_outbox ev (dv_outbox (rw_store w))) (\<lambda>t. Inr (w\<lparr>rw_store := (rw_store w)\<lparr>dv_outbox := t\<rparr>\<rparr>))"

definition create_seed_inner :: "review_env \<Rightarrow> create_seed_body \<Rightarrow> review_world \<Rightarrow> api_error + seed \<times> review_world" where
  "create_seed_inner env b w =
     rbind (connected (re_api env)) (\<lambda>_.
     rbind (choose_id (re_api env) get_seed (sb_id b) w) (\<lambda>i.
     rbind (validate_text (sb_value b) MAX_SEED_VALUE) (\<lambda>v.
     let s = \<lparr>sd_id = i, sd_collection_id = sb_collection_id b, sd_type = sb_type b, sd_value = v, sd_entity_id = sb_entity_id b,
          sd_priority = sb_priority b, sd_confidence = sb_confidence b, sd_origin = sb_origin b, sd_status = sb_status b,
          sd_depth = sb_depth b, sd_created_at = av_now (re_api env)\<rparr>
     in rbind (store_call (re_api env) 1 (Inr ())) (\<lambda>_.
        rbind (store_call (re_api env) 2 (put_seed s w)) (\<lambda>w1.
        rbind (store_call (re_api env) 3 (put_event (seed_created_event env s) w1)) (\<lambda>w2.
        rbind (store_call (re_api env) 4 (Inr ())) (\<lambda>_. Inr (s, w2))))))))"

definition create_seed :: "review_env \<Rightarrow> principal \<Rightarrow> create_seed_body \<Rightarrow> (review_world api_world, api_error, seed) op" where
  "create_seed env who b = audited_write (re_api env) who
     \<lparr>an_action = ''seed.create'', an_resource = ''seed'', an_requested = map_option (av_show_uuid (re_api env)) (sb_id b), an_rejected = [],
      an_id = (\<lambda>s. Some (av_show_uuid (re_api env) (sd_id s))),
      an_metadata = (\<lambda>s. JObject [(''seed_type'', JString (seed_type_name (sd_type s))), (''value'', JString (sd_value s))])\<rparr>
     (on_store (create_seed_inner env b))"

definition api_list_seeds ::
  "api_env \<Rightarrow> principal \<Rightarrow> (string \<Rightarrow> uuid option) \<Rightarrow> (string \<Rightarrow> string option) \<Rightarrow> string option \<Rightarrow> uuid option \<Rightarrow> pagination \<Rightarrow> review_world
     \<Rightarrow> seed cursor_page api_result" where
  "api_list_seeds env who parse_uuid b64 st coll p w =
     rbind (read_guard who) (\<lambda>_. rbind (connected env) (\<lambda>_.
     list_handler (av_show_uuid env) parse_uuid b64 sd_id (\<lambda>after limit. store_call env 0 (Inr (case coll of
       Some c \<Rightarrow> list_seeds_by_collection w c st after limit | None \<Rightarrow> list_seeds w st after limit))) p))"

section \<open>The review of candidates\<close>

fun review_topic :: "candidate_status \<Rightarrow> string option" where
  "review_topic CandApproved = Some ''candidate.approved''"
| "review_topic CandRejected = Some ''candidate.rejected''"
| "review_topic _ = None"

text \<open>Before an approval: a URL has to be one that the collector may fetch.\<close>

definition approve_check :: "api_env \<Rightarrow> 'u url_ops \<Rightarrow> uuid \<Rightarrow> review_world \<Rightarrow> unit api_result" where
  "approve_check env ops i w =
     rbind (store_call env 0 (Inr (get_candidate (rw_store w) i))) (\<lambda>found.
     rbind (ok_or not_found found) (\<lambda>c.
     rbind (rguard (\<not> (ca_type c = CandUrl \<and> canonicalize ops (ca_value c) = None)) bad_request) (\<lambda>_.
     rguard (\<not> (ca_type c = CandUrl \<and> \<not> is_http_or_https ops (ca_value c))) bad_request)))"

definition review_event :: "review_env \<Rightarrow> string \<Rightarrow> candidate \<Rightarrow> outbox_event" where
  "review_event env topic c =
     pending_event (re_event_id env) (av_now (re_api env)) topic (partition_key (av_show_uuid (re_api env)) (ca_collection_id c) (ca_id c))
       (Some (ca_id c)) (candidate_lifecycle (av_show_uuid (re_api env)) (av_show_time (re_api env)) c (ca_id c)) ''core-api''"

text \<open>The transaction; a status that is there already is answered without a write.\<close>

definition change_status :: "review_env \<Rightarrow> uuid \<Rightarrow> candidate_status \<Rightarrow> string \<Rightarrow> review_world \<Rightarrow> api_error + candidate \<times> review_world" where
  "change_status env i st topic w =
     rbind (store_call (re_api env) 1 (Inr ())) (\<lambda>_.
     rbind (store_call (re_api env) 2 (Inr (get_candidate (rw_store w) i))) (\<lambda>found.
     rbind (ok_or not_found found) (\<lambda>current.
     if ca_status current = st then rbind (store_call (re_api env) 3 (Inr ())) (\<lambda>_. Inr (current, w))
     else rbind (store_call (re_api env) 3 (Inr (update_candidate_status i st (av_now (re_api env)) (rw_store w)))) (\<lambda>(changed, s1).
          rbind (store_call (re_api env) 4 (Inr (get_candidate s1 i))) (\<lambda>found.
          if \<not> changed then rbind (ok_or not_found found) (\<lambda>latest. rbind (store_call (re_api env) 5 (Inr ())) (\<lambda>_. Inr (latest, w)))
          else rbind (ok_or internal found) (\<lambda>c.
               rbind (store_call (re_api env) 5 (put_event (review_event env topic c) (w\<lparr>rw_store := s1\<rparr>))) (\<lambda>w'.
               rbind (store_call (re_api env) 6 (Inr ())) (\<lambda>_. Inr (c, w')))))))))"

definition set_candidate_status ::
  "review_env \<Rightarrow> 'u url_ops \<Rightarrow> uuid \<Rightarrow> candidate_status \<Rightarrow> bool \<Rightarrow> review_world \<Rightarrow> api_error + candidate \<times> review_world" where
  "set_candidate_status env ops i st validate_url w =
     rbind (connected (re_api env)) (\<lambda>_.
     rbind (if validate_url then approve_check (re_api env) ops i w else Inr ()) (\<lambda>_.
     rbind (ok_or internal (review_topic st)) (\<lambda>topic. change_status env i st topic w)))"

definition review_plan :: "api_env \<Rightarrow> string \<Rightarrow> uuid \<Rightarrow> candidate audit_plan" where
  "review_plan env action i = \<lparr>an_action = action, an_resource = ''candidate'', an_requested = Some (av_show_uuid env i), an_rejected = [],
     an_id = (\<lambda>_. Some (av_show_uuid env i)), an_metadata = (\<lambda>_. JObject [])\<rparr>"

definition approve_candidate :: "review_env \<Rightarrow> 'u url_ops \<Rightarrow> principal \<Rightarrow> uuid \<Rightarrow> (review_world api_world, api_error, candidate) op" where
  "approve_candidate env ops who i = audited_write (re_api env) who (review_plan (re_api env) ''candidate.approve'' i)
     (on_store (set_candidate_status env ops i CandApproved True))"

definition reject_candidate :: "review_env \<Rightarrow> 'u url_ops \<Rightarrow> principal \<Rightarrow> uuid \<Rightarrow> (review_world api_world, api_error, candidate) op" where
  "reject_candidate env ops who i = audited_write (re_api env) who (review_plan (re_api env) ''candidate.reject'' i)
     (on_store (set_candidate_status env ops i CandRejected False))"

definition api_list_candidates ::
  "api_env \<Rightarrow> principal \<Rightarrow> (string \<Rightarrow> uuid option) \<Rightarrow> (string \<Rightarrow> string option) \<Rightarrow> candidate_status option \<Rightarrow> pagination \<Rightarrow> review_world
     \<Rightarrow> candidate cursor_page api_result" where
  "api_list_candidates env who parse_uuid b64 st p w =
     rbind (read_guard who) (\<lambda>_. rbind (connected env) (\<lambda>_.
     list_handler (av_show_uuid env) parse_uuid b64 ca_id (\<lambda>after limit. store_call env 0 (Inr (list_candidates (rw_store w) st after limit))) p))"

definition collection_discovery ::
  "api_env \<Rightarrow> principal \<Rightarrow> (string \<Rightarrow> uuid option) \<Rightarrow> (string \<Rightarrow> string option) \<Rightarrow> uuid \<Rightarrow> candidate_status option \<Rightarrow> pagination \<Rightarrow> review_world
     \<Rightarrow> candidate cursor_page api_result" where
  "collection_discovery env who parse_uuid b64 coll st p w =
     rbind (read_guard who) (\<lambda>_. rbind (connected env) (\<lambda>_.
     rbind (store_call env 0 (Inr (coll \<in> set (db_collection_keys (rw_db w))))) (\<lambda>exists.
     rbind (rguard exists not_found) (\<lambda>_.
     list_handler (av_show_uuid env) parse_uuid b64 ca_id
       (\<lambda>after limit. store_call env 1 (Inr (list_candidates_by_collection (rw_store w) coll st after limit))) p))))"

text \<open>The candidate, its evidence and whether there may be more of it.\<close>

definition api_get_candidate ::
  "api_env \<Rightarrow> principal \<Rightarrow> uuid \<Rightarrow> review_world \<Rightarrow> (candidate \<times> candidate_evidence list \<times> bool) api_result" where
  "api_get_candidate env who i w =
     rbind (read_guard who) (\<lambda>_. rbind (connected env) (\<lambda>_.
     rbind (store_call env 0 (Inr (get_candidate (rw_store w) i))) (\<lambda>found.
     rbind (ok_or not_found found) (\<lambda>c.
     rbind (store_call env 1 (Inr (list_candidate_evidence_by_candidate (rw_store w) i LINK_PAGE))) (\<lambda>evidence.
     Inr (c, evidence, LINK_PAGE \<le> length evidence))))))"

section \<open>The dispatch of a run\<close>

definition discovery_parameters :: "api_env \<Rightarrow> uuid \<Rightarrow> uuid \<Rightarrow> int \<Rightarrow> json" where
  "discovery_parameters env coll ent depth = JObject
     [(''collection_id'', JString (av_show_uuid env coll)), (''depth'', JNumber (of_int depth)), (''entity_id'', JString (av_show_uuid env ent))]"

text \<open>The job and its message, which may fail after the job was stored.\<close>

definition dispatch_discovery_job ::
  "api_env \<Rightarrow> job_producer option \<Rightarrow> uuid \<Rightarrow> uuid \<Rightarrow> int \<Rightarrow> review_world \<Rightarrow> job api_result \<times> review_world" where
  "dispatch_discovery_job env producer coll ent depth w =
     (if \<not> av_connected env then (Inl unavailable, w)
      else let (r, js) = create_and_dispatch producer (av_now env) (av_new_id env) JOB_TYPE_DISCOVERY_RUN None (Some (discovery_parameters env coll ent depth))
             \<lparr>js_store = rw_db w, js_published = rw_published w\<rparr>
           in (map_err job_api_error r, w\<lparr>rw_store := with_discovery_db (js_store js) (rw_store w), rw_published := js_published js\<rparr>))"

definition run_discovery :: "api_env \<Rightarrow> job_producer option \<Rightarrow> principal \<Rightarrow> uuid \<Rightarrow> uuid \<Rightarrow> int \<Rightarrow> (review_world api_world, api_error, job) op" where
  "run_discovery env producer who coll ent depth =
     (let about = [(''collection_id'', JString (av_show_uuid env coll)), (''depth'', JNumber (of_int depth)),
        (''entity_id'', JString (av_show_uuid env ent))]
      in audited_write env who
        \<lparr>an_action = ''discovery.run'', an_resource = ''discovery'', an_requested = None, an_rejected = about,
         an_id = (\<lambda>j. Some (av_show_uuid env (j_id j))), an_metadata = (\<lambda>_. JObject about)\<rparr>
        (dispatch_discovery_job env producer coll ent depth))"

text \<open>\<open>POST /entities/{id}/discover\<close> is the same with the entity in the path.\<close>

definition discover_from_entity :: "api_env \<Rightarrow> job_producer option \<Rightarrow> principal \<Rightarrow> uuid \<Rightarrow> uuid \<Rightarrow> int \<Rightarrow> (review_world api_world, api_error, job) op" where
  "discover_from_entity env producer who ent coll depth = run_discovery env producer who coll ent depth"

end
