(* ===== verification/DiscoveryCorrect.thy ===== *)
theory DiscoveryCorrect
  imports Discovery
begin

text \<open>
  Proofs about the discovery worker: what recording one candidate does, what a run leaves, that a run can be repeated,
  where its depth limit ends, and how its job is closed.
\<close>

section \<open>Recording one candidate\<close>

definition cand_ok :: "discovery_store \<Rightarrow> bool" where
  "cand_ok s \<longleftrightarrow> tbl_keyed ca_id (dv_candidates s) \<and> tbl_ok (dv_evidence s) \<and> tbl_ok (dv_outbox s) \<and>
     (\<forall>i j c d. get_candidate s i = Some c \<longrightarrow> get_candidate s j = Some d \<longrightarrow> candidate_key c \<noteq> None \<longrightarrow>
        candidate_key c = candidate_key d \<longrightarrow> i = j)"

lemma with_key_some:
  assumes "cand_ok s" "candidate_with_key s key = Some d"
  shows "get_candidate s (ca_id d) = Some d \<and> candidate_key d = key \<and> key \<noteq> None"
proof -
  have t: "tbl_keyed ca_id (dv_candidates s)" using assms(1) by (simp add: cand_ok_def)
  from assms(2) have d: "d \<in> snd ` set (dv_candidates s)" "candidate_key d = key" "key \<noteq> None"
    by (auto simp: candidate_with_key_def find_Some_iff split: if_splits)
  then obtain k where "tbl_get (dv_candidates s) k = Some d" using tbl_get_iff [OF tbl_keyedD(1) [OF t]] by auto
  with tbl_keyedD(2) [OF t this] d show ?thesis by (simp add: get_candidate_def)
qed

lemma with_key_none:
  assumes "cand_ok s" "candidate_with_key s (Some k) = None" "get_candidate s i = Some d"
  shows "candidate_key d \<noteq> Some k"
  using assms by (auto simp: candidate_with_key_def find_None_iff get_candidate_def dest!: tbl_get_set)

lemma with_key_unique:
  "cand_ok s \<Longrightarrow> get_candidate s i = Some d \<Longrightarrow> candidate_key d = Some k \<Longrightarrow> candidate_with_key s (Some k) = Some d"
proof -
  assume ok: "cand_ok s" and d: "get_candidate s i = Some d" "candidate_key d = Some k"
  obtain e where e: "candidate_with_key s (Some k) = Some e"
    using with_key_none [OF ok _ d(1), of k] d(2) by (cases "candidate_with_key s (Some k)") auto
  from with_key_some [OF ok e] have "get_candidate s (ca_id e) = Some e" "candidate_key e = Some k" by auto
  with ok d have "i = ca_id e" unfolding cand_ok_def by (metis option.distinct(1))
  with \<open>get_candidate s (ca_id e) = Some e\<close> d(1) e show ?thesis by simp
qed

lemma insert_cases:
  assumes ok: "cand_ok s" and coll: "ca_collection_id c = Some coll" and run: "insert_candidate c s = Inr ((i, created), s')"
  obtains (new) "created" "i = ca_id c" "get_candidate s i = None" "candidate_with_key s (candidate_key c) = None"
      "s' = s\<lparr>dv_candidates := tbl_put i c (dv_candidates s)\<rparr>"
    | (old) d where "\<not> created" "s' = s" "get_candidate s i = Some d" "candidate_key d = candidate_key c"
  using run with_key_some [OF ok, of "candidate_key c"] coll
  by (auto simp: insert_candidate_def split: if_splits option.splits)

lemma cand_ok_insert:
  assumes ok: "cand_ok s" and new: "get_candidate s (ca_id c) = None" "candidate_with_key s (candidate_key c) = None" "ca_collection_id c = Some coll"
  shows "cand_ok (s\<lparr>dv_candidates := tbl_put (ca_id c) c (dv_candidates s)\<rparr>)"
proof -
  obtain k where k: "candidate_key c = Some k" using new(3) by (simp add: candidate_key_def)
  have "candidate_key d \<noteq> candidate_key c" if "get_candidate s i = Some d" for i d
    using with_key_none [OF ok _ that, of k] new(2) k by simp
  then show ?thesis using ok unfolding cand_ok_def by (auto simp: get_candidate_def tbl_get_put tbl_keyed_put split: if_splits)
qed

lemma evidence_iff:
  "cand_ok s \<Longrightarrow> evidence_exists s i ev \<longleftrightarrow> (\<exists>k e. tbl_get (dv_evidence s) k = Some e \<and> ce_candidate_id e = i \<and> same_reason e ev)"
  unfolding cand_ok_def evidence_exists_def by (force simp: tbl_get_iff)

text \<open>A candidate and its reason are on record.\<close>

definition recorded :: "discovery_store \<Rightarrow> candidate \<times> candidate_evidence \<Rightarrow> bool" where
  "recorded s p \<longleftrightarrow> (\<exists>i d. get_candidate s i = Some d \<and> candidate_key d = candidate_key (fst p) \<and> candidate_key d \<noteq> None \<and>
     evidence_exists s i (snd p))"

lemma recorded_again:
  assumes ok: "cand_ok s" and rec: "recorded s p"
  shows "\<exists>o'. record_candidate_discovery (fst p) (snd p) s = Inr (o', s) \<and> \<not> dy_created o' \<and> \<not> dy_evidence_added o'"
proof -
  from rec obtain i d k where d: "get_candidate s i = Some d" "candidate_key d = candidate_key (fst p)" "candidate_key d = Some k"
    "evidence_exists s i (snd p)" unfolding recorded_def by auto
  have "ca_id d = i" using ok d(1) by (auto simp: cand_ok_def get_candidate_def tbl_keyedD)
  moreover have "ca_collection_id (fst p) \<noteq> None" using d(2,3) by (auto simp: candidate_key_def)
  moreover have "candidate_with_key s (candidate_key (fst p)) = Some d" using with_key_unique [OF ok d(1,3)] d(2,3) by simp
  ultimately have "insert_candidate (fst p) s = Inr ((i, False), s)" by (auto simp: insert_candidate_def)
  with d(4) show ?thesis by (simp add: record_candidate_discovery_def)
qed

text \<open>What one record leaves: nothing changes but one candidate, if its key was new, and one reason, if it was new.\<close>

lemma recording_cases:
  assumes ok: "cand_ok s" and coll: "ca_collection_id c = Some coll"
    and run: "record_candidate_discovery c ev s = Inr (out, s')"
  obtains s1 where
    "(dy_created out \<and> dy_candidate_id out = ca_id c \<and> get_candidate s (ca_id c) = None \<and> candidate_with_key s (candidate_key c) = None \<and>
        s1 = s\<lparr>dv_candidates := tbl_put (ca_id c) c (dv_candidates s)\<rparr>) \<or>
     (\<not> dy_created out \<and> s1 = s)"
    "cand_ok s1" "\<exists>d. get_candidate s1 (dy_candidate_id out) = Some d \<and> candidate_key d = candidate_key c"
    "(\<not> dy_evidence_added out \<and> s' = s1 \<and> evidence_exists s1 (dy_candidate_id out) ev) \<or>
     (dy_evidence_added out \<and> s' = s1\<lparr>dv_evidence := tbl_put (ce_id ev) (ev\<lparr>ce_candidate_id := dy_candidate_id out\<rparr>) (dv_evidence s1)\<rparr>)"
proof -
  from run obtain i created s1 where ins: "insert_candidate c s = Inr ((i, created), s1)"
    and rest: "(if evidence_exists s1 i ev then Inr (\<lparr>dy_candidate_id = i, dy_created = created, dy_evidence_added = False\<rparr>, s1)
       else rbind (put_candidate_evidence (ev\<lparr>ce_candidate_id := i\<rparr>) s1) (\<lambda>s2.
            Inr (\<lparr>dy_candidate_id = i, dy_created = created, dy_evidence_added = True\<rparr>, s2))) = Inr (out, s')"
    by (auto simp: record_candidate_discovery_def rbind_Inr_iff)
  have out: "dy_candidate_id out = i" "dy_created out = created" using rest by (auto simp: rbind_Inr_iff split: if_splits)
  have ev: "(\<not> dy_evidence_added out \<and> s' = s1 \<and> evidence_exists s1 i ev) \<or>
     (dy_evidence_added out \<and> s' = s1\<lparr>dv_evidence := tbl_put (ce_id ev) (ev\<lparr>ce_candidate_id := i\<rparr>) (dv_evidence s1)\<rparr>)"
    using rest by (auto simp: rbind_Inr_iff put_candidate_evidence_def Let_def split: if_splits)
  from ok coll ins show ?thesis
  proof (cases rule: insert_cases)
    case new
    have "cand_ok s1" using cand_ok_insert [OF ok _ new(4) coll] new(2,3,5) by simp
    with new out ev show ?thesis by (intro that [of s1]) (auto simp: get_candidate_def tbl_get_put)
  next
    case (old d)
    with ok out ev show ?thesis by (intro that [of s1]) auto
  qed
qed


section \<open>What a run leaves\<close>

definition put_all :: "('x \<Rightarrow> uuid) \<Rightarrow> ('x \<Rightarrow> 'r) \<Rightarrow> 'x list \<Rightarrow> 'r tbl \<Rightarrow> 'r tbl" where
  "put_all key row xs t = fold (\<lambda>x. tbl_put (key x) (row x)) xs t"

lemma put_all_simps [simp]:
  "put_all key row [] t = t" "put_all key row (x # xs) t = put_all key row xs (tbl_put (key x) (row x) t)"
  "put_all key row (xs @ ys) t = put_all key row ys (put_all key row xs t)"
  by (simp_all add: put_all_def)

lemma put_all_none: "tbl_get (put_all key row xs t) i = None \<longleftrightarrow> i \<notin> key ` set xs \<and> tbl_get t i = None"
  by (induction xs arbitrary: t) (auto simp: tbl_get_put)

lemma put_all_old: "i \<notin> key ` set xs \<Longrightarrow> tbl_get (put_all key row xs t) i = tbl_get t i"
  by (induction xs arbitrary: t) (auto simp: tbl_get_put)

lemma put_all_new: "distinct (map key xs) \<Longrightarrow> x \<in> set xs \<Longrightarrow> tbl_get (put_all key row xs t) (key x) = Some (row x)"
  by (induction xs arbitrary: t) (auto simp: tbl_get_put put_all_old image_iff)

text \<open>
  The candidates that a run created, in their order, each with the number of its event: the table of candidates has
  grown by exactly these rows, the outbox by exactly their events.
\<close>

abbreviation cand_key :: "candidate \<times> nat \<Rightarrow> uuid" where "cand_key x \<equiv> ca_id (fst x)"
abbreviation event_key :: "discovery_env \<Rightarrow> candidate \<times> nat \<Rightarrow> uuid" where "event_key env x \<equiv> di_event_id env (snd x)"
abbreviation event_row :: "discovery_env \<Rightarrow> candidate \<times> nat \<Rightarrow> outbox_event" where
  "event_row env x \<equiv> candidate_created_event env (snd x) (fst x) (ca_id (fst x))"

definition logged :: "discovery_env \<Rightarrow> (candidate \<times> nat) list \<Rightarrow> discovery_store \<Rightarrow> discovery_store \<Rightarrow> bool" where
  "logged env xs s s' \<longleftrightarrow> dv_docs s' = dv_docs s \<and> dv_usage s' = dv_usage s \<and>
     dv_candidates s' = put_all cand_key fst xs (dv_candidates s) \<and>
     dv_outbox s' = put_all (event_key env) (event_row env) xs (dv_outbox s) \<and>
     distinct (map cand_key xs) \<and> distinct (map (event_key env) xs) \<and>
     (\<forall>x \<in> set xs. get_candidate s (cand_key x) = None \<and> tbl_get (dv_outbox s) (event_key env x) = None)"

lemma logged_nil: "dv_docs s' = dv_docs s \<Longrightarrow> dv_usage s' = dv_usage s \<Longrightarrow> dv_candidates s' = dv_candidates s \<Longrightarrow>
    dv_outbox s' = dv_outbox s \<Longrightarrow> logged env [] s s'"
  by (simp add: logged_def)

lemma logged_append:
  assumes "logged env xs s s1" "logged env ys s1 s2"
  shows "logged env (xs @ ys) s s2"
proof -
  have y: "cand_key y \<notin> cand_key ` set xs" "get_candidate s (cand_key y) = None"
      "event_key env y \<notin> event_key env ` set xs" "tbl_get (dv_outbox s) (event_key env y) = None" if "y \<in> set ys" for y
  proof -
    have "tbl_get (put_all cand_key fst xs (dv_candidates s)) (cand_key y) = None"
      "tbl_get (put_all (event_key env) (event_row env) xs (dv_outbox s)) (event_key env y) = None"
      using assms that by (simp_all add: logged_def get_candidate_def)
    then show "cand_key y \<notin> cand_key ` set xs" "get_candidate s (cand_key y) = None"
      "event_key env y \<notin> event_key env ` set xs" "tbl_get (dv_outbox s) (event_key env y) = None"
      by (simp_all add: put_all_none get_candidate_def)
  qed
  have "set (map cand_key xs) \<inter> set (map cand_key ys) = {}" "set (map (event_key env) xs) \<inter> set (map (event_key env) ys) = {}"
    unfolding set_map disjoint_iff using y(1,3) by blast+
  then have "distinct (map cand_key (xs @ ys))" "distinct (map (event_key env) (xs @ ys))"
    using assms by (simp_all add: logged_def)
  then show ?thesis using assms y(2,4) unfolding logged_def by auto
qed

lemma logged_keeps: "logged env xs s s' \<Longrightarrow> get_candidate s i = Some c \<Longrightarrow> get_candidate s' i = Some c"
proof -
  assume l: "logged env xs s s'" and c: "get_candidate s i = Some c"
  then have "i \<notin> cand_key ` set xs" by (auto simp: logged_def)
  with l c show ?thesis by (simp add: logged_def get_candidate_def put_all_old)
qed

lemma logged_length:
  assumes "logged env xs s s'"
  shows "finite {i. get_candidate s i = None \<and> get_candidate s' i \<noteq> None} \<and>
    card {i. get_candidate s i = None \<and> get_candidate s' i \<noteq> None} = length xs"
proof -
  have "{i. get_candidate s i = None \<and> get_candidate s' i \<noteq> None} = cand_key ` set xs"
    using assms by (auto simp: logged_def get_candidate_def put_all_none)
  moreover have "card (cand_key ` set xs) = length xs"
    using assms distinct_card [of "map cand_key xs"] by (simp add: logged_def)
  ultimately show ?thesis by simp
qed

text \<open>The transaction either leaves the store alone, or writes these rows.\<close>

lemma write_shape:
  assumes ok: "cand_ok s" and coll: "ca_collection_id (fst p) = Some coll" and run: "write_candidate_with_outbox env k p s = (r, s')"
  obtains (failed) e where "r = Inl e" "s' = s"
    | (wrote) out s1 t i where "r = Inr out" "cand_ok s1" "dv_docs s1 = dv_docs s" "dv_usage s1 = dv_usage s" "dv_outbox s1 = dv_outbox s"
        "dv_evidence s1 = dv_evidence s"
        "dv_candidates s1 = (if dy_created out then tbl_put (ca_id (fst p)) (fst p) (dv_candidates s) else dv_candidates s)"
        "dy_created out \<Longrightarrow> get_candidate s (ca_id (fst p)) = None"
        "\<exists>d. get_candidate s1 i = Some d \<and> candidate_key d = candidate_key (fst p)"
        "s' = s1\<lparr>dv_evidence := (if dy_evidence_added out then tbl_put (ce_id (snd p)) ((snd p)\<lparr>ce_candidate_id := i\<rparr>) (dv_evidence s)
           else dv_evidence s), dv_outbox := t\<rparr>"
        "\<not> dy_evidence_added out \<Longrightarrow> evidence_exists s i (snd p)"
        "if dy_created out then enqueue_outbox (candidate_created_event env k (fst p) (ca_id (fst p))) (dv_outbox s) = Inr t
         else t = dv_outbox s"
proof (cases "\<exists>e. r = Inl e \<and> s' = s")
  case True
  then show ?thesis using failed by blast
next
  case False
  then obtain out s2 where rec: "record_candidate_discovery (fst p) (snd p) s = Inr (out, s2)" and r: "r = Inr out"
    and tx: "(dy_created out \<and> (\<exists>t. enqueue_outbox (candidate_created_event env k (fst p) (dy_candidate_id out)) (dv_outbox s2) = Inr t \<and>
        s' = s2\<lparr>dv_outbox := t\<rparr>)) \<or> (\<not> dy_created out \<and> s' = s2)"
    using run by (auto simp: write_candidate_with_outbox_def split: option.splits sum.splits prod.splits if_splits)
  have "s2 = s2\<lparr>dv_outbox := dv_outbox s2\<rparr>" by (cases s2) simp
  with tx obtain t where s': "s' = s2\<lparr>dv_outbox := t\<rparr>"
    and t: "if dy_created out then enqueue_outbox (candidate_created_event env k (fst p) (dy_candidate_id out)) (dv_outbox s2) = Inr t
      else t = dv_outbox s2" by metis
  show ?thesis
  proof (rule recording_cases [OF ok coll rec])
    fix s1
    assume created: "(dy_created out \<and> dy_candidate_id out = ca_id (fst p) \<and> get_candidate s (ca_id (fst p)) = None \<and>
        candidate_with_key s (candidate_key (fst p)) = None \<and>
        s1 = s\<lparr>dv_candidates := tbl_put (ca_id (fst p)) (fst p) (dv_candidates s)\<rparr>) \<or> (\<not> dy_created out \<and> s1 = s)"
    assume ok1: "cand_ok s1" and found: "\<exists>d. get_candidate s1 (dy_candidate_id out) = Some d \<and> candidate_key d = candidate_key (fst p)"
    assume ev: "(\<not> dy_evidence_added out \<and> s2 = s1 \<and> evidence_exists s1 (dy_candidate_id out) (snd p)) \<or>
     (dy_evidence_added out \<and> s2 = s1\<lparr>dv_evidence := tbl_put (ce_id (snd p)) ((snd p)\<lparr>ce_candidate_id := dy_candidate_id out\<rparr>) (dv_evidence s1)\<rparr>)"
    have s1: "dv_docs s1 = dv_docs s" "dv_usage s1 = dv_usage s" "dv_outbox s1 = dv_outbox s" "dv_evidence s1 = dv_evidence s"
      "dv_candidates s1 = (if dy_created out then tbl_put (ca_id (fst p)) (fst p) (dv_candidates s) else dv_candidates s)"
      using created by auto
    have "dv_outbox s2 = dv_outbox s" using ev s1 by auto
    moreover have "s1 = s1\<lparr>dv_evidence := dv_evidence s\<rparr>" using s1(4) by (cases s1) simp
    ultimately show ?thesis using created ev t
      by (intro wrote [OF r ok1 s1 _ found, of t])
        (auto simp: s' s1 evidence_exists_def split: if_splits)
  qed
qed

lemma write_step:
  assumes ok: "cand_ok s" and coll: "ca_collection_id (fst p) = Some coll" and run: "write_candidate_with_outbox env k p s = (r, s')"
  obtains (failed) e where "r = Inl e" "s' = s"
    | (wrote) out where "r = Inr out" "recorded s' p" "cand_ok s'"
        "logged env (if dy_created out then [(fst p, k)] else []) s s'"
        "ce_id (snd p) \<notin> fst ` set (dv_evidence s) \<Longrightarrow> (\<forall>q. recorded s q \<longrightarrow> recorded s' q)"
        "fst ` set (dv_evidence s') \<subseteq> insert (ce_id (snd p)) (fst ` set (dv_evidence s))"
  using ok coll run
proof (cases rule: write_shape)
  case (failed e)
  then show ?thesis using that(1) by blast
next
  case (wrote out s1 t i)
  define row where "row = (snd p)\<lparr>ce_candidate_id := i\<rparr>"
  have s': "dv_docs s' = dv_docs s" "dv_usage s' = dv_usage s" "dv_candidates s' = dv_candidates s1" "dv_outbox s' = t"
    and ev': "dv_evidence s' = (if dy_evidence_added out then tbl_put (ce_id (snd p)) row (dv_evidence s) else dv_evidence s)"
    using wrote(3,4) by (auto simp: wrote(10) row_def)
  have get: "get_candidate s' j = get_candidate s1 j" for j by (simp add: s'(3) get_candidate_def)
  have tok: "tbl_ok (dv_evidence s)" "tbl_ok (dv_outbox s)" using ok by (simp_all add: cand_ok_def)
  have ok': "cand_ok s'" using wrote(2,12) tok unfolding cand_ok_def get
    by (auto simp: s'(3,4) ev' enqueue_outbox_def tbl_ok_put split: if_splits)
  have exists: "evidence_exists s' j e" if "evidence_exists s j e" "\<not> dy_evidence_added out \<or> ce_id (snd p) \<notin> fst ` set (dv_evidence s)" for j e
    using that by (auto simp: evidence_exists_def ev' set_put_fresh)
  have mine: "evidence_exists s' i (snd p)"
  proof (cases "dy_evidence_added out")
    case True
    then have "tbl_get (dv_evidence s') (ce_id (snd p)) = Some row" by (simp add: ev' tbl_get_put)
    then show ?thesis unfolding evidence_iff [OF ok']
      by (intro exI [of _ "ce_id (snd p)"] exI [of _ row]) (simp add: row_def same_reason_def)
  next
    case False
    then show ?thesis using exists [OF wrote(11)] by simp
  qed
  have keep: "get_candidate s' j = Some d" if "get_candidate s j = Some d" for j d
    using that wrote(8) unfolding get by (auto simp: get_candidate_def wrote(7) tbl_get_put)
  show ?thesis
  proof (rule that(2) [OF wrote(1) _ ok'])
    show "recorded s' p" unfolding recorded_def using wrote(9) mine coll by (auto simp: get candidate_key_def)
    show "logged env (if dy_created out then [(fst p, k)] else []) s s'"
      using wrote(8,12) by (auto simp: logged_def s' wrote(7) enqueue_outbox_def candidate_created_event_def pending_event_def split: if_splits)
    show "\<forall>q. recorded s q \<longrightarrow> recorded s' q" if "ce_id (snd p) \<notin> fst ` set (dv_evidence s)"
      unfolding recorded_def using keep exists that by blast
    show "fst ` set (dv_evidence s') \<subseteq> insert (ce_id (snd p)) (fst ` set (dv_evidence s))"
      by (simp add: ev' set_fst_tbl_put subset_insertI)
  qed
qed

text \<open>Identifiers for evidence that no row has, from a number on.\<close>

definition fresh_ids :: "discovery_env \<Rightarrow> nat \<Rightarrow> discovery_store \<Rightarrow> bool" where
  "fresh_ids env k s \<longleftrightarrow> inj_on (di_evidence_id env) {k..} \<and> (\<forall>j \<ge> k. di_evidence_id env j \<notin> fst ` set (dv_evidence s))"

definition numbered :: "discovery_env \<Rightarrow> uuid option \<Rightarrow> nat \<Rightarrow> (candidate \<times> candidate_evidence) list \<Rightarrow> bool" where
  "numbered env coll k ps \<longleftrightarrow> coll \<noteq> None \<and> (\<forall>j < length ps. ca_collection_id (fst (ps ! j)) = coll \<and> ce_id (snd (ps ! j)) = di_evidence_id env (k + j))"

lemma numbered_Cons: "numbered env coll k (p # ps) \<longleftrightarrow>
    coll \<noteq> None \<and> ca_collection_id (fst p) = coll \<and> ce_id (snd p) = di_evidence_id env k \<and> numbered env coll (Suc k) ps"
proof -
  have "(\<forall>j < Suc n. P j) \<longleftrightarrow> P 0 \<and> (\<forall>j < n. P (Suc j))" for P and n :: nat
    by (metis Suc_less_eq less_Suc_eq_0_disj zero_less_Suc)
  from this [of "length ps"] show ?thesis unfolding numbered_def by auto
qed

lemma fresh_ids_step:
  "fresh_ids env k s \<Longrightarrow> fst ` set (dv_evidence s') \<subseteq> insert (di_evidence_id env k) (fst ` set (dv_evidence s)) \<Longrightarrow> fresh_ids env (Suc k) s'"
proof -
  assume f: "fresh_ids env k s" and sub: "fst ` set (dv_evidence s') \<subseteq> insert (di_evidence_id env k) (fst ` set (dv_evidence s))"
  have "di_evidence_id env j \<noteq> di_evidence_id env k" if "Suc k \<le> j" for j
    using f that inj_onD [of "di_evidence_id env" "{k..}" j k] by (auto simp: fresh_ids_def)
  moreover have "inj_on (di_evidence_id env) {Suc k..}" using f by (auto simp: fresh_ids_def inj_on_def)
  moreover have "\<forall>j \<ge> Suc k. di_evidence_id env j \<notin> fst ` set (dv_evidence s)" using f by (simp add: fresh_ids_def)
  ultimately show ?thesis using sub unfolding fresh_ids_def by blast
qed

text \<open>
  Writing from one store to another: what was created, and how many of the pairs were handled, all of which are recorded
  with their reason.
\<close>

definition written :: "discovery_env \<Rightarrow> (candidate \<times> candidate_evidence) list \<Rightarrow> (candidate \<times> nat) list \<Rightarrow> discovery_store \<Rightarrow> discovery_store \<Rightarrow> bool" where
  "written env ps xs s s' \<longleftrightarrow> logged env xs s s' \<and> cand_ok s' \<and> length xs \<le> length ps \<and> fst ` set xs \<subseteq> fst ` set ps \<and>
     (\<forall>p \<in> set ps. recorded s' p) \<and> (\<forall>q. recorded s q \<longrightarrow> recorded s' q)"

lemma written_nil: "cand_ok s \<Longrightarrow> written env [] [] s s"
  by (simp add: written_def logged_nil)

lemma written_append: "written env ps xs s s1 \<Longrightarrow> written env qs ys s1 s2 \<Longrightarrow> written env (ps @ qs) (xs @ ys) s s2"
  unfolding written_def by (auto intro: logged_append)

lemma write_pairs_effect:
  assumes "cand_ok s" "numbered env coll k ps" "fresh_ids env k s" "write_pairs env cap k ps counts s = (r, s')"
  shows "\<exists>xs n. written env (take n ps) xs s s' \<and> n \<le> length ps \<and> n \<le> cap - fst counts \<and> fresh_ids env (k + n) s' \<and>
    (\<forall>c. r = Inr c \<longrightarrow> c = (fst counts + n, snd counts + length xs) \<and> n = min (length ps) (cap - fst counts))"
  using assms
proof (induction ps arbitrary: k counts s)
  case Nil
  then show ?case by (intro exI [of _ "[]"] exI [of _ 0]) (auto simp: written_nil)
next
  case (Cons p ps)
  show ?case
  proof (cases "cap \<le> fst counts")
    case True
    with Cons.prems show ?thesis by (intro exI [of _ "[]"] exI [of _ 0]) (auto simp: written_nil)
  next
    case False
    obtain a s1 where w: "write_candidate_with_outbox env k p s = (a, s1)" by (cases "write_candidate_with_outbox env k p s")
    from Cons.prems(2) obtain co where p: "ca_collection_id (fst p) = Some co" "ce_id (snd p) = di_evidence_id env k"
        "numbered env coll (Suc k) ps" by (auto simp: numbered_Cons)
    from Cons.prems(1) p(1) w show ?thesis
    proof (cases rule: write_step)
      case (failed e)
      with Cons.prems False w show ?thesis by (intro exI [of _ "[]"] exI [of _ 0]) (auto simp: written_nil op_bind_def)
    next
      case (wrote out)
      have fresh: "ce_id (snd p) \<notin> fst ` set (dv_evidence s)" using Cons.prems(3) p(2) by (simp add: fresh_ids_def)
      have f1: "fresh_ids env (Suc k) s1" using fresh_ids_step [OF Cons.prems(3)] wrote(6) p(2) by simp
      have one: "written env [p] (if dy_created out then [(fst p, k)] else []) s s1"
        using wrote(2-5) fresh by (auto simp: written_def)
      have run: "write_pairs env cap (Suc k) ps (Suc (fst counts), if dy_created out then Suc (snd counts) else snd counts) s1 = (r, s')"
        using Cons.prems(4) False w wrote(1) by (simp add: op_bind_def)
      from Cons.IH [OF wrote(3) p(3) f1 run] obtain xs n where rest: "written env (take n ps) xs s1 s'" "n \<le> length ps"
          "n \<le> cap - Suc (fst counts)" "fresh_ids env (Suc k + n) s'"
          "\<forall>c. r = Inr c \<longrightarrow> c = (Suc (fst counts) + n, (if dy_created out then Suc (snd counts) else snd counts) + length xs) \<and>
             n = min (length ps) (cap - Suc (fst counts))" by auto
      from written_append [OF one rest(1)] rest False show ?thesis
        by (intro exI [of _ "(if dy_created out then [(fst p, k)] else []) @ xs"] exI [of _ "Suc n"]) (auto simp: min_def)
    qed
  qed
qed

text \<open>What is recorded already is handled without any change.\<close>

lemma write_pairs_recorded:
  "cand_ok s \<Longrightarrow> \<forall>p \<in> set (take (cap - fst counts) ps). recorded s p \<Longrightarrow> write_pairs env cap k ps counts s = (r, s') \<Longrightarrow>
    s' = s \<and> (\<forall>c. r = Inr c \<longrightarrow> c = (fst counts + min (length ps) (cap - fst counts), snd counts))"
proof (induction ps arbitrary: k counts)
  case Nil
  then have "r = Inr counts" "s' = s" by auto
  then show ?case by simp
next
  case (Cons p ps)
  show ?case
  proof (cases "cap \<le> fst counts")
    case True
    with Cons.prems(3) have "r = Inr counts" "s' = s" by auto
    with True show ?thesis by simp
  next
    case False
    then obtain m where m: "cap - fst counts = Suc m" "cap - Suc (fst counts) = m" by (metis Suc_diff_Suc linorder_not_less)
    from Cons.prems(2) m(1) have rec: "recorded s p" "\<forall>p \<in> set (take m ps). recorded s p" by auto
    from recorded_again [OF Cons.prems(1) rec(1)] obtain out where
      out: "record_candidate_discovery (fst p) (snd p) s = Inr (out, s)" "\<not> dy_created out" by blast
    show ?thesis
    proof (cases "di_fault env k")
      case None
      then have "write_pairs env cap (Suc k) ps (Suc (fst counts), snd counts) s = (r, s')"
        using Cons.prems(3) False out by (simp add: write_candidate_with_outbox_def op_bind_def)
      from Cons.IH [OF Cons.prems(1) _ this] rec(2) m show ?thesis by auto
    next
      case (Some e)
      with Cons.prems(3) False show ?thesis by (auto simp: write_candidate_with_outbox_def op_bind_def)
    qed
  qed
qed

section \<open>One run\<close>

lemma numbered_graph:
  "graph_expansion env e (Some coll) depth m types = Inr pairs \<Longrightarrow> numbered env (Some coll) 0 pairs"
  by (auto simp: graph_expansion_def rbind_Inr_iff numbered_def nth_enumerate_eq neighbour_pair_def found_candidate_def
      found_evidence_def split: if_splits)

lemma numbered_sources: "numbered env (Some coll) k (source_pairs env ds e (Some coll) depth k ids)"
  by (auto simp: source_pairs_def numbered_def nth_enumerate_eq source_pair_def found_candidate_def found_evidence_def)

text \<open>All the pairs of a run that gets as far as writing: the neighbours, then the sources.\<close>

definition run_pairs :: "discovery_env \<Rightarrow> doc_store \<Rightarrow> entity \<Rightarrow> uuid \<Rightarrow> int \<Rightarrow> collection_budget \<Rightarrow> storage_error + (candidate \<times> candidate_evidence) list" where
  "run_pairs env ds e coll depth budget =
     rbind (graph_expansion env e (Some coll) depth (cb_max_depth budget) GRAPH_EXPANSION_ENTITY_TYPES) (\<lambda>pairs.
     Inr (pairs @ source_pairs env ds e (Some coll) (as_i32 (depth + 1)) (length pairs)
       (list_sources_by_entity ds (e_id e) SOURCE_EXPANSION_QUERY_LIMIT)))"

text \<open>Writing the neighbours and then the sources is writing the list of both, whatever the cap.\<close>

lemma write_pairs_append:
  "write_pairs env cap k (ps @ qs) counts s =
     (case write_pairs env cap k ps counts s of
        (Inl e, s') \<Rightarrow> (Inl e, s')
      | (Inr c, s') \<Rightarrow> if cap \<le> fst c then (Inr c, s') else write_pairs env cap (k + length ps) qs c s')"
proof (induction ps arbitrary: k counts s)
  case Nil
  then show ?case by (cases qs) auto
next
  case (Cons p ps)
  then show ?case by (auto simp: op_bind_def split: prod.splits sum.splits)
qed

lemma write_pairs_docs: "write_pairs env cap k ps counts s = (r, s') \<Longrightarrow> dv_docs s' = dv_docs s \<and> dv_usage s' = dv_usage s"
proof (induction ps arbitrary: k counts s)
  case (Cons p ps)
  have "dv_docs s1 = dv_docs s \<and> dv_usage s1 = dv_usage s" if "write_candidate_with_outbox env k p s = (a, s1)" for a s1
    using that by (auto simp: write_candidate_with_outbox_def record_candidate_discovery_def insert_candidate_def put_candidate_def
        put_candidate_evidence_def rbind_def Let_def split: option.splits sum.splits prod.splits if_splits)
  with Cons show ?case by (fastforce simp: op_bind_def split: prod.splits sum.splits if_splits)
qed simp

lemma expand_pairs:
  assumes "expand env e coll depth budget s = (r, s')"
  shows "(\<exists>err. run_pairs env (dv_docs s) e coll depth budget = Inl err \<and> r = Inl (DiscoveryStorage err) \<and> s' = s) \<or>
    (\<exists>ps r'. run_pairs env (dv_docs s) e coll depth budget = Inr ps \<and>
       write_pairs env (as_usize (cb_max_candidates_per_run budget)) 0 ps (0, 0) s = (r', s') \<and>
       (\<forall>err. r' = Inl err \<longrightarrow> r = Inl err) \<and> (\<forall>c. r' = Inr c \<longrightarrow> (\<exists>sm. r = Inr sm \<and> sm_written sm = fst c \<and> sm_created sm = snd c)))"
proof (cases "graph_expansion env e (Some coll) depth (cb_max_depth budget) GRAPH_EXPANSION_ENTITY_TYPES")
  case (Inl err)
  with assms show ?thesis by (auto simp: expand_def run_pairs_def)
next
  case (Inr pairs)
  obtain a s1 where w: "write_pairs env (as_usize (cb_max_candidates_per_run budget)) 0 pairs (0, 0) s = (a, s1)" by fastforce
  from write_pairs_docs [OF w] have docs: "dv_docs s1 = dv_docs s" by simp
  from assms Inr w docs show ?thesis
    by (auto simp: expand_def run_pairs_def rbind_def write_pairs_append op_bind_def op_return_def Let_def not_le
        split: prod.splits sum.splits if_splits)
qed

definition effective_budget :: "discovery_env \<Rightarrow> uuid \<Rightarrow> discovery_store \<Rightarrow> collection_budget" where
  "effective_budget env coll s =
     (case tbl_get (us_budgets (dv_usage s)) coll of Some b \<Rightarrow> b | None \<Rightarrow> conservative_default coll (di_now env))"

abbreviation with_usage_of :: "discovery_store \<Rightarrow> discovery_store \<Rightarrow> discovery_store" where
  "with_usage_of s' s \<equiv> s\<lparr>dv_usage := dv_usage s'\<rparr>"

text \<open>A run either fails before it writes, having at most charged the day, or it expands.\<close>

lemma run_cases:
  assumes "run_graph_expansion env params s = (r, s')"
  obtains (refused) err where "r = Inl err" "s' = with_usage_of s' s"
    | (expands) p ent coll e u where "params = Some p" "param_uuid env p ''entity_id'' = Some ent" "param_uuid env p ''collection_id'' = Some coll"
        "get_entity (ds_db (dv_docs s)) ent = Some e" "\<not> depth_refused (param_depth p) (cb_max_depth (effective_budget env coll s))"
        "us_budgets u = us_budgets (dv_usage s)" "expand env e coll (param_depth p) (effective_budget env coll s) (s\<lparr>dv_usage := u\<rparr>) = (r, s')"
proof (cases "\<exists>p ent coll e. params = Some p \<and> param_uuid env p ''entity_id'' = Some ent \<and> param_uuid env p ''collection_id'' = Some coll \<and>
    get_entity (ds_db (dv_docs s)) ent = Some e \<and> us_fault (dv_usage s) = None \<and> \<not> depth_refused (param_depth p) (cb_max_depth (effective_budget env coll s))")
  case False
  have "\<exists>err. run_graph_expansion env params s = (Inl err, s)"
  proof (rule ccontr)
    note [simp] = run_graph_expansion_def
    assume go: "\<not> ?thesis"
    then obtain p where p: "params = Some p" by (cases params) auto
    with go obtain ent where ent: "param_uuid env p ''entity_id'' = Some ent" by (cases "param_uuid env p ''entity_id''") auto
    with p go obtain coll where coll: "param_uuid env p ''collection_id'' = Some coll" by (cases "param_uuid env p ''collection_id''") auto
    with p ent go obtain e where e: "get_entity (ds_db (dv_docs s)) ent = Some e" by (cases "get_entity (ds_db (dv_docs s)) ent") auto
    with p ent coll go have fault: "us_fault (dv_usage s) = None" by (cases "us_fault (dv_usage s)") (auto simp: get_collection_budget_def)
    with p ent coll e go have "\<not> depth_refused (param_depth p) (cb_max_depth (effective_budget env coll s))"
      by (auto simp: get_collection_budget_def effective_budget_def)
    with p ent coll e fault False show False by blast
  qed
  with assms have "(\<exists>err. r = Inl err) \<and> s' = s" by auto
  then show ?thesis using refused by (cases s) auto
next
  case True
  then obtain p ent coll e where p: "params = Some p" "param_uuid env p ''entity_id'' = Some ent" "param_uuid env p ''collection_id'' = Some coll"
    "get_entity (ds_db (dv_docs s)) ent = Some e" "us_fault (dv_usage s) = None" "\<not> depth_refused (param_depth p) (cb_max_depth (effective_budget env coll s))"
    by blast
  define b where "b = effective_budget env coll s"
  obtain a u where t: "try_consume_daily_usage coll (di_today env) 1 (cb_daily_request_budget b) RequestsUsed (dv_usage s) = (a, u)" by fastforce
  then have budgets: "us_budgets u = us_budgets (dv_usage s)"
    by (auto simp: try_consume_daily_usage_def Let_def split: option.splits if_splits)
  have run: "run_graph_expansion env params s = (case a of
      Inl err \<Rightarrow> (Inl (DiscoveryStorage err), s\<lparr>dv_usage := u\<rparr>)
    | Inr (allowed, used) \<Rightarrow> if \<not> allowed then (Inl (DailyBudgetUsed used (cb_daily_request_budget b)), s\<lparr>dv_usage := u\<rparr>)
        else expand env e coll (param_depth p) b (s\<lparr>dv_usage := u\<rparr>))"
    using p t by (simp add: run_graph_expansion_def get_collection_budget_def effective_budget_def b_def Let_def split: sum.splits prod.splits)
  show ?thesis
  proof (cases "\<exists>err. r = Inl err \<and> s' = s\<lparr>dv_usage := u\<rparr>")
    case True
    then show ?thesis using refused by auto
  next
    case False
    then have "expand env e coll (param_depth p) b (s\<lparr>dv_usage := u\<rparr>) = (r, s')"
      using run assms by (auto split: sum.splits prod.splits if_splits)
    then show ?thesis using expands [OF p(1-4) p(6) budgets] by (simp add: b_def)
  qed
qed

text \<open>The pairs of a run, without the identifiers: all are pending, at the next depth, in the collection of the run.\<close>

definition found_by :: "discovery_env \<Rightarrow> entity \<Rightarrow> uuid \<Rightarrow> int \<Rightarrow> candidate \<Rightarrow> bool" where
  "found_by env e coll depth c \<longleftrightarrow> ca_status c = CandPending \<and> ca_reviewed_at c = None \<and> ca_collection_id c = Some coll \<and> ca_depth c = depth \<and>
     ca_discovered_by c = ''entity:'' @ di_show_uuid env (e_id e) \<and> ca_type c \<in> {CandEntity, CandSource} \<and>
     ca_normalized_value c = di_lowercase env (trim (ca_value c))"

lemma run_pairs_facts:
  assumes "run_pairs env ds e coll depth budget = Inr ps"
  shows "numbered env (Some coll) 0 ps \<and> (\<forall>p \<in> set ps. found_by env e coll (as_i32 (depth + 1)) (fst p))"
proof -
  from assms obtain pairs where g: "graph_expansion env e (Some coll) depth (cb_max_depth budget) GRAPH_EXPANSION_ENTITY_TYPES = Inr pairs"
    and ps: "ps = pairs @ source_pairs env ds e (Some coll) (as_i32 (depth + 1)) (length pairs) (list_sources_by_entity ds (e_id e) SOURCE_EXPANSION_QUERY_LIMIT)"
    by (auto simp: run_pairs_def rbind_Inr_iff)
  have "numbered env (Some coll) 0 ps"
    using numbered_graph [OF g] numbered_sources [of env coll "length pairs"]
    by (auto simp: ps numbered_def nth_append)
  moreover have "found_by env e coll (as_i32 (depth + 1)) (fst p)" if "p \<in> set ps" for p
    using that g by (auto simp: ps graph_expansion_def rbind_Inr_iff source_pairs_def neighbour_pair_def source_pair_def found_candidate_def found_by_def
        split: if_splits)
  ultimately show ?thesis by blast
qed

lemma expand_effect:
  assumes ok: "cand_ok s" and fresh: "fresh_ids env 0 s" and run: "expand env e coll depth budget s = (r, s')"
  shows "\<exists>xs. logged env xs s s' \<and> cand_ok s' \<and> (\<forall>q. recorded s q \<longrightarrow> recorded s' q) \<and> length xs \<le> as_usize (cb_max_candidates_per_run budget) \<and>
    (\<forall>c \<in> fst ` set xs. found_by env e coll (as_i32 (depth + 1)) c) \<and>
    (\<forall>sm. r = Inr sm \<longrightarrow> sm_created sm = length xs \<and> length xs \<le> sm_written sm \<and> sm_written sm \<le> as_usize (cb_max_candidates_per_run budget) \<and>
       (\<exists>ps. run_pairs env (dv_docs s) e coll depth budget = Inr ps \<and> sm_written sm = min (length ps) (as_usize (cb_max_candidates_per_run budget)) \<and>
          (\<forall>p \<in> set (take (sm_written sm) ps). recorded s' p)))"
proof (cases "\<exists>err. r = Inl (DiscoveryStorage err) \<and> s' = s")
  case True
  then show ?thesis using ok by (intro exI [of _ "[]"]) (auto simp: logged_nil)
next
  case False
  with expand_pairs [OF run] obtain ps r' where ps: "run_pairs env (dv_docs s) e coll depth budget = Inr ps"
    and w: "write_pairs env (as_usize (cb_max_candidates_per_run budget)) 0 ps (0, 0) s = (r', s')"
    and r: "\<forall>err. r' = Inl err \<longrightarrow> r = Inl err" "\<forall>c. r' = Inr c \<longrightarrow> (\<exists>sm. r = Inr sm \<and> sm_written sm = fst c \<and> sm_created sm = snd c)"
    by blast
  from run_pairs_facts [OF ps] have num: "numbered env (Some coll) 0 ps" and by': "\<forall>p \<in> set ps. found_by env e coll (as_i32 (depth + 1)) (fst p)" by auto
  from write_pairs_effect [OF ok num fresh w] obtain xs n where x: "written env (take n ps) xs s s'" "n \<le> as_usize (cb_max_candidates_per_run budget)"
      "n \<le> length ps" "\<forall>c. r' = Inr c \<longrightarrow> c = (n, length xs) \<and> n = min (length ps) (as_usize (cb_max_candidates_per_run budget))" by auto
  have "\<forall>c \<in> fst ` set xs. found_by env e coll (as_i32 (depth + 1)) c"
  proof
    fix c assume "c \<in> fst ` set xs"
    then have "c \<in> fst ` set (take n ps)" using x(1) by (auto simp: written_def)
    then obtain p where "p \<in> set ps" "c = fst p" by (auto dest: in_set_takeD)
    then show "found_by env e coll (as_i32 (depth + 1)) c" using by' by simp
  qed
  moreover have "length xs \<le> n" using x(1,3) by (simp add: written_def)
  moreover have "sm_created sm = length xs \<and> sm_written sm = n \<and> n = min (length ps) (as_usize (cb_max_candidates_per_run budget))" if "r = Inr sm" for sm
    using that r x(4) by (cases r') auto
  moreover have "\<forall>p \<in> set (take n ps). recorded s' p" "logged env xs s s'" "cand_ok s'" "\<forall>q. recorded s q \<longrightarrow> recorded s' q"
    using x(1) by (simp_all add: written_def)
  moreover have "length xs \<le> as_usize (cb_max_candidates_per_run budget)" using calculation(2) x(2) by simp
  moreover have "sm_created sm = length xs \<and> length xs \<le> sm_written sm \<and> sm_written sm \<le> as_usize (cb_max_candidates_per_run budget) \<and>
       (\<exists>ps. run_pairs env (dv_docs s) e coll depth budget = Inr ps \<and> sm_written sm = min (length ps) (as_usize (cb_max_candidates_per_run budget)) \<and>
          (\<forall>p \<in> set (take (sm_written sm) ps). recorded s' p))" if "r = Inr sm" for sm
    using calculation(2,4) calculation(3) [OF that] ps x(2) by simp
  ultimately show ?thesis by blast
qed

section \<open>The properties\<close>

lemma usage_irrelevant [simp]:
  "get_candidate (s\<lparr>dv_usage := u\<rparr>) i = get_candidate s i" "cand_ok (s\<lparr>dv_usage := u\<rparr>) \<longleftrightarrow> cand_ok s"
  "fresh_ids env k (s\<lparr>dv_usage := u\<rparr>) \<longleftrightarrow> fresh_ids env k s" "recorded (s\<lparr>dv_usage := u\<rparr>) p \<longleftrightarrow> recorded s p"
  by (simp_all add: get_candidate_def cand_ok_def fresh_ids_def recorded_def evidence_exists_def)

lemma as_i32_mod: "as_i32 n = (n + 2 ^ 31) mod 2 ^ 32 - 2 ^ 31"
  by (simp add: as_i32_def int_word_sint)

lemma as_i32_range: "- (2 ^ 31) \<le> as_i32 n \<and> as_i32 n < 2 ^ 31"
  unfolding as_i32_mod by simp

lemma as_i32_id: "- (2 ^ 31) \<le> n \<Longrightarrow> n < 2 ^ 31 \<Longrightarrow> as_i32 n = n"
  by (simp add: as_i32_mod)

lemma depth_refused_iff:
  assumes "- (2 ^ 31) \<le> d" "d < 2 ^ 31" "- (2 ^ 31) \<le> m"
  shows "depth_refused d m \<longleftrightarrow> m \<le> d \<and> d \<noteq> 2 ^ 31 - 1"
proof (cases "d = 2 ^ 31 - 1")
  case True
  then show ?thesis using assms by (simp add: depth_refused_def as_i32_mod)
next
  case False
  with assms have "as_i32 (d + 1) = d + 1" by (intro as_i32_id) auto
  with False show ?thesis by (auto simp: depth_refused_def)
qed

text \<open>
  C15: What a discovery run does to the candidates, whatever its outcome: a refused run, a refused budget, a store that
  fails in the middle. No candidate that existed is changed, so what an analyst rejected stays rejected. The rows that
  were added are the created ones, each stored together with exactly one \<open>candidate.created\<close> event that carries it, and
  the outbox gained nothing else. Each is pending, belongs to the collection of the run, names the entity it was found
  from, is one level deeper than the run and within the depth limit; there are at most as many as the budget of the
  collection allows. The natural key of a candidate stays unique, and the summary of a successful run counts what was
  created.
\<close>

theorem discovery_run_effect:
  assumes "cand_ok s" "fresh_ids env 0 s" "run_graph_expansion env params s = (r, s')"
  shows "\<exists>xs. logged env xs (with_usage_of s' s) s' \<and> cand_ok s' \<and>
    (\<forall>i c. get_candidate s i = Some c \<longrightarrow> get_candidate s' i = Some c) \<and>
    (\<forall>c \<in> fst ` set xs. \<exists>p ent coll e. params = Some p \<and> param_uuid env p ''entity_id'' = Some ent \<and>
       param_uuid env p ''collection_id'' = Some coll \<and> get_entity (ds_db (dv_docs s)) ent = Some e \<and>
       found_by env e coll (as_i32 (param_depth p + 1)) c \<and> ca_depth c \<le> cb_max_depth (effective_budget env coll s) \<and>
       length xs \<le> as_usize (cb_max_candidates_per_run (effective_budget env coll s))) \<and>
    (\<forall>sm. r = Inr sm \<longrightarrow> sm_created sm = length xs \<and> length xs \<le> sm_written sm)"
  using assms(3)
proof (cases rule: run_cases)
  case (refused err)
  have "cand_ok s'" "get_candidate s' i = get_candidate s i" for i
    using assms(1) by (subst refused(2); simp)+
  moreover have "logged env [] (with_usage_of s' s) s'" using refused(2) by (cases s') (auto intro: logged_nil)
  ultimately show ?thesis using refused(1) by (intro exI [of _ "[]"]) simp
next
  case (expands p ent coll e u)
  define b where "b = effective_budget env coll s"
  from expand_effect [OF _ _ expands(7)] assms(1,2) obtain xs where x: "logged env xs (s\<lparr>dv_usage := u\<rparr>) s'" "cand_ok s'"
      "length xs \<le> as_usize (cb_max_candidates_per_run b)" "\<forall>c \<in> fst ` set xs. found_by env e coll (as_i32 (param_depth p + 1)) c"
      "\<forall>sm. r = Inr sm \<longrightarrow> sm_created sm = length xs \<and> length xs \<le> sm_written sm"
    by (auto simp: b_def)
  have u: "s\<lparr>dv_usage := u\<rparr> = with_usage_of s' s" using x(1) by (simp add: logged_def)
  have "get_candidate s' i = Some c" if "get_candidate s i = Some c" for i c
    using logged_keeps [OF x(1)] that by simp
  moreover have "as_i32 (param_depth p + 1) \<le> cb_max_depth b" using expands(5) by (simp add: depth_refused_def b_def)
  ultimately show ?thesis using x expands(1-4) unfolding u b_def
    by (intro exI [of _ xs]) (auto simp: found_by_def)
qed

text \<open>Two pairs that record the same thing, whatever their identifiers and times.\<close>

definition same_find :: "candidate \<times> candidate_evidence \<Rightarrow> candidate \<times> candidate_evidence \<Rightarrow> bool" where
  "same_find p q \<longleftrightarrow> candidate_key (fst p) = candidate_key (fst q) \<and> same_reason (snd p) (snd q)"

lemma recorded_same: "same_find p q \<Longrightarrow> recorded s p \<Longrightarrow> recorded s q"
  by (auto simp: same_find_def recorded_def evidence_exists_def same_reason_def)

lemma recorded_same_all: "list_all2 same_find ps qs \<Longrightarrow> \<forall>p \<in> set (take n ps). recorded s p \<Longrightarrow> \<forall>q \<in> set (take n qs). recorded s q"
proof (induction arbitrary: n rule: list_all2_induct)
  case (Cons p ps q qs)
  then show ?case by (cases n) (auto intro: recorded_same)
qed simp

text \<open>Two runs of the same program on the same graph.\<close>

definition same_graph :: "discovery_env \<Rightarrow> discovery_env \<Rightarrow> bool" where
  "same_graph env env' \<longleftrightarrow> di_neighbors env' = di_neighbors env \<and> di_show_uuid env' = di_show_uuid env \<and>
     di_parse_uuid env' = di_parse_uuid env \<and> di_lowercase env' = di_lowercase env"

lemma run_pairs_same:
  assumes "same_graph env env'" "cb_max_depth b' = cb_max_depth b" "run_pairs env ds e coll depth b = Inr ps"
  shows "\<exists>qs. run_pairs env' ds e coll depth b' = Inr qs \<and> list_all2 same_find ps qs"
  using assms
  by (auto simp: run_pairs_def rbind_Inr_iff graph_expansion_def source_pairs_def same_graph_def list_all2_map1 list_all2_map2 list_all2_same
      neighbour_pair_def source_pair_def found_candidate_def found_evidence_def same_find_def candidate_key_def same_reason_def
      graph_reason_def intro!: list_all2_appendI split: if_splits)

text \<open>
  C16: A discovery run that succeeded can be repeated: a second run with the same parameters while the graph is the same
  changes nothing but what it charges to the day, however far it gets, so no candidate, no reason and no event is stored
  twice. When it succeeds too, it handled as many candidates as the first and created none.
\<close>

theorem discovery_rerun:
  assumes "cand_ok s" "fresh_ids env 0 s" "run_graph_expansion env params s = (Inr sm, s1)"
    and "same_graph env env'" "run_graph_expansion env' params s1 = (r, s2)"
  shows "s2 = with_usage_of s2 s1 \<and> (\<forall>sm'. r = Inr sm' \<longrightarrow> sm_written sm' = sm_written sm \<and> sm_created sm' = 0)"
  using assms(5)
proof (cases rule: run_cases)
  case (refused err)
  then show ?thesis by simp
next
  case again: (expands p ent coll e u')
  from assms(3) show ?thesis
  proof (cases rule: run_cases)
    case (expands p0 ent0 coll0 e0 u)
    define b where "b = effective_budget env coll s"
    define b' where "b' = effective_budget env' coll s1"
    from expand_effect [OF _ _ expands(7)] assms(1,2) obtain xs ps where x: "logged env xs (s\<lparr>dv_usage := u\<rparr>) s1" "cand_ok s1"
        and ps: "run_pairs env (dv_docs s) e0 coll0 (param_depth p0) (effective_budget env coll0 s) = Inr ps"
        "sm_written sm = min (length ps) (as_usize (cb_max_candidates_per_run (effective_budget env coll0 s)))"
        "\<forall>p \<in> set (take (sm_written sm) ps). recorded s1 p" by auto
    have docs: "dv_docs s1 = dv_docs s" "dv_usage s1 = u" using x(1) by (simp_all add: logged_def)
    have pe: "p0 = p" "coll0 = coll" "ent0 = ent" "e0 = e"
      using expands(1-4) again(1-4) assms(4) docs by (auto simp: same_graph_def param_uuid_def)
    have bb: "cb_max_depth b' = cb_max_depth b" "cb_max_candidates_per_run b' = cb_max_candidates_per_run b"
      using expands(6) docs(2) by (auto simp: b_def b'_def effective_budget_def conservative_default_def split: option.splits)
    from run_pairs_same [OF assms(4) bb(1) ps(1) [unfolded pe, folded b_def]] obtain qs where
      qs: "run_pairs env' (dv_docs s1) e coll (param_depth p) b' = Inr qs" "list_all2 same_find ps qs" by (auto simp: docs)
    from expand_pairs [OF again(7)] qs(1) obtain r' where
      w: "write_pairs env' (as_usize (cb_max_candidates_per_run b')) 0 qs (0, 0) (s1\<lparr>dv_usage := u'\<rparr>) = (r', s2)"
      and r': "\<forall>err. r' = Inl err \<longrightarrow> r = Inl err" "\<forall>c. r' = Inr c \<longrightarrow> (\<exists>sm. r = Inr sm \<and> sm_written sm = fst c \<and> sm_created sm = snd c)"
      by (auto simp: b'_def)
    have count: "sm_written sm = min (length qs) (as_usize (cb_max_candidates_per_run b'))"
      using ps(2) bb(2) list_all2_lengthD [OF qs(2)] by (simp add: pe b_def)
    then have "\<forall>q \<in> set (take (as_usize (cb_max_candidates_per_run b')) qs). recorded s1 q"
      using recorded_same_all [OF qs(2) ps(3)] by (auto simp: min_def split: if_splits)
    with write_pairs_recorded [OF _ _ w] x(2) have "s2 = s1\<lparr>dv_usage := u'\<rparr>"
      "\<forall>c. r' = Inr c \<longrightarrow> c = (sm_written sm, 0)" using count by auto
    then show ?thesis using r' by (cases r') auto
  qed simp
qed

lemma write_pairs_error: "write_pairs env cap k ps counts s = (Inl err, s') \<Longrightarrow> \<exists>e. err = DiscoveryStorage e"
proof (induction ps arbitrary: k counts s)
  case (Cons p ps)
  then show ?case
    by (auto simp: op_bind_def write_candidate_with_outbox_def split: prod.splits sum.splits option.splits if_splits)
qed simp

lemma expand_error: "fst (expand env e coll depth b s) = Inl err \<Longrightarrow> \<exists>x. err = DiscoveryStorage x"
proof -
  assume f: "fst (expand env e coll depth b s) = Inl err"
  obtain r s' where run: "expand env e coll depth b s = (r, s')" by fastforce
  with f have r: "r = Inl err" by simp
  show ?thesis
  proof (cases "\<exists>x. r = Inl (DiscoveryStorage x)")
    case True
    with r show ?thesis by auto
  next
    case False
    with expand_pairs [OF run] obtain ps r' where
      w: "write_pairs env (as_usize (cb_max_candidates_per_run b)) 0 ps (0, 0) s = (r', s')"
      and r': "\<forall>err. r' = Inl err \<longrightarrow> r = Inl err" "\<forall>c. r' = Inr c \<longrightarrow> (\<exists>sm. r = Inr sm)" by blast
    with r obtain err' where "r' = Inl err'" by (cases r') auto
    with write_pairs_error w r' False show ?thesis by blast
  qed
qed

text \<open>
  C17: When a run is refused for its depth. The depth is read as a 32-bit number, and the limit holds for every depth but
  the largest one, where the addition wraps around: a run at that depth is never refused, whatever the limit, and what it
  finds gets the smallest depth, below every limit.
\<close>

theorem discovery_depth_exact:
  assumes "param_uuid env p ''entity_id'' = Some ent" "param_uuid env p ''collection_id'' = Some coll"
    and "get_entity (ds_db (dv_docs s)) ent = Some e" "us_fault (dv_usage s) = None"
    and "- (2 ^ 31) \<le> cb_max_depth (effective_budget env coll s)"
  shows "(fst (run_graph_expansion env (Some p) s) = Inl (DepthReached (param_depth p) (cb_max_depth (effective_budget env coll s))) \<longleftrightarrow>
      cb_max_depth (effective_budget env coll s) \<le> param_depth p \<and> param_depth p \<noteq> 2 ^ 31 - 1) \<and>
    (param_depth p = 2 ^ 31 - 1 \<longrightarrow> as_i32 (param_depth p + 1) = - (2 ^ 31))"
proof -
  define b where "b = effective_budget env coll s"
  have d: "depth_refused (param_depth p) (cb_max_depth b) \<longleftrightarrow> cb_max_depth b \<le> param_depth p \<and> param_depth p \<noteq> 2 ^ 31 - 1"
    using as_i32_range assms(5) by (intro depth_refused_iff) (simp_all add: param_depth_def b_def)
  have "fst (run_graph_expansion env (Some p) s) \<noteq> Inl (DepthReached x y)" if "\<not> depth_refused (param_depth p) (cb_max_depth b)" for x y
  proof
    assume "fst (run_graph_expansion env (Some p) s) = Inl (DepthReached x y)"
    then have "\<exists>s1. fst (expand env e coll (param_depth p) b s1) = Inl (DepthReached x y)"
      using that assms(1-4) unfolding run_graph_expansion_def get_collection_budget_def b_def effective_budget_def
      by (auto simp: Let_def split: sum.splits prod.splits if_splits)
    then show False using expand_error by fastforce
  qed
  moreover have "fst (run_graph_expansion env (Some p) s) = Inl (DepthReached (param_depth p) (cb_max_depth b))"
    if "depth_refused (param_depth p) (cb_max_depth b)"
    using assms that by (simp add: run_graph_expansion_def get_collection_budget_def effective_budget_def b_def Let_def)
  ultimately show ?thesis using d unfolding b_def [symmetric] by (auto simp: as_i32_mod)
qed

lemma run_logged:
  assumes "cand_ok s" "fresh_ids env 0 s" "run_graph_expansion env params s = (r, s')"
  shows "\<exists>xs. logged env xs (with_usage_of s' s) s'"
  using assms(3)
proof (cases rule: run_cases)
  case (refused err)
  then have "logged env [] (with_usage_of s' s) s'" by (cases s') (auto intro: logged_nil)
  then show ?thesis ..
next
  case (expands p ent coll e u)
  from expand_effect [OF _ _ expands(7)] assms(1,2) obtain xs where x: "logged env xs (s\<lparr>dv_usage := u\<rparr>) s'" by auto
  then have "s\<lparr>dv_usage := u\<rparr> = with_usage_of s' s" by (simp add: logged_def)
  with x show ?thesis by auto
qed

text \<open>The store with the job as it is stored.\<close>

definition with_job :: "job \<Rightarrow> discovery_store \<Rightarrow> discovery_store" where
  "with_job j s = with_discovery_db ((ds_db (dv_docs s))\<lparr>db_jobs := tbl_put (j_id j) j (db_jobs (ds_db (dv_docs s)))\<rparr>) s"

lemma with_job_simps [simp]:
  "get_candidate (with_job j s) k = get_candidate s k" "cand_ok (with_job j s) \<longleftrightarrow> cand_ok s" "fresh_ids env n (with_job j s) \<longleftrightarrow> fresh_ids env n s"
  "dv_outbox (with_job j s) = dv_outbox s" "get_job (ds_db (dv_docs (with_job j s))) k = (if k = j_id j then Some j else get_job (ds_db (dv_docs s)) k)"
  by (auto simp: with_job_def with_discovery_db_def get_candidate_def cand_ok_def fresh_ids_def get_job_def tbl_get_put)

lemma handle_run_start:
  assumes "get_job (ds_db (dv_docs s)) i = Some j" "j_id j = i"
  shows "handle_discovery_run env message i s =
    (case apply_transition (di_now env) j Running None of
       Inl e \<Rightarrow> s
     | Inr j1 \<Rightarrow> (let (r, s2) = run_graph_expansion env (j_parameters j) (with_job j1 s)
         in persist_discovery_terminal env i (case r of Inl e \<Rightarrow> Failed | Inr sm \<Rightarrow> Completed) (Some (message r)) s2))"
  using assms by (simp add: handle_discovery_run_def job_transition_cases js_put_job_def put_job_def with_job_def split: sum.splits)

lemma apply_final:
  assumes "j_status j = Running" "to = (case r of Inl e \<Rightarrow> Failed | Inr sm \<Rightarrow> Completed)"
  obtains j2 where "apply_transition now j to (Some (message r)) = Inr j2" "j_completed_at j2 = Some now" "j_parameters j2 = j_parameters j"
    "j_status j2 = to" "j_id j2 = j_id j" "j_error j2 = (case r of Inl e \<Rightarrow> Some (message r) | Inr sm \<Rightarrow> None)"
  using assms by (cases r) (auto simp: apply_transition_def Let_def)

text \<open>
  C18: How a discovery job ends. A job that may start is stored as running, the run is made, and then the final status and
  the event \<open>discovery.completed\<close>, which carries the job as it is stored, are written together: completed when the run
  succeeded, failed with its message when it did not. When that last write fails, the job stays running, no event is
  stored, and no later delivery of the message changes anything: the job has to be closed by hand. A message for a job
  that may not start changes nothing.
\<close>

theorem discovery_job_closed:
  assumes "get_job (ds_db (dv_docs s)) i = Some j" "j_id j = i" "cand_ok s" "fresh_ids env 0 s"
    and "tbl_get (dv_outbox s) (di_final_event_id env) = None" "di_final_event_id env \<notin> range (di_event_id env)"
    and "handle_discovery_run env message i s = s'"
  shows "(if can_transition (j_status j) Running
     then \<exists>j1 r s2 j2. apply_transition (di_now env) j Running None = Inr j1 \<and> run_graph_expansion env (j_parameters j) (with_job j1 s) = (r, s2) \<and>
       (case di_final_fault env of
          None \<Rightarrow> get_job (ds_db (dv_docs s')) i = Some j2 \<and> j_completed_at j2 = Some (di_now env) \<and> j_parameters j2 = j_parameters j \<and>
            j_status j2 = (case r of Inl e \<Rightarrow> Failed | Inr sm \<Rightarrow> Completed) \<and> j_error j2 = (case r of Inl e \<Rightarrow> Some (message r) | Inr sm \<Rightarrow> None) \<and>
            s' = (with_job j2 s2)\<lparr>dv_outbox := tbl_put (di_final_event_id env) (discovery_completed_event env j2) (dv_outbox s2)\<rparr>
        | Some e \<Rightarrow> s' = s2 \<and> get_job (ds_db (dv_docs s')) i = Some j1 \<and> j_status j1 = Running \<and>
            tbl_get (dv_outbox s') (di_final_event_id env) = None \<and> (\<forall>env' message'. handle_discovery_run env' message' i s' = s'))
     else s' = s)"
proof (cases "can_transition (j_status j) Running")
  case False
  then show ?thesis using assms(7) handle_run_start [OF assms(1,2)] by (simp add: apply_transition_def)
next
  case True
  then obtain j1 where j1: "apply_transition (di_now env) j Running None = Inr j1" by (simp add: apply_transition_def Let_def)
  from apply_transition_Inr [OF j1] have id1: "j_id j1 = i" "j_status j1 = Running" "j_parameters j1 = j_parameters j" using assms(2) by simp_all
  obtain r s2 where run: "run_graph_expansion env (j_parameters j) (with_job j1 s) = (r, s2)" by fastforce
  from run_logged [OF _ _ run] assms(3,4) obtain xs where x: "logged env xs (with_usage_of s2 (with_job j1 s)) s2" by auto
  have docs: "get_job (ds_db (dv_docs s2)) i = Some j1" using x id1(1) by (simp add: logged_def)
  have free: "tbl_get (dv_outbox s2) (di_final_event_id env) = None"
    using x assms(5,6) by (auto simp: logged_def put_all_none)
  define to where "to = (case r of Inl e \<Rightarrow> Failed | Inr sm \<Rightarrow> Completed)"
  from apply_final [OF id1(2) to_def] obtain j2 where
    j2: "apply_transition (di_now env) j1 to (Some (message r)) = Inr j2"
    and f2: "j_completed_at j2 = Some (di_now env)" "j_parameters j2 = j_parameters j1" "j_status j2 = to" "j_id j2 = j_id j1"
      "j_error j2 = (case r of Inl e \<Rightarrow> Some (message r) | Inr sm \<Rightarrow> None)" .
  have s': "s' = (case persist_discovery_completed env j2 s2 of Inl e \<Rightarrow> s2 | Inr s' \<Rightarrow> s')"
    using assms(7) handle_run_start [OF assms(1,2)] j1 run docs j2 by (simp add: persist_discovery_terminal_def to_def)
  show ?thesis
  proof (cases "di_final_fault env")
    case None
    then have "s' = (with_job j2 s2)\<lparr>dv_outbox := tbl_put (di_final_event_id env) (discovery_completed_event env j2) (dv_outbox s2)\<rparr>"
      using s' free by (simp add: persist_discovery_completed_def put_job_def enqueue_outbox_def discovery_completed_event_def
        pending_event_def with_job_def)
    with None True j1 run f2 id1(1,3) show ?thesis by (auto simp: to_def)
  next
    case (Some e)
    then have "s' = s2" using s' by (simp add: persist_discovery_completed_def)
    moreover have "handle_discovery_run env' message' i s2 = s2" for env' message'
      using handle_run_start [OF docs id1(1)] id1(2) by (simp add: apply_transition_def)
    ultimately show ?thesis using Some True j1 run docs id1(2) free by auto
  qed
qed

section \<open>Witnesses\<close>

text \<open>Entity 1 has two neighbours whose names are the same up to case and blanks, and itself.\<close>

definition sample_find_env :: "nat \<Rightarrow> storage_error option \<Rightarrow> discovery_env" where
  "sample_find_env n fault =
     \<lparr>di_show_uuid = (\<lambda>i. if i = 4 then ''c4'' else ''e1''), di_lowercase = to_ascii_lowercase,
      di_parse_uuid = (\<lambda>t. if t = ''e1'' then Some 1 else if t = ''c4'' then Some 4 else None), di_show_time = (\<lambda>_. ''t''),
      di_neighbors = (\<lambda>_ _. Inr [(1, ''self''), (2, ''Log4j''), (3, ''log4j '')]), di_today = 0, di_now = int n,
      di_candidate_id = (\<lambda>k. n + k), di_evidence_id = (\<lambda>k. n + k), di_event_id = (\<lambda>k. n + k), di_fault = (\<lambda>_. None),
      di_final_event_id = 50, di_final_fault = fault\<rparr>"

definition sample_found_entity :: "uuid \<Rightarrow> string \<Rightarrow> entity" where
  "sample_found_entity i name = \<lparr>e_id = i, e_entity_type = Organization, e_name = name, e_normalized_name = name, e_description = None,
     e_confidence = 1, e_first_seen = 0, e_last_seen = 0, e_merged_into = None, e_attributes = JObject []\<rparr>"

definition sample_params :: "(string \<times> json) list \<Rightarrow> json" where
  "sample_params others = JObject ([(''entity_id'', JString ''e1''), (''collection_id'', JString ''c4'')] @ others)"

definition sample_discovery :: discovery_store where
  "sample_discovery =
     \<lparr>dv_docs = \<lparr>ds_db = empty_db\<lparr>db_entities := map (\<lambda>(i, t). (i, sample_found_entity i t)) [(1, ''self''), (2, ''Log4j''), (3, ''log4j '')],
         db_jobs := [(7, fresh_job 0 7 JOB_TYPE_DISCOVERY_RUN None (Some (sample_params [])))], db_collection_keys := [4]\<rparr>,
        ds_documents = [], ds_provenance = [], ds_groups = []\<rparr>,
      dv_usage = \<lparr>us_collections = [4], us_budgets = [], us_usage = Map.empty, us_fault = None\<rparr>,
      dv_candidates = [], dv_evidence = [], dv_outbox = []\<rparr>"

abbreviation "sample_found n s \<equiv> run_graph_expansion (sample_find_env n None) (Some (sample_params [])) s"

lemma sample_cand_ok: "cand_ok sample_discovery"
  by (simp add: cand_ok_def sample_discovery_def tbl_keyed_def tbl_ok_def get_candidate_def)

lemma sample_fresh_ids: "fresh_ids (sample_find_env n f) 0 sample_discovery"
  by (simp add: fresh_ids_def sample_find_env_def sample_discovery_def inj_on_def)

lemma sample_found_run:
  "fst (sample_found 100 sample_discovery) = Inr \<lparr>sm_neighbours = 2, sm_sources = 0, sm_written = 2, sm_created = 1\<rparr> \<and>
   map fst (dv_candidates (snd (sample_found 100 sample_discovery))) = [100] \<and>
   map fst (dv_evidence (snd (sample_found 100 sample_discovery))) = [100, 101]"
  by code_simp

theorem discovery_run_effect_witness:
  "\<exists>xs. logged (sample_find_env 100 None) xs (with_usage_of (snd (sample_found 100 sample_discovery)) sample_discovery)
      (snd (sample_found 100 sample_discovery)) \<and> length xs = 1"
  using discovery_run_effect [OF sample_cand_ok sample_fresh_ids [of 100 None] surjective_pairing, of "Some (sample_params [])"] sample_found_run
  by auto

theorem discovery_rerun_witness:
  "snd (sample_found 200 (snd (sample_found 100 sample_discovery))) =
     with_usage_of (snd (sample_found 200 (snd (sample_found 100 sample_discovery)))) (snd (sample_found 100 sample_discovery))"
proof -
  have "same_graph (sample_find_env 100 None) (sample_find_env 200 None)" by (simp add: same_graph_def sample_find_env_def)
  then show ?thesis
    using discovery_rerun [OF sample_cand_ok sample_fresh_ids [of 100 None], of "Some (sample_params [])"
        _ "snd (sample_found 100 sample_discovery)" "sample_find_env 200 None"] sample_found_run
    by (metis surjective_pairing)
qed

theorem discovery_depth_exact_witness:
  "fst (run_graph_expansion (sample_find_env 100 None) (Some (sample_params [(''depth'', JNumber 2147483647)])) sample_discovery) \<noteq>
     Inl (DepthReached 2147483647 3)"
proof -
  let ?p = "sample_params [(''depth'', JNumber 2147483647)]"
  have "param_uuid (sample_find_env 100 None) ?p ''entity_id'' = Some 1" "param_uuid (sample_find_env 100 None) ?p ''collection_id'' = Some 4"
    "param_depth ?p = 2147483647" "get_entity (ds_db (dv_docs sample_discovery)) 1 = Some (sample_found_entity 1 ''self'')"
    "us_fault (dv_usage sample_discovery) = None" "cb_max_depth (effective_budget (sample_find_env 100 None) 4 sample_discovery) = 3"
    by code_simp+
  then show ?thesis using discovery_depth_exact [of "sample_find_env 100 None" ?p 1 4 sample_discovery "sample_found_entity 1 ''self''"] by simp
qed

theorem discovery_job_closed_witness:
  "let s' = handle_discovery_run (sample_find_env 100 (Some Conflict)) (\<lambda>_. ''m'') 7 sample_discovery
   in handle_discovery_run (sample_find_env 200 None) (\<lambda>_. ''m'') 7 s' = s'"
proof -
  have "get_job (ds_db (dv_docs sample_discovery)) 7 = Some (fresh_job 0 7 JOB_TYPE_DISCOVERY_RUN None (Some (sample_params [])))"
    "tbl_get (dv_outbox sample_discovery) (di_final_event_id (sample_find_env 100 (Some Conflict))) = None"
    "di_final_event_id (sample_find_env 100 (Some Conflict)) \<notin> range (di_event_id (sample_find_env 100 (Some Conflict)))"
    by (auto simp: sample_discovery_def sample_find_env_def get_job_def tbl_get_Cons)
  from discovery_job_closed [OF this(1) _ sample_cand_ok sample_fresh_ids this(2,3) refl]
  show ?thesis by (simp add: fresh_job_def Let_def) (auto simp: sample_find_env_def)
qed

end
