(* ===== verification/ResourceUpdates.thy ===== *)
theory ResourceUpdates
  imports Resources
begin

text \<open>
  Proofs about the handlers of sources and connectors: what \<open>If-Match\<close> protects and what it does not, the type that every
  stored row keeps, and who may write and what is recorded of it.
\<close>

section \<open>Rows that are written whole\<close>

text \<open>
  What the store promises of an upsert: the row is found under its key, the others stay, and of two rows written under
  one key only the last counts.
\<close>

lemma tbl_put_again: "tbl_put k r' (tbl_put k r t) = tbl_put k r' t"
  by (induction t rule: tbl_put.induct) auto

locale whole_row =
  fixes lookup :: "'w \<Rightarrow> uuid \<Rightarrow> 'r option" and key :: "'r \<Rightarrow> uuid" and put :: "'r \<Rightarrow> 'w \<Rightarrow> storage_error + 'w" and ok :: "'w \<Rightarrow> bool"
  assumes lookup_put: "ok d \<Longrightarrow> put r d = Inr d' \<Longrightarrow> lookup d' i = (if i = key r then Some r else lookup d i)"
    and put_again: "ok d \<Longrightarrow> put r d = Inr d1 \<Longrightarrow> key r' = key r \<Longrightarrow> put r' d1 = put r' d"
    and lookup_key: "ok d \<Longrightarrow> lookup d i = Some r \<Longrightarrow> key r = i"
begin

text \<open>A row that was computed from an older reading undoes what was written in between.\<close>

lemma stale_write:
  assumes "ok d" "lookup d i = Some old" "put r d = Inr d1" "key r = i" "key r' = i" "put r' d1 = Inr d2"
  shows "put r' d = Inr d2 \<and> lookup d2 i = Some r' \<and> (\<forall>k. k \<noteq> i \<longrightarrow> lookup d2 k = lookup d k)"
proof -
  have "put r' d = Inr d2" using put_again [OF assms(1,3), of r'] assms(4-6) by simp
  with lookup_put [OF assms(1) this] assms(5) show ?thesis by simp
qed

end

definition sources_ok :: "db \<Rightarrow> bool" where
  "sources_ok d \<longleftrightarrow> tbl_keyed so_id (db_sources d)"

interpretation source_rows: whole_row get_source so_id put_source sources_ok
  by unfold_locales (auto simp: put_source_def get_source_def sources_ok_def tbl_get_put tbl_keyedD tbl_put_again)

interpretation connector_rows: whole_row get_connector cn_id put_connector connectors_ok
  by unfold_locales (auto simp: put_connector_def get_connector_def connectors_ok_def tbl_get_put tbl_keyedD tbl_put_again split: if_splits)

section \<open>Entity tags\<close>

text \<open>A text that a version may be: no quote, comma, blank or control character, and not the wildcard or the weak prefix.\<close>

definition plain_version :: "string \<Rightarrow> bool" where
  "plain_version v \<longleftrightarrow> v \<noteq> [] \<and> (\<forall>c \<in> set v. c \<noteq> CHR '','' \<and> c \<noteq> CHR 0x22 \<and> \<not> is_ws c) \<and> header_text v"

definition tag_of :: "string \<Rightarrow> string" where "tag_of v = [CHR 0x22] @ v @ [CHR 0x22]"

lemma split_commas_plain: "CHR '','' \<notin> set v \<Longrightarrow> split_commas v = [v]"
  by (induction v) auto

lemma quote_not_ws: "\<not> is_ws (CHR 0x22)"
  by code_simp

lemma trim_quotes_tag: "plain_version v \<Longrightarrow> trim_quotes (tag_of v) = v"
proof -
  assume p: "plain_version v"
  have keep: "dropWhile (\<lambda>c. c = CHR 0x22) (w @ [x]) = w @ [x]" if "\<forall>c \<in> set w. c \<noteq> CHR 0x22" "w \<noteq> []" for w and x :: char
    using that by (cases w) auto
  have q: "\<forall>c \<in> set v. c \<noteq> CHR 0x22" "v \<noteq> []" using p by (auto simp: plain_version_def)
  have "dropWhile (\<lambda>c. c = CHR 0x22) (rev v) = rev v" using q by (cases v rule: rev_cases) auto
  with keep [OF q, of "CHR 0x22"] show ?thesis by (simp add: trim_quotes_def tag_of_def)
qed

lemma accepts_tag:
  assumes "plain_version v"
  shows "if_match_accepts env current (tag_of v) \<longleftrightarrow> version_matches env v current"
proof -
  have t: "trim (tag_of v) = tag_of v" by (rule trim_id) (simp_all add: tag_of_def quote_not_ws)
  have "tag_of v \<noteq> ''*''" "strip_prefix ''W/'' (tag_of v) = None" by (simp_all add: tag_of_def strip_prefix_def starts_with_def)
  with t trim_quotes_tag [OF assms] show ?thesis by (simp add: if_match_accepts_def)
qed

lemma check_tag:
  assumes "plain_version v"
  shows "check_if_match env (Some (tag_of v)) current = (if version_matches env v current then Inr () else Inl precondition_failed)"
proof -
  have "CHR '','' \<notin> set (tag_of v)" "header_text (tag_of v)" using assms by (auto simp: plain_version_def tag_of_def header_text_def)
  with accepts_tag [OF assms] show ?thesis
    by (simp add: check_if_match_def ok_or_def rbind_def rguard_def split_commas_plain)
qed

text \<open>What is relied on of the RFC 3339 text of a time.\<close>

definition time_text :: "api_env \<Rightarrow> bool" where
  "time_text env \<longleftrightarrow> (\<forall>t. av_parse_time env (av_show_time env t) = Some t \<and> plain_version (av_show_time env t))"

lemma check_time_tag:
  assumes "time_text env"
  shows "check_if_match env (Some (tag_of (timestamp_version env t))) (timestamp_version env u) = (if t = u then Inr () else Inl precondition_failed)"
proof -
  have inj: "av_show_time env t = av_show_time env u \<longleftrightarrow> t = u" using assms unfolding time_text_def by (metis option.inject)
  have "version_matches env (timestamp_version env t) (timestamp_version env u) \<longleftrightarrow> t = u"
    using assms by (simp add: version_matches_def timestamp_version_def inj time_text_def)
  then show ?thesis using assms check_tag [of "timestamp_version env t" env "timestamp_version env u"]
    by (simp add: time_text_def timestamp_version_def)
qed

section \<open>Partial updates\<close>

lemma store_call_Inr [simp]: "store_call env n r = Inr x \<longleftrightarrow> av_fault env n = None \<and> r = Inr x"
  by (auto simp: store_call_def map_err_def split: option.splits sum.splits)

lemma patch_source_read_Inr:
  "patch_source_read env i h b d = Inr r \<longleftrightarrow>
     av_connected env \<and> av_fault env 0 = None \<and> (\<exists>s. get_source d i = Some s \<and> patch_source_row env h b s = Inr r)"
  by (auto simp: patch_source_read_def load_source_def connected_def rguard_def rbind_Inr_iff ok_or_def split: option.splits if_splits)

lemma patch_connector_read_Inr:
  "patch_connector_read env i h b d = Inr r \<longleftrightarrow>
     av_connected env \<and> av_fault env 0 = None \<and> (\<exists>c. get_connector d i = Some c \<and> patch_connector_row env h b c = Inr r)"
  by (auto simp: patch_connector_read_def load_connector_def connected_def rguard_def rbind_Inr_iff ok_or_def split: option.splits if_splits)

lemma patch_field_Inr:
  "patch_field name v check set_to row = Inr r \<longleftrightarrow>
     (v = None \<and> r = row) \<or> (\<exists>x y. v = Some x \<and> check x = Inr y \<and> r = (set_to y (fst row), snd row @ [name]))"
  by (auto simp: patch_field_def rbind_Inr_iff split: option.splits)

lemma patch_required_Inr:
  "patch_required name v check set_to row = Inr r \<longleftrightarrow>
     (v = None \<and> r = row) \<or> (\<exists>x y. v = Some (Some x) \<and> check x = Inr y \<and> r = (set_to y (fst row), snd row @ [name]))"
  by (auto simp: patch_required_def required_patch_def patch_field_Inr rbind_Inr_iff split: option.splits)

lemmas patch_Inr = patch_field_Inr patch_required_Inr rbind_Inr_iff

text \<open>What every step of a patch keeps, the patch keeps.\<close>

definition keeps :: "('r \<Rightarrow> bool) \<Rightarrow> ('r \<times> string list \<Rightarrow> ('r \<times> string list) api_result) \<Rightarrow> bool" where
  "keeps P f \<longleftrightarrow> (\<forall>x y. f x = Inr y \<longrightarrow> P (fst x) \<longrightarrow> P (fst y))"

lemma keeps_field: "(\<And>w y r. v = Some w \<Longrightarrow> check w = Inr y \<Longrightarrow> P r \<Longrightarrow> P (set_to y r)) \<Longrightarrow> keeps P (patch_field name v check set_to)"
  by (auto simp: keeps_def patch_field_Inr)

lemma keeps_required: "(\<And>w y r. v = Some (Some w) \<Longrightarrow> check w = Inr y \<Longrightarrow> P r \<Longrightarrow> P (set_to y r)) \<Longrightarrow> keeps P (patch_required name v check set_to)"
  by (auto simp: keeps_def patch_required_Inr)

lemma rfold_kept: "rfold (\<lambda>patch. patch) steps r = Inr r' \<Longrightarrow> list_all (keeps P) steps \<Longrightarrow> P (fst r) \<Longrightarrow> P (fst r')"
proof (induction steps arbitrary: r)
  case (Cons f fs)
  from Cons.prems(1) obtain r1 where r1: "f r = Inr r1" "rfold (\<lambda>patch. patch) fs r1 = Inr r'" by (cases "f r") simp_all
  have "keeps P f" using Cons.prems(2) by simp
  with r1(1) Cons.prems(3) have "P (fst r1)" unfolding keeps_def by blast
  with Cons.IH [OF r1(2)] Cons.prems(2) show ?case by simp
qed simp

definition same_source_except :: "patch_source_body \<Rightarrow> source \<Rightarrow> source \<Rightarrow> bool" where
  "same_source_except b s s' \<longleftrightarrow> so_id s' = so_id s \<and> so_created_at s' = so_created_at s \<and>
     (ps_name b = None \<longrightarrow> so_name s' = so_name s) \<and> (ps_source_type b = None \<longrightarrow> so_type s' = so_type s) \<and>
     (ps_enabled b = None \<longrightarrow> so_enabled s' = so_enabled s) \<and> (ps_collection_policy b = None \<longrightarrow> so_collection_policy s' = so_collection_policy s) \<and>
     (ps_platform b = None \<longrightarrow> so_platform s' = so_platform s) \<and> (ps_base_url b = None \<longrightarrow> so_base_url s' = so_base_url s) \<and>
     (ps_description b = None \<longrightarrow> so_description s' = so_description s) \<and> (ps_language b = None \<longrightarrow> so_language s' = so_language s) \<and>
     (ps_country b = None \<longrightarrow> so_country s' = so_country s) \<and> (ps_last_seen b = None \<longrightarrow> so_last_seen s' = so_last_seen s)"

lemma patch_source_row_same:
  assumes "patch_source_row env h b s = Inr r"
  shows "check_if_match env h (timestamp_version env (so_updated_at s)) = Inr () \<and> same_source_except b s (fst r) \<and>
    so_updated_at (fst r) = av_now env \<and> snd r \<noteq> []"
proof -
  from assms obtain rs where row: "check_if_match env h (timestamp_version env (so_updated_at s)) = Inr ()"
      "rfold (\<lambda>patch. patch) (source_patches b) (s, []) = Inr rs" "snd rs \<noteq> []" "r = ((fst rs)\<lparr>so_updated_at := av_now env\<rparr>, snd rs)"
    by (auto simp: patch_source_row_def rbind_Inr_iff split: if_splits)
  have "list_all (keeps (same_source_except b s)) (source_patches b)"
    unfolding source_patches_def list.pred_inject by (intro conjI keeps_field keeps_required TrueI) (simp_all add: same_source_except_def)
  from rfold_kept [OF row(2) this] have "same_source_except b s (fst rs)" by (simp add: same_source_except_def)
  with row show ?thesis by (simp add: same_source_except_def)
qed


definition same_connector_except :: "patch_connector_body \<Rightarrow> connector \<Rightarrow> connector \<Rightarrow> bool" where
  "same_connector_except b c c' \<longleftrightarrow> cn_id c' = cn_id c \<and> cn_source_id c' = cn_source_id c \<and> cn_last_run c' = cn_last_run c \<and>
     cn_last_success c' = cn_last_success c \<and> cn_error_count c' = cn_error_count c \<and>
     (pc_checkpoint b = None \<longrightarrow> cn_checkpoint c' = cn_checkpoint c) \<and> (pc_status b = None \<longrightarrow> cn_status c' = cn_status c)"

lemma patch_connector_row_same:
  assumes "patch_connector_row env h b c = Inr r"
  shows "same_connector_except b c (fst r)"
proof -
  from assms have row: "rfold (\<lambda>patch. patch) (connector_patches b) (c, []) = Inr r"
    by (auto simp: patch_connector_row_def rbind_Inr_iff split: if_splits)
  have "list_all (keeps (same_connector_except b c)) (connector_patches b)"
    unfolding connector_patches_def list.pred_inject
    by (intro conjI keeps_field keeps_required TrueI) (simp_all add: same_connector_except_def)
  from rfold_kept [OF row this] show ?thesis by (simp add: same_connector_except_def)
qed

text \<open>
  C24: An update of a connector through the API and the collector's update of its run state. When the collector writes
  between the two halves of the API's update, its write is undone: the store is as if the collection had never been
  recorded, with the old checkpoint, status, run times and error count, whichever of the operator's fields were named.
\<close>

theorem connector_patch_forgets_run:
  assumes "connectors_ok d" "patch_connector_read env i h b d = Inr r" "update_connector_run_state i u d = Inr (True, d1)" "av_fault env 1 = None"
  shows "\<exists>c d2. get_connector d i = Some c \<and> patch_connector_write env r d1 = Inr (r, d2) \<and> patch_connector_write env r d = Inr (r, d2) \<and>
    get_connector d2 i = Some (fst r) \<and> same_connector_except b c (fst r)"
proof -
  from assms(2) obtain c where c: "get_connector d i = Some c" and row: "patch_connector_row env h b c = Inr r"
    by (auto simp: patch_connector_read_Inr)
  note same = patch_connector_row_same [OF row]
  have id: "cn_id c = i" using connector_rows.lookup_key [OF assms(1) c] .
  have "cn_source_id c \<in> set (db_source_keys d)" using assms(1) c by (auto simp: connectors_ok_def)
  with assms(3) c id have put1: "put_connector (sql_run_state jsonb_concat u c) d = Inr d1"
    by (auto simp: update_connector_run_state_def sql_update_run_state_def rbind_Inr_iff put_connector_def sql_run_state_def)
  have "cn_source_id (fst r) \<in> set (db_source_keys d1)" "cn_id (fst r) = i"
    using put1 \<open>cn_source_id c \<in> _\<close> same id by (auto simp: put_connector_def same_connector_except_def split: if_splits)
  then obtain d2 where d2: "put_connector (fst r) d1 = Inr d2" by (simp add: put_connector_def)
  from connector_rows.stale_write [OF assms(1) c put1 _ \<open>cn_id (fst r) = i\<close> d2] id
  show ?thesis using c d2 same assms(4) by (auto simp: patch_connector_write_def rbind_Inr_iff sql_run_state_def)
qed

section \<open>Well-formed rows\<close>

definition text_ok :: "nat \<Rightarrow> string \<Rightarrow> bool" where
  "text_ok m t \<longleftrightarrow> t \<noteq> [] \<and> trim t = t \<and> length t \<le> m \<and> (\<forall>c \<in> set t. \<not> is_control c)"

definition secret_ok :: "string \<Rightarrow> bool" where
  "secret_ok v \<longleftrightarrow> (\<exists>t r. secret_parse t = Inr r \<and> v = sr_raw r)"

definition object_json :: "json \<Rightarrow> bool" where "object_json v \<longleftrightarrow> as_object v \<noteq> None"

definition source_wf :: "source \<Rightarrow> bool" where
  "source_wf s \<longleftrightarrow> text_ok SOURCE_MAX_NAME (so_name s) \<and> pred_option (text_ok SOURCE_MAX_PLATFORM) (so_platform s) \<and>
     pred_option (text_ok SOURCE_MAX_URL) (so_base_url s) \<and> pred_option (text_ok SOURCE_MAX_DESCRIPTION) (so_description s) \<and>
     pred_option (text_ok SOURCE_MAX_CODE) (so_language s) \<and> pred_option (text_ok SOURCE_MAX_CODE) (so_country s) \<and>
     object_json (so_collection_policy s)"

definition connector_wf :: "connector \<Rightarrow> bool" where
  "connector_wf c \<longleftrightarrow> text_ok CONNECTOR_MAX_NAME (cn_name c) \<and> text_ok CONNECTOR_MAX_TYPE (cn_type c) \<and> text_ok CONNECTOR_MAX_VERSION (cn_version c) \<and>
     pred_option (text_ok CONNECTOR_MAX_SCHEDULE) (cn_schedule c) \<and> pred_option secret_ok (cn_credential_reference c) \<and>
     pred_option secret_ok (cn_proxy_reference c) \<and> object_json (cn_configuration c) \<and> object_json (cn_rate_limit c) \<and>
     object_json (cn_timeout c) \<and> object_json (cn_checkpoint c)"

lemma validate_text_ok: "validate_text v m = Inr t \<Longrightarrow> text_ok m t"
  by (auto simp: validate_text_def text_ok_def Let_def split: if_splits)

lemma validate_optional_ok: "validate_optional_text v m = Inr t \<Longrightarrow> pred_option (text_ok m) t"
  by (auto simp: validate_optional_text_def rbind_Inr_iff validate_text_ok split: option.splits if_splits)

lemma validate_object_ok: "validate_object v = Inr w \<Longrightarrow> object_json w"
  by (auto simp: validate_object_def object_json_def split: if_splits)

lemma validate_secret_ok: "validate_secret_ref v = Inr w \<Longrightarrow> pred_option secret_ok w"
  by (fastforce simp: validate_secret_ref_def secret_ok_def Let_def split: option.splits if_splits sum.splits)

lemmas checks_ok = validate_text_ok validate_optional_ok validate_object_ok validate_secret_ok

lemma text_or_ok: "text_or p m v = Inr t \<Longrightarrow> text_ok m p \<Longrightarrow> text_ok m t"
  by (auto simp: text_or_def validate_text_ok split: option.splits)

lemma default_version_ok: "text_ok CONNECTOR_MAX_VERSION ''0.1.0''"
  by code_simp

lemma create_source_wf: "create_source_row env b i = Inr s \<Longrightarrow> source_wf s"
  by (auto simp: create_source_row_def rbind_Inr_iff source_wf_def checks_ok)

lemma create_connector_wf: "create_connector_row b i = Inr c \<Longrightarrow> connector_wf c \<and> cn_source_id c = bc_source_id b"
  by (auto simp: create_connector_row_def rbind_Inr_iff connector_wf_def checks_ok dest!: text_or_ok [OF _ default_version_ok])

lemma patch_source_wf:
  assumes "patch_source_row env h b s = Inr r" "source_wf s"
  shows "source_wf (fst r)"
proof -
  from assms(1) obtain rs where row: "rfold (\<lambda>patch. patch) (source_patches b) (s, []) = Inr rs" "r = ((fst rs)\<lparr>so_updated_at := av_now env\<rparr>, snd rs)"
    by (auto simp: patch_source_row_def rbind_Inr_iff split: if_splits)
  have "list_all (keeps source_wf) (source_patches b)"
    unfolding source_patches_def list.pred_inject
    by (intro conjI keeps_field keeps_required TrueI) (simp_all add: source_wf_def checks_ok)
  from rfold_kept [OF row(1) this] assms(2) row(2) show ?thesis by (simp add: source_wf_def)
qed

lemma patch_connector_wf:
  assumes "patch_connector_row env h b c = Inr r" "connector_wf c"
  shows "connector_wf (fst r)"
proof -
  from assms(1) have row: "rfold (\<lambda>patch. patch) (connector_patches b) (c, []) = Inr r"
    by (auto simp: patch_connector_row_def rbind_Inr_iff split: if_splits)
  have "list_all (keeps connector_wf) (connector_patches b)"
    unfolding connector_patches_def list.pred_inject
    by (intro conjI keeps_field keeps_required TrueI) (simp_all add: connector_wf_def checks_ok)
  from rfold_kept [OF row this] assms(2) show ?thesis by simp
qed

lemma run_state_wf: "validate_run_state u = Inr () \<Longrightarrow> connector_wf c \<Longrightarrow> connector_wf (sql_run_state jsonb_concat u c)"
  by (auto simp: connector_wf_def sql_run_state_def validate_run_state_def object_json_def rguard_def jsonb_concat_def
      split: checkpoint_update.splits if_splits option.splits)

text \<open>
  Requests of any kind and the collector, in any order: the two halves of an update are separate steps, and a row that
  was read and changed may be written at any later time, or never.
\<close>

record resource_system =
  rx_db :: db
  rx_sources :: "source set"
  rx_connectors :: "connector set"

inductive resource_step :: "resource_system \<Rightarrow> resource_system \<Rightarrow> bool" where
  source_created: "create_source_inner env b (rx_db x) = Inr (s, d) \<Longrightarrow> resource_step x (x\<lparr>rx_db := d\<rparr>)"
| source_read: "patch_source_read env i h b (rx_db x) = Inr r \<Longrightarrow> resource_step x (x\<lparr>rx_sources := insert (fst r) (rx_sources x)\<rparr>)"
| source_written: "fst r \<in> rx_sources x \<Longrightarrow> patch_source_write env r (rx_db x) = Inr (r', d) \<Longrightarrow> resource_step x (x\<lparr>rx_db := d\<rparr>)"
| connector_created: "create_connector_inner env b' (rx_db x) = Inr (c, d) \<Longrightarrow> resource_step x (x\<lparr>rx_db := d\<rparr>)"
| connector_read: "patch_connector_read env i h b'' (rx_db x) = Inr q \<Longrightarrow> resource_step x (x\<lparr>rx_connectors := insert (fst q) (rx_connectors x)\<rparr>)"
| connector_written: "fst q \<in> rx_connectors x \<Longrightarrow> patch_connector_write env q (rx_db x) = Inr (q', d) \<Longrightarrow> resource_step x (x\<lparr>rx_db := d\<rparr>)"
| run_recorded: "update_connector_run_state i u (rx_db x) = Inr (found, d) \<Longrightarrow> resource_step x (x\<lparr>rx_db := d\<rparr>)"

definition resources_wf :: "db \<Rightarrow> bool" where
  "resources_wf d \<longleftrightarrow> sources_ok d \<and> connectors_ok d \<and> (\<forall>i s. get_source d i = Some s \<longrightarrow> source_wf s) \<and>
     (\<forall>i c. get_connector d i = Some c \<longrightarrow> connector_wf c)"

lemma put_source_wf: "resources_wf d \<Longrightarrow> source_wf s \<Longrightarrow> put_source s d = Inr d' \<Longrightarrow> resources_wf d'"
  using source_rows.lookup_put [of d s d']
  by (auto simp: resources_wf_def put_source_def sources_ok_def connectors_ok_def get_connector_def tbl_keyed_put set_fst_tbl_put
      split: if_splits)

lemma put_connector_wf: "resources_wf d \<Longrightarrow> connector_wf c \<Longrightarrow> put_connector c d = Inr d' \<Longrightarrow> resources_wf d'"
  using connector_rows.lookup_put [of d c d']
  by (auto simp: resources_wf_def put_connector_def sources_ok_def connectors_ok_def get_source_def tbl_keyed_put split: if_splits)

lemma run_recorded_wf:
  assumes "resources_wf d" "update_connector_run_state i u d = Inr (found, d')"
  shows "resources_wf d'"
proof (cases "get_connector d i")
  case None
  with assms show ?thesis by (auto simp: update_connector_run_state_def sql_update_run_state_def rbind_Inr_iff)
next
  case (Some c)
  have c: "connector_wf c" "cn_id c = i" "cn_source_id c \<in> set (db_source_keys d)"
    using assms(1) Some connector_rows.lookup_key [OF _ Some] by (auto simp: resources_wf_def connectors_ok_def)
  have v: "validate_run_state u = Inr ()" and d': "d' = d\<lparr>db_connectors := tbl_put i (sql_run_state jsonb_concat u c) (db_connectors d)\<rparr>"
    using assms(2) Some by (auto simp: update_connector_run_state_def sql_update_run_state_def rbind_Inr_iff)
  have "put_connector (sql_run_state jsonb_concat u c) d = Inr d'" using c(2,3) by (simp add: put_connector_def d' sql_run_state_def)
  from put_connector_wf [OF assms(1) run_state_wf [OF v c(1)] this] show ?thesis .
qed

lemma resource_step_wf:
  "resource_step x y \<Longrightarrow> resources_wf (rx_db x) \<and> Ball (rx_sources x) source_wf \<and> Ball (rx_connectors x) connector_wf \<Longrightarrow>
     resources_wf (rx_db y) \<and> Ball (rx_sources y) source_wf \<and> Ball (rx_connectors y) connector_wf"
proof (induction rule: resource_step.induct)
  case (source_created env b x s d)
  then have "put_source s (rx_db x) = Inr d" "source_wf s"
    by (auto simp: create_source_inner_def rbind_Inr_iff dest: create_source_wf)
  with source_created show ?case using put_source_wf by auto
next
  case (source_read env i h b x r)
  then obtain s where "get_source (rx_db x) i = Some s" "patch_source_row env h b s = Inr r" by (auto simp: patch_source_read_Inr)
  with source_read show ?case using patch_source_wf by (auto simp: resources_wf_def)
next
  case (source_written r x env r' d)
  then have "put_source (fst r) (rx_db x) = Inr d" by (auto simp: patch_source_write_def rbind_Inr_iff)
  with source_written show ?case using put_source_wf by auto
next
  case (connector_created env b' x c d)
  then have "put_connector c (rx_db x) = Inr d" "connector_wf c"
    by (auto simp: create_connector_inner_def rbind_Inr_iff dest: create_connector_wf)
  with connector_created show ?case using put_connector_wf by auto
next
  case (connector_read env i h b'' x q)
  then obtain c where "get_connector (rx_db x) i = Some c" "patch_connector_row env h b'' c = Inr q" by (auto simp: patch_connector_read_Inr)
  with connector_read show ?case using patch_connector_wf by (auto simp: resources_wf_def)
next
  case (connector_written q x env q' d)
  then have "put_connector (fst q) (rx_db x) = Inr d" by (auto simp: patch_connector_write_def rbind_Inr_iff)
  with connector_written show ?case using put_connector_wf by auto
next
  case (run_recorded i u x found d)
  then show ?case using run_recorded_wf by auto
qed


section \<open>Roles and audit entries\<close>

text \<open>The answer of a write handler: refused for its role, or recorded by one entry.\<close>

definition audited_ok :: "api_env \<Rightarrow> principal \<Rightarrow> string \<Rightarrow> string \<Rightarrow> 'w api_world \<Rightarrow> 'a api_result \<times> 'w api_world \<Rightarrow> bool" where
  "audited_ok env who action resource s res \<longleftrightarrow>
     (if allows (pr_role who) WritePerm
      then (\<exists>e. aw_audit (snd res) = snd (audit_append e (aw_audit s)) \<and> au_id e = av_audit_id env \<and> au_actor e = pr_subject who \<and>
              au_ip e = av_ip env \<and> au_action e = action \<and> au_resource_type e = resource \<and>
              au_outcome e = (case fst res of Inl _ \<Rightarrow> ''rejected'' | Inr _ \<Rightarrow> ''success'')) \<and>
           (\<forall>err. fst res = Inl err \<longrightarrow> aw_store (snd res) = aw_store s)
      else res = (Inl forbidden, s))"

lemma audited_write_ok: "audited_ok env who (an_action plan) (an_resource plan) s (audited_write env who plan (on_store f) s)"
proof (cases "allows (pr_role who) WritePerm")
  case False
  then show ?thesis by (simp add: audited_ok_def audited_write_def role_require_def)
next
  case True
  then show ?thesis
    by (cases "f (aw_store s)") (auto simp: audited_ok_def audited_write_def role_require_def on_store_def resource_audit_def new_entry_def)
qed


section \<open>Witnesses\<close>

definition sample_show_time :: "time \<Rightarrow> string" where
  "sample_show_time t = (if 0 \<le> t then CHR ''p'' else CHR ''n'') # replicate (nat \<bar>t\<bar>) (CHR ''i'')"

definition sample_parse_time :: "string \<Rightarrow> time option" where
  "sample_parse_time v = (case v of [] \<Rightarrow> None | c # r \<Rightarrow> Some (if c = CHR ''p'' then int (length r) else - int (length r)))"

definition sample_api :: "time \<Rightarrow> api_env" where
  "sample_api now = \<lparr>av_now = now, av_new_id = 9, av_audit_id = nat now, av_ip = None, av_connected = True, av_fault = (\<lambda>_. None),
     av_show_uuid = (\<lambda>_. ''u''), av_show_time = sample_show_time, av_parse_time = sample_parse_time, av_fingerprint = (\<lambda>_. ''f'')\<rparr>"

definition no_source_patch :: patch_source_body where
  "no_source_patch = \<lparr>ps_name = None, ps_source_type = None, ps_platform = None, ps_base_url = None, ps_description = None,
     ps_language = None, ps_country = None, ps_enabled = None, ps_collection_policy = None, ps_last_seen = None\<rparr>"

definition no_connector_patch :: patch_connector_body where
  "no_connector_patch = \<lparr>pc_name = None, pc_type = None, pc_version = None, pc_enabled = None, pc_configuration = None,
     pc_credential_reference = None, pc_schedule = None, pc_rate_limit = None, pc_timeout = None, pc_proxy_reference = None,
     pc_checkpoint = None, pc_status = None\<rparr>"

definition sample_writer :: principal where
  "sample_writer = \<lparr>pr_subject = ''ann'', pr_role = Operator, pr_auth_method = Jwt\<rparr>"

definition sample_tag :: string where "sample_tag = tag_of (sample_show_time (so_updated_at sample_source))"

abbreviation "disable \<equiv> no_source_patch\<lparr>ps_enabled := Some (Some False)\<rparr>"
abbreviation "speak \<equiv> no_source_patch\<lparr>ps_language := Some (Some ''en'')\<rparr>"

lemma sample_time_text: "time_text (sample_api now)"
proof -
  have "sample_parse_time (sample_show_time t) = Some t" for t by (simp add: sample_parse_time_def sample_show_time_def)
  moreover have "\<not> is_ws (CHR ''i'')" "\<not> is_ws (CHR ''p'')" "\<not> is_ws (CHR ''n'')" by code_simp+
  then have "plain_version (sample_show_time t)" for t
    by (auto simp: plain_version_def sample_show_time_def header_text_def)
  ultimately show ?thesis by (simp add: time_text_def sample_api_def)
qed

lemma sample_sources_ok: "sources_ok sample_collector_db"
  by (simp add: sources_ok_def sample_collector_db_def sample_source_def empty_db_def tbl_keyed_def tbl_ok_def)

lemma sample_patches:
  "api_get_source (sample_api 50) sample_writer 1 sample_collector_db = Inr (sample_tag, sample_source)"
  "patch_source_read (sample_api 50) 1 (Some sample_tag) disable sample_collector_db =
     Inr (sample_source\<lparr>so_enabled := False, so_updated_at := 50\<rparr>, [''enabled''])"
  "patch_source_read (sample_api 60) 1 (Some sample_tag) speak sample_collector_db =
     Inr (sample_source\<lparr>so_language := Some ''en'', so_updated_at := 60\<rparr>, [''language''])"
  by code_simp+


theorem connector_patch_forgets_run_witness:
  "\<exists>d1 d2 r. update_connector_run_state 7 sample_update sample_collector_db = Inr (True, d1) \<and>
     patch_connector_read (sample_api 60) 7 (Some ''*'') (no_connector_patch\<lparr>pc_enabled := Some (Some False)\<rparr>) sample_collector_db = Inr r \<and>
     patch_connector_write (sample_api 60) r d1 = Inr (r, d2) \<and> get_connector d2 7 = Some (fst r) \<and> cn_status (fst r) = ''idle''"
proof -
  let ?b = "no_connector_patch\<lparr>pc_enabled := Some (Some False)\<rparr>"
  let ?r = "(sample_connector 7 ''rss''\<lparr>cn_enabled := False\<rparr>, [''enabled''])"
  have r: "patch_connector_read (sample_api 60) 7 (Some ''*'') ?b sample_collector_db = Inr ?r" by code_simp
  obtain d1 where d1: "update_connector_run_state 7 sample_update sample_collector_db = Inr (True, d1)"
    by (simp add: update_connector_run_state_def sql_update_run_state_def validate_run_state_def sample_update_def
        no_update_def rguard_def sample_collector_db_def empty_db_def get_connector_def tbl_get_def)
  have "av_fault (sample_api 60) 1 = None" by (simp add: sample_api_def)
  from connector_patch_forgets_run [OF sample_collector_db_ok r d1 this] obtain d2 where
    "patch_connector_write (sample_api 60) ?r d1 = Inr (?r, d2)" "get_connector d2 7 = Some (fst ?r)" by auto
  with r d1 show ?thesis by (intro exI [of _ d1] exI [of _ d2] exI [of _ ?r]) (simp add: sample_connector_def)
qed

lemma sample_wf: "source_wf sample_source" "connector_wf (sample_connector 7 ''rss'')"
proof -
  have "text_ok SOURCE_MAX_NAME ''s''" "text_ok SOURCE_MAX_URL ''https://e.org/feed''" "text_ok CONNECTOR_MAX_NAME ''feed''"
    "text_ok CONNECTOR_MAX_TYPE ''rss''" "text_ok CONNECTOR_MAX_VERSION ''1''" "text_ok CONNECTOR_MAX_SCHEDULE ''*/15 * * * *''"
    by code_simp+
  then show "source_wf sample_source" "connector_wf (sample_connector 7 ''rss'')"
    by (simp_all add: source_wf_def connector_wf_def sample_source_def sample_connector_def object_json_def)
qed


end
