(* ===== verification/ReviewCorrect.thy ===== *)
theory ReviewCorrect
  imports Review DiscoveryCorrect ResourceUpdates
begin

text \<open>
  What the review of candidates promises: one request (\<open>review_exact\<close>), and any sequence of reviews, new seeds,
  dispatched and executed discovery runs (\<open>review_run\<close>), for which the invariant \<open>review_inv\<close> is kept by every step.
\<close>

section \<open>One review\<close>

lemma no_fault_call: "\<forall>n. av_fault env n = None \<Longrightarrow> store_call env n r = map_err resource_error r"
  by (simp add: store_call_def)

lemma http_canonical: "is_http_or_https ops v \<Longrightarrow> canonicalize ops v \<noteq> None"
  by (auto simp: is_http_or_https_def canonicalize_def split: option.splits)

lemma cand_id: "cand_ok s \<Longrightarrow> get_candidate s i = Some c \<Longrightarrow> ca_id c = i"
  using tbl_keyedD(2) [of ca_id "dv_candidates s" i c] by (simp add: cand_ok_def get_candidate_def)

definition reviewed :: "candidate_status \<Rightarrow> time \<Rightarrow> candidate \<Rightarrow> candidate" where
  "reviewed st now c = c\<lparr>ca_status := st, ca_reviewed_at := Some now\<rparr>"

text \<open>The store in which a candidate was decided, with the event of the decision.\<close>

definition decided :: "review_env \<Rightarrow> string \<Rightarrow> candidate \<Rightarrow> review_world \<Rightarrow> review_world" where
  "decided env topic c w = w\<lparr>rw_store := (rw_store w)\<lparr>dv_candidates := tbl_put (ca_id c) c (dv_candidates (rw_store w)),
     dv_outbox := tbl_put (re_event_id env) (review_event env topic c) (dv_outbox (rw_store w))\<rparr>\<rparr>"

lemma change_status_cases:
  assumes "change_status env i st topic w = Inr (c, w')" "cand_ok (rw_store w)"
  obtains (same) "w' = w" "get_candidate (rw_store w) i = Some c" "ca_status c = st"
    | (changed) c0 where "get_candidate (rw_store w) i = Some c0" "ca_id c0 = i" "ca_status c0 \<noteq> st" "c = reviewed st (av_now (re_api env)) c0"
        "tbl_get (dv_outbox (rw_store w)) (re_event_id env) = None" "w' = decided env topic c w"
proof -
  from assms(1) obtain c0 where c0: "get_candidate (rw_store w) i = Some c0" by (auto simp: change_status_def rbind_Inr_iff ok_or_def split: option.splits)
  note id = cand_id [OF assms(2) c0]
  show ?thesis
  proof (cases "ca_status c0 = st")
    case True
    with assms(1) c0 show ?thesis by (intro same) (auto simp: change_status_def rbind_Inr_iff ok_or_def)
  next
    case False
    have upd: "update_candidate_status i st (av_now (re_api env)) (rw_store w) =
        (True, (rw_store w)\<lparr>dv_candidates := tbl_put i (reviewed st (av_now (re_api env)) c0) (dv_candidates (rw_store w))\<rparr>)"
      using c0 False by (simp add: update_candidate_status_def reviewed_def)
    have get: "get_candidate ((rw_store w)\<lparr>dv_candidates := tbl_put i d (dv_candidates (rw_store w))\<rparr>) i = Some d" for d
      by (simp add: get_candidate_def tbl_get_put)
    from assms(1) c0 False show ?thesis
      by (intro changed [OF c0 id False])
        (auto simp: change_status_def rbind_Inr_iff ok_or_def upd get put_event_def enqueue_outbox_def review_event_def pending_event_def
          decided_def reviewed_def id split: if_splits)
  qed
qed

text \<open>
  C19: What a review does when the store answers. An unknown candidate is answered 404, the approval of a URL that is not an
  absolute http or https address 400, and a candidate that has the status already is returned as it is, without a write or
  an event. Otherwise the candidate gets the status and the time of the review, and in the same transaction one event with
  the topic of the decision that carries the candidate as it is stored from then on; nothing else changes. Asking for the
  same decision again is then such a request without effect.
\<close>

theorem review_exact:
  assumes "av_connected (re_api env)" "\<forall>n. av_fault (re_api env) n = None" "cand_ok (rw_store w)"
    and "tbl_get (dv_outbox (rw_store w)) (re_event_id env) = None" "review_topic st = Some topic"
  shows "set_candidate_status env ops i st vu w =
      (case get_candidate (rw_store w) i of
         None \<Rightarrow> Inl not_found
       | Some c \<Rightarrow>
           if vu \<and> ca_type c = CandUrl \<and> \<not> is_http_or_https ops (ca_value c) then Inl bad_request
           else if ca_status c = st then Inr (c, w)
           else Inr (reviewed st (av_now (re_api env)) c, decided env topic (reviewed st (av_now (re_api env)) c) w)) \<and>
    (\<forall>c w'. set_candidate_status env ops i st vu w = Inr (c, w') \<longrightarrow> set_candidate_status env ops i st vu w' = Inr (c, w'))"
proof -
  note calls = no_fault_call [OF assms(2)]
  have check: "approve_check (re_api env) ops i w' = (case get_candidate (rw_store w') i of None \<Rightarrow> Inl not_found
      | Some c \<Rightarrow> if ca_type c = CandUrl \<and> \<not> is_http_or_https ops (ca_value c) then Inl bad_request else Inr ())" for w'
    using http_canonical [of ops] by (auto simp: approve_check_def calls ok_or_def rbind_def rguard_def split: option.splits)
  have run: "set_candidate_status env ops i st vu w' =
      (case get_candidate (rw_store w') i of
         None \<Rightarrow> Inl not_found
       | Some c \<Rightarrow>
           if vu \<and> ca_type c = CandUrl \<and> \<not> is_http_or_https ops (ca_value c) then Inl bad_request
           else change_status env i st topic w')" for w'
    using assms(1,5) by (auto simp: set_candidate_status_def check connected_def rguard_def rbind_def ok_or_def change_status_def calls split: option.splits)
  have same: "change_status env i st topic w' = Inr (c, w')" if "get_candidate (rw_store w') i = Some c" "ca_status c = st" for w' c
    using that by (simp add: change_status_def calls rbind_def ok_or_def)
  have new: "change_status env i st topic w = Inr (reviewed st (av_now (re_api env)) c, decided env topic (reviewed st (av_now (re_api env)) c) w)"
    if "get_candidate (rw_store w) i = Some c" "ca_status c \<noteq> st" for c
  proof -
    from cand_id [OF assms(3) that(1)] that assms(4) show ?thesis
      by (simp add: change_status_def calls rbind_def ok_or_def update_candidate_status_def get_candidate_def tbl_get_put put_event_def
          enqueue_outbox_def review_event_def pending_event_def decided_def reviewed_def)
  qed
  have first: "set_candidate_status env ops i st vu w =
      (case get_candidate (rw_store w) i of
         None \<Rightarrow> Inl not_found
       | Some c \<Rightarrow>
           if vu \<and> ca_type c = CandUrl \<and> \<not> is_http_or_https ops (ca_value c) then Inl bad_request
           else if ca_status c = st then Inr (c, w)
           else Inr (reviewed st (av_now (re_api env)) c, decided env topic (reviewed st (av_now (re_api env)) c) w))"
    unfolding run using same new by (auto split: option.splits)
  moreover have "set_candidate_status env ops i st vu w' = Inr (c, w')"
    if go: "set_candidate_status env ops i st vu w = Inr (c, w')" for c w'
  proof -
    from go obtain c0 where c0: "get_candidate (rw_store w) i = Some c0"
      and ok: "\<not> (vu \<and> ca_type c0 = CandUrl \<and> \<not> is_http_or_https ops (ca_value c0))" unfolding first by (auto split: option.splits if_splits)
    from cand_id [OF assms(3) c0] go c0 ok have "get_candidate (rw_store w') i = Some c \<and> ca_status c = st \<and> ca_type c = ca_type c0 \<and> ca_value c = ca_value c0"
      unfolding first by (auto simp: decided_def reviewed_def get_candidate_def tbl_get_put split: if_splits)
    with ok show ?thesis unfolding run [of w'] using same by auto
  qed
  ultimately show ?thesis by blast
qed

section \<open>Reviews, seeds and runs in any order\<close>

text \<open>What a run may do to candidates and events: nothing to those that are there, and its own candidates are pending.\<close>

definition grown :: "discovery_store \<Rightarrow> discovery_store \<Rightarrow> bool" where
  "grown s s' \<longleftrightarrow> cand_ok s' \<and> (\<forall>i c. get_candidate s i = Some c \<longrightarrow> get_candidate s' i = Some c) \<and>
     (\<forall>i c. get_candidate s i = None \<longrightarrow> get_candidate s' i = Some c \<longrightarrow> ca_status c = CandPending \<and> ca_reviewed_at c = None) \<and>
     (\<forall>k row. tbl_get (dv_outbox s) k = Some row \<longrightarrow> tbl_get (dv_outbox s') k = Some row)"

lemma grown_refl: "cand_ok s \<Longrightarrow> grown s s" by (simp add: grown_def)

lemma grown_trans: "grown s1 s2 \<Longrightarrow> grown s2 s3 \<Longrightarrow> grown s1 s3"
proof -
  assume g: "grown s1 s2" "grown s2 s3"
  have "ca_status c = CandPending \<and> ca_reviewed_at c = None" if "get_candidate s1 i = None" "get_candidate s3 i = Some c" for i c
  proof (cases "get_candidate s2 i")
    case None
    with g(2) that(2) show ?thesis by (simp add: grown_def)
  next
    case (Some d)
    with g(2) have "get_candidate s3 i = Some d" unfolding grown_def by blast
    with Some g(1) that show ?thesis unfolding grown_def by fastforce
  qed
  with g show ?thesis unfolding grown_def by blast
qed

lemma logged_grown:
  assumes l: "logged env xs s s'" and ok: "cand_ok s'" and new: "\<forall>c \<in> fst ` set xs. ca_status c = CandPending \<and> ca_reviewed_at c = None"
  shows "grown s s'"
proof -
  have "ca_status c = CandPending \<and> ca_reviewed_at c = None" if "get_candidate s i = None" "get_candidate s' i = Some c" for i c
  proof -
    have "i \<in> cand_key ` set xs" using l that put_all_old [of i cand_key xs fst "dv_candidates s"] by (auto simp: logged_def get_candidate_def)
    then obtain x where x: "x \<in> set xs" "i = cand_key x" by blast
    with l that(2) have "c = fst x" using put_all_new [of cand_key xs x fst "dv_candidates s"] by (simp add: logged_def get_candidate_def)
    with new x(1) show ?thesis by auto
  qed
  moreover have "tbl_get (dv_outbox s') k = Some row" if "tbl_get (dv_outbox s) k = Some row" for k row
  proof -
    have "k \<notin> event_key env ` set xs" using l that by (auto simp: logged_def)
    with l that show ?thesis by (simp add: logged_def put_all_old)
  qed
  ultimately show ?thesis using ok logged_keeps [OF l] by (simp add: grown_def)
qed

lemma grown_same: "cand_ok s' \<Longrightarrow> dv_candidates s' = dv_candidates s \<Longrightarrow> dv_outbox s' = dv_outbox s \<Longrightarrow> grown s s'"
  by (simp add: grown_def get_candidate_def)

lemma cand_ok_same: "dv_candidates s' = dv_candidates s \<Longrightarrow> dv_evidence s' = dv_evidence s \<Longrightarrow> dv_outbox s' = dv_outbox s \<Longrightarrow> cand_ok s' = cand_ok s"
  by (simp add: cand_ok_def get_candidate_def)

lemma run_grown:
  assumes "cand_ok s" "fresh_ids env 0 s" "run_graph_expansion env params s = (r, s')"
  shows "grown s s'"
  using assms(3)
proof (cases rule: run_cases)
  case (refused err)
  then have "dv_candidates s' = dv_candidates s" "dv_evidence s' = dv_evidence s" "dv_outbox s' = dv_outbox s" by (cases s'; cases s; simp)+
  with assms(1) show ?thesis using cand_ok_same grown_same by metis
next
  case (expands p ent coll e u)
  from expand_effect [OF _ _ expands(7)] assms(1,2) obtain xs where x: "logged env xs (s\<lparr>dv_usage := u\<rparr>) s'" "cand_ok s'"
      "\<forall>c \<in> fst ` set xs. found_by env e coll (as_i32 (param_depth p + 1)) c" by auto
  have "grown (s\<lparr>dv_usage := u\<rparr>) s'" using x(3) by (intro logged_grown [OF x(1,2)]) (auto simp: found_by_def)
  then show ?thesis by (simp add: grown_def)
qed

lemma event_grown:
  assumes "cand_ok s" "tbl_get (dv_outbox s) k = None"
  shows "grown s (s\<lparr>dv_outbox := tbl_put k row (dv_outbox s)\<rparr>)"
  using assms by (auto simp: grown_def cand_ok_def get_candidate_def tbl_ok_put tbl_get_put)

lemma with_db_grown: "cand_ok s \<Longrightarrow> grown s (with_discovery_db d s)"
  using cand_ok_same [of "with_discovery_db d s" s] by (intro grown_same) (simp_all add: with_discovery_db_def)

lemma terminal_grown: "cand_ok s \<Longrightarrow> grown s (persist_discovery_terminal env i to err s)"
proof -
  assume ok: "cand_ok s"
  have "grown s s'" if run: "persist_discovery_completed env j s = Inr s'" for j s'
  proof -
    define s1 where "s1 = with_discovery_db ((ds_db (dv_docs s))\<lparr>db_jobs := tbl_put (j_id j) j (db_jobs (ds_db (dv_docs s)))\<rparr>) s"
    from run have free: "tbl_get (dv_outbox s1) (oe_id (discovery_completed_event env j)) = None"
      and s': "s' = s1\<lparr>dv_outbox := tbl_put (oe_id (discovery_completed_event env j)) (discovery_completed_event env j) (dv_outbox s1)\<rparr>"
      by (auto simp: persist_discovery_completed_def put_job_def rbind_Inr_iff enqueue_outbox_def s1_def with_discovery_db_def
          split: option.splits if_splits)
    have "grown s s1" unfolding s1_def by (rule with_db_grown [OF ok])
    moreover have "grown s1 s'" using event_grown [OF _ free] calculation unfolding s' by (simp add: grown_def)
    ultimately show ?thesis by (rule grown_trans)
  qed
  then show ?thesis using grown_refl [OF ok] by (auto simp: persist_discovery_terminal_def split: option.splits sum.splits)
qed

lemma worker_grown:
  assumes "cand_ok s" "fresh_ids env 0 s"
  shows "grown s (handle_discovery_envelope env message payload s)"
proof -
  have "grown s (handle_discovery_run env message i s)" for i
  proof (cases "get_job (ds_db (dv_docs s)) i")
    case None
    then show ?thesis using grown_refl [OF assms(1)] by (simp add: handle_discovery_run_def)
  next
    case (Some j)
    show ?thesis
    proof (cases "apply_transition (di_now env) j Running None")
      case (Inl e)
      with Some grown_refl [OF assms(1)] show ?thesis by (simp add: handle_discovery_run_def job_transition_cases)
    next
      case (Inr j1)
      define s1 where "s1 = with_discovery_db ((ds_db (dv_docs s))\<lparr>db_jobs := tbl_put (j_id j1) j1 (db_jobs (ds_db (dv_docs s)))\<rparr>) s"
      obtain r s2 where run: "run_graph_expansion env (j_parameters j) s1 = (r, s2)" by fastforce
      have g1: "grown s s1" unfolding s1_def by (rule with_db_grown [OF assms(1)])
      have "fresh_ids env 0 s1" using assms(2) by (simp add: fresh_ids_def s1_def with_discovery_db_def)
      with run_grown [OF _ _ run] g1 have g2: "grown s1 s2" by (simp add: grown_def)
      have "cand_ok s2" using g2 by (simp add: grown_def)
      from terminal_grown [OF this] have "grown s2 (handle_discovery_run env message i s)"
        using Some Inr run by (simp add: handle_discovery_run_def job_transition_cases js_put_job_def put_job_def s1_def)
      with g1 g2 show ?thesis by (blast intro: grown_trans)
    qed
  qed
  then show ?thesis using grown_refl [OF assms(1)] by (auto simp: handle_discovery_envelope_def split: option.splits)
qed

text \<open>
  The label is the candidate that a request decides on. The worker's identifiers are new ones; its messages may come
  again and in any order.
\<close>

inductive review_step :: "'u url_ops \<Rightarrow> review_world \<Rightarrow> uuid option \<Rightarrow> review_world \<Rightarrow> bool" for ops where
  approved: "set_candidate_status env ops i CandApproved True w = Inr (c, w') \<Longrightarrow> review_step ops w (Some i) w'"
| rejected: "set_candidate_status env ops i CandRejected False w = Inr (c, w') \<Longrightarrow> review_step ops w (Some i) w'"
| seeded: "create_seed_inner env b w = Inr (sd, w') \<Longrightarrow> review_step ops w None w'"
| dispatched: "dispatch_discovery_job api producer coll ent depth w = (r, w') \<Longrightarrow> review_step ops w None w'"
| worked: "fresh_ids denv 0 (rw_store w) \<Longrightarrow>
    review_step ops w None (w\<lparr>rw_store := handle_discovery_envelope denv message payload (rw_store w)\<rparr>)"

inductive review_run :: "'u url_ops \<Rightarrow> review_world \<Rightarrow> uuid option list \<Rightarrow> review_world \<Rightarrow> bool" for ops w0 where
  start: "review_run ops w0 [] w0"
| step: "review_run ops w0 ls w \<Longrightarrow> review_step ops w l w' \<Longrightarrow> review_run ops w0 (ls @ [l]) w'"

lemma set_status_cases:
  assumes "set_candidate_status env ops i st vu w = Inr (c, w')" "cand_ok (rw_store w)"
  obtains (same) "w' = w" "ca_status c = st"
    | (changed) topic c0 where "review_topic st = Some topic" "get_candidate (rw_store w) i = Some c0" "ca_id c0 = i"
        "c = reviewed st (av_now (re_api env)) c0" "tbl_get (dv_outbox (rw_store w)) (re_event_id env) = None" "w' = decided env topic c w"
        "vu \<longrightarrow> ca_type c0 = CandUrl \<longrightarrow> is_http_or_https ops (ca_value c0)"
proof -
  from assms(1) obtain topic where topic: "review_topic st = Some topic" and run: "change_status env i st topic w = Inr (c, w')"
    and check: "vu \<longrightarrow> approve_check (re_api env) ops i w = Inr ()"
    by (auto simp: set_candidate_status_def rbind_Inr_iff ok_or_def split: option.splits if_splits)
  from run assms(2) show ?thesis
  proof (cases rule: change_status_cases)
    case same
    then show ?thesis using that(1) by blast
  next
    case (changed c0)
    from check changed(1) have "vu \<longrightarrow> ca_type c0 = CandUrl \<longrightarrow> is_http_or_https ops (ca_value c0)"
      by (auto simp: approve_check_def rbind_Inr_iff rguard_def ok_or_def split: if_splits)
    with changed topic show ?thesis by (intro that(2)) auto
  qed
qed

lemma cand_ok_decided:
  assumes "cand_ok (rw_store w)" "get_candidate (rw_store w) i = Some c0" "tbl_get (dv_outbox (rw_store w)) (re_event_id env) = None"
  shows "cand_ok (rw_store (decided env topic (reviewed st now c0) w))"
proof -
  have id: "ca_id c0 = i" by (rule cand_id [OF assms(1,2)])
  have key: "candidate_key (reviewed st now c0) = candidate_key c0" by (simp add: candidate_key_def reviewed_def)
  have uniq: "x = y" if "get_candidate (rw_store w) x = Some c" "get_candidate (rw_store w) y = Some d" "candidate_key c \<noteq> None"
    "candidate_key c = candidate_key d" for x y c d using assms(1) that unfolding cand_ok_def by blast
  have old: "\<exists>c'. get_candidate (rw_store w) x = Some c' \<and> candidate_key c' = candidate_key c"
    if "get_candidate (rw_store (decided env topic (reviewed st now c0) w)) x = Some c" for x c
  proof (cases "x = i")
    case True
    with that have "c = reviewed st now c0" by (simp add: decided_def reviewed_def get_candidate_def tbl_get_put id)
    with True assms(2) key show ?thesis by auto
  next
    case False
    with that show ?thesis by (simp add: decided_def reviewed_def get_candidate_def tbl_get_put id)
  qed
  have "x = y" if xy: "get_candidate (rw_store (decided env topic (reviewed st now c0) w)) x = Some c"
    "get_candidate (rw_store (decided env topic (reviewed st now c0) w)) y = Some d" "candidate_key c \<noteq> None" "candidate_key c = candidate_key d" for x y c d
  proof -
    from old [OF xy(1)] old [OF xy(2)] obtain c' d' where "get_candidate (rw_store w) x = Some c'" "candidate_key c' = candidate_key c"
      "get_candidate (rw_store w) y = Some d'" "candidate_key d' = candidate_key d" by auto
    with xy(3,4) uniq [of x c' y d'] show ?thesis by simp
  qed
  moreover have "tbl_keyed ca_id (dv_candidates (rw_store (decided env topic (reviewed st now c0) w)))"
    using assms(1) by (simp add: cand_ok_def decided_def tbl_keyed_put)
  moreover have "tbl_ok (dv_evidence (rw_store (decided env topic (reviewed st now c0) w)))"
    "tbl_ok (dv_outbox (rw_store (decided env topic (reviewed st now c0) w)))"
    using assms(1) by (simp_all add: cand_ok_def decided_def tbl_ok_put)
  ultimately show ?thesis unfolding cand_ok_def by blast
qed

text \<open>The steps that decide nothing only let the tables grow.\<close>

lemma undecided_step:
  assumes "review_step ops w None w'" "cand_ok (rw_store w)"
  shows "grown (rw_store w) (rw_store w')"
  using assms(1)
proof (cases rule: review_step.cases)
  case (seeded env b sd)
  then obtain w1 ev where "put_seed sd w = Inr w1" "put_event ev w1 = Inr w'"
    by (auto simp: create_seed_inner_def rbind_Inr_iff Let_def)
  then have "tbl_get (dv_outbox (rw_store w)) (oe_id ev) = None"
    "rw_store w' = (rw_store w)\<lparr>dv_outbox := tbl_put (oe_id ev) ev (dv_outbox (rw_store w))\<rparr>"
    by (auto simp: put_seed_def put_event_def rbind_Inr_iff enqueue_outbox_def split: if_splits)
  with event_grown [OF assms(2)] show ?thesis by simp
next
  case (dispatched api producer coll ent depth r)
  then have "w' = w \<or> (\<exists>d. rw_store w' = with_discovery_db d (rw_store w))"
    by (auto simp: dispatch_discovery_job_def Let_def split: prod.splits if_splits)
  with with_db_grown [OF assms(2)] grown_refl [OF assms(2)] show ?thesis by auto
next
  case (worked denv message payload)
  with worker_grown [OF assms(2)] show ?thesis by simp
qed

definition decision_sent :: "review_world \<Rightarrow> uuid \<Rightarrow> candidate \<Rightarrow> bool" where
  "decision_sent w i c \<longleftrightarrow> (\<forall>topic. review_topic (ca_status c) = Some topic \<longrightarrow>
     (\<exists>env. tbl_get (dv_outbox (rw_store w)) (re_event_id env) = Some (review_event env topic c)))"

definition review_inv :: "'u url_ops \<Rightarrow> review_world \<Rightarrow> bool" where
  "review_inv ops w \<longleftrightarrow> cand_ok (rw_store w) \<and> (\<forall>i c. get_candidate (rw_store w) i = Some c \<longrightarrow>
     decision_sent w i c \<and> (ca_status c = CandApproved \<longrightarrow> ca_type c = CandUrl \<longrightarrow> is_http_or_https ops (ca_value c)))"

lemma decided_inv:
  assumes inv: "review_inv ops w" and c0: "get_candidate (rw_store w) i = Some c0" and free: "tbl_get (dv_outbox (rw_store w)) (re_event_id env) = None"
    and topic: "review_topic st = Some topic" and url: "st = CandApproved \<longrightarrow> ca_type c0 = CandUrl \<longrightarrow> is_http_or_https ops (ca_value c0)"
  shows "review_inv ops (decided env topic (reviewed st (av_now (re_api env)) c0) w)"
proof -
  let ?c = "reviewed st (av_now (re_api env)) c0" and ?w = "decided env topic (reviewed st (av_now (re_api env)) c0) w"
  have ok: "cand_ok (rw_store w)" using inv by (simp add: review_inv_def)
  have id: "ca_id ?c = i" using cand_id [OF ok c0] by (simp add: reviewed_def)
  have get: "get_candidate (rw_store ?w) k = (if k = i then Some ?c else get_candidate (rw_store w) k)" for k
    using id by (simp add: decided_def get_candidate_def tbl_get_put)
  have row: "tbl_get (dv_outbox (rw_store ?w)) (re_event_id env) = Some (review_event env topic ?c)"
    "tbl_get (dv_outbox (rw_store w)) k = Some r \<Longrightarrow> tbl_get (dv_outbox (rw_store ?w)) k = Some r" for k r
    using free by (auto simp: decided_def tbl_get_put)
  have "decision_sent ?w k d \<and> (ca_status d = CandApproved \<longrightarrow> ca_type d = CandUrl \<longrightarrow> is_http_or_https ops (ca_value d))"
    if "get_candidate (rw_store ?w) k = Some d" for k d
  proof (cases "k = i")
    case True
    with that get have d: "d = ?c" by simp
    have "decision_sent ?w k d" using row(1) topic unfolding decision_sent_def d by (auto simp: reviewed_def)
    with url d show ?thesis by (simp add: reviewed_def)
  next
    case False
    with that get have "get_candidate (rw_store w) k = Some d" by simp
    with inv have "decision_sent w k d" "ca_status d = CandApproved \<longrightarrow> ca_type d = CandUrl \<longrightarrow> is_http_or_https ops (ca_value d)"
      unfolding review_inv_def by blast+
    then show ?thesis unfolding decision_sent_def using row(2) by blast
  qed
  with cand_ok_decided [OF ok c0 free] show ?thesis unfolding review_inv_def by blast
qed

lemma grown_inv:
  assumes inv: "review_inv ops w" and g: "grown (rw_store w) (rw_store w')"
  shows "review_inv ops w'"
proof -
  have rows: "tbl_get (dv_outbox (rw_store w')) k = Some row" if "tbl_get (dv_outbox (rw_store w)) k = Some row" for k row
    using g that unfolding grown_def by blast
  have "decision_sent w' i c \<and> (ca_status c = CandApproved \<longrightarrow> ca_type c = CandUrl \<longrightarrow> is_http_or_https ops (ca_value c))"
    if c: "get_candidate (rw_store w') i = Some c" for i c
  proof (cases "get_candidate (rw_store w) i")
    case None
    with g c have "ca_status c = CandPending" unfolding grown_def by blast
    then show ?thesis by (simp add: decision_sent_def)
  next
    case (Some d)
    with g have "get_candidate (rw_store w') i = Some d" unfolding grown_def by blast
    with c Some inv have "decision_sent w i c" "ca_status c = CandApproved \<longrightarrow> ca_type c = CandUrl \<longrightarrow> is_http_or_https ops (ca_value c)"
      unfolding review_inv_def by auto
    then show ?thesis unfolding decision_sent_def using rows by blast
  qed
  with g show ?thesis unfolding review_inv_def grown_def by blast
qed

lemma review_step_inv:
  assumes "review_step ops w l w'" "review_inv ops w"
  shows "review_inv ops w'"
proof -
  have ok: "cand_ok (rw_store w)" using assms(2) by (simp add: review_inv_def)
  have set: "review_inv ops w'" if "set_candidate_status env ops i st vu w = Inr (c, w')" "st = CandApproved \<longrightarrow> vu" for env i st vu c
    using that(1) ok
  proof (cases rule: set_status_cases)
    case same
    with assms(2) show ?thesis by simp
  next
    case (changed topic c0)
    with decided_inv [OF assms(2) changed(2,5,1)] that(2) show ?thesis by blast
  qed
  show ?thesis
  proof (cases l)
    case None
    with assms(1) have "review_step ops w None w'" by simp
    from grown_inv [OF assms(2) undecided_step [OF this ok]] show ?thesis .
  next
    case (Some i)
    with assms(1) show ?thesis using set by (auto elim: review_step.cases)
  qed
qed

text \<open>
  C20: What holds after any sequence of reviews, new seeds, dispatched and executed runs, if at first no candidate was
  decided: the natural keys stay unique, a URL that counts as approved is an http or https address, so nothing else is handed
  on to collection, and for every decided candidate the outbox holds the event of its decision, with the candidate exactly
  as it is stored.
\<close>

theorem review_run_safe:
  assumes "review_run ops w0 ls w" "cand_ok (rw_store w0)" "\<forall>i c. get_candidate (rw_store w0) i = Some c \<longrightarrow> ca_status c = CandPending"
  shows "cand_ok (rw_store w) \<and> (\<forall>i c. get_candidate (rw_store w) i = Some c \<longrightarrow>
    decision_sent w i c \<and> (ca_status c = CandApproved \<longrightarrow> ca_type c = CandUrl \<longrightarrow> is_http_or_https ops (ca_value c)))"
proof -
  have "review_inv ops w"
    using assms(1)
  proof (induction rule: review_run.induct)
    case start
    then show ?case using assms(2,3) by (simp add: review_inv_def decision_sent_def)
  next
    case (step ls w l w')
    then show ?case using review_step_inv by blast
  qed
  then show ?thesis unfolding review_inv_def .
qed

lemma review_step_other:
  assumes "review_step ops w l w'" "cand_ok (rw_store w)" "l \<noteq> Some i" "get_candidate (rw_store w) i = Some c"
  shows "get_candidate (rw_store w') i = Some c \<and> cand_ok (rw_store w')"
proof -
  have set: "get_candidate (rw_store w') i = Some c \<and> cand_ok (rw_store w')" if "set_candidate_status env ops k st vu w = Inr (d, w')" "k \<noteq> i" for env k st vu d
    using that(1) assms(2)
  proof (cases rule: set_status_cases)
    case same
    with assms show ?thesis by simp
  next
    case (changed topic c0)
    then have "get_candidate (rw_store w') i = Some c" using assms(4) that(2) by (simp add: decided_def reviewed_def get_candidate_def tbl_get_put)
    with cand_ok_decided [OF assms(2) changed(2,5)] changed(4,6) show ?thesis by simp
  qed
  show ?thesis
  proof (cases l)
    case None
    with assms(1) have "review_step ops w None w'" by simp
    from undecided_step [OF this assms(2)] assms(4) show ?thesis unfolding grown_def by blast
  next
    case (Some k)
    with assms(1,3) show ?thesis using set by (auto elim: review_step.cases)
  qed
qed

text \<open>
  C21: A decision stands until the next one: whatever else happens, other reviews, new seeds, and any number of runs that
  find the same thing again, a candidate on which no request decides is not changed.
\<close>

theorem review_stands:
  assumes "review_run ops w ls w'" "cand_ok (rw_store w)" "Some i \<notin> set ls" "get_candidate (rw_store w) i = Some c"
  shows "get_candidate (rw_store w') i = Some c"
proof -
  have "Some i \<notin> set ls \<longrightarrow> get_candidate (rw_store w') i = Some c \<and> cand_ok (rw_store w')"
    using assms(1)
  proof (induction rule: review_run.induct)
    case start
    then show ?case using assms by simp
  next
    case (step ls w1 l w2)
    then show ?case using review_step_other [of ops w1 l w2 i c] by auto
  qed
  with assms(3) show ?thesis by simp
qed

text \<open>
  C22: What the API dispatches is what the worker reads. A request stores a queued job under a new identifier, and from its
  parameters the worker gets back the same entity, the same collection and, for every 32-bit number, the same depth. The
  job is stored even when its message cannot be sent and the request is answered with an error.
\<close>

theorem dispatch_round_trip:
  assumes "av_connected env" "\<forall>u. di_parse_uuid denv (av_show_uuid env u) = Some u" "- (2 ^ 31) \<le> depth" "depth < 2 ^ 31"
    and "dispatch_discovery_job env producer coll ent depth w = (r, w')"
  shows "\<exists>j p. get_job (rw_db w') (av_new_id env) = Some j \<and> j_status j = Queued \<and> j_type j = JOB_TYPE_DISCOVERY_RUN \<and> j_parameters j = Some p \<and>
    param_uuid denv p ''entity_id'' = Some ent \<and> param_uuid denv p ''collection_id'' = Some coll \<and> param_depth p = depth \<and>
    (\<forall>x. r = Inr x \<longrightarrow> x = j) \<and> dv_candidates (rw_store w') = dv_candidates (rw_store w)"
proof -
  let ?p = "discovery_parameters env coll ent depth"
  let ?j = "\<lparr>j_id = av_new_id env, j_type = JOB_TYPE_DISCOVERY_RUN, j_status = Queued, j_correlation_id = None, j_created_at = av_now env,
     j_started_at = None, j_completed_at = None, j_retry_count = 0, j_error = None, j_parameters = Some ?p\<rparr>"
  have "param_uuid denv ?p ''entity_id'' = Some ent" "param_uuid denv ?p ''collection_id'' = Some coll" "json_i64 (json_field ?p ''depth'') = Some depth"
    using assms(2-4) by (simp_all add: param_uuid_def discovery_parameters_def json_field_def json_str_def json_i64_def)
  moreover from this(3) have "param_depth ?p = depth" using assms(3,4) by (simp add: param_depth_def as_i32_id)
  moreover have "get_job (rw_db w') (av_new_id env) = Some ?j \<and> (\<forall>x. r = Inr x \<longrightarrow> x = ?j) \<and> dv_candidates (rw_store w') = dv_candidates (rw_store w)"
    using assms(1,5)
    by (auto simp: dispatch_discovery_job_def create_and_dispatch_def create_job_def op_bind_def op_return_def op_fail_def js_put_job_def put_job_def
        job_dispatch_def job_get_def job_publish_def get_job_def tbl_get_put with_discovery_db_def Let_def map_err_def
        split: prod.splits sum.splits option.splits if_splits)
  ultimately show ?thesis by (intro exI [of _ ?j] exI [of _ ?p]) simp
qed

section \<open>Witnesses\<close>

definition sample_ops :: "string url_ops" where
  "sample_ops = \<lparr>uo_parse = Some, uo_scheme = (\<lambda>u. if starts_with ''http:'' u then ''http'' else ''data''), uo_clear_fragment = id, uo_clear_userinfo = id,
     uo_query_pairs = (\<lambda>_. []), uo_has_query = (\<lambda>_. False), uo_clear_query = id, uo_write_pairs = (\<lambda>u _. u),
     uo_path = (\<lambda>_. ''/''), uo_set_path = (\<lambda>u _. u), uo_show = id\<rparr>"

text \<open>Candidate 1 may be approved, candidate 2 may not.\<close>

definition sample_url_candidate :: "uuid \<Rightarrow> string \<Rightarrow> candidate" where
  "sample_url_candidate i v = \<lparr>ca_id = i, ca_type = CandUrl, ca_value = v, ca_normalized_value = v, ca_collection_id = Some 4,
     ca_discovered_by = ''x'', ca_discovery_method = ''y'', ca_confidence = 1, ca_score = 1, ca_status = CandPending, ca_depth = 1,
     ca_created_at = 0, ca_reviewed_at = None\<rparr>"

definition sample_review :: review_world where
  "sample_review = \<lparr>rw_store = sample_discovery\<lparr>dv_candidates := [(1, sample_url_candidate 1 ''http://a''), (2, sample_url_candidate 2 ''data:b'')]\<rparr>,
     rw_seeds = [], rw_published = []\<rparr>"

definition sample_review_env :: review_env where "sample_review_env = \<lparr>re_api = sample_api 60, re_event_id = 70\<rparr>"

lemma sample_review_get:
  "get_candidate (rw_store sample_review) i = (if i = 1 then Some (sample_url_candidate 1 ''http://a'')
     else if i = 2 then Some (sample_url_candidate 2 ''data:b'') else None)"
  by (simp add: sample_review_def get_candidate_def tbl_get_Cons)

lemma sample_review_ok: "cand_ok (rw_store sample_review)"
proof -
  have "tbl_keyed ca_id (dv_candidates (rw_store sample_review))" "tbl_ok (dv_evidence (rw_store sample_review))" "tbl_ok (dv_outbox (rw_store sample_review))"
    by (simp_all add: sample_review_def sample_discovery_def tbl_keyed_def tbl_ok_def sample_url_candidate_def)
  then show ?thesis unfolding cand_ok_def sample_review_get by (auto simp: sample_url_candidate_def candidate_key_def split: if_splits)
qed

lemma sample_urls: "is_http_or_https sample_ops ''http://a''" "\<not> is_http_or_https sample_ops ''data:b''"
  by code_simp+

theorem review_exact_witness:
  "set_candidate_status sample_review_env sample_ops 2 CandApproved True sample_review = Inl bad_request \<and>
   (\<exists>w'. set_candidate_status sample_review_env sample_ops 1 CandApproved True sample_review =
      Inr (reviewed CandApproved 60 (sample_url_candidate 1 ''http://a''), w'))"
proof -
  have "av_connected (re_api sample_review_env)" "\<forall>n. av_fault (re_api sample_review_env) n = None" "av_now (re_api sample_review_env) = 60"
    "tbl_get (dv_outbox (rw_store sample_review)) (re_event_id sample_review_env) = None" "review_topic CandApproved = Some ''candidate.approved''"
    by (simp_all add: sample_review_env_def sample_api_def sample_review_def sample_discovery_def)
  with review_exact [of sample_review_env sample_review CandApproved "''candidate.approved''" sample_ops 1 True] sample_review_ok
    review_exact [of sample_review_env sample_review CandApproved "''candidate.approved''" sample_ops 2 True] sample_urls
  show ?thesis by (simp add: sample_review_get sample_url_candidate_def)
qed

lemma sample_approval:
  "\<exists>w'. review_run sample_ops sample_review [Some 1] w' \<and> get_candidate (rw_store w') 1 = Some (reviewed CandApproved 60 (sample_url_candidate 1 ''http://a''))"
proof -
  have "case set_candidate_status sample_review_env sample_ops 1 CandApproved True sample_review of Inl _ \<Rightarrow> False
     | Inr (c, w') \<Rightarrow> get_candidate (rw_store w') 1 = Some (reviewed CandApproved 60 (sample_url_candidate 1 ''http://a''))"
    by code_simp
  then obtain c w' where "set_candidate_status sample_review_env sample_ops 1 CandApproved True sample_review = Inr (c, w')"
    "get_candidate (rw_store w') 1 = Some (reviewed CandApproved 60 (sample_url_candidate 1 ''http://a''))" by (auto split: sum.splits)
  with review_run.step [OF review_run.start approved] show ?thesis by fastforce
qed

theorem review_run_safe_witness:
  "\<exists>w. review_run sample_ops sample_review [Some 1] w \<and> decision_sent w 1 (reviewed CandApproved 60 (sample_url_candidate 1 ''http://a''))"
proof -
  have "\<forall>i c. get_candidate (rw_store sample_review) i = Some c \<longrightarrow> ca_status c = CandPending"
    by (simp add: sample_review_get) (simp add: sample_url_candidate_def)
  with sample_approval review_run_safe [OF _ sample_review_ok] show ?thesis by blast
qed

theorem review_stands_witness:
  "\<exists>w. review_run sample_ops sample_review [Some 1] w \<and> get_candidate (rw_store w) 2 = Some (sample_url_candidate 2 ''data:b'')"
proof -
  obtain w where w: "review_run sample_ops sample_review [Some 1] w" using sample_approval by blast
  from review_stands [OF w sample_review_ok, of 2 "sample_url_candidate 2 ''data:b''"] w show ?thesis by (auto simp: sample_review_get)
qed

theorem dispatch_round_trip_witness:
  "\<exists>j p. get_job (rw_db (snd (dispatch_discovery_job ((sample_api 60)\<lparr>av_show_uuid := unary_uuid\<rparr>) None 4 1 2 sample_review))) 9 = Some j \<and>
     j_parameters j = Some p \<and> param_uuid ((sample_find_env 100 None)\<lparr>di_parse_uuid := read_unary\<rparr>) p ''entity_id'' = Some 1 \<and> param_depth p = 2"
proof -
  let ?env = "(sample_api 60)\<lparr>av_show_uuid := unary_uuid\<rparr>" and ?denv = "(sample_find_env 100 None)\<lparr>di_parse_uuid := read_unary\<rparr>"
  have "av_connected ?env" "\<forall>u. di_parse_uuid ?denv (av_show_uuid ?env u) = Some u" "av_new_id ?env = 9"
    by (simp_all add: sample_api_def unary_uuid_def read_unary_def)
  with dispatch_round_trip [of ?env ?denv 2 None 4 1 sample_review, OF _ _ _ _ surjective_pairing] show ?thesis by fastforce
qed

end
